(* ===== verification/Prelude.thy ===== *)
theory Prelude
  imports Main "HOL-Library.AList" "HOL-Library.Sublist"
begin

text \<open>
  What every component of the development shares: results that are either an error or a
  value (every \<^verbatim>\<open>throw\<close> of the TypeScript source is an \<^const>\<open>Inl\<close>), the loops
  \<^verbatim>\<open>reduce\<close> and \<^verbatim>\<open>map\<close> over functions that may throw, the JavaScript string
  functions the services call, decimal printing and parsing of bigints, the UUID pattern,
  JSON values, and generic lemmas on association lists and on lists sorted by a key.
  Strings are lists of 8-bit characters; case conversion and trimming are those of the
  ASCII range.
\<close>

named_theorems result_simps \<open>unfolding of binds and checks in an assumption or a goal\<close>

named_theorems inv_intros \<open>introduction rules that preserve the invariants of the stores\<close>

section \<open>Results\<close>

type_synonym ('e, 'a) res = "'e + 'a"

definition rbind :: "('e, 'a) res \<Rightarrow> ('a \<Rightarrow> ('e, 'b) res) \<Rightarrow> ('e, 'b) res" where
  "rbind m f = (case m of Inl e \<Rightarrow> Inl e | Inr x \<Rightarrow> f x)"

text \<open>Evaluation sees the case distinction, so that a continuation is only evaluated at a value.\<close>

declare rbind_def [code_unfold]

definition check :: "bool \<Rightarrow> 'e \<Rightarrow> ('e, unit) res" where
  "check b e = (if b then Inr () else Inl e)"

definition map_err :: "('e \<Rightarrow> 'f) \<Rightarrow> ('e, 'a) res \<Rightarrow> ('f, 'a) res" where
  "map_err h m = (case m of Inl e \<Rightarrow> Inl (h e) | Inr x \<Rightarrow> Inr x)"

fun foldM :: "('s \<Rightarrow> 'x \<Rightarrow> ('e, 's) res) \<Rightarrow> 's \<Rightarrow> 'x list \<Rightarrow> ('e, 's) res" where
  "foldM f s [] = Inr s"
| "foldM f s (x # xs) = rbind (f s x) (\<lambda>s'. foldM f s' xs)"

fun mapM :: "('x \<Rightarrow> ('e, 'y) res) \<Rightarrow> 'x list \<Rightarrow> ('e, 'y list) res" where
  "mapM f [] = Inr []"
| "mapM f (x # xs) = rbind (f x) (\<lambda>y. rbind (mapM f xs) (\<lambda>ys. Inr (y # ys)))"

definition is_ok :: "('e, 'a) res \<Rightarrow> bool" where
  "is_ok m = (case m of Inl _ \<Rightarrow> False | Inr _ \<Rightarrow> True)"

section \<open>JavaScript strings\<close>

definition lower_char :: "char \<Rightarrow> char" where
  "lower_char c = (let n = (of_char c :: nat) in if 65 \<le> n \<and> n \<le> 90 then char_of (n + 32) else c)"

definition upper_char :: "char \<Rightarrow> char" where
  "upper_char c = (let n = (of_char c :: nat) in if 97 \<le> n \<and> n \<le> 122 then char_of (n - 32) else c)"

definition toLowerCase :: "string \<Rightarrow> string" where
  "toLowerCase s = map lower_char s"

definition toUpperCase :: "string \<Rightarrow> string" where
  "toUpperCase s = map upper_char s"

definition is_space :: "char \<Rightarrow> bool" where
  "is_space c = (let n = (of_char c :: nat) in n = 32 \<or> n = 160 \<or> (9 \<le> n \<and> n \<le> 13))"

definition trim :: "string \<Rightarrow> string" where
  "trim s = rev (dropWhile is_space (rev (dropWhile is_space s)))"

definition startsWith :: "string \<Rightarrow> string \<Rightarrow> bool" where
  "startsWith s p = prefix p s"

definition padStart :: "string \<Rightarrow> nat \<Rightarrow> char \<Rightarrow> string" where
  "padStart s n c = replicate (n - length s) c @ s"

fun split_on :: "char \<Rightarrow> string \<Rightarrow> string list" where
  "split_on d [] = [[]]"
| "split_on d (c # cs) =
     (if c = d then [] # split_on d cs
      else (case split_on d cs of [] \<Rightarrow> [[c]] | w # ws \<Rightarrow> (c # w) # ws))"

section \<open>Decimal integers\<close>

definition digit_char :: "nat \<Rightarrow> char" where
  "digit_char n = char_of (48 + n)"

definition digit_val :: "char \<Rightarrow> nat" where
  "digit_val c = of_char c - 48"

definition is_digit :: "char \<Rightarrow> bool" where
  "is_digit c = (let n = (of_char c :: nat) in 48 \<le> n \<and> n \<le> 57)"

fun show_nat :: "nat \<Rightarrow> string" where
  "show_nat n = (if n < 10 then [digit_char n] else show_nat (n div 10) @ [digit_char (n mod 10)])"

declare show_nat.simps [simp del]

definition nat_of_digits :: "string \<Rightarrow> nat" where
  "nat_of_digits s = foldl (\<lambda>a c. 10 * a + digit_val c) 0 s"

definition show_int :: "int \<Rightarrow> string" where
  "show_int i = (if i < 0 then CHR ''-'' # show_nat (nat (- i)) else show_nat (nat i))"

definition all_digits :: "string \<Rightarrow> bool" where
  "all_digits s = (s \<noteq> [] \<and> list_all is_digit s)"

section \<open>UUIDs\<close>

definition is_hex :: "char \<Rightarrow> bool" where
  "is_hex c = (is_digit c \<or> (let n = (of_char c :: nat) in (97 \<le> n \<and> n \<le> 102) \<or> (65 \<le> n \<and> n \<le> 70)))"

definition uuid_char_ok :: "nat \<Rightarrow> char \<Rightarrow> bool" where
  "uuid_char_ok i c =
     (if i \<in> {8, 13, 18, 23} then c = CHR ''-''
      else if i = 14 then c \<in> set ''12345''
      else if i = 19 then c \<in> set ''89abAB''
      else is_hex c)"

definition uuid_pattern :: "string \<Rightarrow> bool" where
  "uuid_pattern s = (length s = 36 \<and> list_all (\<lambda>(i, c). uuid_char_ok i c) (zip [0..<36] s))"

section \<open>Lemmas on results\<close>

lemma rbind_Inl [simp]: "rbind (Inl e) f = Inl e"
  by (simp add: rbind_def)

lemma rbind_Inr [simp]: "rbind (Inr x) f = f x"
  by (simp add: rbind_def)

lemma rbind_eq_Inr [result_simps]: "rbind m f = Inr y \<longleftrightarrow> (\<exists>x. m = Inr x \<and> f x = Inr y)"
  by (cases m) auto

lemma rbind_eq_Inl [result_simps]:
  "rbind m f = Inl e \<longleftrightarrow> m = Inl e \<or> (\<exists>x. m = Inr x \<and> f x = Inl e)"
  by (cases m) auto

lemma case_single_eq_Inr [result_simps]:
  "(case xs of [p] \<Rightarrow> f p | _ \<Rightarrow> Inl e) = Inr y \<longleftrightarrow> (\<exists>p. xs = [p] \<and> f p = Inr y)"
  by (auto split: list.splits)

lemma case_cons_eq_Inr:
  "(case xs of [] \<Rightarrow> Inl e | x # ys \<Rightarrow> f x ys) = Inr y \<longleftrightarrow> (\<exists>x ys. xs = x # ys \<and> f x ys = Inr y)"
  by (auto split: list.splits)

lemma if_Inl_eq_Inr: "(if b then Inl e else m) = Inr y \<longleftrightarrow> \<not> b \<and> m = Inr y"
  by auto

lemma case_option_eq_Inr:
  "(case m of None \<Rightarrow> Inl e | Some x \<Rightarrow> f x) = Inr y \<longleftrightarrow> (\<exists>x. m = Some x \<and> f x = Inr y)"
  by (auto split: option.splits)

lemma check_eq_Inr [simp]: "check b e = Inr u \<longleftrightarrow> b"
  by (simp add: check_def)

lemma check_eq_Inl [simp]: "check b e = Inl e' \<longleftrightarrow> \<not> b \<and> e' = e"
  by (auto simp: check_def)

lemma check_True [simp]: "check True e = Inr ()"
  by (simp add: check_def)

lemma check_False [simp]: "check False e = Inl e"
  by (simp add: check_def)

lemma map_err_eq_Inr [simp]: "map_err h m = Inr x \<longleftrightarrow> m = Inr x"
  by (cases m) (auto simp: map_err_def)

lemma map_err_Inr [simp]: "map_err h (Inr x) = Inr x"
  by (simp add: map_err_def)

lemma map_err_Inl [simp]: "map_err h (Inl e) = Inl (h e)"
  by (simp add: map_err_def)

lemma is_ok_Inr [simp]: "is_ok (Inr x)"
  by (simp add: is_ok_def)

lemma is_ok_Inl [simp]: "\<not> is_ok (Inl e)"
  by (simp add: is_ok_def)

lemma foldM_append: "foldM f s (xs @ ys) = rbind (foldM f s xs) (\<lambda>s'. foldM f s' ys)"
proof (induction xs arbitrary: s)
  case (Cons x xs)
  then show ?case by (cases "f s x") auto
qed simp

lemma foldM_snoc: "foldM f s (xs @ [x]) = rbind (foldM f s xs) (\<lambda>s'. f s' x)"
proof -
  have "rbind (f s' x) Inr = f s' x" for s' by (cases "f s' x") auto
  then show ?thesis by (simp add: foldM_append)
qed

lemma foldM_invariant:
  assumes "foldM f s xs = Inr t" and "P s"
    and step: "\<And>s x s'. P s \<Longrightarrow> f s x = Inr s' \<Longrightarrow> P s'"
  shows "P t"
  using assms(1,2)
proof (induction xs arbitrary: s)
  case (Cons x xs)
  then show ?case using step by (auto simp: result_simps)
qed simp

lemma mapM_Inr_iff: "mapM f xs = Inr ys \<longleftrightarrow> list_all2 (\<lambda>x y. f x = Inr y) xs ys"
proof (induction xs arbitrary: ys)
  case (Cons x xs)
  then show ?case by (cases ys) (auto simp: result_simps)
qed auto

lemma mapM_length: "mapM f xs = Inr ys \<Longrightarrow> length ys = length xs"
  by (auto simp: mapM_Inr_iff list_all2_lengthD)

section \<open>Lemmas on decimals\<close>

lemma of_char_digit_char [simp]: "n < 10 \<Longrightarrow> (of_char (digit_char n) :: nat) = 48 + n"
  by (simp add: digit_char_def)

lemma digit_val_char [simp]: "n < 10 \<Longrightarrow> digit_val (digit_char n) = n"
  by (simp add: digit_val_def)

lemma is_digit_char [simp]: "n < 10 \<Longrightarrow> is_digit (digit_char n)"
  by (simp add: is_digit_def)

lemma show_nat_digits: "list_all is_digit (show_nat n)"
proof (induction n rule: show_nat.induct)
  case (1 n)
  then show ?case by (cases "n < 10") (simp_all add: show_nat.simps [of n])
qed

lemma show_nat_nonempty [simp]: "show_nat n \<noteq> []"
  by (subst show_nat.simps) simp

lemma nat_of_digits_snoc: "nat_of_digits (s @ [c]) = 10 * nat_of_digits s + digit_val c"
  by (simp add: nat_of_digits_def)

lemma nat_of_digits_show_nat [simp]: "nat_of_digits (show_nat n) = n"
proof (induction n rule: show_nat.induct)
  case (1 n)
  show ?case
  proof (cases "n < 10")
    case True
    then show ?thesis by (subst show_nat.simps) (simp add: nat_of_digits_def)
  next
    case False
    with 1 show ?thesis by (subst show_nat.simps) (simp add: nat_of_digits_snoc)
  qed
qed

lemma show_nat_inj: "show_nat m = show_nat n \<longleftrightarrow> m = n"
  by (metis nat_of_digits_show_nat)

lemma all_digits_show_nat [simp]: "all_digits (show_nat n)"
  by (simp add: all_digits_def show_nat_digits)

lemma hd_show_nat_not_minus: "hd (show_nat n) \<noteq> CHR ''-''"
proof -
  obtain c cs where s: "show_nat n = c # cs" by (cases "show_nat n") auto
  with show_nat_digits [of n] have "is_digit c" by simp
  then have "c \<noteq> CHR ''-''" by (auto simp: is_digit_def)
  with s show ?thesis by simp
qed

lemma show_int_inj: "show_int i = show_int j \<longleftrightarrow> i = j"
proof
  assume eq: "show_int i = show_int j"
  have hd: "show_nat n \<noteq> CHR ''-'' # s" for n s
    using hd_show_nat_not_minus [of n] by (metis list.sel(1))
  show "i = j"
    using eq hd hd [symmetric] by (auto simp: show_int_def show_nat_inj split: if_splits)
qed simp

lemma length_show_nat_lt_100:
  assumes "n < 100"
  shows "length (show_nat n) \<le> 2"
proof (cases "n < 10")
  case True
  then show ?thesis by (simp add: show_nat.simps [of n])
next
  case False
  with assms have "n div 10 < 10" by auto
  with False show ?thesis
    by (simp add: show_nat.simps [of n] show_nat.simps [of "n div 10"])
qed

lemma length_show_nat: "n < 10 ^ Suc k \<Longrightarrow> length (show_nat n) \<le> Suc k"
proof (induction k arbitrary: n)
  case 0
  then show ?case by (simp add: show_nat.simps [of n])
next
  case (Suc k)
  then have "length (show_nat (n div 10)) \<le> Suc k" by (simp add: div_less_iff_less_mult)
  then show ?case by (simp add: show_nat.simps [of n])
qed

lemma nat_of_digits_append:
  "nat_of_digits (s @ t) = nat_of_digits s * 10 ^ length t + nat_of_digits t"
proof (induction t rule: rev_induct)
  case (snoc c t)
  have "nat_of_digits (s @ t @ [c]) = 10 * nat_of_digits (s @ t) + digit_val c"
    using nat_of_digits_snoc [of "s @ t"] by simp
  with snoc show ?case by (simp add: nat_of_digits_snoc algebra_simps)
qed (simp add: nat_of_digits_def)

lemma nat_of_digits_zeros: "nat_of_digits (replicate k (CHR ''0'') @ s) = nat_of_digits s"
proof -
  have "nat_of_digits (replicate k (CHR ''0'')) = 0"
    by (induction k) (simp_all add: nat_of_digits_def digit_val_def)
  then show ?thesis by (simp add: nat_of_digits_append)
qed

lemma nat_of_digits_padStart [simp]: "nat_of_digits (padStart s k (CHR ''0'')) = nat_of_digits s"
  by (simp add: padStart_def nat_of_digits_zeros)

lemma length_padStart [simp]: "length (padStart s k c) = max k (length s)"
  by (simp add: padStart_def)

section \<open>Association lists and sorting\<close>

lemma sort_key_sorted_id: "sorted (map f xs) \<Longrightarrow> sort_key f xs = xs"
proof (induction xs)
  case (Cons x xs)
  then have "sort_key f xs = xs" by simp
  moreover have "insort_key f x xs = x # xs"
    using Cons.prems by (cases xs) auto
  ultimately show ?case by simp
qed simp

lemma map_of_update_eq [simp]: "map_of (AList.update k v al) = (map_of al)(k \<mapsto> v)"
  by (simp add: update_conv')

lemma distinct_keys_update [simp]:
  "distinct (map fst al) \<Longrightarrow> distinct (map fst (AList.update k v al))"
  by (simp add: distinct_update)

end
