(* ===== verification/Errors.thy ===== *)
theory Errors
  imports Prelude
begin

text \<open>
  Every exception the services throw, as one datatype: plain \<^verbatim>\<open>Error\<close>s and \<^verbatim>\<open>TypeError\<close>s with
  their message, the NestJS HTTP exceptions, the errors of the event store
  (\<^verbatim>\<open>event-store.errors.ts\<close>), a failed PostgreSQL query with its SQLSTATE and the violated
  constraint, TypeORM's \<^verbatim>\<open>EntityNotFoundError\<close>, the payments service's
  \<^verbatim>\<open>LedgerCommandError\<close> and the saga's lost lease. Messages that the source writes in Ukrainian
  are given by an English gloss, since the theories are ASCII.
\<close>

datatype ledger_failure_kind = Retryable | Terminal

datatype err =
    Err string
  | TypeErr string
  | BadRequest string
  | NotFound string
  | Conflict string
  | Unauthorized string
  | Forbidden string
  | TooManyRequests string
  | ServiceUnavailable string
  | HttpError int string
  | EntityNotFound
  | QueryFailed string string
  | ExpectedStreamVersion string int "int option"
  | DuplicateEventId "string option"
  | StreamAggregateType string string string
  | InvalidTransferTransition string string
  | LedgerCommand string ledger_failure_kind string bool
  | SagaLeaseLost

text \<open>\<^verbatim>\<open>isUniqueViolation\<close>: SQLSTATE 23505.\<close>

definition isUniqueViolation :: "err \<Rightarrow> bool" where
  "isUniqueViolation e = (case e of QueryFailed code _ \<Rightarrow> code = ''23505'' | _ \<Rightarrow> False)"

definition is_version_conflict :: "err \<Rightarrow> bool" where
  "is_version_conflict e = (case e of ExpectedStreamVersion _ _ _ \<Rightarrow> True | _ \<Rightarrow> False)"

definition unique_violation :: "string \<Rightarrow> err" where
  "unique_violation c = QueryFailed ''23505'' c"

definition foreign_key_violation :: "string \<Rightarrow> err" where
  "foreign_key_violation c = QueryFailed ''23503'' c"

definition check_violation :: "string \<Rightarrow> err" where
  "check_violation c = QueryFailed ''23514'' c"

definition numeric_out_of_range :: err where
  "numeric_out_of_range = QueryFailed ''22003'' ''''"

section \<open>Column ranges of PostgreSQL\<close>

definition pg_integer :: "int \<Rightarrow> bool" where
  "pg_integer i = (- (2 ^ 31) \<le> i \<and> i < 2 ^ 31)"

definition pg_bigint :: "int \<Rightarrow> bool" where
  "pg_bigint i = (- (2 ^ 63) \<le> i \<and> i < 2 ^ 63)"

text \<open>
  A value of a \<^verbatim>\<open>uuid\<close> column: PostgreSQL reads the text of a UUID without regard to case and
  gives it back in lower case. The pipes and validators of the controllers
  (\<^verbatim>\<open>ParseUUIDPipe\<close>, \<^verbatim>\<open>@IsUUID\<close>) let only texts of UUIDs through, in either case.
\<close>

definition pg_uuid :: "string \<Rightarrow> string" where
  "pg_uuid s = toLowerCase s"

definition canonical :: "string \<Rightarrow> bool" where
  "canonical s = (pg_uuid s = s)"

lemma lower_char_idem [simp]: "lower_char (lower_char c) = lower_char c"
  by (auto simp: lower_char_def Let_def)

lemma pg_uuid_idem [simp]: "pg_uuid (pg_uuid s) = pg_uuid s"
  by (simp add: pg_uuid_def toLowerCase_def)

lemma canonical_pg_uuid [simp]: "canonical (pg_uuid s)"
  by (simp add: canonical_def)

lemma pg_uuid_canonical: "canonical s \<Longrightarrow> pg_uuid s = s"
  by (simp add: canonical_def)

lemma pg_uuid_Nil_iff [simp]: "pg_uuid s = [] \<longleftrightarrow> s = []"
  by (simp add: pg_uuid_def toLowerCase_def)

lemma is_version_conflict_simps [simp]:
  "is_version_conflict (ExpectedStreamVersion s v a)"
  "\<not> is_version_conflict (Err m)"
  "\<not> is_version_conflict (TypeErr m)"
  "\<not> is_version_conflict (BadRequest m)"
  "\<not> is_version_conflict (NotFound m)"
  "\<not> is_version_conflict (Conflict m)"
  "\<not> is_version_conflict (QueryFailed c n)"
  "\<not> is_version_conflict (DuplicateEventId i)"
  "\<not> is_version_conflict (StreamAggregateType t1 t2 t3)"
  by (simp_all add: is_version_conflict_def)

lemma isUniqueViolation_simps [simp]:
  "isUniqueViolation (unique_violation c)"
  "\<not> isUniqueViolation (foreign_key_violation c)"
  "\<not> isUniqueViolation (check_violation c)"
  "\<not> isUniqueViolation numeric_out_of_range"
  "\<not> isUniqueViolation (Err m)"
  "\<not> isUniqueViolation (BadRequest m)"
  "\<not> isUniqueViolation (NotFound m)"
  "\<not> isUniqueViolation (Conflict m)"
  "\<not> isUniqueViolation (ExpectedStreamVersion s v a)"
  "\<not> isUniqueViolation (DuplicateEventId i)"
  by (simp_all add: isUniqueViolation_def unique_violation_def foreign_key_violation_def
      check_violation_def numeric_out_of_range_def)

end
