(* ===== verification/Js_Number.thy ===== *)
theory Js_Number
  imports Complex_Main Prelude
begin

text \<open>
  The JavaScript values the services compute with. A \<^verbatim>\<open>number\<close> is an IEEE-754 double: a
  finite value is the rational it denotes (negative zero is zero), and every arithmetic
  operation is the exact rational operation followed by \<open>double_round\<close>, rounding to
  nearest with ties to even at 53 bits of precision, gradual underflow below
  \<open>2 powi (- 1022)\<close> and overflow to infinity from \<open>2 ^ 1024\<close> on. A \<^verbatim>\<open>bigint\<close> is an
  \<open>int\<close>; its \<^verbatim>\<open>/\<close> and \<^verbatim>\<open>%\<close> truncate towards zero. A JSON value is a datatype whose
  objects keep their properties in order.
  The lemmas bound the relative error of one rounding and show that the round trip of an
  amount of minor units through a decimal double (divide by 100 on one side of a request,
  multiply by 100 and round on the other) is exact.
\<close>

section \<open>Doubles\<close>

datatype jsnum = JsNaN | JsInf bool | JsFin rat

definition round_half_even :: "rat \<Rightarrow> int" where
  "round_half_even q =
     (let f = \<lfloor>q\<rfloor>; r = q - of_int f
      in if r < 1 / 2 then f else if 1 / 2 < r then f + 1 else if even f then f else f + 1)"

fun bit_length :: "int \<Rightarrow> nat" where
  "bit_length n = (if n \<le> 0 then 0 else Suc (bit_length (n div 2)))"

declare bit_length.simps [simp del]

definition floor_log2 :: "rat \<Rightarrow> int" where
  "floor_log2 q =
     (let (n, d) = quotient_of q;
          k = int (bit_length n) - int (bit_length d)
      in if 2 powi k \<le> q then k else k - 1)"

definition double_round :: "rat \<Rightarrow> jsnum" where
  "double_round q =
     (if q = 0 then JsFin 0
      else let e = max (floor_log2 \<bar>q\<bar> - 52) (- 1074);
               m = round_half_even (q / 2 powi e)
           in if 972 \<le> e \<or> (e = 971 \<and> \<bar>m\<bar> = 2 ^ 53) then JsInf (q < 0)
              else JsFin (of_int m * 2 powi e))"

definition js_of_int :: "int \<Rightarrow> jsnum" where
  "js_of_int i = double_round (of_int i)"

fun js_mul :: "jsnum \<Rightarrow> jsnum \<Rightarrow> jsnum" where
  "js_mul (JsFin a) (JsFin b) = double_round (a * b)"
| "js_mul (JsInf s) (JsFin b) = (if b = 0 then JsNaN else JsInf (s \<noteq> (b < 0)))"
| "js_mul (JsFin a) (JsInf s) = (if a = 0 then JsNaN else JsInf (s \<noteq> (a < 0)))"
| "js_mul (JsInf s) (JsInf t) = JsInf (s \<noteq> t)"
| "js_mul _ _ = JsNaN"

fun js_div :: "jsnum \<Rightarrow> jsnum \<Rightarrow> jsnum" where
  "js_div (JsFin a) (JsFin b) =
     (if b = 0 then (if a = 0 then JsNaN else JsInf (a < 0)) else double_round (a / b))"
| "js_div (JsInf s) (JsFin b) = JsInf (s \<noteq> (b < 0))"
| "js_div (JsFin a) (JsInf s) = JsFin 0"
| "js_div _ _ = JsNaN"

fun js_sub :: "jsnum \<Rightarrow> jsnum \<Rightarrow> jsnum" where
  "js_sub (JsFin a) (JsFin b) = double_round (a - b)"
| "js_sub (JsInf s) (JsFin b) = JsInf s"
| "js_sub (JsFin a) (JsInf s) = JsInf (\<not> s)"
| "js_sub (JsInf s) (JsInf t) = (if s = t then JsNaN else JsInf s)"
| "js_sub _ _ = JsNaN"

fun js_abs :: "jsnum \<Rightarrow> jsnum" where
  "js_abs (JsFin a) = JsFin \<bar>a\<bar>"
| "js_abs (JsInf s) = JsInf False"
| "js_abs JsNaN = JsNaN"

fun js_less :: "jsnum \<Rightarrow> jsnum \<Rightarrow> bool" where
  "js_less (JsFin a) (JsFin b) = (a < b)"
| "js_less (JsInf s) (JsFin b) = s"
| "js_less (JsFin a) (JsInf s) = (\<not> s)"
| "js_less (JsInf s) (JsInf t) = (s \<and> \<not> t)"
| "js_less _ _ = False"

fun js_le :: "jsnum \<Rightarrow> jsnum \<Rightarrow> bool" where
  "js_le (JsFin a) (JsFin b) = (a \<le> b)"
| "js_le (JsInf s) (JsFin b) = s"
| "js_le (JsFin a) (JsInf s) = (\<not> s)"
| "js_le (JsInf s) (JsInf t) = (s \<or> \<not> t)"
| "js_le _ _ = False"

fun math_round :: "jsnum \<Rightarrow> jsnum" where
  "math_round (JsFin a) = JsFin (of_int \<lfloor>a + 1 / 2\<rfloor>)"
| "math_round x = x"

definition max_safe_integer :: int where
  "max_safe_integer = 2 ^ 53 - 1"

fun is_finite :: "jsnum \<Rightarrow> bool" where
  "is_finite (JsFin a) = True"
| "is_finite _ = False"

fun is_integer :: "jsnum \<Rightarrow> bool" where
  "is_integer (JsFin a) = (of_int \<lfloor>a\<rfloor> = a)"
| "is_integer _ = False"

fun is_safe_integer :: "jsnum \<Rightarrow> bool" where
  "is_safe_integer (JsFin a) = (of_int \<lfloor>a\<rfloor> = a \<and> \<bar>\<lfloor>a\<rfloor>\<bar> \<le> max_safe_integer)"
| "is_safe_integer _ = False"

text \<open>\<^verbatim>\<open>BigInt(x)\<close> of a number already known to be a safe integer.\<close>

fun bigint_of :: "jsnum \<Rightarrow> int" where
  "bigint_of (JsFin a) = \<lfloor>a\<rfloor>"
| "bigint_of _ = 0"

section \<open>Bigints\<close>

definition big_div :: "int \<Rightarrow> int \<Rightarrow> int" where
  "big_div a b = sgn a * sgn b * (\<bar>a\<bar> div \<bar>b\<bar>)"

definition big_mod :: "int \<Rightarrow> int \<Rightarrow> int" where
  "big_mod a b = a - b * big_div a b"

section \<open>JSON\<close>

datatype json =
    JNull
  | JBool bool
  | JNum jsnum
  | JStr string
  | JArr "json list"
  | JObj "(string \<times> json) list"

definition jget :: "string \<Rightarrow> json \<Rightarrow> json option" where
  "jget k j = (case j of JObj kvs \<Rightarrow> map_of kvs k | _ \<Rightarrow> None)"

definition jstring :: "json option \<Rightarrow> string option" where
  "jstring j = (case j of Some (JStr s) \<Rightarrow> Some s | _ \<Rightarrow> None)"

section \<open>Rounding\<close>

lemma round_half_even_err: "\<bar>of_int (round_half_even q) - q\<bar> \<le> 1 / 2"
proof -
  have "of_int \<lfloor>q\<rfloor> \<le> q" "q < of_int \<lfloor>q\<rfloor> + 1" by linarith+
  then show ?thesis
    by (auto simp: round_half_even_def Let_def abs_le_iff)
qed

lemma round_half_even_int [simp]: "round_half_even (of_int k) = k"
  by (simp add: round_half_even_def Let_def)

lemma bit_length_bounds:
  assumes "0 < n"
  shows "2 ^ bit_length n \<le> 2 * n \<and> n < 2 ^ bit_length n"
  using assms
proof (induction n rule: bit_length.induct)
  case (1 n)
  show ?case
  proof (cases "n = 1")
    case True
    then show ?thesis by (simp add: bit_length.simps)
  next
    case False
    with 1 have "2 ^ bit_length (n div 2) \<le> 2 * (n div 2) \<and> n div 2 < 2 ^ bit_length (n div 2)"
      by auto
    with "1.prems" show ?thesis by (simp add: bit_length.simps [of n]) linarith
  qed
qed

lemma bit_length_powi:
  assumes "0 < n"
  shows "2 powi (int (bit_length n) - 1) \<le> (of_int n :: rat)"
    and "(of_int n :: rat) < 2 powi int (bit_length n)"
proof -
  note b = bit_length_bounds [OF assms]
  have "(of_int (2 ^ bit_length n) :: rat) \<le> of_int (2 * n)" using b by (simp only: of_int_le_iff)
  then show "2 powi (int (bit_length n) - 1) \<le> (of_int n :: rat)"
    by (simp add: power_int_diff)
  have "(of_int n :: rat) < of_int (2 ^ bit_length n)" using b by (simp only: of_int_less_iff)
  then show "(of_int n :: rat) < 2 powi int (bit_length n)" by simp
qed

lemma floor_log2_bounds:
  assumes "0 < q"
  shows "2 powi floor_log2 q \<le> q" and "q < 2 powi (floor_log2 q + 1)"
proof -
  obtain n d where nd: "quotient_of q = (n, d)" by fastforce
  from nd have d: "0 < d" by (rule quotient_of_denom_pos)
  from nd have q: "q = of_int n / of_int d" by (rule quotient_of_div)
  from assms d q have n: "0 < n" by (simp add: zero_less_divide_iff)
  let ?fn = "int (bit_length n)" and ?fd = "int (bit_length d)"
  have up: "q < 2 powi (?fn - ?fd + 1)"
  proof -
    have "q < 2 powi ?fn / 2 powi (?fd - 1)"
      unfolding q by (rule frac_less) (use bit_length_powi n d in auto)
    also have "\<dots> = 2 powi (?fn - (?fd - 1))"
      by (rule power_int_diff [symmetric]) simp
    also have "?fn - (?fd - 1) = ?fn - ?fd + 1" by simp
    finally show ?thesis .
  qed
  have low: "2 powi (?fn - ?fd - 1) \<le> q"
  proof -
    have "2 powi (?fn - 1) / 2 powi ?fd \<le> q"
      unfolding q using bit_length_powi [OF n] bit_length_powi [OF d] d n
      by (intro frac_le) auto
    moreover have "2 powi (?fn - 1) / 2 powi ?fd = (2::rat) powi (?fn - 1 - ?fd)"
      by (rule power_int_diff [symmetric]) simp
    moreover have "?fn - 1 - ?fd = ?fn - ?fd - 1" by simp
    ultimately show ?thesis by simp
  qed
  show "2 powi floor_log2 q \<le> q"
    using low by (auto simp: floor_log2_def nd Let_def)
  show "q < 2 powi (floor_log2 q + 1)"
    using up by (auto simp: floor_log2_def nd Let_def)
qed

lemma powi2_less_iff: "(2::rat) powi a < 2 powi b \<longleftrightarrow> a < b"
proof
  assume "(2::rat) powi a < 2 powi b"
  then have "\<not> (2::rat) powi b \<le> 2 powi a" by simp
  then show "a < b" using power_int_increasing [of b a "2::rat"] by (meson not_le one_le_numeral)
qed (rule power_int_strict_increasing, simp_all)

lemma double_round_normal:
  assumes low: "2 powi (- 1022) \<le> \<bar>q\<bar>" and high: "\<bar>q\<bar> \<le> 2 ^ 1000"
  shows "\<exists>v. double_round q = JsFin v \<and> \<bar>v - q\<bar> \<le> \<bar>q\<bar> * 2 powi (- 53)"
proof -
  let ?L = "floor_log2 \<bar>q\<bar>"
  have "(0::rat) < 2 powi (- 1022)" by simp
  with low have pos: "0 < \<bar>q\<bar>" by linarith
  note lb = floor_log2_bounds [OF pos]
  have "(2::rat) powi (- 1022) < 2 powi (?L + 1)" using low lb(2) by linarith
  then have "- 1022 < ?L + 1" by (simp only: powi2_less_iff)
  then have L: "- 1022 \<le> ?L" by simp
  define e where "e = ?L - 52"
  have e: "max (?L - 52) (- 1074) = e" using L by (simp add: e_def)
  define v where "v = of_int (round_half_even (q / 2 powi e)) * (2::rat) powi e"
  have ppos: "(0::rat) < 2 powi e" by simp
  have "v - q = (of_int (round_half_even (q / 2 powi e)) - q / 2 powi e) * 2 powi e"
    using ppos by (simp add: v_def field_simps)
  then have "\<bar>v - q\<bar> = \<bar>of_int (round_half_even (q / 2 powi e)) - q / 2 powi e\<bar> * 2 powi e"
    by (simp add: abs_mult)
  also have "\<dots> \<le> 1 / 2 * 2 powi e"
    using round_half_even_err ppos by (intro mult_right_mono) auto
  also have "\<dots> = 2 powi ?L * 2 powi (- 53)"
  proof -
    have "(2::rat) powi ?L * 2 powi (- 53) = 2 powi (?L + (- 53))"
      by (rule power_int_add [symmetric]) simp
    also have "?L + (- 53) = e - 1" by (simp add: e_def)
    also have "(2::rat) powi (e - 1) = 2 powi e / 2 powi 1" by (rule power_int_diff) simp
    finally show ?thesis by simp
  qed
  also have "\<dots> \<le> \<bar>q\<bar> * 2 powi (- 53)" using lb(1) by (intro mult_right_mono) auto
  finally have err: "\<bar>v - q\<bar> \<le> \<bar>q\<bar> * 2 powi (- 53)" .
  have "(2::rat) powi ?L \<le> 2 powi 1000" using lb(1) high by simp
  then have "?L \<le> 1000" using powi2_less_iff [of 1000 ?L] by linarith
  then have "double_round q = JsFin v"
    using pos e by (simp add: double_round_def Let_def v_def e_def)
  with err show ?thesis by blast
qed

lemma double_round_int:
  assumes "\<bar>k\<bar> \<le> max_safe_integer"
  shows "double_round (of_int k) = JsFin (of_int k)"
proof (cases "k = 0")
  case True
  then show ?thesis by (simp add: double_round_def)
next
  case False
  let ?L = "floor_log2 \<bar>of_int k\<bar>"
  have pos: "0 < \<bar>of_int k :: rat\<bar>" using False by simp
  note lb = floor_log2_bounds [OF pos]
  have k53: "\<bar>of_int k :: rat\<bar> < 2 ^ 53"
    using assms by (simp add: max_safe_integer_def flip: of_int_abs)
  have "(1::rat) \<le> \<bar>of_int k\<bar>" using False by (simp flip: of_int_abs)
  then have "(2::rat) powi 0 < 2 powi (?L + 1)" using lb(2) by simp
  then have "0 < ?L + 1" by (simp only: powi2_less_iff)
  then have L0: "0 \<le> ?L" by simp
  have "(2::rat) powi ?L < 2 powi 53" using lb(1) k53 by simp
  then have "?L < 53" by (simp only: powi2_less_iff)
  then have L52: "?L \<le> 52" by simp
  define e where "e = ?L - 52"
  have e: "max (?L - 52) (- 1074) = e" using L0 by (simp add: e_def)
  define m where "m = k * 2 ^ nat (- e)"
  have p: "(2::rat) powi e * 2 ^ nat (- e) = 1"
    using L52 by (simp add: e_def power_int_def flip: power_mult_distrib)
  then have "of_int k / (2::rat) powi e = of_int m"
    by (simp add: m_def divide_eq_eq algebra_simps)
  then have "round_half_even (of_int k / 2 powi e) = m" by (simp only: round_half_even_int)
  then have v: "of_int (round_half_even (of_int k / 2 powi e)) * (2::rat) powi e = of_int k"
    using p by (simp add: m_def algebra_simps)
  have "\<not> 971 \<le> e" using L52 by (simp add: e_def)
  with v e False show ?thesis by (simp add: double_round_def Let_def)
qed

lemma floor_near_int:
  assumes "\<bar>y - of_int k\<bar> < (1 / 2 :: rat)"
  shows "\<lfloor>y + 1 / 2\<rfloor> = k"
proof (rule floor_unique)
  show "of_int k \<le> y + 1 / 2" using assms by linarith
  show "y + 1 / 2 < of_int k + 1" using assms by linarith
qed

text \<open>
  A decimal amount of \<open>k\<close> minor units is the double nearest to \<open>k / 100\<close>; multiplying it by
  100 stays within \<open>k * 2 powi (- 51)\<close> of \<open>k\<close>.
\<close>

definition near_decimal :: "int \<Rightarrow> rat \<Rightarrow> bool" where
  "near_decimal k x = (\<bar>x - of_int k / 100\<bar> \<le> of_int k / 100 * 2 powi (- 53))"

lemma powi2_consts:
  "(2::rat) powi (- 51) = 1 / 2251799813685248"
  "(2::rat) powi (- 53) = 1 / 9007199254740992"
  "(2::rat) powi (- 7) = 1 / 128"
  by (simp_all add: power_int_def power_divide)

lemma powi2_min_normal: "(2::rat) powi (- 1022) \<le> 1 / 100"
proof -
  have "(2::rat) powi (- 1022) \<le> 2 powi (- 7)" by (rule power_int_increasing) simp_all
  then show ?thesis by (simp only: powi2_consts)
qed

lemma scaled_decimal:
  assumes k: "0 < k" "k < 2 ^ 50" and x: "near_decimal k x"
  shows "\<exists>y. js_mul (JsFin x) (JsFin 100) = JsFin y \<and> \<bar>y - of_int k\<bar> \<le> of_int k * 2 powi (- 51)"
proof -
  let ?k = "of_int k :: rat" and ?u = "(2::rat) powi (- 53)"
  note u = powi2_consts(2)
  have kr: "1 \<le> ?k" "?k < 2 ^ 50"
    using k by (simp, metis of_int_less_iff of_int_numeral of_int_power)
  have d: "\<bar>100 * x - ?k\<bar> \<le> ?k * ?u"
    using x by (simp only: near_decimal_def abs_le_iff u) (simp add: field_simps)
  have ku: "?k * ?u \<le> ?k * (1 / 2)" "0 \<le> ?k * ?u" using kr(1) by (simp_all only: u)
  have b: "?k * (1 / 2) \<le> \<bar>100 * x\<bar>" "\<bar>100 * x\<bar> \<le> ?k * 2"
    using d ku kr(1) by linarith+
  have "2 powi (- 1022) \<le> \<bar>x * 100\<bar>"
    using powi2_min_normal b(1) kr(1) by (simp only: mult.commute [of x])
  moreover have "\<bar>x * 100\<bar> \<le> 2 ^ 1000"
  proof -
    have "?k * 2 \<le> 2 ^ 51" using kr(2) by simp
    also have "(2::rat) ^ 51 \<le> 2 ^ 1000" by (rule power_increasing) simp_all
    finally show ?thesis using b(2) by (simp add: mult.commute)
  qed
  ultimately obtain y where y: "double_round (x * 100) = JsFin y"
      "\<bar>y - x * 100\<bar> \<le> \<bar>x * 100\<bar> * ?u"
    using double_round_normal by blast
  have "\<bar>x * 100\<bar> * ?u \<le> ?k * 2 * ?u" using b(2) by (intro mult_right_mono) (simp_all add: mult.commute)
  moreover have "\<bar>x * 100 - ?k\<bar> \<le> ?k * ?u" using d by (simp only: mult.commute [of x])
  ultimately have "\<bar>y - ?k\<bar> \<le> ?k * 2 * ?u + ?k * ?u" using y(2) by linarith
  also have "\<dots> \<le> ?k * 2 powi (- 51)" using kr(1) by (simp only: powi2_consts)
  finally show ?thesis using y(1) by auto
qed

lemma div_100_near_decimal:
  assumes k: "0 < k" "k < 2 ^ 50"
  shows "\<exists>x. js_div (js_of_int k) (JsFin 100) = JsFin x \<and> near_decimal k x"
proof -
  let ?k = "of_int k :: rat"
  have kr: "1 \<le> ?k" "?k < 2 ^ 50"
    using k by (simp, metis of_int_less_iff of_int_numeral of_int_power)
  have "\<bar>k\<bar> \<le> max_safe_integer" using k by (simp add: max_safe_integer_def)
  then have i: "js_of_int k = JsFin ?k" by (simp add: js_of_int_def double_round_int)
  have "1 / 100 \<le> \<bar>?k / 100\<bar>" using kr(1) by simp
  with powi2_min_normal have low: "2 powi (- 1022) \<le> \<bar>?k / 100\<bar>" by linarith
  have "\<bar>?k / 100\<bar> \<le> 2 ^ 50" using kr by simp
  also have "(2::rat) ^ 50 \<le> 2 ^ 1000" by (rule power_increasing) simp_all
  finally have "\<bar>?k / 100\<bar> \<le> 2 ^ 1000" .
  then obtain x where "double_round (?k / 100) = JsFin x"
      "\<bar>x - ?k / 100\<bar> \<le> \<bar>?k / 100\<bar> * 2 powi (- 53)"
    using double_round_normal [OF low] by blast
  with i kr(1) show ?thesis by (auto simp: near_decimal_def)
qed

lemma scaled_decimal_round:
  assumes k: "0 < k" "k < 2 ^ 50" and x: "near_decimal k x"
  shows "math_round (js_mul (JsFin x) (JsFin 100)) = JsFin (of_int k)"
proof -
  obtain y where y: "js_mul (JsFin x) (JsFin 100) = JsFin y"
      "\<bar>y - of_int k\<bar> \<le> of_int k * 2 powi (- 51)"
    using scaled_decimal [OF assms] by blast
  have "of_int k < (2::rat) ^ 50" using k by (metis of_int_less_iff of_int_numeral of_int_power)
  then have "of_int k * 2 powi (- 51) < (1 / 2 :: rat)" by (simp only: powi2_consts) simp
  with y(2) have "\<bar>y - of_int k\<bar> < 1 / 2" by linarith
  then show ?thesis using y(1) floor_near_int by simp
qed

section \<open>Bounds of one rounding\<close>

lemma double_round_nonneg:
  assumes "double_round q = JsFin w" "0 \<le> q"
  shows "0 \<le> w"
proof (cases "q = 0")
  case True
  with assms show ?thesis by (simp add: double_round_def)
next
  case False
  define e where "e = max (floor_log2 \<bar>q\<bar> - 52) (- 1074)"
  have "0 \<le> q / 2 powi e" using assms(2) by simp
  then have "0 \<le> \<lfloor>q / 2 powi e\<rfloor>" by simp
  then have "0 \<le> round_half_even (q / 2 powi e)" by (auto simp: round_half_even_def Let_def)
  moreover have "w = of_int (round_half_even (q / 2 powi e)) * 2 powi e"
    using assms(1) False
    by (simp only: double_round_def Let_def if_False flip: e_def) (simp only: jsnum.simps split: if_splits)
  ultimately show ?thesis by simp
qed

lemma round_half_even_double: "\<bar>of_int (round_half_even q)\<bar> \<le> 2 * \<bar>q\<bar>"
proof (cases "\<bar>q\<bar> < 1 / 2")
  case True
  have "round_half_even q = 0"
  proof (cases "0 \<le> q")
    case True
    then have "\<lfloor>q\<rfloor> = 0" using \<open>\<bar>q\<bar> < 1 / 2\<close> by (simp add: floor_eq_iff)
    then show ?thesis using True \<open>\<bar>q\<bar> < 1 / 2\<close> by (simp add: round_half_even_def)
  next
    case False
    then have "\<lfloor>q\<rfloor> = - 1" using \<open>\<bar>q\<bar> < 1 / 2\<close> by (simp add: floor_eq_iff)
    then show ?thesis using False \<open>\<bar>q\<bar> < 1 / 2\<close> by (simp add: round_half_even_def Let_def)
  qed
  then show ?thesis by simp
next
  case False
  with round_half_even_err [of q] show ?thesis by linarith
qed

lemma double_round_double:
  assumes "double_round q = JsFin w"
  shows "\<bar>w\<bar> \<le> 2 * \<bar>q\<bar>"
proof (cases "q = 0")
  case True
  with assms show ?thesis by (simp add: double_round_def)
next
  case False
  define e where "e = max (floor_log2 \<bar>q\<bar> - 52) (- 1074)"
  have pos: "(0 :: rat) < 2 powi e" by simp
  have "w = of_int (round_half_even (q / 2 powi e)) * 2 powi e"
    using assms False
    by (simp only: double_round_def Let_def if_False flip: e_def) (simp only: jsnum.simps split: if_splits)
  then have "\<bar>w\<bar> = \<bar>of_int (round_half_even (q / 2 powi e))\<bar> * 2 powi e" by (simp add: abs_mult)
  also have "\<dots> \<le> 2 * \<bar>q / 2 powi e\<bar> * 2 powi e"
    by (rule mult_right_mono [OF round_half_even_double]) (use pos in simp)
  also have "\<dots> = 2 * \<bar>q\<bar>" using pos by (simp add: abs_divide)
  finally show ?thesis .
qed

lemma double_round_fin:
  assumes "\<bar>q\<bar> \<le> 1"
  shows "\<exists>w. double_round q = JsFin w"
proof (cases "q = 0")
  case False
  let ?e = "max (floor_log2 \<bar>q\<bar> - 52) (- 1074)"
  have "2 powi floor_log2 \<bar>q\<bar> \<le> \<bar>q\<bar>" using False by (intro floor_log2_bounds) simp
  also have "\<dots> < 2 powi 1" using assms by simp
  finally have "floor_log2 \<bar>q\<bar> < 1" by (simp only: powi2_less_iff)
  then have "\<not> 971 \<le> ?e" by simp
  then show ?thesis using False by (simp add: double_round_def Let_def del: max.bounded_iff)
qed (simp add: double_round_def)

lemma double_round_eqI:
  assumes L: "2 powi L \<le> \<bar>q\<bar>" "\<bar>q\<bar> < 2 powi (L + 1)" and e: "e = L - 52" "- 1074 \<le> e" "e < 971"
    and m: "\<bar>of_int m - q / 2 powi e\<bar> < 1 / 2"
  shows "double_round q = JsFin (of_int m * 2 powi e)"
proof -
  have pos: "0 < \<bar>q\<bar>" using L(1) by (metis less_le_trans zero_less_numeral zero_less_power_int)
  have "L = floor_log2 \<bar>q\<bar>"
  proof (rule order_antisym)
    have "(2 :: rat) powi L < 2 powi (floor_log2 \<bar>q\<bar> + 1)" using L floor_log2_bounds [OF pos] by linarith
    then show "L \<le> floor_log2 \<bar>q\<bar>" by (simp only: powi2_less_iff)
    have "(2 :: rat) powi floor_log2 \<bar>q\<bar> < 2 powi (L + 1)" using L floor_log2_bounds [OF pos] by linarith
    then show "floor_log2 \<bar>q\<bar> \<le> L" by (simp only: powi2_less_iff)
  qed
  then have emax: "max (floor_log2 \<bar>q\<bar> - 52) (- 1074) = e" using e by simp
  have "round_half_even (q / 2 powi e) = m"
  proof -
    have "\<bar>of_int (round_half_even (q / 2 powi e)) - of_int m\<bar> < (1 :: rat)"
      using round_half_even_err [of "q / 2 powi e"] m by linarith
    then have "\<bar>of_int (round_half_even (q / 2 powi e) - m)\<bar> < (1 :: rat)" by simp
    then have "\<bar>round_half_even (q / 2 powi e) - m\<bar> < 1" by (metis of_int_1 of_int_abs of_int_less_iff)
    then show ?thesis by simp
  qed
  moreover have "q \<noteq> 0" using pos by simp
  ultimately show ?thesis using e(3) by (simp only: double_round_def Let_def emax if_False) simp
qed

lemma big_div_nonneg: "0 \<le> a \<Longrightarrow> 0 < b \<Longrightarrow> big_div a b = a div b"
  by (cases "a = 0") (simp_all add: big_div_def sgn_if)

lemma big_mod_nonneg: "0 \<le> a \<Longrightarrow> 0 < b \<Longrightarrow> big_mod a b = a mod b"
  by (simp add: big_mod_def big_div_nonneg minus_mult_div_eq_mod)

end
