(* ===== verification/Ledger_Transaction.thy ===== *)
theory Ledger_Transaction
  imports Errors Js_Number
begin

text \<open>
  \<^verbatim>\<open>ledger/domain/ledger-transaction.ts\<close>: postings, the double-entry check, the construction
  and reading of a transaction payload, and the conversions between amounts, bigints and
  decimal strings. The lemmas show that every created transaction is balanced, that a reader
  accepts exactly what a writer produced, and that printing and parsing of minor units are
  inverse to each other.
\<close>

section \<open>Model\<close>

record posting =
  p_accountId :: string
  p_amountMinor :: string

definition EXTERNAL_CLEARING_ACCOUNT :: string where
  "EXTERNAL_CLEARING_ACCOUNT = ''system:external''"

definition walletAccountId :: "string \<Rightarrow> string" where
  "walletAccountId walletId = ''wallet:'' @ walletId"

definition parseMinorUnits :: "string \<Rightarrow> (err, int) res" where
  "parseMinorUnits value =
     (case value of
        [] \<Rightarrow> Inl (Err (''Invalid minor-unit amount: '' @ value))
      | c # cs \<Rightarrow>
          if c = CHR ''-''
          then (if all_digits cs then Inr (- int (nat_of_digits cs))
                else Inl (Err (''Invalid minor-unit amount: '' @ value)))
          else (if all_digits value then Inr (int (nat_of_digits value))
                else Inl (Err (''Invalid minor-unit amount: '' @ value))))"

definition sum_postings :: "posting list \<Rightarrow> (err, int) res" where
  "sum_postings ps = foldM (\<lambda>s p. rbind (parseMinorUnits (p_amountMinor p)) (\<lambda>v. Inr (s + v))) 0 ps"

definition assertBalancedPostings :: "posting list \<Rightarrow> (err, unit) res" where
  "assertBalancedPostings postings =
     (if length postings < 2
      then Inl (Err ''A ledger transaction requires at least two postings'')
      else rbind (sum_postings postings)
             (\<lambda>total. check (total = 0) (Err ''Ledger postings are not balanced'')))"

definition posting_json :: "posting \<Rightarrow> json" where
  "posting_json p = JObj [(''accountId'', JStr (p_accountId p)), (''amountMinor'', JStr (p_amountMinor p))]"

definition transaction_postings :: "string \<Rightarrow> int \<Rightarrow> posting list" where
  "transaction_postings walletId walletAmountMinor =
     [\<lparr>p_accountId = walletAccountId walletId, p_amountMinor = show_int walletAmountMinor\<rparr>,
      \<lparr>p_accountId = EXTERNAL_CLEARING_ACCOUNT, p_amountMinor = show_int (- walletAmountMinor)\<rparr>]"

text \<open>The payload is returned as the property list of the JSON object.\<close>

definition createLedgerTransaction :: "string \<Rightarrow> int \<Rightarrow> string \<Rightarrow> (err, (string \<times> json) list) res" where
  "createLedgerTransaction walletId walletAmountMinor transactionId =
     (if walletAmountMinor = 0 then Inl (Err ''A ledger transaction amount cannot be zero'')
      else let postings = transaction_postings walletId walletAmountMinor
           in rbind (assertBalancedPostings postings) (\<lambda>_.
              Inr [(''transactionId'', JStr transactionId),
                   (''postings'', JArr (map posting_json postings))]))"

definition read_posting :: "json \<Rightarrow> (err, posting) res" where
  "read_posting j =
     (case (jstring (jget ''accountId'' j), jstring (jget ''amountMinor'' j)) of
        (Some a, Some m) \<Rightarrow> Inr \<lparr>p_accountId = a, p_amountMinor = m\<rparr>
      | _ \<Rightarrow> Inl (Err ''Ledger event contains an invalid posting''))"

definition readPostings :: "json \<Rightarrow> (err, posting list) res" where
  "readPostings payload =
     (case jget ''postings'' payload of
        Some (JArr js) \<Rightarrow>
          rbind (mapM read_posting js) (\<lambda>postings.
          rbind (assertBalancedPostings postings) (\<lambda>_. Inr postings))
      | _ \<Rightarrow> Inl (Err ''Ledger event does not contain postings''))"

definition amountToMinorUnits :: "jsnum \<Rightarrow> (err, int) res" where
  "amountToMinorUnits amount =
     (let rounded = math_round (js_mul amount (JsFin 100))
      in if \<not> is_safe_integer rounded
         then Inl (Err ''Amount exceeds the supported monetary range'')
         else Inr (bigint_of rounded))"

definition formatMinorUnits :: "int \<Rightarrow> string" where
  "formatMinorUnits amountMinor =
     (let sign = (if amountMinor < 0 then ''-'' else '''');
          absolute = (if amountMinor < 0 then - amountMinor else amountMinor)
      in sign @ show_int (big_div absolute 100) @ ''.'' @
         padStart (show_int (big_mod absolute 100)) 2 (CHR ''0''))"

section \<open>Parsing and printing\<close>

lemma parseMinorUnits_show_int [simp]: "parseMinorUnits (show_int i) = Inr i"
proof (cases "i < 0")
  case True
  then show ?thesis by (simp add: parseMinorUnits_def show_int_def)
next
  case False
  obtain c cs where s: "show_nat (nat i) = c # cs" by (cases "show_nat (nat i)") auto
  have "c \<noteq> CHR ''-''" using hd_show_nat_not_minus [of "nat i"] s by simp
  moreover have "all_digits (c # cs)" using s by (metis all_digits_show_nat)
  moreover have "nat_of_digits (c # cs) = nat i" using s by (metis nat_of_digits_show_nat)
  ultimately show ?thesis using False by (simp add: parseMinorUnits_def show_int_def s)
qed

text \<open>The text of a non-negative amount: whole units, a point, two digits.\<close>

definition decimal_text :: "nat \<Rightarrow> string" where
  "decimal_text n = show_nat (n div 100) @ ''.'' @ padStart (show_nat (n mod 100)) 2 (CHR ''0'')"

lemma formatMinorUnits_decimal_text:
  "formatMinorUnits i = (if i < 0 then ''-'' else '''') @ decimal_text (nat \<bar>i\<bar>)"
proof -
  have "formatMinorUnits i = (if i < 0 then ''-'' else '''') @
      show_int (\<bar>i\<bar> div 100) @ ''.'' @ padStart (show_int (\<bar>i\<bar> mod 100)) 2 (CHR ''0'')"
    by (simp add: formatMinorUnits_def Let_def big_div_nonneg big_mod_nonneg)
  moreover have "show_int (\<bar>i\<bar> div 100) = show_nat (nat \<bar>i\<bar> div 100)"
    by (simp add: show_int_def nat_div_distrib)
  moreover have "show_int (\<bar>i\<bar> mod 100) = show_nat (nat \<bar>i\<bar> mod 100)"
    by (simp add: show_int_def nat_mod_distrib)
  ultimately show ?thesis by (simp add: decimal_text_def)
qed

lemma digits_before_point:
  assumes "list_all is_digit s"
  shows "takeWhile (\<lambda>c. c \<noteq> CHR ''.'') (s @ CHR ''.'' # t) = s"
    and "dropWhile (\<lambda>c. c \<noteq> CHR ''.'') (s @ CHR ''.'' # t) = CHR ''.'' # t"
proof -
  have "\<forall>c \<in> set s. c \<noteq> CHR ''.''"
    using assms by (auto simp: list_all_iff is_digit_def)
  then show "takeWhile (\<lambda>c. c \<noteq> CHR ''.'') (s @ CHR ''.'' # t) = s"
    and "dropWhile (\<lambda>c. c \<noteq> CHR ''.'') (s @ CHR ''.'' # t) = CHR ''.'' # t"
    by (simp_all add: takeWhile_append2 dropWhile_append2)
qed

lemma decimal_text_inj: "decimal_text m = decimal_text n \<longleftrightarrow> m = n"
proof
  assume eq: "decimal_text m = decimal_text n"
  let ?p = "\<lambda>k. padStart (show_nat (k mod 100)) 2 (CHR ''0'')"
  have "show_nat (m div 100) = show_nat (n div 100)"
    using arg_cong [OF eq, of "takeWhile (\<lambda>c. c \<noteq> CHR ''.'')"]
    by (simp add: decimal_text_def digits_before_point show_nat_digits)
  then have d: "m div 100 = n div 100" by (simp add: show_nat_inj)
  have "?p m = ?p n"
    using arg_cong [OF eq, of "dropWhile (\<lambda>c. c \<noteq> CHR ''.'')"]
    by (simp add: decimal_text_def digits_before_point show_nat_digits)
  then have "nat_of_digits (?p m) = nat_of_digits (?p n)" by simp
  then have "m mod 100 = n mod 100" by simp
  with d show "m = n" by (metis div_mult_mod_eq)
qed simp

lemma decimal_text_hd: "\<exists>c cs. decimal_text n = c # cs \<and> is_digit c"
proof -
  obtain c cs where s: "show_nat (n div 100) = c # cs" by (cases "show_nat (n div 100)") auto
  with show_nat_digits [of "n div 100"] have "is_digit c" by simp
  with s show ?thesis by (simp add: decimal_text_def)
qed

lemma formatMinorUnits_inj: "formatMinorUnits i = formatMinorUnits j \<longleftrightarrow> i = j"
proof
  assume eq: "formatMinorUnits i = formatMinorUnits j"
  have minus: "decimal_text n \<noteq> CHR ''-'' # s" for n s
    using decimal_text_hd [of n] by (auto simp: is_digit_def)
  have "(i < 0) = (j < 0)"
    using eq minus minus [symmetric] by (auto simp: formatMinorUnits_decimal_text split: if_splits)
  moreover from this have "nat \<bar>i\<bar> = nat \<bar>j\<bar>"
    using eq by (auto simp: formatMinorUnits_decimal_text decimal_text_inj split: if_splits)
  ultimately show "i = j" by linarith
qed simp

section \<open>Postings\<close>

lemma sum_postings_pair [simp]:
  "sum_postings (transaction_postings w a) = Inr 0"
  by (simp add: sum_postings_def transaction_postings_def)

lemma assertBalanced_pair [simp]: "assertBalancedPostings (transaction_postings w a) = Inr ()"
  by (simp add: assertBalancedPostings_def) (simp add: transaction_postings_def)

lemma createLedgerTransaction_eq:
  "a \<noteq> 0 \<Longrightarrow> createLedgerTransaction w a t =
     Inr [(''transactionId'', JStr t), (''postings'', JArr (map posting_json (transaction_postings w a)))]"
  by (simp add: createLedgerTransaction_def)

lemma read_posting_json [simp]: "read_posting (posting_json p) = Inr p"
  by (simp add: read_posting_def posting_json_def jget_def jstring_def)

lemma mapM_read_posting [simp]: "mapM read_posting (map posting_json ps) = Inr ps"
  by (induction ps) simp_all

lemma readPostings_of:
  assumes "jget ''postings'' payload = Some (JArr (map posting_json ps))"
    and "assertBalancedPostings ps = Inr ()"
  shows "readPostings payload = Inr ps"
  using assms by (simp add: readPostings_def)

lemma readPostings_balanced:
  "readPostings payload = Inr ps \<Longrightarrow> 2 \<le> length ps \<and> sum_postings ps = Inr 0"
  by (auto simp: readPostings_def assertBalancedPostings_def result_simps
      split: option.splits json.splits if_splits)

lemma account_ids_distinct [simp]: "walletAccountId w \<noteq> EXTERNAL_CLEARING_ACCOUNT"
  "EXTERNAL_CLEARING_ACCOUNT \<noteq> walletAccountId w"
  by (simp_all add: walletAccountId_def EXTERNAL_CLEARING_ACCOUNT_def)

lemma walletAccountId_inj [simp]: "walletAccountId v = walletAccountId w \<longleftrightarrow> v = w"
  by (simp add: walletAccountId_def)

lemma filter_wallet_posting [simp]:
  "filter (\<lambda>p. p_accountId p = walletAccountId w) (transaction_postings w a) =
     [\<lparr>p_accountId = walletAccountId w, p_amountMinor = show_int a\<rparr>]"
  by (simp add: transaction_postings_def)

section \<open>Amounts\<close>

lemma amountToMinorUnits_decimal:
  assumes "0 < k" "k < 2 ^ 50" "near_decimal k x"
  shows "amountToMinorUnits (JsFin x) = Inr k"
  using scaled_decimal_round [OF assms] assms(1,2)
  by (simp add: amountToMinorUnits_def max_safe_integer_def)

lemma amountToMinorUnits_safe: "amountToMinorUnits x = Inr k \<Longrightarrow> \<bar>k\<bar> \<le> max_safe_integer"
  by (cases "math_round (js_mul x (JsFin 100))")
    (auto simp: amountToMinorUnits_def Let_def split: if_splits)

end
