(* ===== verification/Event_Store.thy ===== *)
theory Event_Store
  imports Ledger_Transaction
begin

text \<open>
  \<^verbatim>\<open>event-store/event-store.service.ts\<close> over the table \<^verbatim>\<open>ledger_events\<close>, a list of rows in
  insertion order. A transaction runs at PostgreSQL's READ COMMITTED level, so two statements of
  it may see different committed states: \<open>appendUsingManager\<close> takes the rows \<open>seen\<close> by its
  \<^verbatim>\<open>findOne\<close> and the \<open>rows\<close> its \<^verbatim>\<open>INSERT\<close> runs on. The append-only trigger of the
  migration \<^verbatim>\<open>CreateLedgerEvents\<close> makes every later state extend an earlier one, so
  \<open>prefix seen rows\<close>. An error leaves the table as it was (the transaction rolls back), which
  the result type says: it carries rows only on success. Version numbers are JavaScript integers,
  so the \<^verbatim>\<open>Number.isInteger\<close> guards hold by type.
  Identifiers of \<^verbatim>\<open>uuid\<close> columns are compared and stored in lower case (\<open>pg_uuid\<close>).
  The lemmas show that the version numbers of every stream are \<open>1, 2, ..., n\<close> without gap in every
  state, that an append is a list append to one stream, and that no append succeeds on a stale
  read; the locale \<open>append_only_store\<close> is the contract the wallet service relies on.
\<close>

section \<open>Model\<close>

record event_data =
  ed_eventId :: string
  ed_eventType :: string
  ed_schemaVersion :: int
  ed_payload :: json
  ed_metadata :: "json option"
  ed_correlationId :: "string option"
  ed_traceId :: "string option"

record append_request =
  ar_streamId :: string
  ar_aggregateType :: string
  ar_expectedVersion :: int
  ar_events :: "event_data list"

record stored_event =
  se_eventId :: string
  se_streamId :: string
  se_aggregateType :: string
  se_eventType :: string
  se_schemaVersion :: int
  se_streamVersion :: int
  se_payload :: json
  se_metadata :: json
  se_correlationId :: "string option"
  se_traceId :: "string option"
  se_createdAt :: int

type_synonym event_table = "stored_event list"

definition EVENT_ID_CONSTRAINT :: string where
  "EVENT_ID_CONSTRAINT = ''PK_ledger_events''"

definition STREAM_VERSION_CONSTRAINT :: string where
  "STREAM_VERSION_CONSTRAINT = ''UQ_ledger_events_stream_version''"

definition opt_fits :: "nat \<Rightarrow> string option \<Rightarrow> bool" where
  "opt_fits n s = (case s of None \<Rightarrow> True | Some t \<Rightarrow> length t \<le> n)"

definition event_fits :: "stored_event \<Rightarrow> bool" where
  "event_fits e = (length (se_aggregateType e) \<le> 100 \<and> length (se_eventType e) \<le> 150 \<and>
     opt_fits 100 (se_correlationId e) \<and> opt_fits 100 (se_traceId e))"

definition insert_event :: "event_table \<Rightarrow> stored_event \<Rightarrow> (err, event_table) res" where
  "insert_event rows e =
     (if \<not> pg_integer (se_schemaVersion e) \<or> \<not> pg_integer (se_streamVersion e)
      then Inl numeric_out_of_range
      else if \<not> event_fits e then Inl (QueryFailed ''22001'' [])
      else if \<not> 0 < se_streamVersion e then Inl (check_violation ''CHK_ledger_events_stream_version'')
      else if \<not> 0 < se_schemaVersion e then Inl (check_violation ''CHK_ledger_events_schema_version'')
      else if \<exists>r \<in> set rows. se_eventId r = se_eventId e then Inl (unique_violation EVENT_ID_CONSTRAINT)
      else if \<exists>r \<in> set rows. se_streamId r = se_streamId e \<and> se_streamVersion r = se_streamVersion e
      then Inl (unique_violation STREAM_VERSION_CONSTRAINT)
      else Inr (rows @ [e]))"

definition insert_events :: "event_table \<Rightarrow> stored_event list \<Rightarrow> (err, event_table) res" where
  "insert_events rows es = foldM insert_event rows es"

definition stream :: "event_table \<Rightarrow> string \<Rightarrow> stored_event list" where
  "stream rows s = filter (\<lambda>e. se_streamId e = s) rows"

definition latest_event :: "event_table \<Rightarrow> string \<Rightarrow> stored_event option" where
  "latest_event rows s =
     (case sort_key se_streamVersion (stream rows s) of [] \<Rightarrow> None | e # es \<Rightarrow> Some (last (e # es)))"

definition validate_event :: "event_data \<Rightarrow> (err, unit) res" where
  "validate_event e =
     (if ed_eventId e = [] \<or> trim (ed_eventType e) = []
      then Inl (TypeErr ''eventId and eventType are required'')
      else if ed_schemaVersion e < 1
      then Inl (TypeErr ''schemaVersion must be a positive integer'')
      else Inr ())"

definition validateAppendRequest :: "append_request \<Rightarrow> (err, unit) res" where
  "validateAppendRequest req =
     (if ar_streamId req = [] \<or> trim (ar_aggregateType req) = []
      then Inl (TypeErr ''streamId and aggregateType are required'')
      else if ar_expectedVersion req < 0
      then Inl (TypeErr ''expectedVersion must be a non-negative integer'')
      else if ar_events req = [] then Inl (TypeErr ''At least one event is required'')
      else rbind (mapM validate_event (ar_events req)) (\<lambda>_. Inr ()))"

definition stored_of :: "append_request \<Rightarrow> int \<Rightarrow> nat \<Rightarrow> event_data \<Rightarrow> stored_event" where
  "stored_of req now index e =
     \<lparr>se_eventId = pg_uuid (ed_eventId e), se_streamId = pg_uuid (ar_streamId req),
      se_aggregateType = ar_aggregateType req, se_eventType = ed_eventType e,
      se_schemaVersion = ed_schemaVersion e,
      se_streamVersion = ar_expectedVersion req + int index + 1,
      se_payload = ed_payload e,
      se_metadata = (case ed_metadata e of None \<Rightarrow> JObj [] | Some m \<Rightarrow> m),
      se_correlationId = ed_correlationId e, se_traceId = ed_traceId e, se_createdAt = now\<rparr>"

definition stored_events_of :: "append_request \<Rightarrow> int \<Rightarrow> stored_event list" where
  "stored_events_of req now =
     map (\<lambda>(i, e). stored_of req now i e) (zip [0..<length (ar_events req)] (ar_events req))"

definition find_between :: "event_table \<Rightarrow> string \<Rightarrow> int \<Rightarrow> int \<Rightarrow> stored_event list" where
  "find_between rows s lo hi =
     sort_key se_streamVersion
       (filter (\<lambda>e. lo \<le> se_streamVersion e \<and> se_streamVersion e \<le> hi) (stream rows s))"

definition appendUsingManager ::
  "append_request \<Rightarrow> event_table \<Rightarrow> event_table \<Rightarrow> int \<Rightarrow> (err, event_table \<times> stored_event list) res" where
  "appendUsingManager req seen rows now =
     rbind (validateAppendRequest req) (\<lambda>_.
     let latest = latest_event seen (pg_uuid (ar_streamId req));
         actualVersion = (case latest of None \<Rightarrow> 0 | Some e \<Rightarrow> se_streamVersion e)
     in if actualVersion \<noteq> ar_expectedVersion req
        then Inl (ExpectedStreamVersion (ar_streamId req) (ar_expectedVersion req) (Some actualVersion))
        else case latest of
          Some e \<Rightarrow>
            if se_aggregateType e \<noteq> ar_aggregateType req
            then Inl (StreamAggregateType (ar_streamId req) (ar_aggregateType req) (se_aggregateType e))
            else rbind (insert_events rows (stored_events_of req now)) (\<lambda>rows'.
                 Inr (rows', find_between rows' (pg_uuid (ar_streamId req)) (ar_expectedVersion req + 1)
                               (ar_expectedVersion req + int (length (ar_events req)))))
        | None \<Rightarrow>
            rbind (insert_events rows (stored_events_of req now)) (\<lambda>rows'.
            Inr (rows', find_between rows' (pg_uuid (ar_streamId req)) (ar_expectedVersion req + 1)
                          (ar_expectedVersion req + int (length (ar_events req))))))"

definition getConstraint :: "err \<Rightarrow> string option" where
  "getConstraint e = (case e of QueryFailed _ c \<Rightarrow> Some c | _ \<Rightarrow> None)"

definition mapAppendErrors ::
  "append_request \<Rightarrow> (err, 'a) res \<Rightarrow> (err, 'a) res" where
  "mapAppendErrors req result =
     map_err (\<lambda>e.
       if is_version_conflict e then e
       else if getConstraint e = Some EVENT_ID_CONSTRAINT
       then DuplicateEventId (case ar_events req of [x] \<Rightarrow> Some (ed_eventId x) | _ \<Rightarrow> None)
       else if getConstraint e = Some STREAM_VERSION_CONSTRAINT
       then ExpectedStreamVersion (ar_streamId req) (ar_expectedVersion req) None
       else e) result"

definition appendWithinTransaction ::
  "append_request \<Rightarrow> event_table \<Rightarrow> event_table \<Rightarrow> int \<Rightarrow> (err, event_table \<times> stored_event list) res" where
  "appendWithinTransaction req seen rows now = mapAppendErrors req (appendUsingManager req seen rows now)"

definition loadStream :: "event_table \<Rightarrow> string \<Rightarrow> int \<Rightarrow> (err, stored_event list) res" where
  "loadStream rows streamId fromVersion =
     (if streamId = [] then Inl (TypeErr ''streamId is required'')
      else if fromVersion < 1 then Inl (TypeErr ''fromVersion must be a positive integer'')
      else Inr (sort_key se_streamVersion
                 (filter (\<lambda>e. fromVersion \<le> se_streamVersion e) (stream rows (pg_uuid streamId)))))"

definition replay :: "event_table \<Rightarrow> string \<Rightarrow> 's \<Rightarrow> ('s \<Rightarrow> stored_event \<Rightarrow> 's) \<Rightarrow> (err, 's) res" where
  "replay rows streamId initialState reducer =
     rbind (loadStream rows streamId 1) (\<lambda>events. Inr (foldl reducer initialState events))"

text \<open>
  The well-formedness of the table: event identifiers are unique and the versions of a stream, in
  insertion order, count from 1.
\<close>

definition gapless :: "stored_event list \<Rightarrow> bool" where
  "gapless es = (map se_streamVersion es = map (\<lambda>i. int i + 1) [0..<length es])"

definition store_wf :: "event_table \<Rightarrow> bool" where
  "store_wf rows = (distinct (map se_eventId rows) \<and>
     (\<forall>s \<in> set (map se_streamId rows). gapless (stream rows s)))"

section \<open>Streams\<close>

lemma stream_Nil [simp]: "stream [] s = []"
  by (simp add: stream_def)

lemma stream_append [simp]: "stream (xs @ ys) s = stream xs s @ stream ys s"
  by (simp add: stream_def)

lemma stream_Cons [simp]:
  "stream (e # es) s = (if se_streamId e = s then e # stream es s else stream es s)"
  by (simp add: stream_def)

lemma in_stream [simp]: "e \<in> set (stream rows s) \<longleftrightarrow> e \<in> set rows \<and> se_streamId e = s"
  by (simp add: stream_def)

lemma gapless_Nil [simp]: "gapless []"
  by (simp add: gapless_def)

lemma gapless_stream: "store_wf rows \<Longrightarrow> gapless (stream rows s)"
  by (cases "stream rows s = []") (auto simp: store_wf_def stream_def filter_empty_conv)

lemma store_wfI:
  "distinct (map se_eventId rows) \<Longrightarrow> (\<And>s. gapless (stream rows s)) \<Longrightarrow> store_wf rows"
  by (simp add: store_wf_def)

lemma store_wf_Nil [simp]: "store_wf []"
  by (simp add: store_wf_def)

lemma gapless_snoc [simp]:
  "gapless (es @ [e]) \<longleftrightarrow> gapless es \<and> se_streamVersion e = int (length es) + 1"
  by (simp add: gapless_def)

lemma gapless_append_left: "gapless (xs @ ys) \<Longrightarrow> gapless xs"
  by (induction ys rule: rev_induct) (auto simp flip: append_assoc)

lemma gapless_versions: "gapless es \<Longrightarrow> set (map se_streamVersion es) = {1..int (length es)}"
proof (induction es rule: rev_induct)
  case (snoc e es)
  then show ?case by auto
qed simp

lemma gapless_sorted: "gapless es \<Longrightarrow> sorted (map se_streamVersion es)"
proof (induction es rule: rev_induct)
  case (snoc e es)
  have "\<forall>v \<in> set (map se_streamVersion es). v \<le> int (length es)"
    using snoc gapless_versions [of es] by simp
  with snoc show ?case by (auto simp: sorted_append)
qed simp

lemma gapless_pos: "gapless es \<Longrightarrow> e \<in> set es \<Longrightarrow> 1 \<le> se_streamVersion e"
  using gapless_versions [of es] by (metis atLeastAtMost_iff image_eqI set_map)

lemma gapless_le_length: "gapless es \<Longrightarrow> e \<in> set es \<Longrightarrow> se_streamVersion e \<le> int (length es)"
  using gapless_versions [of es] by (metis atLeastAtMost_iff image_eqI set_map)

lemma gapless_last: "gapless es \<Longrightarrow> es \<noteq> [] \<Longrightarrow> se_streamVersion (last es) = int (length es)"
  by (cases es rule: rev_cases) auto

lemma store_wf_prefix:
  assumes "store_wf rows" and "prefix seen rows"
  shows "store_wf seen"
proof -
  obtain zs where rows: "rows = seen @ zs" using assms(2) by (auto elim: prefixE)
  show ?thesis
  proof (rule store_wfI)
    show "distinct (map se_eventId seen)" using assms(1) by (simp add: store_wf_def rows)
    show "gapless (stream seen s)" for s
      using gapless_stream [OF assms(1), of s] by (auto simp: rows intro: gapless_append_left)
  qed
qed

lemma loadStream_wf:
  assumes "store_wf rows" and "s \<noteq> []"
  shows "loadStream rows s 1 = Inr (stream rows (pg_uuid s))"
proof -
  note g = gapless_stream [OF assms(1), of "pg_uuid s"]
  have "filter (\<lambda>e. 1 \<le> se_streamVersion e) (stream rows (pg_uuid s)) = stream rows (pg_uuid s)"
    using gapless_pos [OF g] by (simp add: filter_id_conv)
  with assms(2) show ?thesis by (simp add: loadStream_def sort_key_sorted_id gapless_sorted [OF g])
qed

lemma latest_event_wf:
  "store_wf rows \<Longrightarrow>
    latest_event rows s = (if stream rows s = [] then None else Some (last (stream rows s)))"
  by (auto simp: latest_event_def sort_key_sorted_id gapless_sorted [OF gapless_stream]
      split: list.splits)

lemma latest_version_wf:
  assumes "store_wf rows"
  shows "(case latest_event rows s of None \<Rightarrow> 0 | Some e \<Rightarrow> se_streamVersion e) = int (length (stream rows s))"
  using gapless_last [OF gapless_stream [OF assms], of s]
  by (simp add: latest_event_wf [OF assms])

section \<open>Appending\<close>

lemma insert_event_ok:
  "insert_event rows e = Inr rows' \<longleftrightarrow>
     rows' = rows @ [e] \<and> pg_integer (se_schemaVersion e) \<and> pg_integer (se_streamVersion e) \<and>
     event_fits e \<and> 0 < se_streamVersion e \<and> 0 < se_schemaVersion e \<and>
     se_eventId e \<notin> set (map se_eventId rows) \<and>
     (\<forall>r \<in> set (stream rows (se_streamId e)). se_streamVersion r \<noteq> se_streamVersion e)"
proof -
  have "(se_eventId e \<in> set (map se_eventId rows)) = (\<exists>r \<in> set rows. se_eventId r = se_eventId e)"
    unfolding set_map image_iff by (metis (no_types))
  then show ?thesis by (auto simp: insert_event_def)
qed

lemma insert_events_Cons:
  "insert_events rows (e # es) = rbind (insert_event rows e) (\<lambda>rows'. insert_events rows' es)"
  by (simp add: insert_events_def)

lemma insert_events_eq: "insert_events rows es = Inr rows' \<Longrightarrow> rows' = rows @ es"
proof (induction es arbitrary: rows)
  case (Cons e es)
  then obtain r where r: "insert_event rows e = Inr r" "insert_events r es = Inr rows'"
    by (auto simp: insert_events_Cons result_simps)
  with Cons.IH [of r] show ?case by (simp add: insert_event_ok)
qed (simp add: insert_events_def)

lemma insert_events_distinct:
  assumes "insert_events rows es = Inr rows'" "distinct (map se_eventId rows)"
  shows "distinct (map se_eventId rows')"
  using assms unfolding insert_events_def
  by (rule foldM_invariant) (auto simp: insert_event_ok)

lemma stored_events_stream [simp]:
  "stream (stored_events_of req now) s = (if s = pg_uuid (ar_streamId req) then stored_events_of req now else [])"
  by (auto simp: stream_def stored_events_of_def stored_of_def filter_id_conv filter_empty_conv)

lemma length_stored_events [simp]: "length (stored_events_of req now) = length (ar_events req)"
  by (simp add: stored_events_of_def)

lemma stored_events_Nil_iff [simp]: "stored_events_of req now = [] \<longleftrightarrow> ar_events req = []"
  by (simp flip: length_0_conv)

lemma stored_events_versions:
  "map se_streamVersion (stored_events_of req now) =
     map (\<lambda>i. ar_expectedVersion req + int i + 1) [0..<length (ar_events req)]"
  by (rule nth_equalityI) (simp_all add: stored_events_of_def stored_of_def)

lemma stored_events_ids: "map se_eventId (stored_events_of req now) = map (\<lambda>e. pg_uuid (ed_eventId e)) (ar_events req)"
  by (rule nth_equalityI) (simp_all add: stored_events_of_def stored_of_def)

lemma stored_events_single:
  "ar_events req = [e] \<Longrightarrow> stored_events_of req now = [stored_of req now 0 e]"
  by (simp add: stored_events_of_def)

lemma gapless_stored_events:
  assumes "gapless xs" and "ar_expectedVersion req = int (length xs)"
  shows "gapless (xs @ stored_events_of req now)"
proof -
  let ?m = "length xs" and ?n = "length (ar_events req)"
  have "[0..<?m + ?n] = [0..<?m] @ map (\<lambda>i. i + ?m) [0..<?n]"
    by (rule nth_equalityI) (auto simp: nth_append)
  moreover have "map (\<lambda>i. int (length xs) + int i + 1) [0..<?n] = map (\<lambda>i. int i + 1) (map (\<lambda>i. i + ?m) [0..<?n])"
    by simp
  ultimately show ?thesis
    using assms by (simp only: gapless_def stored_events_versions map_append length_append
        length_stored_events)
qed

lemma find_between_stored:
  assumes g: "gapless xs" and v: "ar_expectedVersion req = int (length xs)"
    and st: "stream rows (pg_uuid (ar_streamId req)) = xs @ stored_events_of req now"
  shows "find_between rows (pg_uuid (ar_streamId req)) (ar_expectedVersion req + 1)
           (ar_expectedVersion req + int (length (ar_events req))) = stored_events_of req now"
proof -
  let ?es = "stored_events_of req now"
  let ?P = "\<lambda>e. ar_expectedVersion req + 1 \<le> se_streamVersion e \<and>
              se_streamVersion e \<le> ar_expectedVersion req + int (length (ar_events req))"
  have "filter ?P xs = []"
    using gapless_le_length [OF g] by (force simp: filter_empty_conv v)
  moreover have "filter ?P ?es = ?es"
  proof -
    have "?P e" if "e \<in> set ?es" for e
    proof -
      have "se_streamVersion e \<in> set (map se_streamVersion ?es)" using that by simp
      then show ?thesis by (auto simp only: stored_events_versions) auto
    qed
    then show ?thesis by (simp add: filter_id_conv)
  qed
  moreover have "sorted (map se_streamVersion ?es)"
    using gapless_sorted [OF gapless_stored_events [OF g v, of now]] by (simp add: sorted_append)
  ultimately show ?thesis by (simp add: find_between_def st sort_key_sorted_id)
qed

text \<open>
  The first row of an append has version \<open>expected + 1\<close>: it collides with the unique constraint
  unless the stream still has exactly \<open>expected\<close> rows.
\<close>

lemma insert_events_current:
  assumes wf: "store_wf rows" and ok: "insert_events rows (stored_events_of req now) = Inr rows'"
    and ne: "ar_events req \<noteq> []"
    and le: "0 \<le> ar_expectedVersion req" "ar_expectedVersion req \<le> int (length (stream rows (pg_uuid (ar_streamId req))))"
  shows "ar_expectedVersion req = int (length (stream rows (pg_uuid (ar_streamId req))))"
proof (rule ccontr)
  let ?xs = "stream rows (pg_uuid (ar_streamId req))"
  assume "ar_expectedVersion req \<noteq> int (length ?xs)"
  with le have "ar_expectedVersion req + 1 \<in> {1..int (length ?xs)}" by simp
  then have "ar_expectedVersion req + 1 \<in> set (map se_streamVersion ?xs)"
    using gapless_versions [OF gapless_stream [OF wf]] by metis
  then obtain r where r: "r \<in> set ?xs" "se_streamVersion r = ar_expectedVersion req + 1" by auto
  obtain e es where es: "ar_events req = e # es" using ne by (cases "ar_events req") auto
  have "\<exists>zs. stored_events_of req now = stored_of req now 0 e # zs"
    by (simp add: stored_events_of_def es upt_conv_Cons del: upt_Suc)
  with ok r show False
    by (auto simp: insert_events_Cons insert_event_ok result_simps stored_of_def)
qed

lemma append_inversion:
  assumes "appendWithinTransaction req seen rows now = Inr (rows', stored)"
  shows "validateAppendRequest req = Inr ()"
    and "(case latest_event seen (pg_uuid (ar_streamId req)) of None \<Rightarrow> 0 | Some e \<Rightarrow> se_streamVersion e) = ar_expectedVersion req"
    and "insert_events rows (stored_events_of req now) = Inr rows'"
    and "stored = find_between rows' (pg_uuid (ar_streamId req)) (ar_expectedVersion req + 1)
           (ar_expectedVersion req + int (length (ar_events req)))"
  using assms
  by (auto simp: appendWithinTransaction_def mapAppendErrors_def appendUsingManager_def Let_def
      result_simps split: option.splits if_splits)

lemma append_ok:
  assumes wf: "store_wf rows" and pre: "prefix seen rows"
    and ok: "appendWithinTransaction req seen rows now = Inr (rows', stored)"
  shows "stored = stored_events_of req now" and "rows' = rows @ stored"
    and "ar_expectedVersion req = int (length (stream rows (pg_uuid (ar_streamId req))))"
    and "store_wf rows'"
proof -
  let ?s = "pg_uuid (ar_streamId req)"
  note inv = append_inversion [OF ok]
  have wfs: "store_wf seen" by (rule store_wf_prefix [OF wf pre])
  have ne: "ar_events req \<noteq> []" and nonneg: "0 \<le> ar_expectedVersion req"
    using inv(1) by (auto simp: validateAppendRequest_def result_simps split: if_splits)
  have "ar_expectedVersion req = int (length (stream seen ?s))"
    using inv(2) latest_version_wf [OF wfs] by simp
  also have "\<dots> \<le> int (length (stream rows ?s))" using pre by (auto elim: prefixE)
  finally have le: "ar_expectedVersion req \<le> int (length (stream rows ?s))" .
  show v: "ar_expectedVersion req = int (length (stream rows ?s))"
    by (rule insert_events_current [OF wf inv(3) ne nonneg le])
  have rows': "rows' = rows @ stored_events_of req now" by (rule insert_events_eq [OF inv(3)])
  have g: "gapless (stream rows ?s)" by (rule gapless_stream [OF wf])
  show st: "stored = stored_events_of req now"
    using inv(4) find_between_stored [OF g v, of rows' now] by (simp add: rows')
  show "rows' = rows @ stored" by (simp add: rows' st)
  show "store_wf rows'"
  proof (rule store_wfI)
    show "distinct (map se_eventId rows')"
      using insert_events_distinct [OF inv(3)] wf by (simp add: store_wf_def)
    show "gapless (stream rows' s)" for s
      using gapless_stored_events [OF g v] gapless_stream [OF wf] by (simp add: rows')
  qed
qed

section \<open>The outcome of an append\<close>

definition insertable :: "stored_event \<Rightarrow> bool" where
  "insertable e = (pg_integer (se_schemaVersion e) \<and> pg_integer (se_streamVersion e) \<and>
     event_fits e \<and> 0 < se_streamVersion e \<and> 0 < se_schemaVersion e)"

lemma insert_events_succeeds:
  assumes "\<forall>e \<in> set es. insertable e" "distinct (map se_eventId (rows @ es))"
    and "distinct (map se_streamVersion es)" "\<forall>e \<in> set es. se_streamId e = s"
    and "\<forall>r \<in> set (stream rows s). se_streamVersion r \<notin> se_streamVersion ` set es"
  shows "insert_events rows es = Inr (rows @ es)"
  using assms
proof (induction es arbitrary: rows)
  case (Cons e es)
  have "insert_event rows e = Inr (rows @ [e])"
    using Cons.prems by (auto simp: insert_event_ok insertable_def)
  moreover have "insert_events (rows @ [e]) es = Inr ((rows @ [e]) @ es)"
    using Cons.prems by (intro Cons.IH) auto
  ultimately show ?case by (simp add: insert_events_Cons)
qed (simp add: insert_events_def)

text \<open>The requests the table accepts: valid, of the stream's type, with fresh ids, in range.\<close>

definition acceptable :: "append_request \<Rightarrow> event_table \<Rightarrow> bool" where
  "acceptable req rows = (validateAppendRequest req = Inr () \<and>
     (\<forall>e \<in> set (stream rows (pg_uuid (ar_streamId req))). se_aggregateType e = ar_aggregateType req) \<and>
     distinct (map se_eventId rows @ map (\<lambda>e. pg_uuid (ed_eventId e)) (ar_events req)) \<and>
     length (ar_aggregateType req) \<le> 100 \<and>
     (\<forall>e \<in> set (ar_events req). pg_integer (ed_schemaVersion e) \<and> length (ed_eventType e) \<le> 150 \<and>
        opt_fits 100 (ed_correlationId e) \<and> opt_fits 100 (ed_traceId e)) \<and>
     ar_expectedVersion req + int (length (ar_events req)) < 2 ^ 31)"

lemma validate_appendD:
  assumes "validateAppendRequest req = Inr ()"
  shows "ar_streamId req \<noteq> []" "0 \<le> ar_expectedVersion req" "ar_events req \<noteq> []"
    "\<forall>e \<in> set (ar_events req). 1 \<le> ed_schemaVersion e"
proof -
  show "ar_streamId req \<noteq> []" "0 \<le> ar_expectedVersion req" "ar_events req \<noteq> []"
    using assms by (auto simp: validateAppendRequest_def result_simps split: if_splits)
  have "\<exists>us. mapM validate_event (ar_events req) = Inr us"
    using assms by (auto simp: validateAppendRequest_def result_simps split: if_splits)
  then have "\<forall>e \<in> set (ar_events req). \<exists>u. validate_event e = Inr u"
    by (auto simp: mapM_Inr_iff list_all2_conv_all_nth in_set_conv_nth)
  then show "\<forall>e \<in> set (ar_events req). 1 \<le> ed_schemaVersion e"
    by (fastforce simp: validate_event_def split: if_splits)
qed

lemma stored_event_cases:
  assumes "e \<in> set (stored_events_of req now)"
  shows "\<exists>i x. i < length (ar_events req) \<and> x \<in> set (ar_events req) \<and> e = stored_of req now i x"
proof -
  obtain i where i: "i < length (ar_events req)" "e = stored_events_of req now ! i"
    using assms by (auto simp: in_set_conv_nth)
  then have "e = stored_of req now i (ar_events req ! i)" by (simp add: stored_events_of_def)
  with i(1) show ?thesis using nth_mem by blast
qed

lemma stored_events_insertable:
  assumes acc: "acceptable req rows" and e: "e \<in> set (stored_events_of req now)"
  shows "insertable e"
proof -
  from stored_event_cases [OF e] obtain i x where i: "i < length (ar_events req)"
    and x: "x \<in> set (ar_events req)" and e': "e = stored_of req now i x" by blast
  have v: "validateAppendRequest req = Inr ()" using acc by (simp add: acceptable_def)
  note vd = validate_appendD [OF v]
  have "1 \<le> ed_schemaVersion x" "pg_integer (ed_schemaVersion x)" "event_fits e"
    using vd(4) acc x by (auto simp: acceptable_def event_fits_def e' stored_of_def)
  moreover have "ar_expectedVersion req + int i + 1 < 2 ^ 31"
    using acc i by (auto simp: acceptable_def)
  ultimately show ?thesis using vd(2) by (simp add: insertable_def e' stored_of_def pg_integer_def)
qed

lemma latest_type:
  assumes wf: "store_wf rows" and pre: "prefix seen rows" and acc: "acceptable req rows"
    and e: "latest_event seen (pg_uuid (ar_streamId req)) = Some e"
  shows "se_aggregateType e = ar_aggregateType req"
proof -
  let ?s = "pg_uuid (ar_streamId req)"
  have "stream seen ?s \<noteq> []" "e = last (stream seen ?s)"
    using e latest_event_wf [OF store_wf_prefix [OF wf pre], of ?s] by (auto split: if_splits)
  then have "e \<in> set (stream seen ?s)" using last_in_set by blast
  then have "e \<in> set (stream rows ?s)" using pre by (auto elim: prefixE)
  with acc show ?thesis by (simp add: acceptable_def)
qed

lemma append_current:
  assumes wf: "store_wf rows" and pre: "prefix seen rows" and acc: "acceptable req rows"
    and v: "ar_expectedVersion req = int (length (stream rows (pg_uuid (ar_streamId req))))"
    and s: "length (stream seen (pg_uuid (ar_streamId req))) = length (stream rows (pg_uuid (ar_streamId req)))"
  shows "appendWithinTransaction req seen rows now =
    Inr (rows @ stored_events_of req now, stored_events_of req now)"
proof -
  let ?s = "pg_uuid (ar_streamId req)" and ?es = "stored_events_of req now"
  have wfs: "store_wf seen" by (rule store_wf_prefix [OF wf pre])
  note g = gapless_stream [OF wf, of ?s]
  have val: "validateAppendRequest req = Inr ()" using acc by (simp add: acceptable_def)
  have latest: "(case latest_event seen ?s of None \<Rightarrow> 0 | Some e \<Rightarrow> se_streamVersion e) = ar_expectedVersion req"
    using latest_version_wf [OF wfs, of ?s] s v by simp
  note ty = latest_type [OF wf pre acc]
  have "\<forall>r \<in> set (stream rows ?s). se_streamVersion r \<notin> se_streamVersion ` set ?es"
  proof (intro ballI notI)
    fix r assume r: "r \<in> set (stream rows ?s)" "se_streamVersion r \<in> se_streamVersion ` set ?es"
    have "se_streamVersion r \<le> ar_expectedVersion req" using gapless_le_length [OF g r(1)] v by simp
    moreover have "ar_expectedVersion req < se_streamVersion r"
      using r(2) by (auto dest!: stored_event_cases simp: stored_of_def)
    ultimately show False by simp
  qed
  moreover have "distinct (map se_streamVersion ?es)"
    by (simp add: stored_events_versions distinct_map inj_on_def)
  moreover have "\<forall>e \<in> set ?es. se_streamId e = ?s" by (auto dest!: stored_event_cases simp: stored_of_def)
  moreover have "distinct (map se_eventId (rows @ ?es))"
    using acc by (simp add: acceptable_def stored_events_ids)
  ultimately have ins: "insert_events rows ?es = Inr (rows @ ?es)"
    using stored_events_insertable [OF acc] by (intro insert_events_succeeds) auto
  have "stream (rows @ ?es) ?s = stream rows ?s @ ?es" by simp
  note between = find_between_stored [OF g v this]
  show ?thesis
    using val latest ty ins between
    by (auto simp: appendWithinTransaction_def mapAppendErrors_def appendUsingManager_def Let_def
        split: option.splits)
qed

lemma append_stale_insert:
  assumes wf: "store_wf rows" and acc: "acceptable req rows" and ne: "0 \<le> ar_expectedVersion req"
    and v: "ar_expectedVersion req < int (length (stream rows (pg_uuid (ar_streamId req))))"
  shows "insert_events rows (stored_events_of req now) = Inl (unique_violation STREAM_VERSION_CONSTRAINT)"
proof -
  let ?s = "pg_uuid (ar_streamId req)"
  have val: "validateAppendRequest req = Inr ()" using acc by (simp add: acceptable_def)
  obtain x xs where x: "ar_events req = x # xs" using validate_appendD(3) [OF val] by (cases "ar_events req") auto
  obtain zs where es: "stored_events_of req now = stored_of req now 0 x # zs"
    using x by (simp add: stored_events_of_def upt_conv_Cons del: upt_Suc)
  have "ar_expectedVersion req + 1 \<in> set (map se_streamVersion (stream rows ?s))"
    using gapless_versions [OF gapless_stream [OF wf], of ?s] v ne by simp
  then obtain r where r: "r \<in> set rows" "se_streamId r = ?s" "se_streamVersion r = ar_expectedVersion req + 1"
    by auto
  have i: "insertable (stored_of req now 0 x)" using stored_events_insertable [OF acc, of _ now] es by simp
  have "pg_uuid (ed_eventId x) \<notin> se_eventId ` set rows" using acc x by (auto simp: acceptable_def)
  then have "\<forall>r \<in> set rows. se_eventId r \<noteq> se_eventId (stored_of req now 0 x)"
    by (simp add: stored_of_def) (metis imageI)
  then have "insert_event rows (stored_of req now 0 x) = Inl (unique_violation STREAM_VERSION_CONSTRAINT)"
    using i r by (auto simp: insert_event_def insertable_def) (auto simp: stored_of_def)
  then show ?thesis by (simp add: es insert_events_Cons)
qed

section \<open>The contract of an append-only store\<close>

text \<open>
  What a client of the event store relies on. \<open>le d d'\<close>: the state \<open>d'\<close> was committed after \<open>d\<close>;
  \<open>appended k n es seen d d'\<close>: an append of the events \<open>es\<close> to stream \<open>k\<close> at expected version
  \<open>n\<close>, whose version check read \<open>seen\<close>, took the committed state \<open>d\<close> to \<open>d'\<close>.
\<close>

locale append_only_store =
  fixes inv :: "'st \<Rightarrow> bool"
    and le :: "'st \<Rightarrow> 'st \<Rightarrow> bool"
    and load :: "'st \<Rightarrow> 'k \<Rightarrow> 'e list"
    and appended :: "'k \<Rightarrow> nat \<Rightarrow> 'e list \<Rightarrow> 'st \<Rightarrow> 'st \<Rightarrow> 'st \<Rightarrow> bool"
  assumes le_refl: "le d d"
    and le_trans: "le d1 d2 \<Longrightarrow> le d2 d3 \<Longrightarrow> le d1 d3"
    and load_mono: "le d d' \<Longrightarrow> prefix (load d k) (load d' k)"
    and append_inv: "inv d \<Longrightarrow> le seen d \<Longrightarrow> appended k n es seen d d' \<Longrightarrow> inv d'"
    and append_le: "inv d \<Longrightarrow> le seen d \<Longrightarrow> appended k n es seen d d' \<Longrightarrow> le d d'"
    and append_length: "inv d \<Longrightarrow> le seen d \<Longrightarrow> appended k n es seen d d' \<Longrightarrow> length (load d k) = n"
    and append_load: "inv d \<Longrightarrow> le seen d \<Longrightarrow> appended k n es seen d d' \<Longrightarrow> load d' k = load d k @ es"
    and append_frame:
      "inv d \<Longrightarrow> le seen d \<Longrightarrow> appended k n es seen d d' \<Longrightarrow> k' \<noteq> k \<Longrightarrow> load d' k' = load d k'"
    and append_nonempty: "inv d \<Longrightarrow> le seen d \<Longrightarrow> appended k n es seen d d' \<Longrightarrow> es \<noteq> []"
begin

text \<open>A command that read the stream at \<open>d0\<close> and appended successfully at \<open>d\<close> read the current stream.\<close>

lemma stale_read_excluded:
  assumes "inv d" "le d0 seen" "le seen d" "appended k (length (load d0 k)) es seen d d'"
  shows "load d k = load d0 k"
proof -
  have "prefix (load d0 k) (load d k)" using assms load_mono le_trans by blast
  moreover have "length (load d k) = length (load d0 k)"
    using append_length [OF assms(1,3,4)] .
  ultimately show ?thesis by (metis append_eq_conv_conj prefix_def take_all_iff le_refl order_refl)
qed

text \<open>Of two commands at the same expected version, at most one commits.\<close>

lemma no_lost_update:
  assumes "inv d" "le seen d" "appended k n es seen d d1"
    and "le d1 d2" "inv d2" "le seen' d2"
  shows "\<not> appended k n es' seen' d2 d3"
proof
  assume a: "appended k n es' seen' d2 d3"
  have "length (load d2 k) = n" by (rule append_length [OF assms(5,6) a])
  moreover have "prefix (load d k @ es) (load d2 k)"
    using load_mono [OF assms(4), of k] append_load [OF assms(1-3)] by simp
  moreover have "length (load d k) = n" by (rule append_length [OF assms(1-3)])
  moreover have "es \<noteq> []" by (rule append_nonempty [OF assms(1-3)])
  ultimately show False using prefix_length_le by fastforce
qed

end

definition event_appended ::
  "string \<Rightarrow> nat \<Rightarrow> stored_event list \<Rightarrow> event_table \<Rightarrow> event_table \<Rightarrow> event_table \<Rightarrow> bool" where
  "event_appended s n es seen rows rows' \<longleftrightarrow>
     (\<exists>req now. pg_uuid (ar_streamId req) = s \<and> ar_expectedVersion req = int n \<and>
        appendWithinTransaction req seen rows now = Inr (rows', es))"

interpretation ledger_events: append_only_store store_wf prefix stream event_appended
proof unfold_locales
  fix d d' seen :: event_table and k k' n es
  show "prefix d d" by simp
  show "prefix (stream d k) (stream d' k)" if "prefix d d'" using that by (auto elim!: prefixE)
  assume wf: "store_wf d" and pre: "prefix seen d" and a: "event_appended k n es seen d d'"
  from a obtain req now where r: "pg_uuid (ar_streamId req) = k" "ar_expectedVersion req = int n"
    "appendWithinTransaction req seen d now = Inr (d', es)" by (auto simp: event_appended_def)
  note ok = append_ok [OF wf pre r(3)]
  have "ar_events req \<noteq> []"
    using append_inversion(1) [OF r(3)]
    by (auto simp: validateAppendRequest_def result_simps split: if_splits)
  then show "es \<noteq> []" using ok(1) by simp
  show "store_wf d'" by (rule ok(4))
  show "prefix d d'" using ok(2) by simp
  show "length (stream d k) = n" using ok(3) r by simp
  show "stream d' k = stream d k @ es" using ok(1,2) r(1) by simp
  show "stream d' k' = stream d k'" if "k' \<noteq> k" using that ok(1,2) r(1) by simp
qed (auto intro: prefix_order.trans)

section \<open>Properties\<close>

text \<open>
  C7. The outcome of every append of an acceptable request at READ COMMITTED, whatever was committed
  between its read (\<open>seen\<close>) and its insert (\<open>rows\<close>): a version conflict with the version read if
  the read disagrees with the expected version, a version conflict (from the unique constraint) if
  only the insert does, and otherwise exactly the new rows at the end of the table.
\<close>

theorem append_outcome:
  assumes wf: "store_wf rows" and pre: "prefix seen rows" and acc: "acceptable req rows"
  shows "appendWithinTransaction req seen rows now =
    (if ar_expectedVersion req \<noteq> int (length (stream seen (pg_uuid (ar_streamId req))))
     then Inl (ExpectedStreamVersion (ar_streamId req) (ar_expectedVersion req)
            (Some (int (length (stream seen (pg_uuid (ar_streamId req)))))))
     else if ar_expectedVersion req \<noteq> int (length (stream rows (pg_uuid (ar_streamId req))))
     then Inl (ExpectedStreamVersion (ar_streamId req) (ar_expectedVersion req) None)
     else Inr (rows @ stored_events_of req now, stored_events_of req now))"
proof -
  let ?s = "pg_uuid (ar_streamId req)" and ?v = "ar_expectedVersion req"
  have wfs: "store_wf seen" by (rule store_wf_prefix [OF wf pre])
  have val: "validateAppendRequest req = Inr ()" using acc by (simp add: acceptable_def)
  note latest = latest_version_wf [OF wfs, of ?s] and ty = latest_type [OF wf pre acc]
  have le: "length (stream seen ?s) \<le> length (stream rows ?s)" using pre by (auto elim: prefixE)
  consider (early) "?v \<noteq> int (length (stream seen ?s))"
    | (late) "?v = int (length (stream seen ?s))" "?v < int (length (stream rows ?s))"
    | (current) "?v = int (length (stream seen ?s))" "?v = int (length (stream rows ?s))"
    using le by linarith
  then show ?thesis
  proof cases
    case early
    then show ?thesis using val latest
      by (simp add: appendWithinTransaction_def mapAppendErrors_def appendUsingManager_def Let_def)
  next
    case late
    have "insert_events rows (stored_events_of req now) = Inl (unique_violation STREAM_VERSION_CONSTRAINT)"
      using append_stale_insert [OF wf acc] late validate_appendD(2) [OF val] by simp
    then show ?thesis using late val latest ty
      by (auto simp: appendWithinTransaction_def mapAppendErrors_def appendUsingManager_def Let_def
          getConstraint_def unique_violation_def EVENT_ID_CONSTRAINT_def
          STREAM_VERSION_CONSTRAINT_def split: option.splits)
  next
    case current
    then have "length (stream seen ?s) = length (stream rows ?s)" by linarith
    note append_current [OF wf pre acc current(2) this]
    with current show ?thesis by (metis (full_types))
  qed
qed

theorem append_outcome_witness:
  "\<exists>req rows now. acceptable req rows \<and> store_wf rows \<and> prefix [] rows \<and>
     appendWithinTransaction req [] rows now = Inr (stored_events_of req now, stored_events_of req now)"
proof -
  let ?ed = "\<lparr>ed_eventId = ''e1'', ed_eventType = ''MoneyDeposited'', ed_schemaVersion = 1, ed_payload = JNull,
      ed_metadata = None, ed_correlationId = None, ed_traceId = None\<rparr>"
  let ?req = "\<lparr>ar_streamId = ''wa'', ar_aggregateType = ''Wallet'', ar_expectedVersion = 0, ar_events = [?ed]\<rparr>"
  have acc: "acceptable ?req []"
    by (simp add: acceptable_def validateAppendRequest_def validate_event_def trim_def is_space_def
        pg_integer_def stream_def opt_fits_def)
  moreover have "appendWithinTransaction ?req [] [] 0 = Inr (stored_events_of ?req 0, stored_events_of ?req 0)"
    using append_outcome [OF store_wf_Nil _ acc, of "[]" 0] by simp
  ultimately show ?thesis by (intro exI [of _ ?req] exI [of _ "[]"] exI [of _ 0]) simp
qed

end
