(* ===== verification/Wallet_Aggregate.thy ===== *)
theory Wallet_Aggregate
  imports Event_Store
begin

text \<open>
  \<^verbatim>\<open>wallets/domain/wallet.aggregate.ts\<close>: the event-sourced wallet. Commands (\<open>deposit\<close>,
  \<open>withdraw\<close>, \<open>placeHold\<close>, \<open>releaseHold\<close>, \<open>consumeHold\<close>) decide an event or nothing,
  \<open>apply_event\<close> evolves the aggregate by a stored event and refuses a stream that spends reserved
  money. The JavaScript \<^verbatim>\<open>Map\<close> of holds is an association list in insertion order.
  The lemmas show the invariant \<open>0 \<le> held \<le> balance\<close> for every stream that
  rehydrates at all, that the event of a successful command always applies (so that no command
  can write a stream that does not rehydrate), its exact effect, and that holds move only from
  active to released or to consumed.
\<close>

section \<open>Model\<close>

definition WALLET_CREATED :: string where "WALLET_CREATED = ''WalletCreated''"
definition MONEY_DEPOSITED :: string where "MONEY_DEPOSITED = ''MoneyDeposited''"
definition WITHDRAWAL_COMPLETED :: string where "WITHDRAWAL_COMPLETED = ''WithdrawalCompleted''"
definition FUNDS_HELD :: string where "FUNDS_HELD = ''FundsHeld''"
definition HOLD_RELEASED :: string where "HOLD_RELEASED = ''HoldReleased''"
definition HOLD_CONSUMED :: string where "HOLD_CONSUMED = ''HoldConsumed''"

lemmas event_type_defs =
  WALLET_CREATED_def MONEY_DEPOSITED_def WITHDRAWAL_COMPLETED_def
  FUNDS_HELD_def HOLD_RELEASED_def HOLD_CONSUMED_def

datatype hold_status = Active | Released | Consumed

record hold_state =
  hs_amountMinor :: int
  hs_status :: hold_status

record wallet_aggregate =
  wa_id :: string
  wa_version :: int
  wa_ownerId :: "string option"
  wa_currency :: "string option"
  wa_balanceMinor :: int
  wa_holds :: "(string \<times> hold_state) list"

definition empty_wallet :: "string \<Rightarrow> wallet_aggregate" where
  "empty_wallet walletId =
     \<lparr>wa_id = walletId, wa_version = 0, wa_ownerId = None, wa_currency = None,
      wa_balanceMinor = 0, wa_holds = []\<rparr>"

definition createdEvent :: "string \<Rightarrow> string \<Rightarrow> string \<Rightarrow> event_data" where
  "createdEvent ownerId currency uuid =
     \<lparr>ed_eventId = uuid, ed_eventType = WALLET_CREATED, ed_schemaVersion = 2,
      ed_payload = JObj [(''ownerId'', JStr ownerId), (''currencyCode'', JStr currency)],
      ed_metadata = None, ed_correlationId = None, ed_traceId = None\<rparr>"

definition domain_event :: "string \<Rightarrow> string \<Rightarrow> (string \<times> json) list \<Rightarrow> event_data" where
  "domain_event eventType eventId payload =
     \<lparr>ed_eventId = eventId, ed_eventType = eventType, ed_schemaVersion = 1,
      ed_payload = JObj payload, ed_metadata = None, ed_correlationId = None, ed_traceId = None\<rparr>"

definition moneyEvent ::
  "wallet_aggregate \<Rightarrow> string \<Rightarrow> int \<Rightarrow> string \<Rightarrow> string \<Rightarrow> (err, event_data) res" where
  "moneyEvent a eventType walletAmountMinor eventId transactionId =
     rbind (createLedgerTransaction (wa_id a) walletAmountMinor transactionId) (\<lambda>transaction.
     Inr (domain_event eventType eventId transaction))"

definition deposit :: "wallet_aggregate \<Rightarrow> int \<Rightarrow> string \<Rightarrow> string \<Rightarrow> (err, event_data) res" where
  "deposit a amountMinor eventId transactionId =
     moneyEvent a MONEY_DEPOSITED amountMinor eventId transactionId"

definition heldMinor :: "wallet_aggregate \<Rightarrow> int" where
  "heldMinor a =
     foldl (\<lambda>sum h. sum + (if hs_status h = Active then hs_amountMinor h else 0)) 0
       (map snd (wa_holds a))"

definition availableMinor :: "wallet_aggregate \<Rightarrow> int" where
  "availableMinor a = wa_balanceMinor a - heldMinor a"

definition withdraw :: "wallet_aggregate \<Rightarrow> int \<Rightarrow> string \<Rightarrow> string \<Rightarrow> (err, event_data) res" where
  "withdraw a amountMinor eventId transactionId =
     (if availableMinor a < amountMinor then Inl (Err ''INSUFFICIENT_FUNDS'')
      else moneyEvent a WITHDRAWAL_COMPLETED (- amountMinor) eventId transactionId)"

definition placeHold :: "wallet_aggregate \<Rightarrow> string \<Rightarrow> int \<Rightarrow> string \<Rightarrow> (err, event_data option) res" where
  "placeHold a holdId amountMinor eventId =
     (if amountMinor \<le> 0 then Inl (Err ''INVALID_HOLD_AMOUNT'')
      else case map_of (wa_holds a) holdId of
        Some existing \<Rightarrow>
          if hs_amountMinor existing \<noteq> amountMinor then Inl (Err ''HOLD_CONFLICT'') else Inr None
      | None \<Rightarrow>
          if availableMinor a < amountMinor then Inl (Err ''INSUFFICIENT_FUNDS'')
          else Inr (Some (domain_event FUNDS_HELD eventId
                 [(''holdId'', JStr holdId), (''amountMinor'', JStr (show_int amountMinor))])))"

definition releaseHold :: "wallet_aggregate \<Rightarrow> string \<Rightarrow> string \<Rightarrow> (err, event_data option) res" where
  "releaseHold a holdId eventId =
     (case map_of (wa_holds a) holdId of
        None \<Rightarrow> Inl (Err ''HOLD_NOT_FOUND'')
      | Some hold \<Rightarrow>
          if hs_status hold = Released then Inr None
          else if hs_status hold = Consumed then Inl (Err ''HOLD_ALREADY_CONSUMED'')
          else Inr (Some (domain_event HOLD_RELEASED eventId [(''holdId'', JStr holdId)])))"

definition consumeHold ::
  "wallet_aggregate \<Rightarrow> string \<Rightarrow> string \<Rightarrow> string \<Rightarrow> (err, event_data option) res" where
  "consumeHold a holdId eventId transactionId =
     (case map_of (wa_holds a) holdId of
        None \<Rightarrow> Inl (Err ''HOLD_NOT_FOUND'')
      | Some hold \<Rightarrow>
          if hs_status hold = Consumed then Inr None
          else if hs_status hold = Released then Inl (Err ''HOLD_ALREADY_RELEASED'')
          else rbind (createLedgerTransaction (wa_id a) (- hs_amountMinor hold) transactionId)
                 (\<lambda>transaction.
                  Inr (Some (domain_event HOLD_CONSUMED eventId
                         ((''holdId'', JStr holdId) # transaction)))))"

definition withHold :: "wallet_aggregate \<Rightarrow> int \<Rightarrow> string \<Rightarrow> hold_state \<Rightarrow> wallet_aggregate" where
  "withHold a version holdId hold =
     a\<lparr>wa_version := version, wa_holds := AList.update holdId hold (wa_holds a)\<rparr>"

definition readHoldId :: "json \<Rightarrow> (err, string) res" where
  "readHoldId payload =
     (case jstring (jget ''holdId'' payload) of
        Some (c # cs) \<Rightarrow> Inr (c # cs)
      | _ \<Rightarrow> Inl (Err ''Invalid holdId''))"

definition readHoldPayload :: "json \<Rightarrow> (err, string \<times> int) res" where
  "readHoldPayload payload =
     rbind (readHoldId payload) (\<lambda>holdId.
     case jstring (jget ''amountMinor'' payload) of
       None \<Rightarrow> Inl (Err ''Invalid hold amount'')
     | Some amountMinor \<Rightarrow> rbind (parseMinorUnits amountMinor) (\<lambda>v. Inr (holdId, v)))"

definition wallet_postings :: "wallet_aggregate \<Rightarrow> posting list \<Rightarrow> posting list" where
  "wallet_postings a ps = filter (\<lambda>p. p_accountId p = walletAccountId (wa_id a)) ps"

definition apply_created :: "wallet_aggregate \<Rightarrow> stored_event \<Rightarrow> (err, wallet_aggregate) res" where
  "apply_created a event =
     (let currency = (if se_schemaVersion event = 1 then jget ''currency'' (se_payload event)
                      else if se_schemaVersion event = 2 then jget ''currencyCode'' (se_payload event)
                      else None)
      in case (jstring (jget ''ownerId'' (se_payload event)), jstring currency) of
           (Some ownerId, Some c) \<Rightarrow>
             if wa_version a \<noteq> 0 then Inl (Err ''Invalid WalletCreated event'')
             else Inr \<lparr>wa_id = wa_id a, wa_version = se_streamVersion event,
                       wa_ownerId = Some ownerId, wa_currency = Some c,
                       wa_balanceMinor = 0, wa_holds = []\<rparr>
         | _ \<Rightarrow> Inl (Err ''Invalid WalletCreated event''))"

definition apply_money :: "wallet_aggregate \<Rightarrow> stored_event \<Rightarrow> (err, wallet_aggregate) res" where
  "apply_money a event =
     rbind (readPostings (se_payload event)) (\<lambda>postings.
     case wallet_postings a postings of
       [p] \<Rightarrow>
         rbind (parseMinorUnits (p_amountMinor p)) (\<lambda>v.
         let nextBalance = wa_balanceMinor a + v
         in if nextBalance < heldMinor a
            then Inl (Err ''Wallet event stream spends reserved funds'')
            else Inr (a\<lparr>wa_version := se_streamVersion event, wa_balanceMinor := nextBalance\<rparr>))
     | _ \<Rightarrow> Inl (Err ''Ledger event must contain one wallet posting''))"

definition apply_held :: "wallet_aggregate \<Rightarrow> stored_event \<Rightarrow> (err, wallet_aggregate) res" where
  "apply_held a event =
     rbind (readHoldPayload (se_payload event)) (\<lambda>(holdId, amountMinor).
     if map_of (wa_holds a) holdId \<noteq> None \<or> amountMinor \<le> 0 \<or> amountMinor > availableMinor a
     then Inl (Err ''Invalid FundsHeld event'')
     else Inr (withHold a (se_streamVersion event) holdId
                 \<lparr>hs_amountMinor = amountMinor, hs_status = Active\<rparr>))"

definition apply_released :: "wallet_aggregate \<Rightarrow> stored_event \<Rightarrow> (err, wallet_aggregate) res" where
  "apply_released a event =
     rbind (readHoldId (se_payload event)) (\<lambda>holdId.
     case map_of (wa_holds a) holdId of
       None \<Rightarrow> Inl (Err ''Invalid HoldReleased event'')
     | Some hold \<Rightarrow>
         if hs_status hold \<noteq> Active then Inl (Err ''Invalid HoldReleased event'')
         else Inr (withHold a (se_streamVersion event) holdId (hold\<lparr>hs_status := Released\<rparr>)))"

definition apply_consumed :: "wallet_aggregate \<Rightarrow> stored_event \<Rightarrow> (err, wallet_aggregate) res" where
  "apply_consumed a event =
     rbind (readHoldId (se_payload event)) (\<lambda>holdId.
     case map_of (wa_holds a) holdId of
       None \<Rightarrow> Inl (Err ''Invalid HoldConsumed event'')
     | Some hold \<Rightarrow>
         if hs_status hold \<noteq> Active then Inl (Err ''Invalid HoldConsumed event'')
         else rbind (readPostings (se_payload event)) (\<lambda>postings.
              case wallet_postings a postings of
                [p] \<Rightarrow>
                  rbind (parseMinorUnits (p_amountMinor p)) (\<lambda>v.
                  if v \<noteq> - hs_amountMinor hold
                  then Inl (Err ''Hold settlement posting does not match reserved amount'')
                  else let next = withHold a (se_streamVersion event) holdId (hold\<lparr>hs_status := Consumed\<rparr>)
                       in Inr (next\<lparr>wa_balanceMinor := wa_balanceMinor next - hs_amountMinor hold\<rparr>))
              | _ \<Rightarrow> Inl (Err ''Hold settlement posting does not match reserved amount'')))"

definition apply_event :: "wallet_aggregate \<Rightarrow> stored_event \<Rightarrow> (err, wallet_aggregate) res" where
  "apply_event a event =
     (if se_streamVersion event \<noteq> wa_version a + 1
      then Inl (Err ''Wallet event stream contains a version gap'')
      else if se_eventType event \<noteq> WALLET_CREATED \<and> se_schemaVersion event \<noteq> 1
      then Inl (Err (''Unsupported '' @ se_eventType event @ '' schema version '' @
                     show_int (se_schemaVersion event)))
      else if se_eventType event = WALLET_CREATED then apply_created a event
      else if se_eventType event = MONEY_DEPOSITED \<or> se_eventType event = WITHDRAWAL_COMPLETED
      then apply_money a event
      else if se_eventType event = FUNDS_HELD then apply_held a event
      else if se_eventType event = HOLD_RELEASED then apply_released a event
      else if se_eventType event = HOLD_CONSUMED then apply_consumed a event
      else Inl (Err (''Unsupported wallet event type: '' @ se_eventType event)))"

definition rehydrate :: "string \<Rightarrow> stored_event list \<Rightarrow> (err, wallet_aggregate) res" where
  "rehydrate walletId events = foldM apply_event (empty_wallet walletId) events"

section \<open>Held money\<close>

definition hold_weight :: "hold_state \<Rightarrow> int" where
  "hold_weight h = (if hs_status h = Active then hs_amountMinor h else 0)"

definition held_sum :: "(string \<times> hold_state) list \<Rightarrow> int" where
  "held_sum hs = sum_list (map (hold_weight \<circ> snd) hs)"

lemma heldMinor_sum: "heldMinor a = held_sum (wa_holds a)"
proof -
  have "foldl (\<lambda>sum h. sum + (if hs_status h = Active then hs_amountMinor h else 0)) n hs =
      n + sum_list (map hold_weight hs)" for n hs
    by (induction hs arbitrary: n) (auto simp: hold_weight_def)
  then show ?thesis by (simp add: heldMinor_def held_sum_def)
qed

lemma held_sum_update:
  "distinct (map fst hs) \<Longrightarrow>
   held_sum (AList.update k h hs) =
     held_sum hs - (case map_of hs k of None \<Rightarrow> 0 | Some h0 \<Rightarrow> hold_weight h0) + hold_weight h"
proof (induction hs)
  case (Cons x hs)
  obtain k' h' where x: "x = (k', h')" by (cases x)
  have "map_of hs k = None" if "k' = k" using that Cons.prems by (simp add: x map_of_eq_None_iff)
  with Cons show ?case by (auto simp: held_sum_def x)
qed (simp add: held_sum_def)

lemma held_sum_nonneg: "\<forall>h \<in> snd ` set hs. 0 < hs_amountMinor h \<Longrightarrow> 0 \<le> held_sum hs"
  unfolding held_sum_def by (rule sum_list_nonneg) (auto simp: hold_weight_def intro: less_imp_le)

lemma held_sum_member:
  assumes "\<forall>h \<in> snd ` set hs. 0 < hs_amountMinor h" and "map_of hs k = Some h"
  shows "hold_weight h \<le> held_sum hs"
proof -
  have "(k, h) \<in> set hs" by (rule map_of_SomeD [OF assms(2)])
  then have "(hold_weight \<circ> snd) (k, h) \<in> set (map (hold_weight \<circ> snd) hs)"
    unfolding set_map by (rule imageI)
  moreover have "\<forall>w \<in> set (map (hold_weight \<circ> snd) hs). 0 \<le> w"
    using assms(1) by (auto simp: hold_weight_def intro: less_imp_le)
  ultimately show ?thesis unfolding held_sum_def by (metis comp_apply member_le_sum_list snd_conv)
qed

section \<open>The invariant of an aggregate\<close>

definition wallet_inv :: "wallet_aggregate \<Rightarrow> bool" where
  "wallet_inv a = (distinct (map fst (wa_holds a)) \<and> [] \<notin> fst ` set (wa_holds a) \<and>
     (\<forall>h \<in> snd ` set (wa_holds a). 0 < hs_amountMinor h) \<and> heldMinor a \<le> wa_balanceMinor a)"

lemma wallet_inv_empty [simp]: "wallet_inv (empty_wallet w)"
  by (simp add: wallet_inv_def empty_wallet_def heldMinor_def)

lemma wallet_inv_held_nonneg: "wallet_inv a \<Longrightarrow> 0 \<le> heldMinor a"
  by (simp add: wallet_inv_def heldMinor_sum held_sum_nonneg)

lemma wallet_inv_balance_nonneg: "wallet_inv a \<Longrightarrow> 0 \<le> wa_balanceMinor a"
  using wallet_inv_held_nonneg [of a] by (simp add: wallet_inv_def)

lemma wallet_inv_hold:
  "wallet_inv a \<Longrightarrow> map_of (wa_holds a) k = Some h \<Longrightarrow> 0 < hs_amountMinor h \<and> k \<noteq> []"
  unfolding wallet_inv_def by (metis fst_conv imageI map_of_SomeD snd_conv)

text \<open>The held money after a hold is set, and the invariant kept by \<open>withHold\<close>.\<close>

lemma heldMinor_withHold:
  "wallet_inv a \<Longrightarrow> heldMinor (withHold a v k h) =
     heldMinor a - (case map_of (wa_holds a) k of None \<Rightarrow> 0 | Some h0 \<Rightarrow> hold_weight h0) + hold_weight h"
  by (simp add: heldMinor_sum withHold_def wallet_inv_def held_sum_update)

lemma holds_withHold [simp]:
  "map_of (wa_holds (withHold a v k h)) = (map_of (wa_holds a))(k \<mapsto> h)"
  by (simp add: withHold_def)

lemma withHold_simps [simp]:
  "wa_id (withHold a v k h) = wa_id a" "wa_version (withHold a v k h) = v"
  "wa_ownerId (withHold a v k h) = wa_ownerId a" "wa_currency (withHold a v k h) = wa_currency a"
  "wa_balanceMinor (withHold a v k h) = wa_balanceMinor a"
  by (simp_all add: withHold_def)

lemma heldMinor_cong [simp]:
  "heldMinor (a\<lparr>wa_balanceMinor := b\<rparr>) = heldMinor a"
  "heldMinor (a\<lparr>wa_version := v\<rparr>) = heldMinor a"
  by (simp_all add: heldMinor_def)

lemma update_snd_set:
  "distinct (map fst hs) \<Longrightarrow> set (AList.update k h hs) \<subseteq> insert (k, h) (set hs)"
  by (induction hs) auto

lemma wallet_inv_withHold:
  assumes inv: "wallet_inv a" and "k \<noteq> []" "0 < hs_amountMinor h"
    and "heldMinor (withHold a v k h) \<le> b"
  shows "wallet_inv ((withHold a v k h)\<lparr>wa_balanceMinor := b\<rparr>)"
proof -
  let ?hs = "AList.update k h (wa_holds a)"
  have d: "distinct (map fst (wa_holds a))" using inv by (simp add: wallet_inv_def)
  have sub: "set ?hs \<subseteq> insert (k, h) (set (wa_holds a))" by (rule update_snd_set [OF d])
  have "[] \<notin> fst ` set ?hs" and "\<forall>h \<in> snd ` set ?hs. 0 < hs_amountMinor h"
    using sub inv assms(2,3) by (force simp: wallet_inv_def)+
  with d assms(4) show ?thesis by (simp add: wallet_inv_def withHold_def heldMinor_def)
qed

section \<open>Applying an event\<close>

lemma readHoldId_nonempty: "readHoldId p = Inr k \<Longrightarrow> k \<noteq> []"
  by (auto simp: readHoldId_def split: option.splits list.splits)

lemma apply_money_ok:
  "apply_money a e = Inr a' \<Longrightarrow>
    \<exists>b. a' = a\<lparr>wa_version := se_streamVersion e, wa_balanceMinor := b\<rparr> \<and> heldMinor a \<le> b"
  by (auto simp: apply_money_def result_simps Let_def split: if_splits)

lemma apply_held_ok:
  "apply_held a e = Inr a' \<Longrightarrow>
    \<exists>k m. a' = withHold a (se_streamVersion e) k \<lparr>hs_amountMinor = m, hs_status = Active\<rparr> \<and>
      k \<noteq> [] \<and> map_of (wa_holds a) k = None \<and> 0 < m \<and> m \<le> availableMinor a"
  by (fastforce simp: apply_held_def readHoldPayload_def result_simps
      split: option.splits if_splits dest!: readHoldId_nonempty)

lemma apply_released_ok:
  "apply_released a e = Inr a' \<Longrightarrow>
    \<exists>k h. a' = withHold a (se_streamVersion e) k (h\<lparr>hs_status := Released\<rparr>) \<and>
      k \<noteq> [] \<and> map_of (wa_holds a) k = Some h \<and> hs_status h = Active"
  by (auto simp: apply_released_def result_simps
      split: option.splits if_splits dest!: readHoldId_nonempty)

lemma apply_consumed_ok:
  "apply_consumed a e = Inr a' \<Longrightarrow>
    \<exists>k h. a' = (withHold a (se_streamVersion e) k (h\<lparr>hs_status := Consumed\<rparr>))
                 \<lparr>wa_balanceMinor := wa_balanceMinor a - hs_amountMinor h\<rparr> \<and>
      k \<noteq> [] \<and> map_of (wa_holds a) k = Some h \<and> hs_status h = Active"
  by (auto simp: apply_consumed_def result_simps Let_def
      split: option.splits if_splits dest!: readHoldId_nonempty)

lemma apply_created_ok:
  "apply_created a e = Inr a' \<Longrightarrow>
    wa_version a = 0 \<and> (\<exists>c u. a' = (empty_wallet (wa_id a))
      \<lparr>wa_version := se_streamVersion e, wa_ownerId := Some u, wa_currency := Some c\<rparr>)"
  by (auto simp: apply_created_def empty_wallet_def Let_def split: option.splits if_splits)

text \<open>The kinds of events that move an aggregate, as an elimination rule for its proofs.\<close>

lemma apply_event_cases:
  assumes "apply_event a e = Inr a'"
  obtains (created) "se_eventType e = WALLET_CREATED" "apply_created a e = Inr a'"
  | (money) "se_eventType e \<in> {MONEY_DEPOSITED, WITHDRAWAL_COMPLETED}" "apply_money a e = Inr a'"
  | (held) "se_eventType e = FUNDS_HELD" "apply_held a e = Inr a'"
  | (released) "se_eventType e = HOLD_RELEASED" "apply_released a e = Inr a'"
  | (consumed) "se_eventType e = HOLD_CONSUMED" "apply_consumed a e = Inr a'"
  using assms by (auto simp: apply_event_def split: if_splits)

lemma apply_event_version:
  "apply_event a e = Inr a' \<Longrightarrow> se_streamVersion e = wa_version a + 1"
  by (simp add: apply_event_def split: if_splits)

lemma apply_event_id:
  assumes "apply_event a e = Inr a'"
  shows "wa_id a' = wa_id a" and "wa_version a' = se_streamVersion e"
  using assms
  by (cases rule: apply_event_cases;
      force dest!: apply_created_ok apply_money_ok apply_held_ok apply_released_ok apply_consumed_ok
        simp: empty_wallet_def)+

lemma apply_event_inv:
  assumes ok: "apply_event a e = Inr a'" and inv: "wallet_inv a"
  shows "wallet_inv a'"
  using ok
proof (cases rule: apply_event_cases)
  case created
  then show ?thesis
    by (auto dest!: apply_created_ok simp: empty_wallet_def wallet_inv_def heldMinor_def)
next
  case money
  then obtain b where "a' = a\<lparr>wa_version := se_streamVersion e, wa_balanceMinor := b\<rparr>"
    "heldMinor a \<le> b" using apply_money_ok by blast
  with inv show ?thesis by (simp add: wallet_inv_def heldMinor_def)
next
  case held
  from apply_held_ok [OF held(2)] obtain k m where
    h: "a' = withHold a (se_streamVersion e) k \<lparr>hs_amountMinor = m, hs_status = Active\<rparr>"
      "k \<noteq> []" "map_of (wa_holds a) k = None" "0 < m" "m \<le> availableMinor a" by blast
  have "wallet_inv (a'\<lparr>wa_balanceMinor := wa_balanceMinor a\<rparr>)"
    unfolding h(1) using h inv
    by (intro wallet_inv_withHold) (auto simp: heldMinor_withHold hold_weight_def availableMinor_def)
  moreover have "a'\<lparr>wa_balanceMinor := wa_balanceMinor a\<rparr> = a'" by (simp add: h(1) withHold_def)
  ultimately show ?thesis by simp
next
  case released
  from apply_released_ok [OF released(2)] obtain k h where
    h: "a' = withHold a (se_streamVersion e) k (h\<lparr>hs_status := Released\<rparr>)" "k \<noteq> []"
      "map_of (wa_holds a) k = Some h" "hs_status h = Active" by blast
  have "wallet_inv (a'\<lparr>wa_balanceMinor := wa_balanceMinor a\<rparr>)"
    unfolding h(1) using h inv wallet_inv_hold [OF inv h(3)]
    by (intro wallet_inv_withHold) (auto simp: heldMinor_withHold hold_weight_def wallet_inv_def)
  moreover have "a'\<lparr>wa_balanceMinor := wa_balanceMinor a\<rparr> = a'" by (simp add: h(1) withHold_def)
  ultimately show ?thesis by simp
next
  case consumed
  from apply_consumed_ok [OF consumed(2)] obtain k h where
    h: "a' = (withHold a (se_streamVersion e) k (h\<lparr>hs_status := Consumed\<rparr>))
           \<lparr>wa_balanceMinor := wa_balanceMinor a - hs_amountMinor h\<rparr>"
      "k \<noteq> []" "map_of (wa_holds a) k = Some h" "hs_status h = Active" by blast
  show ?thesis
    unfolding h(1) using h inv wallet_inv_hold [OF inv h(3)]
    by (intro wallet_inv_withHold) (auto simp: heldMinor_withHold hold_weight_def wallet_inv_def)
qed

section \<open>Rehydration\<close>

lemma rehydrate_Nil [simp]: "rehydrate w [] = Inr (empty_wallet w)"
  by (simp add: rehydrate_def)

lemma rehydrate_snoc: "rehydrate w (es @ [e]) = rbind (rehydrate w es) (\<lambda>a. apply_event a e)"
  by (simp add: rehydrate_def foldM_snoc)

lemma rehydrate_inv: "rehydrate w es = Inr a \<Longrightarrow> wallet_inv a"
  unfolding rehydrate_def by (erule foldM_invariant) (auto intro: apply_event_inv)

lemma rehydrate_id: "rehydrate w es = Inr a \<Longrightarrow> wa_id a = w"
  unfolding rehydrate_def
  by (erule foldM_invariant) (auto simp: empty_wallet_def dest: apply_event_id)

lemma rehydrate_version: "rehydrate w es = Inr a \<Longrightarrow> wa_version a = int (length es)"
proof (induction es arbitrary: a rule: rev_induct)
  case (snoc e es)
  then obtain b where b: "rehydrate w es = Inr b" "apply_event b e = Inr a"
    by (auto simp: rehydrate_snoc result_simps)
  show ?case
    using snoc.IH [OF b(1)] apply_event_id(2) [OF b(2)] apply_event_version [OF b(2)] by simp
qed (auto simp: empty_wallet_def)

lemma rehydrate_gapless: "rehydrate w es = Inr a \<Longrightarrow> gapless es"
proof (induction es arbitrary: a rule: rev_induct)
  case (snoc e es)
  then obtain b where "rehydrate w es = Inr b" "apply_event b e = Inr a"
    by (auto simp: rehydrate_snoc result_simps)
  with snoc.IH show ?case using apply_event_version rehydrate_version by fastforce
qed simp

section \<open>Commands and the events they decide\<close>

text \<open>\<open>carries ed e a\<close>: the row \<open>e\<close> stores the event \<open>ed\<close> as the next version of \<open>a\<close>.\<close>

definition carries :: "event_data \<Rightarrow> stored_event \<Rightarrow> wallet_aggregate \<Rightarrow> bool" where
  "carries ed e a = (se_eventType e = ed_eventType ed \<and> se_schemaVersion e = ed_schemaVersion ed \<and>
     se_payload e = ed_payload ed \<and> se_streamVersion e = wa_version a + 1)"

lemma carries_stored:
  "ar_expectedVersion req = wa_version a \<Longrightarrow> carries ed (stored_of req now 0 ed) a"
  by (simp add: carries_def stored_of_def)

lemma jget_payload [simp]:
  "jget k (JObj ((k, v) # ps)) = Some v"
  "k' \<noteq> k \<Longrightarrow> jget k (JObj ((k', v) # ps)) = jget k (JObj ps)"
  by (simp_all add: jget_def)

lemma jstring_JStr [simp]: "jstring (Some (JStr s)) = Some s"
  by (simp add: jstring_def)

lemma moneyEvent_ok:
  "moneyEvent a ty m eid tid = Inr ed \<longleftrightarrow> m \<noteq> 0 \<and>
     ed = domain_event ty eid [(''transactionId'', JStr tid),
            (''postings'', JArr (map posting_json (transaction_postings (wa_id a) m)))]"
proof (cases "m = 0")
  case True
  then show ?thesis by (simp add: moneyEvent_def createLedgerTransaction_def)
next
  case False
  then show ?thesis by (auto simp: moneyEvent_def createLedgerTransaction_eq)
qed

lemma readPostings_payload [simp]:
  "readPostings (JObj [(''transactionId'', JStr t),
      (''postings'', JArr (map posting_json (transaction_postings w m)))]) = Inr (transaction_postings w m)"
  "readPostings (JObj [(''holdId'', JStr h), (''transactionId'', JStr t),
      (''postings'', JArr (map posting_json (transaction_postings w m)))]) = Inr (transaction_postings w m)"
  by (auto intro!: readPostings_of)

lemma wallet_postings_transaction [simp]:
  "wallet_postings a (transaction_postings (wa_id a) m) =
     [\<lparr>p_accountId = walletAccountId (wa_id a), p_amountMinor = show_int m\<rparr>]"
  by (simp add: wallet_postings_def)

lemma money_event_applies:
  assumes "moneyEvent a ty m eid tid = Inr ed" "ty \<in> {MONEY_DEPOSITED, WITHDRAWAL_COMPLETED}"
    and "carries ed e a" "heldMinor a \<le> wa_balanceMinor a + m"
  shows "apply_event a e =
    Inr (a\<lparr>wa_version := wa_version a + 1, wa_balanceMinor := wa_balanceMinor a + m\<rparr>)"
  using assms
  by (auto simp: moneyEvent_ok carries_def apply_event_def domain_event_def event_type_defs
      apply_money_def)

lemma deposit_applies:
  assumes "wallet_inv a" "0 < m" "deposit a m eid tid = Inr ed" "carries ed e a"
  shows "apply_event a e =
    Inr (a\<lparr>wa_version := wa_version a + 1, wa_balanceMinor := wa_balanceMinor a + m\<rparr>)"
  using assms by (intro money_event_applies) (auto simp: deposit_def wallet_inv_def)

lemma withdraw_applies:
  assumes "withdraw a m eid tid = Inr ed" "carries ed e a"
  shows "m \<le> availableMinor a" and "apply_event a e =
    Inr (a\<lparr>wa_version := wa_version a + 1, wa_balanceMinor := wa_balanceMinor a - m\<rparr>)"
proof -
  from assms(1) show "m \<le> availableMinor a" by (simp add: withdraw_def split: if_splits)
  then show "apply_event a e =
      Inr (a\<lparr>wa_version := wa_version a + 1, wa_balanceMinor := wa_balanceMinor a - m\<rparr>)"
    using assms money_event_applies [of a WITHDRAWAL_COMPLETED "- m" eid tid ed e]
    by (simp add: withdraw_def availableMinor_def split: if_splits)
qed

lemma placeHold_ok:
  "placeHold a k m eid = Inr (Some ed) \<longleftrightarrow>
     0 < m \<and> map_of (wa_holds a) k = None \<and> m \<le> availableMinor a \<and>
     ed = domain_event FUNDS_HELD eid [(''holdId'', JStr k), (''amountMinor'', JStr (show_int m))]"
  by (auto simp: placeHold_def split: option.splits)

lemma readHoldId_payload [simp]: "k \<noteq> [] \<Longrightarrow> readHoldId (JObj ((''holdId'', JStr k) # ps)) = Inr k"
  by (cases k) (simp_all add: readHoldId_def)

lemma placeHold_applies:
  assumes "placeHold a k m eid = Inr (Some ed)" "k \<noteq> []" "carries ed e a"
  shows "apply_event a e =
    Inr (withHold a (wa_version a + 1) k \<lparr>hs_amountMinor = m, hs_status = Active\<rparr>)"
  using assms
  by (auto simp: placeHold_ok carries_def apply_event_def domain_event_def event_type_defs
      apply_held_def readHoldPayload_def)

lemma releaseHold_ok:
  "releaseHold a k eid = Inr (Some ed) \<longleftrightarrow>
     (\<exists>h. map_of (wa_holds a) k = Some h \<and> hs_status h = Active) \<and>
     ed = domain_event HOLD_RELEASED eid [(''holdId'', JStr k)]"
  by (auto simp: releaseHold_def split: option.splits) (metis hold_status.exhaust)+

lemma releaseHold_applies:
  assumes "releaseHold a k eid = Inr (Some ed)" "wallet_inv a" "carries ed e a"
  shows "\<exists>h. map_of (wa_holds a) k = Some h \<and> hs_status h = Active \<and>
    apply_event a e = Inr (withHold a (wa_version a + 1) k (h\<lparr>hs_status := Released\<rparr>))"
  using assms wallet_inv_hold [OF assms(2), of k]
  by (auto simp: releaseHold_ok carries_def apply_event_def domain_event_def event_type_defs
      apply_released_def)

lemma consumeHold_ok:
  assumes "wallet_inv a"
  shows "consumeHold a k eid tid = Inr (Some ed) \<longleftrightarrow>
     (\<exists>h. map_of (wa_holds a) k = Some h \<and> hs_status h = Active \<and>
      ed = domain_event HOLD_CONSUMED eid [(''holdId'', JStr k), (''transactionId'', JStr tid),
        (''postings'', JArr (map posting_json (transaction_postings (wa_id a) (- hs_amountMinor h))))])"
  using wallet_inv_hold [OF assms, of k]
  by (auto simp: consumeHold_def createLedgerTransaction_eq split: option.splits)
    (metis hold_status.exhaust)+

lemma consumeHold_applies:
  assumes "consumeHold a k eid tid = Inr (Some ed)" "wallet_inv a" "carries ed e a"
  shows "\<exists>h. map_of (wa_holds a) k = Some h \<and> hs_status h = Active \<and>
    apply_event a e = Inr ((withHold a (wa_version a + 1) k (h\<lparr>hs_status := Consumed\<rparr>))
      \<lparr>wa_balanceMinor := wa_balanceMinor a - hs_amountMinor h\<rparr>)"
  using assms wallet_inv_hold [OF assms(2), of k]
  by (auto simp: consumeHold_ok carries_def apply_event_def domain_event_def event_type_defs
      apply_consumed_def)

lemma createdEvent_applies:
  assumes "carries (createdEvent u c uuid) e (empty_wallet w)"
  shows "apply_event (empty_wallet w) e = Inr ((empty_wallet w)
    \<lparr>wa_version := 1, wa_ownerId := Some u, wa_currency := Some c\<rparr>)"
  using assms
  by (auto simp: carries_def createdEvent_def apply_event_def apply_created_def empty_wallet_def)

section \<open>The life of a hold\<close>

definition hold_le :: "hold_state option \<Rightarrow> hold_state option \<Rightarrow> bool" where
  "hold_le before after =
     (case before of None \<Rightarrow> True
      | Some h \<Rightarrow> (case after of None \<Rightarrow> False
         | Some h' \<Rightarrow> hs_amountMinor h' = hs_amountMinor h \<and> (hs_status h = Active \<or> h' = h)))"

lemma hold_le_refl [simp]: "hold_le x x"
  by (auto simp: hold_le_def split: option.splits)

lemma hold_le_trans: "hold_le x y \<Longrightarrow> hold_le y z \<Longrightarrow> hold_le x z"
  by (auto simp: hold_le_def split: option.splits)

lemmas apply_ok_dests =
  apply_created_ok apply_money_ok apply_held_ok apply_released_ok apply_consumed_ok

lemma apply_event_holds:
  assumes "apply_event a e = Inr a'" and v: "0 < wa_version a"
  shows "hold_le (map_of (wa_holds a) k) (map_of (wa_holds a') k)"
  using assms(1) by (cases rule: apply_event_cases)
    (use v in \<open>fastforce dest!: apply_ok_dests simp: hold_le_def split: option.splits\<close>)+

lemma apply_event_identity:
  assumes "apply_event a e = Inr a'" and v: "0 < wa_version a"
  shows "wa_ownerId a' = wa_ownerId a \<and> wa_currency a' = wa_currency a"
  using assms(1) by (cases rule: apply_event_cases) (use v in \<open>force dest!: apply_ok_dests\<close>)+

section \<open>The balance is the sum of the postings\<close>

definition posted :: "string \<Rightarrow> stored_event \<Rightarrow> int" where
  "posted w e =
     (if se_eventType e \<in> {MONEY_DEPOSITED, WITHDRAWAL_COMPLETED, HOLD_CONSUMED}
      then (case readPostings (se_payload e) of
              Inl _ \<Rightarrow> 0
            | Inr ps \<Rightarrow> sum_list (map (\<lambda>p. case parseMinorUnits (p_amountMinor p) of Inl _ \<Rightarrow> 0 | Inr v \<Rightarrow> v)
                         (filter (\<lambda>p. p_accountId p = walletAccountId w) ps)))
      else 0)"

lemma apply_event_posted:
  assumes "apply_event a e = Inr a'" "wa_version a = 0 \<longrightarrow> wa_balanceMinor a = 0"
  shows "wa_balanceMinor a' = wa_balanceMinor a + posted (wa_id a) e"
  using assms(1)
proof (cases rule: apply_event_cases)
  case created
  with assms(2) show ?thesis
    by (auto dest!: apply_created_ok simp: posted_def event_type_defs empty_wallet_def)
next
  case money
  then show ?thesis
    by (auto simp: apply_money_def posted_def wallet_postings_def result_simps Let_def split: if_splits)
next
  case held
  then show ?thesis by (auto dest!: apply_held_ok simp: posted_def event_type_defs)
next
  case released
  then show ?thesis by (auto dest!: apply_released_ok simp: posted_def event_type_defs)
next
  case consumed
  then show ?thesis
    by (auto simp: apply_consumed_def posted_def wallet_postings_def result_simps Let_def
        split: if_splits option.splits)
qed

lemma rehydrate_posted: "rehydrate w es = Inr a \<Longrightarrow> wa_balanceMinor a = sum_list (map (posted w) es)"
proof (induction es arbitrary: a rule: rev_induct)
  case (snoc e es)
  then obtain b where b: "rehydrate w es = Inr b" "apply_event b e = Inr a"
    by (auto simp: rehydrate_snoc result_simps)
  have "wa_version b = 0 \<longrightarrow> wa_balanceMinor b = 0"
    using rehydrate_version [OF b(1)] snoc.IH [OF b(1)] by simp
  with b snoc.IH [OF b(1)] show ?case
    using apply_event_posted [OF b(2)] rehydrate_id [OF b(1)] by simp
qed (auto simp: empty_wallet_def)

end
