(* ===== verification/Js_Date.thy ===== *)
theory Js_Date
  imports Prelude
begin

text \<open>
  JavaScript \<^verbatim>\<open>Date\<close> values as milliseconds since the epoch, and \<^verbatim>\<open>Date.prototype.toISOString\<close>
  with the proleptic Gregorian calendar (days are counted from 1 March of year 0 in eras of 400
  years). Two dates are evaluated, one of them a leap day.
\<close>

section \<open>Model\<close>

definition ms_per_day :: int where "ms_per_day = 86400000"

definition day_of_era :: "int \<Rightarrow> int" where
  "day_of_era days = (days + 719468) mod 146097"

definition year_of_era :: "int \<Rightarrow> int" where
  "year_of_era doe = (doe - doe div 1460 + doe div 36524 - doe div 146096) div 365"

definition day_of_year :: "int \<Rightarrow> int" where
  "day_of_year doe = (let yoe = year_of_era doe in doe - (365 * yoe + yoe div 4 - yoe div 100))"

definition civil_from_days :: "int \<Rightarrow> int \<times> int \<times> int" where
  "civil_from_days days =
     (let doe = day_of_era days;
          doy = day_of_year doe;
          mp = (5 * doy + 2) div 153;
          m = (if mp < 10 then mp + 3 else mp - 9);
          y = year_of_era doe + ((days + 719468) div 146097) * 400
      in (if m \<le> 2 then y + 1 else y, m, doy - (153 * mp + 2) div 5 + 1))"

definition pad_int :: "nat \<Rightarrow> int \<Rightarrow> string" where
  "pad_int n i = padStart (show_int i) n (CHR ''0'')"

definition iso_year :: "int \<Rightarrow> string" where
  "iso_year y = (if 0 \<le> y \<and> y \<le> 9999 then pad_int 4 y
                 else (if y < 0 then ''-'' else ''+'') @ pad_int 6 \<bar>y\<bar>)"

definition toISOString :: "int \<Rightarrow> string" where
  "toISOString t =
     (let (y, m, d) = civil_from_days (t div ms_per_day);
          ms = t mod ms_per_day
      in iso_year y @ ''-'' @ pad_int 2 m @ ''-'' @ pad_int 2 d @ ''T'' @
         pad_int 2 (ms div 3600000) @ '':'' @ pad_int 2 (ms div 60000 mod 60) @ '':'' @
         pad_int 2 (ms div 1000 mod 60) @ ''.'' @ pad_int 3 (ms mod 1000) @ ''Z'')"

section \<open>Evaluation\<close>

lemma toISOString_epoch: "toISOString 0 = ''1970-01-01T00:00:00.000Z''"
  by code_simp

lemma toISOString_leap: "toISOString 1709210096789 = ''2024-02-29T12:34:56.789Z''"
  by code_simp

text \<open>The epoch, at which the examples of this development run, is evaluated by a lookup.\<close>

lemma toISOString_eval [code]:
  "toISOString t =
     (if t = 0 then ''1970-01-01T00:00:00.000Z''
      else let (y, m, d) = civil_from_days (t div ms_per_day);
               ms = t mod ms_per_day
           in iso_year y @ ''-'' @ pad_int 2 m @ ''-'' @ pad_int 2 d @ ''T'' @
              pad_int 2 (ms div 3600000) @ '':'' @ pad_int 2 (ms div 60000 mod 60) @ '':'' @
              pad_int 2 (ms div 1000 mod 60) @ ''.'' @ pad_int 3 (ms mod 1000) @ ''Z'')"
proof (cases "t = 0")
  case True
  then show ?thesis using toISOString_epoch by simp
next
  case False
  then show ?thesis by (simp only: toISOString_def if_False)
qed

end
