(* ===== verification/Outbox.thy ===== *)
theory Outbox
  imports Errors Js_Number Js_Date
begin

text \<open>
  The transactional outbox, which the ledger service and the payments service both have in a copy of
  their own: the table \<^verbatim>\<open>integration_outbox\<close>, the envelope of an integration event and its
  JSON text, and the locale \<open>leased_outbox\<close> with what both publishers rely on. The times of the
  columns are milliseconds since the epoch. A row lock of a concurrent transaction
  (\<^verbatim>\<open>FOR UPDATE SKIP LOCKED\<close>) is the argument \<open>locked\<close>, the event ids that are locked.
\<close>

section \<open>Model\<close>

record outbox_message =
  ob_eventId :: string
  ob_routingKey :: string
  ob_event :: json
  ob_attempts :: int
  ob_availableAt :: int
  ob_lockedUntil :: "int option"
  ob_lockId :: "string option"
  ob_publishedAt :: "int option"
  ob_lastError :: "string option"
  ob_createdAt :: int

type_synonym outbox_table = "outbox_message list"

text \<open>What OpenTelemetry's context holds when an event is enqueued.\<close>

record trace_context =
  tc_traceId :: "string option"
  tc_traceparent :: "string option"
  tc_tracestate :: "string option"

record integration_event =
  ie_eventId :: string
  ie_eventType :: string
  ie_schemaVersion :: int
  ie_occurredAt :: string
  ie_producer :: string
  ie_correlationId :: "string option"
  ie_traceId :: "string option"
  ie_traceparent :: "string option"
  ie_tracestate :: "string option"
  ie_aggregateType :: string
  ie_aggregateId :: string
  ie_aggregateVersion :: int
  ie_payload :: "(string \<times> json) list"

definition json_nullable :: "string option \<Rightarrow> json" where
  "json_nullable s = (case s of None \<Rightarrow> JNull | Some t \<Rightarrow> JStr t)"

definition json_optional :: "string \<Rightarrow> string option \<Rightarrow> (string \<times> json) list" where
  "json_optional k s = (case s of None \<Rightarrow> [] | Some t \<Rightarrow> [(k, JStr t)])"

definition json_int :: "int \<Rightarrow> json" where
  "json_int i = JNum (JsFin (of_int i))"

definition envelope_json :: "integration_event \<Rightarrow> json" where
  "envelope_json e = JObj (
     [(''eventId'', JStr (ie_eventId e)), (''eventType'', JStr (ie_eventType e)),
      (''schemaVersion'', json_int (ie_schemaVersion e)), (''occurredAt'', JStr (ie_occurredAt e)),
      (''producer'', JStr (ie_producer e)), (''correlationId'', json_nullable (ie_correlationId e)),
      (''traceId'', json_nullable (ie_traceId e))] @
     json_optional ''traceparent'' (ie_traceparent e) @
     json_optional ''tracestate'' (ie_tracestate e) @
     [(''aggregate'', JObj [(''type'', JStr (ie_aggregateType e)), (''id'', JStr (ie_aggregateId e)),
         (''version'', json_int (ie_aggregateVersion e))]),
      (''payload'', JObj (ie_payload e))])"

definition new_outbox_row :: "string \<Rightarrow> string \<Rightarrow> json \<Rightarrow> int \<Rightarrow> int \<Rightarrow> outbox_message" where
  "new_outbox_row eventId routingKey event availableAt now =
     \<lparr>ob_eventId = eventId, ob_routingKey = routingKey, ob_event = event, ob_attempts = 0,
      ob_availableAt = availableAt, ob_lockedUntil = None, ob_lockId = None,
      ob_publishedAt = None, ob_lastError = None, ob_createdAt = now\<rparr>"

definition insert_outbox :: "outbox_table \<Rightarrow> outbox_message \<Rightarrow> (err, outbox_table) res" where
  "insert_outbox ob m =
     (if 200 < length (ob_routingKey m) then Inl (QueryFailed ''22001'' '''')
      else if ob_attempts m < 0 then Inl (check_violation ''CHK_integration_outbox_attempts'')
      else if \<exists>r \<in> set ob. ob_eventId r = ob_eventId m
      then Inl (unique_violation ''integration_outbox_pkey'')
      else Inr (ob @ [m]))"

text \<open>The order of candidates, \<^verbatim>\<open>ORDER BY created_at, event_id\<close>; uuids compare bytewise.\<close>

fun bytes_le :: "string \<Rightarrow> string \<Rightarrow> bool" where
  "bytes_le [] _ = True"
| "bytes_le (_ # _) [] = False"
| "bytes_le (c # cs) (d # ds) =
     ((of_char c :: nat) < of_char d \<or> (c = d \<and> bytes_le cs ds))"

definition outbox_before :: "outbox_message \<Rightarrow> outbox_message \<Rightarrow> bool" where
  "outbox_before m n = (ob_createdAt m < ob_createdAt n \<or>
     (ob_createdAt m = ob_createdAt n \<and> bytes_le (ob_eventId m) (ob_eventId n)))"

fun insert_ordered :: "outbox_message \<Rightarrow> outbox_message list \<Rightarrow> outbox_message list" where
  "insert_ordered m [] = [m]"
| "insert_ordered m (n # ns) = (if outbox_before m n then m # n # ns else n # insert_ordered m ns)"

definition order_outbox :: "outbox_message list \<Rightarrow> outbox_message list" where
  "order_outbox ms = foldr insert_ordered ms []"

definition claimable :: "int \<Rightarrow> outbox_message \<Rightarrow> bool" where
  "claimable now m = (ob_publishedAt m = None \<and> ob_availableAt m \<le> now \<and>
     (case ob_lockedUntil m of None \<Rightarrow> True | Some u \<Rightarrow> u < now))"

definition update_outbox ::
  "(outbox_message \<Rightarrow> bool) \<Rightarrow> (outbox_message \<Rightarrow> outbox_message) \<Rightarrow> outbox_table \<Rightarrow> outbox_table" where
  "update_outbox sel upd ob = map (\<lambda>m. if sel m then upd m else m) ob"

section \<open>Lemmas\<close>

lemma insert_outbox_ok:
  "insert_outbox ob m = Inr ob' \<Longrightarrow> ob' = ob @ [m] \<and> ob_eventId m \<notin> ob_eventId ` set ob"
  by (auto simp: insert_outbox_def split: if_splits)

lemma set_insert_ordered [simp]: "set (insert_ordered m ms) = insert m (set ms)"
  by (induction ms) auto

lemma set_order_outbox [simp]: "set (order_outbox ms) = set ms"
  by (induction ms) (simp_all add: order_outbox_def)

lemma length_order_outbox [simp]: "length (order_outbox ms) = length ms"
proof -
  have "length (insert_ordered m ns) = Suc (length ns)" for m ns by (induction ns) auto
  then show ?thesis by (induction ms) (simp_all add: order_outbox_def)
qed

lemma update_outbox_ids [simp]:
  "(\<And>m. ob_eventId (upd m) = ob_eventId m) \<Longrightarrow>
    map ob_eventId (update_outbox sel upd ob) = map ob_eventId ob"
  by (simp add: update_outbox_def)

lemma json_int_sel [simp]: "json_int i = JNum x \<longleftrightarrow> x = JsFin (of_int i)"
  by (auto simp: json_int_def)

section \<open>The contract of a leased outbox\<close>

text \<open>
  \<open>claim\<close> takes a lease on due messages and answers with them, \<open>settle\<close> records the outcome of one
  publication under that lease.
\<close>

locale leased_outbox =
  fixes claim :: "string \<Rightarrow> int \<Rightarrow> nat \<Rightarrow> string list \<Rightarrow> outbox_table \<Rightarrow> outbox_table \<times> outbox_message list"
    and settle :: "outbox_message \<Rightarrow> string \<Rightarrow> string option \<Rightarrow> int \<Rightarrow> int \<Rightarrow> outbox_table \<Rightarrow> (err, outbox_table) res"
  assumes claim_ids: "claim lock now n locked ob = (ob', ms) \<Longrightarrow> map ob_eventId ob' = map ob_eventId ob"
    and claim_due: "claim lock now n locked ob = (ob', ms) \<Longrightarrow> m \<in> set ms \<Longrightarrow>
      \<exists>r \<in> set ob. claimable now r \<and> ob_eventId r = ob_eventId m"
    and claim_published: "claim lock now n locked ob = (ob', ms) \<Longrightarrow>
      map ob_publishedAt ob' = map ob_publishedAt ob"
    and claim_leased: "claim lock now n locked ob = (ob', ms) \<Longrightarrow> m \<in> set ms \<Longrightarrow>
      m \<in> set ob' \<and> ob_lockId m = Some lock \<and> (\<exists>u > now. ob_lockedUntil m = Some u)"
    and settle_ids: "settle m lock outcome t now ob = Inr ob' \<Longrightarrow> map ob_eventId ob' = map ob_eventId ob"
    and settle_failed: "settle m lock (Some e) t now ob = Inr ob' \<Longrightarrow>
      map ob_publishedAt ob' = map ob_publishedAt ob"
    and settle_lease: "settle m lock outcome t now ob = Inr ob' \<Longrightarrow> r \<in> set ob' \<Longrightarrow> r \<notin> set ob \<Longrightarrow>
      ob_eventId r = ob_eventId m"
begin

text \<open>While a lease is live, no second claim returns the message.\<close>

lemma live_lease_exclusive:
  assumes "claim lock now n locked ob = (ob1, ms)" "m \<in> set ms" "distinct (map ob_eventId ob)"
    and "\<And>u. ob_lockedUntil m = Some u \<Longrightarrow> now' \<le> u"
    and "claim lock' now' n' locked' ob1 = (ob2, ms')" "m' \<in> set ms'"
  shows "ob_eventId m' \<noteq> ob_eventId m"
proof
  assume eq: "ob_eventId m' = ob_eventId m"
  from claim_due [OF assms(5,6)] obtain r where r: "r \<in> set ob1" "claimable now' r"
    "ob_eventId r = ob_eventId m'" by blast
  from claim_leased [OF assms(1,2)] obtain u where u: "m \<in> set ob1" "ob_lockedUntil m = Some u" by blast
  have "distinct (map ob_eventId ob1)" using claim_ids [OF assms(1)] assms(3) by simp
  with r u eq have "r = m" by (simp add: distinct_map inj_on_def)
  with r(2) u(2) assms(4) [OF u(2)] show False by (simp add: claimable_def)
qed

text \<open>A published message is never claimed again.\<close>

lemma published_not_claimed:
  assumes "claim lock now n locked ob = (ob', ms)" "m \<in> set ms" "distinct (map ob_eventId ob)"
    and "r \<in> set ob" "ob_publishedAt r = Some t"
  shows "ob_eventId m \<noteq> ob_eventId r"
proof
  assume eq: "ob_eventId m = ob_eventId r"
  from claim_due [OF assms(1,2)] obtain q where q: "q \<in> set ob" "claimable now q"
    "ob_eventId q = ob_eventId m" by blast
  with assms(3,4) eq have "q = r" by (simp add: distinct_map inj_on_def)
  with q(2) assms(5) show False by (simp add: claimable_def)
qed

end

end
