(* ===== verification/Ledger_Db.thy ===== *)
theory Ledger_Db
  imports Wallet_Aggregate Outbox
begin

text \<open>
  The database of the ledger service: the entities \<^verbatim>\<open>User\<close>, \<^verbatim>\<open>Wallet\<close>,
  \<^verbatim>\<open>WalletBalanceProjection\<close> and \<^verbatim>\<open>LedgerTransferSettlement\<close> as records, the tables as lists
  in insertion order (the projection table, which is updated in place, as an association list by
  its primary key), and the inserts with the key, foreign-key, check and range constraints that the
  migrations declare. A \<^verbatim>\<open>bigint\<close> column, a string in TypeScript, is an integer here.
\<close>

section \<open>Entities\<close>

datatype user_role = RoleUser | RoleAdmin

record user =
  u_id :: string
  u_email :: string
  u_passwordHash :: string
  u_refreshTokenHash :: "string option"
  u_role :: user_role

record wallet =
  w_id :: string
  w_ownerId :: string
  w_currency :: string

record wallet_balance_projection =
  bp_walletId :: string
  bp_balanceMinor :: int
  bp_heldMinor :: int
  bp_availableMinor :: int
  bp_streamVersion :: int

record ledger_transfer_settlement =
  ts_transferId :: string
  ts_senderWalletId :: string
  ts_receiverWalletId :: string
  ts_amountMinor :: int
  ts_currency :: string
  ts_destinationAmountMinor :: int
  ts_destinationCurrency :: string

record ledger_db =
  ld_users :: "user list"
  ld_wallets :: "wallet list"
  ld_events :: event_table
  ld_balances :: "(string \<times> wallet_balance_projection) list"
  ld_outbox :: outbox_table
  ld_settlements :: "ledger_transfer_settlement list"

section \<open>Constraints\<close>

text \<open>The identifiers given to a query or an insert pass through the \<^verbatim>\<open>uuid\<close> columns.\<close>

definition find_wallet :: "ledger_db \<Rightarrow> string \<Rightarrow> wallet option" where
  "find_wallet d i = find (\<lambda>w. w_id w = pg_uuid i) (ld_wallets d)"

definition uuid_wallet :: "wallet \<Rightarrow> wallet" where
  "uuid_wallet w = w\<lparr>w_id := pg_uuid (w_id w), w_ownerId := pg_uuid (w_ownerId w)\<rparr>"

definition insert_wallet :: "wallet \<Rightarrow> ledger_db \<Rightarrow> (err, ledger_db) res" where
  "insert_wallet wallet d =
     (let w = uuid_wallet wallet in
      if find_wallet d (w_id w) \<noteq> None then Inl (unique_violation ''PK_wallets'')
      else if \<exists>v \<in> set (ld_wallets d). w_ownerId v = w_ownerId w \<and> w_currency v = w_currency w
      then Inl (unique_violation ''UQ_wallets_owner_currency'')
      else if \<forall>u \<in> set (ld_users d). u_id u \<noteq> w_ownerId w then Inl (foreign_key_violation ''FK_wallets_owner'')
      else Inr (d\<lparr>ld_wallets := ld_wallets d @ [w]\<rparr>))"

definition save_projection :: "wallet_balance_projection \<Rightarrow> ledger_db \<Rightarrow> (err, ledger_db) res" where
  "save_projection p d =
     (if \<not> (pg_bigint (bp_balanceMinor p) \<and> pg_bigint (bp_heldMinor p) \<and>
            pg_bigint (bp_availableMinor p) \<and> pg_integer (bp_streamVersion p))
      then Inl numeric_out_of_range
      else if bp_balanceMinor p < 0 then Inl (check_violation ''CHK_wallet_balance_projection_non_negative'')
      else if bp_streamVersion p \<le> 0 then Inl (check_violation ''CHK_wallet_balance_projection_stream_version'')
      else if bp_heldMinor p < 0 then Inl (check_violation ''CHK_wallet_balance_projection_held_non_negative'')
      else if bp_availableMinor p < 0
      then Inl (check_violation ''CHK_wallet_balance_projection_available_non_negative'')
      else if bp_availableMinor p \<noteq> bp_balanceMinor p - bp_heldMinor p
      then Inl (check_violation ''CHK_wallet_balance_projection_formula'')
      else if find_wallet d (bp_walletId p) = None
      then Inl (foreign_key_violation ''FK_wallet_balance_projection_wallet'')
      else Inr (d\<lparr>ld_balances := AList.update (pg_uuid (bp_walletId p))
             (p\<lparr>bp_walletId := pg_uuid (bp_walletId p)\<rparr>) (ld_balances d)\<rparr>))"

definition uuid_settlement :: "ledger_transfer_settlement \<Rightarrow> ledger_transfer_settlement" where
  "uuid_settlement s = s\<lparr>ts_transferId := pg_uuid (ts_transferId s),
     ts_senderWalletId := pg_uuid (ts_senderWalletId s),
     ts_receiverWalletId := pg_uuid (ts_receiverWalletId s)\<rparr>"

definition insert_settlement :: "ledger_transfer_settlement \<Rightarrow> ledger_db \<Rightarrow> (err, ledger_db) res" where
  "insert_settlement settlement d =
     (let s = uuid_settlement settlement in
      if \<not> (pg_bigint (ts_amountMinor s) \<and> pg_bigint (ts_destinationAmountMinor s))
      then Inl numeric_out_of_range
      else if 3 < length (ts_currency s) \<or> 3 < length (ts_destinationCurrency s)
      then Inl (QueryFailed ''22001'' '''')
      else if ts_amountMinor s \<le> 0 then Inl (check_violation ''CHK_ledger_transfer_settlements_amount'')
      else if ts_destinationAmountMinor s \<le> 0 then Inl (check_violation ''CHK_ledger_transfer_destination_amount'')
      else if ts_senderWalletId s = ts_receiverWalletId s
      then Inl (check_violation ''CHK_ledger_transfer_settlements_distinct_wallets'')
      else if \<exists>r \<in> set (ld_settlements d). ts_transferId r = ts_transferId s
      then Inl (unique_violation ''ledger_transfer_settlements_pkey'')
      else if find_wallet d (ts_senderWalletId s) = None
      then Inl (foreign_key_violation ''FK_ledger_transfer_settlements_sender'')
      else if find_wallet d (ts_receiverWalletId s) = None
      then Inl (foreign_key_violation ''FK_ledger_transfer_settlements_receiver'')
      else Inr (d\<lparr>ld_settlements := ld_settlements d @ [s]\<rparr>))"

definition find_settlement :: "ledger_db \<Rightarrow> string \<Rightarrow> ledger_transfer_settlement option" where
  "find_settlement d i = find (\<lambda>s. ts_transferId s = pg_uuid i) (ld_settlements d)"

definition append_event ::
  "append_request \<Rightarrow> ledger_db \<Rightarrow> int \<Rightarrow> ledger_db \<Rightarrow> (err, ledger_db \<times> stored_event list) res" where
  "append_event req seen now d =
     rbind (appendWithinTransaction req (ld_events seen) (ld_events d) now) (\<lambda>(rows, stored).
     Inr (d\<lparr>ld_events := rows\<rparr>, stored))"

section \<open>The order of committed states\<close>

text \<open>
  Wallets, events and receipts are only ever inserted, so a state committed later extends an
  earlier one.
\<close>

definition ledger_le :: "ledger_db \<Rightarrow> ledger_db \<Rightarrow> bool" where
  "ledger_le d d' = (prefix (ld_wallets d) (ld_wallets d') \<and> prefix (ld_events d) (ld_events d') \<and>
     prefix (ld_settlements d) (ld_settlements d'))"

lemma ledger_le_refl [simp]: "ledger_le d d"
  by (simp add: ledger_le_def)

lemma ledger_le_trans: "ledger_le d1 d2 \<Longrightarrow> ledger_le d2 d3 \<Longrightarrow> ledger_le d1 d3"
  by (auto simp: ledger_le_def intro: prefix_order.trans)

lemma find_wallet_Some: "find_wallet d i = Some w \<Longrightarrow> w \<in> set (ld_wallets d) \<and> w_id w = pg_uuid i"
  by (auto simp: find_wallet_def find_Some_iff)

lemma find_append: "find P (xs @ ys) = (case find P xs of Some x \<Rightarrow> Some x | None \<Rightarrow> find P ys)"
  by (induction xs) auto

lemma find_wallet_le: "find_wallet d i = Some w \<Longrightarrow> ledger_le d d' \<Longrightarrow> find_wallet d' i = Some w"
  by (auto simp: find_wallet_def ledger_le_def find_append elim!: prefixE)

lemma find_settlement_Some:
  "find_settlement d i = Some s \<Longrightarrow> s \<in> set (ld_settlements d) \<and> ts_transferId s = pg_uuid i"
  by (auto simp: find_settlement_def find_Some_iff)

lemma find_settlement_None: "find_settlement d i = None \<longleftrightarrow> (\<forall>s \<in> set (ld_settlements d). ts_transferId s \<noteq> pg_uuid i)"
  by (auto simp: find_settlement_def find_None_iff)

lemma find_settlement_le:
  "find_settlement d i = Some s \<Longrightarrow> ledger_le d d' \<Longrightarrow> find_settlement d' i = Some s"
  by (auto simp: find_settlement_def ledger_le_def find_append elim!: prefixE)

lemma find_wallet_cong: "ld_wallets d = ld_wallets d' \<Longrightarrow> find_wallet d = find_wallet d'"
  by (rule ext) (simp add: find_wallet_def)

lemma find_wallet_simps [simp]:
  "find_wallet (d\<lparr>ld_events := e\<rparr>) = find_wallet d"
  "find_wallet (d\<lparr>ld_balances := b\<rparr>) = find_wallet d"
  "find_wallet (d\<lparr>ld_outbox := ob\<rparr>) = find_wallet d"
  "find_wallet (d\<lparr>ld_settlements := s\<rparr>) = find_wallet d"
  by (rule find_wallet_cong, simp)+

lemma save_projection_ok:
  "save_projection p d = Inr d' \<Longrightarrow>
    d' = d\<lparr>ld_balances := AList.update (pg_uuid (bp_walletId p))
      (p\<lparr>bp_walletId := pg_uuid (bp_walletId p)\<rparr>) (ld_balances d)\<rparr>"
  by (auto simp: save_projection_def split: if_splits)

lemma insert_wallet_ok:
  assumes "insert_wallet wallet d = Inr d'"
  defines "w \<equiv> uuid_wallet wallet"
  shows "d' = d\<lparr>ld_wallets := ld_wallets d @ [w]\<rparr>" and "find_wallet d (w_id w) = None"
    and "\<forall>v \<in> set (ld_wallets d). \<not> (w_ownerId v = w_ownerId w \<and> w_currency v = w_currency w)"
    and "\<exists>u \<in> set (ld_users d). u_id u = w_ownerId w"
  using assms by (auto simp: insert_wallet_def Let_def split: if_splits)

lemma insert_settlement_ok:
  assumes "insert_settlement settlement d = Inr d'"
  defines "s \<equiv> uuid_settlement settlement"
  shows "d' = d\<lparr>ld_settlements := ld_settlements d @ [s]\<rparr>"
    and "\<forall>r \<in> set (ld_settlements d). ts_transferId r \<noteq> ts_transferId s"
    and "0 < ts_amountMinor s" "0 < ts_destinationAmountMinor s"
  using assms by (auto simp: insert_settlement_def Let_def split: if_splits)

end
