(* ===== verification/Ledger_Outbox.thy ===== *)
theory Ledger_Outbox
  imports Ledger_Db
begin

text \<open>
  \<^verbatim>\<open>messaging/outbox.service.ts\<close> and \<^verbatim>\<open>messaging/integration-event.ts\<close> of the ledger service:
  the envelope of a wallet event, its routing key, the insertion in the transaction of the command,
  and the polling publisher with its lease (\<open>claim\<close>), its acknowledgement and its exponential backoff.
  The broker is a parameter: the outcome of each publication, nothing or the text of
  the error. The interpretation at the end shows
  that this outbox keeps the contract of \<open>leased_outbox\<close>.
\<close>

section \<open>Model\<close>

definition LOCK_DURATION_MS :: int where "LOCK_DURATION_MS = 30000"
definition MAX_BACKOFF_MS :: int where "MAX_BACKOFF_MS = 60000"
definition DEFAULT_BATCH_SIZE :: nat where "DEFAULT_BATCH_SIZE = 50"

definition is_lower_or_digit :: "char \<Rightarrow> bool" where
  "is_lower_or_digit c = (is_digit c \<or> (let n = (of_char c :: nat) in 97 \<le> n \<and> n \<le> 122))"

definition is_upper :: "char \<Rightarrow> bool" where
  "is_upper c = (let n = (of_char c :: nat) in 65 \<le> n \<and> n \<le> 90)"

text \<open>\<^verbatim>\<open>replace(/([a-z0-9])([A-Z])/g, '$1-$2')\<close>: the capital of a match starts no other match.\<close>

fun hyphenate :: "string \<Rightarrow> string" where
  "hyphenate (a # b # cs) =
     (if is_lower_or_digit a \<and> is_upper b then a # CHR ''-'' # b # hyphenate cs
      else a # hyphenate (b # cs))"
| "hyphenate cs = cs"

definition walletRoutingKey :: "string \<Rightarrow> int \<Rightarrow> string" where
  "walletRoutingKey eventType schemaVersion =
     ''ledger.wallet.'' @ toLowerCase (hyphenate eventType) @ ''.v'' @ show_int schemaVersion"

definition wallet_envelope :: "stored_event \<Rightarrow> wallet \<Rightarrow> trace_context \<Rightarrow> integration_event" where
  "wallet_envelope event wallet tc =
     \<lparr>ie_eventId = se_eventId event,
      ie_eventType = ''ledger.wallet.'' @ se_eventType event,
      ie_schemaVersion = 1,
      ie_occurredAt = toISOString (se_createdAt event),
      ie_producer = ''ledger-service'',
      ie_correlationId = se_correlationId event,
      ie_traceId = (case tc_traceId tc of None \<Rightarrow> se_traceId event | Some t \<Rightarrow> Some t),
      ie_traceparent = tc_traceparent tc,
      ie_tracestate = tc_tracestate tc,
      ie_aggregateType = se_aggregateType event,
      ie_aggregateId = se_streamId event,
      ie_aggregateVersion = se_streamVersion event,
      ie_payload = [(''ownerId'', JStr (w_ownerId wallet)), (''currency'', JStr (w_currency wallet)),
        (''domainEventType'', JStr (se_eventType event)),
        (''domainSchemaVersion'', json_int (se_schemaVersion event)),
        (''data'', se_payload event)]\<rparr>"

definition wallet_outbox_row :: "wallet \<Rightarrow> trace_context \<Rightarrow> int \<Rightarrow> stored_event \<Rightarrow> outbox_message" where
  "wallet_outbox_row wallet tc now event =
     (let envelope = wallet_envelope event wallet tc
      in new_outbox_row (se_eventId event) (walletRoutingKey (se_eventType event) (ie_schemaVersion envelope))
           (envelope_json envelope) (se_createdAt event) now)"

definition enqueueWalletEvents ::
  "stored_event list \<Rightarrow> wallet \<Rightarrow> trace_context \<Rightarrow> int \<Rightarrow> ledger_db \<Rightarrow> (err, ledger_db) res" where
  "enqueueWalletEvents events wallet tc now d =
     rbind (foldM insert_outbox (ld_outbox d) (map (wallet_outbox_row wallet tc now) events)) (\<lambda>ob.
     Inr (d\<lparr>ld_outbox := ob\<rparr>))"

definition claim :: "string \<Rightarrow> int \<Rightarrow> nat \<Rightarrow> string list \<Rightarrow> outbox_table \<Rightarrow> outbox_table \<times> outbox_message list" where
  "claim lockId now batchSize locked ob =
     (let candidates = take batchSize (order_outbox
            (filter (\<lambda>m. claimable now m \<and> ob_eventId m \<notin> set locked) ob));
          chosen = (\<lambda>m. ob_eventId m \<in> set (map ob_eventId candidates));
          ob' = update_outbox chosen
                  (\<lambda>m. m\<lparr>ob_lockId := Some lockId, ob_lockedUntil := Some (now + LOCK_DURATION_MS)\<rparr>) ob
      in (ob', filter chosen ob'))"

definition backoff :: "int \<Rightarrow> int" where
  "backoff attempts = min (2 ^ nat (attempts - 1) * 1000) MAX_BACKOFF_MS"

definition under_lease :: "outbox_message \<Rightarrow> string \<Rightarrow> outbox_message \<Rightarrow> bool" where
  "under_lease message lockId m = (ob_eventId m = ob_eventId message \<and> ob_lockId m = Some lockId)"

definition errorMessage :: "string \<Rightarrow> string" where
  "errorMessage m = take 2000 m"

definition settle_publication ::
  "outbox_message \<Rightarrow> string \<Rightarrow> string option \<Rightarrow> int \<Rightarrow> int \<Rightarrow> outbox_table \<Rightarrow> (err, outbox_table) res" where
  "settle_publication message lockId outcome publishedAt now ob =
     (case outcome of
        None \<Rightarrow> Inr (update_outbox (under_lease message lockId)
          (\<lambda>m. m\<lparr>ob_publishedAt := Some publishedAt, ob_lockedUntil := None, ob_lockId := None,
                 ob_lastError := None\<rparr>) ob)
      | Some error \<Rightarrow>
          let attempts = ob_attempts message + 1
          in if \<not> pg_integer attempts then Inl numeric_out_of_range
             else Inr (update_outbox (under_lease message lockId)
               (\<lambda>m. m\<lparr>ob_attempts := attempts, ob_availableAt := now + backoff attempts,
                      ob_lockedUntil := None, ob_lockId := None,
                      ob_lastError := Some (errorMessage error)\<rparr>) ob))"

text \<open>
  \<open>publishBatch\<close> without interference between its statements: \<open>publish\<close> is the broker, \<open>clock\<close> the time
  at which a message was acknowledged. The interleavings with other workers are the sequences of
  \<open>claim\<close> and \<open>settle_publication\<close>.
\<close>

definition publishBatch ::
  "string \<Rightarrow> int \<Rightarrow> nat \<Rightarrow> string list \<Rightarrow> (outbox_message \<Rightarrow> string option) \<Rightarrow> (outbox_message \<Rightarrow> int) \<Rightarrow>
     outbox_table \<Rightarrow> (err, outbox_table \<times> nat) res" where
  "publishBatch lockId now batchSize locked publish clock ob =
     (let (ob', claimed) = claim lockId now batchSize locked ob
      in rbind (foldM (\<lambda>t message. case ob_lockId message of
             None \<Rightarrow> Inl (Err (''Claimed outbox message '' @ ob_eventId message @ '' has no lock''))
           | Some l \<Rightarrow> settle_publication message l (publish message) (clock message) now t) ob' claimed)
         (\<lambda>t. Inr (t, length claimed)))"

definition backlog :: "outbox_table \<Rightarrow> nat" where
  "backlog ob = length (filter (\<lambda>m. ob_publishedAt m = None) ob)"

section \<open>Enqueueing\<close>

lemma insert_outbox_all:
  "foldM insert_outbox ob ms = Inr ob' \<Longrightarrow> ob' = ob @ ms"
proof (induction ms arbitrary: ob)
  case (Cons m ms)
  then show ?case by (fastforce simp: result_simps dest!: insert_outbox_ok)
qed simp

lemma enqueueWalletEvents_ok:
  "enqueueWalletEvents es w tc now d = Inr d' \<Longrightarrow>
    d' = d\<lparr>ld_outbox := ld_outbox d @ map (wallet_outbox_row w tc now) es\<rparr>"
  by (auto simp: enqueueWalletEvents_def result_simps dest!: insert_outbox_all)

lemma wallet_outbox_row_id [simp]: "ob_eventId (wallet_outbox_row w tc now e) = se_eventId e"
  by (simp add: wallet_outbox_row_def new_outbox_row_def Let_def)

section \<open>Publishing\<close>

lemma backoff_bounds: "1000 \<le> backoff n" "backoff n \<le> 60000"
proof -
  have "(1::int) \<le> 2 ^ nat (n - 1)" by simp
  then have "1000 \<le> 2 ^ nat (n - 1) * (1000::int)" by linarith
  then show "1000 \<le> backoff n" "backoff n \<le> 60000" by (simp_all add: backoff_def MAX_BACKOFF_MS_def)
qed

lemma backoff_mono: "1 \<le> m \<Longrightarrow> m \<le> n \<Longrightarrow> backoff m \<le> backoff n"
proof -
  assume "1 \<le> m" "m \<le> n"
  then have "(2::int) ^ nat (m - 1) \<le> 2 ^ nat (n - 1)" by (intro power_increasing) auto
  then have "2 ^ nat (m - 1) * (1000::int) \<le> 2 ^ nat (n - 1) * 1000" by simp
  then show ?thesis unfolding backoff_def by (rule min.mono) simp
qed

lemma claimed_messages:
  assumes "claim lock now n locked ob = (ob', ms)"
  shows "ms = filter (\<lambda>m. ob_eventId m \<in> ob_eventId ` set (take n (order_outbox
            (filter (\<lambda>m. claimable now m \<and> ob_eventId m \<notin> set locked) ob)))) ob'"
    and "ob' = map (\<lambda>m. if ob_eventId m \<in> ob_eventId ` set (take n (order_outbox
            (filter (\<lambda>m. claimable now m \<and> ob_eventId m \<notin> set locked) ob)))
           then m\<lparr>ob_lockId := Some lock, ob_lockedUntil := Some (now + 30000)\<rparr> else m) ob"
  using assms by (auto simp: claim_def Let_def update_outbox_def LOCK_DURATION_MS_def)

interpretation ledger_outbox: leased_outbox claim settle_publication
proof unfold_locales
  fix lock now n locked ob ob' ms m
  assume c: "claim lock now n locked ob = (ob', ms)"
  note ms = claimed_messages(1) [OF c] and ob' = claimed_messages(2) [OF c]
  show "map ob_eventId ob' = map ob_eventId ob" by (simp add: ob')
  show "map ob_publishedAt ob' = map ob_publishedAt ob" by (simp add: ob')
  assume m: "m \<in> set ms"
  then obtain c where "c \<in> set (take n (order_outbox
      (filter (\<lambda>m. claimable now m \<and> ob_eventId m \<notin> set locked) ob)))" "ob_eventId c = ob_eventId m"
    using ms by auto
  then show "\<exists>r \<in> set ob. claimable now r \<and> ob_eventId r = ob_eventId m"
    by (auto dest!: in_set_takeD)
  show "m \<in> set ob' \<and> ob_lockId m = Some lock \<and> (\<exists>u > now. ob_lockedUntil m = Some u)"
    using m ms ob' by auto
next
  fix m lock outcome t now ob ob' r e
  show "map ob_eventId ob' = map ob_eventId ob"
    if "settle_publication m lock outcome t now ob = Inr ob'"
    using that by (auto simp: settle_publication_def Let_def split: option.splits if_splits)
  show "map ob_publishedAt ob' = map ob_publishedAt ob"
    if "settle_publication m lock (Some e) t now ob = Inr ob'"
    using that by (auto simp: settle_publication_def Let_def update_outbox_def split: if_splits)
  show "ob_eventId r = ob_eventId m"
    if "settle_publication m lock outcome t now ob = Inr ob'" "r \<in> set ob'" "r \<notin> set ob"
    using that by (auto simp: settle_publication_def Let_def update_outbox_def under_lease_def
        split: option.splits if_splits)
qed

section \<open>Properties\<close>

text \<open>
  C13. While the 30 second lease of a claim is live, no other worker's claim returns the message.
\<close>

theorem outbox_lease_exclusive:
  assumes "claim lock now n locked ob = (ob1, ms)" "m \<in> set ms" "distinct (map ob_eventId ob)"
    and "now' \<le> now + 30000" "claim lock' now' n' locked' ob1 = (ob2, ms')" "m' \<in> set ms'"
  shows "ob_eventId m' \<noteq> ob_eventId m"
proof (rule ledger_outbox.live_lease_exclusive [OF assms(1-3) _ assms(5,6)])
  fix u assume "ob_lockedUntil m = Some u"
  moreover have "ob_lockedUntil m = Some (now + 30000)"
    using assms(2) claimed_messages [OF assms(1)] by auto
  ultimately show "now' \<le> u" using assms(4) by simp
qed

definition ex_row :: "string \<Rightarrow> outbox_message" where
  "ex_row i = new_outbox_row i ''k'' JNull 0 0"

theorem outbox_lease_exclusive_witness:
  "\<exists>ob1 ob2 m m'. claim ''l1'' 10 1 [] [ex_row ''a'', ex_row ''b''] = (ob1, [m]) \<and>
     claim ''l2'' 20 1 [] ob1 = (ob2, [m']) \<and> ob_eventId m' \<noteq> ob_eventId m"
proof -
  let ?c1 = "claim ''l1'' 10 1 [] [ex_row ''a'', ex_row ''b'']"
  let ?c2 = "claim ''l2'' 20 1 [] (fst ?c1)"
  have "length (snd ?c1) = 1" "length (snd ?c2) = 1" by code_simp+
  then obtain m m' where m: "snd ?c1 = [m]" "snd ?c2 = [m']" by (auto simp: length_Suc_conv)
  have c: "?c1 = (fst ?c1, [m])" "?c2 = (fst ?c2, [m'])" using m by (simp_all add: prod_eq_iff)
  have "distinct (map ob_eventId [ex_row ''a'', ex_row ''b''])" by code_simp
  from outbox_lease_exclusive [OF c(1) _ this _ c(2), of m m'] c show ?thesis by auto
qed

text \<open>
  C14. A publication that fails loses nothing: the message stays in the outbox unpublished, with one
  more attempt counted, is not offered again before one second (the backoff doubles), and is
  claimable again at the latest 60 seconds after the failed batch.
\<close>

theorem failed_publication_retried:
  assumes c: "claim lock now n locked ob = (ob1, ms)" and m: "m \<in> set ms"
    and dist: "distinct (map ob_eventId ob)" and att: "0 \<le> ob_attempts m" "ob_attempts m + 1 < 2 ^ 31"
  shows "\<exists>ob2 r. settle_publication m lock (Some e) t now ob1 = Inr ob2 \<and> r \<in> set ob2 \<and>
    ob_eventId r = ob_eventId m \<and> ob_publishedAt r = None \<and> ob_attempts r = ob_attempts m + 1 \<and>
    (\<forall>now' \<ge> now + 60000. claimable now' r) \<and> (\<forall>now' < now + 1000. \<not> claimable now' r)"
proof -
  let ?k = "ob_attempts m + 1"
  let ?r = "m\<lparr>ob_attempts := ?k, ob_availableAt := now + backoff ?k, ob_lockedUntil := None, ob_lockId := None,
              ob_lastError := Some (errorMessage e)\<rparr>"
  note l = ledger_outbox.claim_leased [OF c m]
  obtain x where x: "x \<in> set ob" "ob_eventId x = ob_eventId m" "ob_publishedAt x = ob_publishedAt m"
    using m claimed_messages [OF c] by (auto split: if_splits)
  obtain q where q: "q \<in> set ob" "claimable now q" "ob_eventId q = ob_eventId m"
    using ledger_outbox.claim_due [OF c m] by blast
  have "q = x" using x q dist by (simp add: distinct_map inj_on_def)
  with q(2) x(3) have pub: "ob_publishedAt m = None" by (simp add: claimable_def)
  have "pg_integer ?k" using att by (simp add: pg_integer_def)
  then have "\<exists>ob2. settle_publication m lock (Some e) t now ob1 = Inr ob2 \<and> ?r \<in> set ob2"
    using l by (force simp: settle_publication_def Let_def update_outbox_def under_lease_def image_iff)
  moreover have "claimable now' ?r" if "now + 60000 \<le> now'" for now'
    using that pub backoff_bounds(2) [of ?k] by (simp add: claimable_def)
  moreover have "\<not> claimable now' ?r" if "now' < now + 1000" for now'
    using that backoff_bounds(1) [of ?k] by (simp add: claimable_def)
  ultimately show ?thesis using pub by (elim exE conjE) (intro exI [of _ ?r] exI conjI; force)
qed

theorem failed_publication_retried_witness:
  "\<exists>ob1 m ob2 r. claim ''l1'' 10 1 [] [ex_row ''a''] = (ob1, [m]) \<and>
     settle_publication m ''l1'' (Some ''down'') 0 10 ob1 = Inr ob2 \<and> r \<in> set ob2 \<and> claimable 60010 r"
proof -
  let ?c = "claim ''l1'' 10 1 [] [ex_row ''a'']"
  have "length (snd ?c) = 1" "list_all (\<lambda>m. ob_attempts m = 0) (snd ?c)" by code_simp+
  then obtain m where m: "snd ?c = [m]" "ob_attempts m = 0" by (auto simp: length_Suc_conv)
  have c: "?c = (fst ?c, [m])" using m by (simp add: prod_eq_iff)
  have "distinct (map ob_eventId [ex_row ''a''])" by simp
  from failed_publication_retried [OF c _ this, of m "''down''" 0] m c show ?thesis by fastforce
qed

end
