(* ===== verification/Wallets_Service.thy ===== *)
theory Wallets_Service
  imports Ledger_Outbox
begin

text \<open>
  \<^verbatim>\<open>wallets/wallets.service.ts\<close> of the ledger service, every operation with its guards, its retries and
  its error paths. A transaction is a function from a record \<open>tx\<close> of the committed states its
  statements see (in the order of the statements, each extending the one before) to an error, which
  rolls back, or to the new state and the answer. All writes of a transaction are placed on the state
  \<open>tx_db\<close>: a row it inserted or updated earlier blocks every other writer of the same key until it
  commits. Identifiers from \<^verbatim>\<open>randomUUID\<close> and the database's generated keys are arguments, as
  are the time and the trace context. The theorems about these operations are in
  \<open>Ledger_Invariant\<close> and in the root theory.
\<close>

section \<open>Views and projections\<close>

record wallet_view =
  wv_id :: string
  wv_ownerId :: string
  wv_currency :: string
  wv_balance :: string
  wv_held :: string
  wv_available :: string

record tx =
  tx_pre :: ledger_db
  tx_read :: ledger_db
  tx_check :: ledger_db
  tx_check2 :: ledger_db
  tx_db :: ledger_db
  tx_now :: int
  tx_trace :: trace_context

definition MAX_CONCURRENCY_RETRIES :: nat where "MAX_CONCURRENCY_RETRIES = 25"

definition toView :: "wallet \<Rightarrow> wallet_balance_projection \<Rightarrow> wallet_view" where
  "toView wallet projection =
     \<lparr>wv_id = w_id wallet, wv_ownerId = w_ownerId wallet, wv_currency = w_currency wallet,
      wv_balance = formatMinorUnits (bp_balanceMinor projection),
      wv_held = formatMinorUnits (bp_heldMinor projection),
      wv_available = formatMinorUnits (bp_availableMinor projection)\<rparr>"

definition projectionFromAggregate :: "wallet_aggregate \<Rightarrow> wallet_balance_projection" where
  "projectionFromAggregate aggregate =
     \<lparr>bp_walletId = wa_id aggregate, bp_balanceMinor = wa_balanceMinor aggregate,
      bp_heldMinor = heldMinor aggregate, bp_availableMinor = availableMinor aggregate,
      bp_streamVersion = wa_version aggregate\<rparr>"

definition project :: "wallet_aggregate \<Rightarrow> ledger_db \<Rightarrow> (err, ledger_db \<times> wallet_balance_projection) res" where
  "project aggregate d =
     (let p = projectionFromAggregate aggregate in rbind (save_projection p d) (\<lambda>d'. Inr (d', p)))"

definition getProjection :: "ledger_db \<Rightarrow> string \<Rightarrow> (err, wallet_balance_projection) res" where
  "getProjection d walletId =
     (case map_of (ld_balances d) (pg_uuid walletId) of
        None \<Rightarrow> Inl (Err (''Missing balance projection for wallet '' @ walletId))
      | Some p \<Rightarrow> Inr p)"

definition assertAggregateIdentity :: "wallet \<Rightarrow> wallet_aggregate \<Rightarrow> (err, unit) res" where
  "assertAggregateIdentity wallet aggregate =
     (if wa_ownerId aggregate \<noteq> Some (w_ownerId wallet) \<or> wa_currency aggregate \<noteq> Some (w_currency wallet)
      then Inl (Err (''Wallet stream identity mismatch for '' @ w_id wallet))
      else Inr ())"

definition toPositiveMinorUnits :: "jsnum \<Rightarrow> (err, int) res" where
  "toPositiveMinorUnits amount =
     (case amountToMinorUnits amount of
        Inl (Err m) \<Rightarrow> Inl (BadRequest m)
      | Inl _ \<Rightarrow> Inl (BadRequest ''Invalid amount'')
      | Inr amountMinor \<Rightarrow>
          if amountMinor \<le> 0 then Inl (BadRequest ''Amount must be positive'') else Inr amountMinor)"

definition throwHoldDomainError :: "err \<Rightarrow> err" where
  "throwHoldDomainError e =
     (case e of
        Err m \<Rightarrow>
          if m = ''INSUFFICIENT_FUNDS'' then BadRequest ''Insufficient available funds''
          else if m = ''HOLD_NOT_FOUND'' then NotFound ''Hold not found''
          else if startsWith m ''HOLD_'' then BadRequest m
          else e
      | _ \<Rightarrow> e)"

text \<open>The loop \<^verbatim>\<open>for (let attempt = 1; attempt <= MAX_CONCURRENCY_RETRIES; attempt += 1)\<close>.\<close>

fun retry_from :: "(err \<Rightarrow> bool) \<Rightarrow> err \<Rightarrow> (nat \<Rightarrow> (err, 'a) res) \<Rightarrow> nat \<Rightarrow> nat \<Rightarrow> (err, 'a) res" where
  "retry_from again exhausted run attempt 0 = Inl exhausted"
| "retry_from again exhausted run attempt (Suc left) =
     (case run attempt of
        Inr x \<Rightarrow> Inr x
      | Inl e \<Rightarrow> if again e \<and> attempt < MAX_CONCURRENCY_RETRIES
                 then retry_from again exhausted run (Suc attempt) left
                 else Inl e)"

definition with_retries :: "(err \<Rightarrow> bool) \<Rightarrow> err \<Rightarrow> (nat \<Rightarrow> (err, 'a) res) \<Rightarrow> (err, 'a) res" where
  "with_retries again exhausted run = retry_from again exhausted run 1 MAX_CONCURRENCY_RETRIES"

definition loadAggregate :: "string \<Rightarrow> ledger_db \<Rightarrow> (err, wallet_aggregate) res" where
  "loadAggregate walletId d = rbind (loadStream (ld_events d) walletId 1) (rehydrate walletId)"

definition wallet_request :: "string \<Rightarrow> int \<Rightarrow> event_data \<Rightarrow> append_request" where
  "wallet_request streamId version event =
     \<lparr>ar_streamId = streamId, ar_aggregateType = ''Wallet'', ar_expectedVersion = version,
      ar_events = [event]\<rparr>"

text \<open>\<^verbatim>\<open>const [stored] = await ...appendWithinTransaction(...)\<close>.\<close>

definition append_one :: "append_request \<Rightarrow> ledger_db \<Rightarrow> int \<Rightarrow> ledger_db \<Rightarrow> (err, ledger_db \<times> stored_event) res" where
  "append_one req seen now d =
     rbind (append_event req seen now d) (\<lambda>(d', stored).
     case stored of [] \<Rightarrow> Inl (TypeErr ''stored is undefined'') | e # _ \<Rightarrow> Inr (d', e))"

definition store_domain_event ::
  "tx \<Rightarrow> wallet \<Rightarrow> string \<Rightarrow> wallet_aggregate \<Rightarrow> event_data \<Rightarrow> (err, ledger_db \<times> wallet_view) res" where
  "store_domain_event t wallet streamId aggregate domainEvent =
     rbind (append_one (wallet_request streamId (wa_version aggregate) domainEvent)
              (tx_check t) (tx_now t) (tx_db t)) (\<lambda>(d1, stored).
     rbind (enqueueWalletEvents [stored] wallet (tx_trace t) (tx_now t) d1) (\<lambda>d2.
     rbind (apply_event aggregate stored) (\<lambda>updated.
     rbind (project updated d2) (\<lambda>(d3, projection).
     Inr (d3, toView wallet projection)))))"

definition find_owned :: "ledger_db \<Rightarrow> string \<Rightarrow> string \<Rightarrow> wallet option" where
  "find_owned d walletId ownerId =
     find (\<lambda>w. w_id w = pg_uuid walletId \<and> w_ownerId w = pg_uuid ownerId) (ld_wallets d)"

definition find_by_owner :: "ledger_db \<Rightarrow> string \<Rightarrow> string \<Rightarrow> wallet option" where
  "find_by_owner d ownerId currency =
     find (\<lambda>w. w_ownerId w = pg_uuid ownerId \<and> w_currency w = currency) (ld_wallets d)"

section \<open>Creation and reading\<close>

definition create_wallet :: "tx \<Rightarrow> string \<Rightarrow> string \<Rightarrow> string \<Rightarrow> string \<Rightarrow> (err, ledger_db \<times> wallet_view) res" where
  "create_wallet t userId currency walletId eventId =
     (case find_by_owner (tx_check t) userId currency of
        Some raced \<Rightarrow>
          (case map_of (ld_balances (tx_check t)) (w_id raced) of
             None \<Rightarrow> Inl EntityNotFound
           | Some p \<Rightarrow> Inr (tx_db t, toView raced p))
      | None \<Rightarrow>
          let wallet = \<lparr>w_id = walletId, w_ownerId = userId, w_currency = currency\<rparr> in
          rbind (insert_wallet wallet (tx_db t)) (\<lambda>d1.
          rbind (append_one (wallet_request (w_id wallet) 0 (createdEvent userId currency eventId))
                   (tx_check2 t) (tx_now t) d1) (\<lambda>(d2, created).
          rbind (enqueueWalletEvents [created] wallet (tx_trace t) (tx_now t) d2) (\<lambda>d3.
          let projection = \<lparr>bp_walletId = w_id wallet, bp_balanceMinor = 0, bp_heldMinor = 0,
                            bp_availableMinor = 0, bp_streamVersion = se_streamVersion created\<rparr> in
          rbind (save_projection projection d3) (\<lambda>d4.
          Inr (d4, toView wallet projection))))))"

definition getOrCreateForUser ::
  "tx \<Rightarrow> string \<Rightarrow> string \<Rightarrow> string \<Rightarrow> string \<Rightarrow> (err, ledger_db \<times> wallet_view) res" where
  "getOrCreateForUser t userId currency walletId eventId =
     (case find_by_owner (tx_pre t) userId currency of
        Some existing \<Rightarrow>
          rbind (getProjection (tx_read t) (w_id existing)) (\<lambda>p. Inr (tx_db t, toView existing p))
      | None \<Rightarrow>
          (case create_wallet t userId currency walletId eventId of
             Inr r \<Rightarrow> Inr r
           | Inl e \<Rightarrow>
               if \<not> isUniqueViolation e then Inl e
               else (case find_by_owner (tx_db t) userId currency of
                  None \<Rightarrow> Inl (Err ''Wallet creation did not produce a persistent wallet'')
                | Some wallet \<Rightarrow>
                    rbind (getProjection (tx_db t) (w_id wallet)) (\<lambda>p. Inr (tx_db t, toView wallet p)))))"

definition listForUser ::
  "tx \<Rightarrow> string \<Rightarrow> string \<Rightarrow> string \<Rightarrow> (err, ledger_db \<times> wallet_view list) res" where
  "listForUser t userId walletId eventId =
     rbind (getOrCreateForUser t userId ''USD'' walletId eventId) (\<lambda>(d, _).
     rbind (mapM (\<lambda>wallet. case map_of (ld_balances d) (w_id wallet) of
              None \<Rightarrow> Inl (Err (''Missing balance projection for wallet '' @ w_id wallet))
            | Some p \<Rightarrow> Inr (toView wallet p))
            (filter (\<lambda>w. w_ownerId w = pg_uuid userId) (ld_wallets d))) (\<lambda>views.
     Inr (d, views)))"

definition getById :: "ledger_db \<Rightarrow> string \<Rightarrow> string \<Rightarrow> (err, wallet_view) res" where
  "getById d walletId ownerId =
     (case find_owned d walletId ownerId of
        None \<Rightarrow> Inl (NotFound ''Wallet not found'')
      | Some wallet \<Rightarrow> rbind (getProjection d (w_id wallet)) (\<lambda>p. Inr (toView wallet p)))"

section \<open>Money commands\<close>

datatype money_operation = DepositOp | WithdrawOp

definition executeMoneyCommandAttempt ::
  "tx \<Rightarrow> string \<Rightarrow> string \<Rightarrow> int \<Rightarrow> money_operation \<Rightarrow> string \<Rightarrow> string \<Rightarrow> (err, ledger_db \<times> wallet_view) res" where
  "executeMoneyCommandAttempt t walletId ownerId amountMinor operation eventId transactionId =
     (case find_owned (tx_read t) walletId ownerId of
        None \<Rightarrow> Inl (NotFound ''Wallet not found'')
      | Some wallet \<Rightarrow>
          rbind (loadAggregate walletId (tx_read t)) (\<lambda>aggregate.
          rbind (assertAggregateIdentity wallet aggregate) (\<lambda>_.
          rbind (map_err (\<lambda>e. if e = Err ''INSUFFICIENT_FUNDS'' then BadRequest ''Insufficient funds'' else e)
                   (case operation of
                      DepositOp \<Rightarrow> deposit aggregate amountMinor eventId transactionId
                    | WithdrawOp \<Rightarrow> withdraw aggregate amountMinor eventId transactionId)) (\<lambda>domainEvent.
          store_domain_event t wallet (w_id wallet) aggregate domainEvent))))"

definition executeMoneyCommand ::
  "(nat \<Rightarrow> tx) \<Rightarrow> string \<Rightarrow> string \<Rightarrow> jsnum \<Rightarrow> money_operation \<Rightarrow> string \<Rightarrow> string \<Rightarrow>
     (err, ledger_db \<times> wallet_view) res" where
  "executeMoneyCommand ts walletId ownerId amount operation eventId transactionId =
     rbind (toPositiveMinorUnits amount) (\<lambda>amountMinor.
     with_retries is_version_conflict (Err ''Unreachable concurrency retry state'')
       (\<lambda>attempt. executeMoneyCommandAttempt (ts attempt) walletId ownerId amountMinor operation
                    eventId transactionId))"

definition deposit_wallet ::
  "(nat \<Rightarrow> tx) \<Rightarrow> string \<Rightarrow> string \<Rightarrow> jsnum \<Rightarrow> string \<Rightarrow> string \<Rightarrow> (err, ledger_db \<times> wallet_view) res" where
  "deposit_wallet ts walletId ownerId amount eventId transactionId =
     executeMoneyCommand ts walletId ownerId amount DepositOp eventId transactionId"

definition withdraw_wallet ::
  "(nat \<Rightarrow> tx) \<Rightarrow> string \<Rightarrow> string \<Rightarrow> jsnum \<Rightarrow> string \<Rightarrow> string \<Rightarrow> (err, ledger_db \<times> wallet_view) res" where
  "withdraw_wallet ts walletId ownerId amount eventId transactionId =
     executeMoneyCommand ts walletId ownerId amount WithdrawOp eventId transactionId"

section \<open>Holds\<close>

datatype hold_operation = PlaceOp | ReleaseOp | ConsumeOp

definition decide_hold ::
  "wallet_aggregate \<Rightarrow> string \<Rightarrow> hold_operation \<Rightarrow> int option \<Rightarrow> bool \<Rightarrow> string \<Rightarrow> string \<Rightarrow>
     (err, event_data option) res" where
  "decide_hold aggregate holdId operation amountMinor allowMissingRelease eventId transactionId =
     (case operation of
        PlaceOp \<Rightarrow>
          (case amountMinor of
             None \<Rightarrow> Inl (Err ''Hold amount is required'')
           | Some m \<Rightarrow> placeHold aggregate holdId m eventId)
      | ReleaseOp \<Rightarrow>
          if allowMissingRelease \<and> map_of (wa_holds aggregate) holdId = None then Inr None
          else releaseHold aggregate holdId eventId
      | ConsumeOp \<Rightarrow> consumeHold aggregate holdId eventId transactionId)"

definition executeHoldCommandAttempt ::
  "tx \<Rightarrow> string \<Rightarrow> string \<Rightarrow> string \<Rightarrow> hold_operation \<Rightarrow> int option \<Rightarrow> bool \<Rightarrow> string \<Rightarrow> string \<Rightarrow>
     (err, ledger_db \<times> wallet_view) res" where
  "executeHoldCommandAttempt t walletId ownerId holdId operation amountMinor allowMissingRelease eventId transactionId =
     (case find_owned (tx_read t) walletId ownerId of
        None \<Rightarrow> Inl (NotFound ''Wallet not found'')
      | Some wallet \<Rightarrow>
          rbind (loadAggregate walletId (tx_read t)) (\<lambda>aggregate.
          rbind (assertAggregateIdentity wallet aggregate) (\<lambda>_.
          rbind (map_err throwHoldDomainError
                   (decide_hold aggregate holdId operation amountMinor allowMissingRelease
                      eventId transactionId)) (\<lambda>decision.
          case decision of
            None \<Rightarrow> Inr (tx_db t, toView wallet (projectionFromAggregate aggregate))
          | Some domainEvent \<Rightarrow> store_domain_event t wallet walletId aggregate domainEvent))))"

definition executeHoldCommand ::
  "(nat \<Rightarrow> tx) \<Rightarrow> string \<Rightarrow> string \<Rightarrow> string \<Rightarrow> hold_operation \<Rightarrow> int option \<Rightarrow> bool \<Rightarrow> string \<Rightarrow> string \<Rightarrow>
     (err, ledger_db \<times> wallet_view) res" where
  "executeHoldCommand ts walletId ownerId holdId operation amountMinor allowMissingRelease eventId transactionId =
     with_retries is_version_conflict (Err ''Unreachable hold concurrency retry state'')
       (\<lambda>attempt. executeHoldCommandAttempt (ts attempt) walletId ownerId holdId operation amountMinor
                    allowMissingRelease eventId transactionId)"

definition placeHold_wallet ::
  "(nat \<Rightarrow> tx) \<Rightarrow> string \<Rightarrow> string \<Rightarrow> string \<Rightarrow> jsnum \<Rightarrow> string \<Rightarrow> string \<Rightarrow> (err, ledger_db \<times> wallet_view) res" where
  "placeHold_wallet ts walletId ownerId holdId amount eventId transactionId =
     rbind (toPositiveMinorUnits amount) (\<lambda>amountMinor.
     executeHoldCommand ts walletId ownerId holdId PlaceOp (Some amountMinor) False eventId transactionId)"

definition releaseHold_wallet ::
  "(nat \<Rightarrow> tx) \<Rightarrow> string \<Rightarrow> string \<Rightarrow> string \<Rightarrow> string \<Rightarrow> string \<Rightarrow> (err, ledger_db \<times> wallet_view) res" where
  "releaseHold_wallet ts walletId ownerId holdId eventId transactionId =
     executeHoldCommand ts walletId ownerId holdId ReleaseOp None False eventId transactionId"

definition consumeHold_wallet ::
  "(nat \<Rightarrow> tx) \<Rightarrow> string \<Rightarrow> string \<Rightarrow> string \<Rightarrow> string \<Rightarrow> string \<Rightarrow> (err, ledger_db \<times> wallet_view) res" where
  "consumeHold_wallet ts walletId ownerId holdId eventId transactionId =
     executeHoldCommand ts walletId ownerId holdId ConsumeOp None False eventId transactionId"

section \<open>Transfers\<close>

record validate_transfer_dto =
  vt_transferId :: string
  vt_senderUserId :: string
  vt_senderWalletId :: string
  vt_receiverReference :: string
  vt_amount :: jsnum
  vt_currency :: string
  vt_targetCurrency :: "string option"
  vt_destinationAmount :: "jsnum option"

record hold_transfer_dto =
  ht_senderUserId :: string
  ht_senderWalletId :: string
  ht_amount :: jsnum

record release_transfer_dto =
  rt_senderUserId :: string
  rt_senderWalletId :: string

record settle_transfer_dto =
  st_senderUserId :: string
  st_senderWalletId :: string
  st_receiverWalletId :: string
  st_amount :: jsnum
  st_currency :: string
  st_targetCurrency :: "string option"
  st_destinationAmount :: "jsnum option"

text \<open>
  \<^verbatim>\<open>ILike\<close> is PostgreSQL's \<^verbatim>\<open>ILIKE\<close>: a percent sign matches any text, an underscore any
  character, a backslash quotes the next one, letters match without regard to case. A pattern that
  ends in a single backslash fails the query in PostgreSQL and matches nothing here.
\<close>

fun like :: "string \<Rightarrow> string \<Rightarrow> bool" where
  "like [] s = (s = [])"
| "like (p # ps) [] = (p = CHR ''%'' \<and> like ps [])"
| "like (p # ps) (c # s) =
     (if p = CHR ''%'' then like ps (c # s) \<or> like (p # ps) s
      else if p = CHR ''_'' then like ps s
      else if p = CHR 0x5C then (case ps of [] \<Rightarrow> False | q # qs \<Rightarrow> q = c \<and> like qs s)
      else p = c \<and> like ps s)"

definition ilike :: "string \<Rightarrow> string \<Rightarrow> bool" where
  "ilike pattern s = like (toLowerCase pattern) (toLowerCase s)"

definition isUuid :: "string \<Rightarrow> bool" where
  "isUuid value = uuid_pattern value"

definition validateTransfer ::
  "tx \<Rightarrow> validate_transfer_dto \<Rightarrow> string \<Rightarrow> string \<Rightarrow> (err, ledger_db \<times> string) res" where
  "validateTransfer t command walletId eventId =
     rbind (toPositiveMinorUnits (vt_amount command)) (\<lambda>_.
     rbind (case vt_destinationAmount command of
              None \<Rightarrow> Inr 0 | Some a \<Rightarrow> toPositiveMinorUnits a) (\<lambda>_.
     let targetCurrency = (case vt_targetCurrency command of None \<Rightarrow> vt_currency command | Some c \<Rightarrow> c);
         d = tx_pre t
     in case find (\<lambda>w. w_id w = pg_uuid (vt_senderWalletId command) \<and>
                       w_ownerId w = pg_uuid (vt_senderUserId command) \<and>
                       w_currency w = vt_currency command) (ld_wallets d) of
          None \<Rightarrow> Inl (NotFound ''Sender wallet not found'')
        | Some sender \<Rightarrow>
            rbind (case (if isUuid (vt_receiverReference command)
                         then find (\<lambda>w. w_id w = pg_uuid (vt_receiverReference command) \<and>
                                        w_currency w = targetCurrency) (ld_wallets d)
                         else None) of
                     Some receiver \<Rightarrow> Inr (tx_db t, w_id receiver)
                   | None \<Rightarrow>
                       (case find (\<lambda>u. ilike (vt_receiverReference command) (u_email u)) (ld_users d) of
                          None \<Rightarrow> Inl (NotFound ''Receiver not found'')
                        | Some receiverUser \<Rightarrow>
                            (case find_by_owner d (u_id receiverUser) targetCurrency of
                               Some receiver \<Rightarrow> Inr (tx_db t, w_id receiver)
                             | None \<Rightarrow>
                                 rbind (getOrCreateForUser t (u_id receiverUser) targetCurrency walletId eventId)
                                   (\<lambda>(d', created).
                                    case find_wallet d' (wv_id created) of
                                      None \<Rightarrow> Inl EntityNotFound
                                    | Some receiver \<Rightarrow> Inr (d', w_id receiver))))) (\<lambda>(d', receiverId).
            if receiverId = w_id sender
            then Inl (BadRequest ''Sender and receiver wallets must differ'')
            else Inr (d', receiverId))))"

definition placeTransferHold ::
  "(nat \<Rightarrow> tx) \<Rightarrow> string \<Rightarrow> hold_transfer_dto \<Rightarrow> string \<Rightarrow> string \<Rightarrow> (err, ledger_db \<times> wallet_view) res" where
  "placeTransferHold ts transferId command eventId transactionId =
     placeHold_wallet ts (ht_senderWalletId command) (ht_senderUserId command) transferId
       (ht_amount command) eventId transactionId"

datatype release_outcome = OutcomeReleased | OutcomeAlreadySettled

text \<open>\<open>before\<close> and \<open>after\<close> are the states that the two \<^verbatim>\<open>exist\<close> queries see.\<close>

definition releaseTransferHold ::
  "ledger_db \<Rightarrow> (nat \<Rightarrow> tx) \<Rightarrow> ledger_db \<Rightarrow> string \<Rightarrow> release_transfer_dto \<Rightarrow> string \<Rightarrow> string \<Rightarrow>
     (err, ledger_db \<times> release_outcome) res" where
  "releaseTransferHold before ts after transferId command eventId transactionId =
     (if find_settlement before transferId \<noteq> None then Inr (before, OutcomeAlreadySettled)
      else case executeHoldCommand ts (rt_senderWalletId command) (rt_senderUserId command) transferId
                  ReleaseOp None True eventId transactionId of
             Inr (d, _) \<Rightarrow> Inr (d, OutcomeReleased)
           | Inl e \<Rightarrow>
               if find_settlement after transferId \<noteq> None then Inr (after, OutcomeAlreadySettled)
               else Inl e)"

definition assertSettlementMatches ::
  "ledger_transfer_settlement \<Rightarrow> settle_transfer_dto \<Rightarrow> int \<Rightarrow> int \<Rightarrow> string \<Rightarrow> (err, unit) res" where
  "assertSettlementMatches settlement command amountMinor destinationAmountMinor destinationCurrency =
     (if ts_senderWalletId settlement \<noteq> st_senderWalletId command \<or>
         ts_receiverWalletId settlement \<noteq> st_receiverWalletId command \<or>
         ts_amountMinor settlement \<noteq> amountMinor \<or>
         ts_currency settlement \<noteq> st_currency command \<or>
         ts_destinationAmountMinor settlement \<noteq> destinationAmountMinor \<or>
         ts_destinationCurrency settlement \<noteq> destinationCurrency
      then Inl (Conflict ''Transfer ID was already settled with different parameters'')
      else Inr ())"

definition readSettlementWallets ::
  "ledger_transfer_settlement \<Rightarrow> ledger_db \<Rightarrow> (err, wallet_view \<times> wallet_view) res" where
  "readSettlementWallets settlement d =
     (case (find_wallet d (ts_senderWalletId settlement), find_wallet d (ts_receiverWalletId settlement),
            map_of (ld_balances d) (ts_senderWalletId settlement),
            map_of (ld_balances d) (ts_receiverWalletId settlement)) of
        (Some sender, Some receiver, Some senderProjection, Some receiverProjection) \<Rightarrow>
          Inr (toView sender senderProjection, toView receiver receiverProjection)
      | _ \<Rightarrow> Inl EntityNotFound)"

definition settle_writes ::
  "tx \<Rightarrow> string \<Rightarrow> settle_transfer_dto \<Rightarrow> int \<Rightarrow> int \<Rightarrow> string \<Rightarrow> wallet \<Rightarrow> wallet \<Rightarrow>
     wallet_aggregate \<Rightarrow> wallet_aggregate \<Rightarrow> event_data \<Rightarrow> event_data \<Rightarrow>
     (err, ledger_db \<times> wallet_view \<times> wallet_view) res" where
  "settle_writes t transferId command amountMinor destinationAmountMinor destinationCurrency
     sender receiver senderAggregate receiverAggregate debitEvent creditEvent =
     rbind (append_one (wallet_request (w_id sender) (wa_version senderAggregate) debitEvent)
              (tx_check t) (tx_now t) (tx_db t)) (\<lambda>(d1, storedDebit).
     rbind (append_one (wallet_request (w_id receiver) (wa_version receiverAggregate) creditEvent)
              (tx_check2 t) (tx_now t) d1) (\<lambda>(d2, storedCredit).
     rbind (enqueueWalletEvents [storedDebit] sender (tx_trace t) (tx_now t) d2) (\<lambda>d3.
     rbind (enqueueWalletEvents [storedCredit] receiver (tx_trace t) (tx_now t) d3) (\<lambda>d4.
     rbind (apply_event senderAggregate storedDebit) (\<lambda>senderUpdated.
     rbind (project senderUpdated d4) (\<lambda>(d5, senderProjection).
     rbind (apply_event receiverAggregate storedCredit) (\<lambda>receiverUpdated.
     rbind (project receiverUpdated d5) (\<lambda>(d6, receiverProjection).
     rbind (insert_settlement
              \<lparr>ts_transferId = transferId, ts_senderWalletId = w_id sender,
               ts_receiverWalletId = w_id receiver, ts_amountMinor = amountMinor,
               ts_currency = st_currency command, ts_destinationAmountMinor = destinationAmountMinor,
               ts_destinationCurrency = destinationCurrency\<rparr> d6) (\<lambda>d7.
     Inr (d7, toView sender senderProjection, toView receiver receiverProjection))))))))))"

definition settleTransferAttempt ::
  "tx \<Rightarrow> string \<Rightarrow> settle_transfer_dto \<Rightarrow> int \<Rightarrow> int \<Rightarrow> string \<Rightarrow> string \<Rightarrow> string \<Rightarrow>
     (err, ledger_db \<times> wallet_view \<times> wallet_view) res" where
  "settleTransferAttempt t transferId command amountMinor destinationAmountMinor destinationCurrency
     debitId creditId =
     (case find_settlement (tx_read t) transferId of
        Some raced \<Rightarrow>
          rbind (assertSettlementMatches raced command amountMinor destinationAmountMinor destinationCurrency)
            (\<lambda>_. rbind (readSettlementWallets raced (tx_read t)) (\<lambda>views. Inr (tx_db t, views)))
      | None \<Rightarrow>
          (case (find (\<lambda>w. w_id w = pg_uuid (st_senderWalletId command) \<and>
                           w_ownerId w = pg_uuid (st_senderUserId command) \<and>
                           w_currency w = st_currency command) (ld_wallets (tx_read t)),
                 find (\<lambda>w. w_id w = pg_uuid (st_receiverWalletId command) \<and>
                           w_currency w = destinationCurrency) (ld_wallets (tx_read t))) of
             (Some sender, Some receiver) \<Rightarrow>
               if w_id sender = w_id receiver
               then Inl (BadRequest ''Sender and receiver wallets must differ'')
               else
                 rbind (loadAggregate (w_id sender) (tx_read t)) (\<lambda>senderAggregate.
                 rbind (loadAggregate (w_id receiver) (tx_read t)) (\<lambda>receiverAggregate.
                 rbind (assertAggregateIdentity sender senderAggregate) (\<lambda>_.
                 rbind (assertAggregateIdentity receiver receiverAggregate) (\<lambda>_.
                 case map_of (wa_holds senderAggregate) transferId of
                   None \<Rightarrow> Inl (NotFound ''Transfer hold not found'')
                 | Some hold \<Rightarrow>
                     if hs_amountMinor hold \<noteq> amountMinor
                     then Inl (Conflict ''Transfer hold amount does not match'')
                     else
                       rbind (map_err throwHoldDomainError
                                (consumeHold senderAggregate transferId debitId transferId)) (\<lambda>debitEvent.
                       case debitEvent of
                         None \<Rightarrow> Inl (Conflict ''Transfer was consumed without a receipt'')
                       | Some debit \<Rightarrow>
                           rbind (deposit receiverAggregate destinationAmountMinor creditId transferId)
                             (\<lambda>credit. settle_writes t transferId command amountMinor
                               destinationAmountMinor destinationCurrency sender receiver
                               senderAggregate receiverAggregate debit credit))))))
           | _ \<Rightarrow> Inl (NotFound ''Transfer wallet not found'')))"

definition settleTransfer ::
  "(nat \<Rightarrow> tx) \<Rightarrow> string \<Rightarrow> settle_transfer_dto \<Rightarrow> (nat \<Rightarrow> string) \<Rightarrow> (nat \<Rightarrow> string) \<Rightarrow>
     (err, ledger_db \<times> wallet_view \<times> wallet_view) res" where
  "settleTransfer ts transferId command debitIds creditIds =
     rbind (toPositiveMinorUnits (st_amount command)) (\<lambda>amountMinor.
     rbind (toPositiveMinorUnits (case st_destinationAmount command of
              None \<Rightarrow> st_amount command | Some a \<Rightarrow> a)) (\<lambda>destinationAmountMinor.
     let destinationCurrency = (case st_targetCurrency command of None \<Rightarrow> st_currency command | Some c \<Rightarrow> c)
     in with_retries (\<lambda>e. is_version_conflict e \<or> isUniqueViolation e)
          (Err ''Unreachable transfer settlement concurrency retry state'')
          (\<lambda>attempt. let t = ts attempt in
             case find_settlement (tx_pre t) transferId of
               Some completed \<Rightarrow>
                 rbind (assertSettlementMatches completed command amountMinor destinationAmountMinor
                          destinationCurrency) (\<lambda>_.
                 rbind (readSettlementWallets completed (tx_pre t)) (\<lambda>views. Inr (tx_db t, views)))
             | None \<Rightarrow>
                 settleTransferAttempt t transferId command amountMinor destinationAmountMinor
                   destinationCurrency (debitIds attempt) (creditIds attempt))))"

definition rebuildBalanceProjection :: "tx \<Rightarrow> string \<Rightarrow> (err, ledger_db \<times> wallet_balance_projection) res" where
  "rebuildBalanceProjection t walletId =
     (case find_wallet (tx_read t) walletId of
        None \<Rightarrow> Inl (NotFound ''Wallet not found'')
      | Some wallet \<Rightarrow>
          rbind (loadAggregate walletId (tx_read t)) (\<lambda>aggregate.
          rbind (assertAggregateIdentity wallet aggregate) (\<lambda>_.
          project aggregate (tx_db t))))"

end
