(* ===== verification/Ledger_Invariant.thy ===== *)
theory Ledger_Invariant
  imports Wallets_Service
begin

text \<open>
  The invariant of the ledger database and its preservation by every operation of the wallets
  service, under any interleaving of transactions: every wallet's stream rehydrates to an aggregate
  of that owner and currency, the projection row is exactly what that aggregate gives, there is
  one outbox message per event, and a receipt exists only for a hold that was consumed and a credit
  that was booked. \<open>ledger_step\<close> is one committed transaction, \<open>ledger_reachable\<close> the states that
  any sequence of them leads to.
\<close>

section \<open>The invariant\<close>

definition wallet_ok :: "ledger_db \<Rightarrow> wallet \<Rightarrow> bool" where
  "wallet_ok d w =
     (case rehydrate (w_id w) (stream (ld_events d) (w_id w)) of
        Inl _ \<Rightarrow> False
      | Inr a \<Rightarrow> wa_ownerId a = Some (w_ownerId w) \<and> wa_currency a = Some (w_currency w) \<and>
          map_of (ld_balances d) (w_id w) = Some (projectionFromAggregate a))"

definition is_credit :: "string \<Rightarrow> string \<Rightarrow> int \<Rightarrow> stored_event \<Rightarrow> bool" where
  "is_credit transferId walletId amount e =
     (se_eventType e = MONEY_DEPOSITED \<and> se_streamId e = walletId \<and>
      jget ''transactionId'' (se_payload e) = Some (JStr transferId) \<and> posted walletId e = amount)"

definition settlement_ok :: "ledger_db \<Rightarrow> ledger_transfer_settlement \<Rightarrow> bool" where
  "settlement_ok d s =
     ((case rehydrate (ts_senderWalletId s) (stream (ld_events d) (ts_senderWalletId s)) of
         Inl _ \<Rightarrow> False
       | Inr a \<Rightarrow> map_of (wa_holds a) (ts_transferId s) =
           Some \<lparr>hs_amountMinor = ts_amountMinor s, hs_status = Consumed\<rparr>) \<and>
      (\<exists>e \<in> set (ld_events d).
         is_credit (ts_transferId s) (ts_receiverWalletId s) (ts_destinationAmountMinor s) e))"

definition ledger_inv :: "ledger_db \<Rightarrow> bool" where
  "ledger_inv d = (store_wf (ld_events d) \<and>
     distinct (map w_id (ld_wallets d)) \<and>
     distinct (map (\<lambda>w. (w_ownerId w, w_currency w)) (ld_wallets d)) \<and>
     (\<forall>w \<in> set (ld_wallets d). w_id w \<noteq> [] \<and> canonical (w_id w) \<and> wallet_ok d w) \<and>
     (\<forall>e \<in> set (ld_events d). se_streamId e \<in> w_id ` set (ld_wallets d) \<and> se_aggregateType e = ''Wallet'') \<and>
     distinct (map fst (ld_balances d)) \<and>
     fst ` set (ld_balances d) \<subseteq> w_id ` set (ld_wallets d) \<and>
     map ob_eventId (ld_outbox d) = map se_eventId (ld_events d) \<and>
     distinct (map ts_transferId (ld_settlements d)) \<and>
     (\<forall>s \<in> set (ld_settlements d). settlement_ok d s) \<and>
     (\<forall>u \<in> set (ld_users d). canonical (u_id u)))"

definition empty_ledger :: ledger_db where
  "empty_ledger = \<lparr>ld_users = [], ld_wallets = [], ld_events = [], ld_balances = [],
     ld_outbox = [], ld_settlements = []\<rparr>"

lemma ledger_inv_empty [simp]: "ledger_inv empty_ledger"
  by (simp add: ledger_inv_def empty_ledger_def)

lemma ledger_inv_store: "ledger_inv d \<Longrightarrow> store_wf (ld_events d)"
  by (simp add: ledger_inv_def)

lemma ledger_inv_wallet:
  assumes "ledger_inv d" "w \<in> set (ld_wallets d)"
  shows "\<exists>a. rehydrate (w_id w) (stream (ld_events d) (w_id w)) = Inr a \<and>
    wa_ownerId a = Some (w_ownerId w) \<and> wa_currency a = Some (w_currency w) \<and>
    map_of (ld_balances d) (w_id w) = Some (projectionFromAggregate a)"
proof -
  have "wallet_ok d w" using assms by (simp add: ledger_inv_def)
  then show ?thesis by (auto simp: wallet_ok_def split: sum.splits)
qed

lemma ledger_inv_id: "ledger_inv d \<Longrightarrow> w \<in> set (ld_wallets d) \<Longrightarrow> w_id w \<noteq> [] \<and> canonical (w_id w)"
  by (simp add: ledger_inv_def)

lemma ledger_inv_wallet_unique:
  "ledger_inv d \<Longrightarrow> v \<in> set (ld_wallets d) \<Longrightarrow> w \<in> set (ld_wallets d) \<Longrightarrow> w_id v = w_id w \<Longrightarrow> v = w"
  by (simp add: ledger_inv_def distinct_map inj_on_def)

section \<open>Recording one event\<close>

definition record_event :: "stored_event \<Rightarrow> outbox_message \<Rightarrow> wallet_balance_projection \<Rightarrow> ledger_db \<Rightarrow> ledger_db" where
  "record_event e m p d = d\<lparr>ld_events := ld_events d @ [e], ld_outbox := ld_outbox d @ [m],
     ld_balances := AList.update (bp_walletId p) p (ld_balances d)\<rparr>"

lemma record_event_simps [simp]:
  "ld_users (record_event e m p d) = ld_users d"
  "ld_wallets (record_event e m p d) = ld_wallets d"
  "ld_events (record_event e m p d) = ld_events d @ [e]"
  "ld_outbox (record_event e m p d) = ld_outbox d @ [m]"
  "ld_balances (record_event e m p d) = AList.update (bp_walletId p) p (ld_balances d)"
  "ld_settlements (record_event e m p d) = ld_settlements d"
  by (simp_all add: record_event_def)

lemma ledger_le_record [simp]: "ledger_le d (record_event e m p d)"
  by (simp add: ledger_le_def)

lemma projection_walletId [simp]: "bp_walletId (projectionFromAggregate a) = wa_id a"
  by (simp add: projectionFromAggregate_def)

lemma projection_update_id [simp]:
  "(projectionFromAggregate a)\<lparr>bp_walletId := wa_id a\<rparr> = projectionFromAggregate a"
  by (simp add: projectionFromAggregate_def)

lemma settlement_ok_record:
  assumes s: "settlement_ok d s"
    and a: "rehydrate (se_streamId e) (stream (ld_events d) (se_streamId e)) = Inr a"
    and step: "apply_event a e = Inr a'" and ne: "stream (ld_events d) (se_streamId e) \<noteq> []"
  shows "settlement_ok (record_event e m p d) s"
proof (cases "ts_senderWalletId s = se_streamId e")
  case True
  have "0 < wa_version a" using rehydrate_version [OF a] ne by simp
  then have "hold_le (map_of (wa_holds a) (ts_transferId s)) (map_of (wa_holds a') (ts_transferId s))"
    by (rule apply_event_holds [OF step])
  with True s a step show ?thesis
    by (auto simp: settlement_ok_def rehydrate_snoc hold_le_def split: option.splits)
next
  case False
  with s show ?thesis by (auto simp: settlement_ok_def split: sum.splits)
qed

lemma wallet_ok_record:
  assumes "wallet_ok d v" "w_id v \<noteq> se_streamId e" "bp_walletId p = se_streamId e"
  shows "wallet_ok (record_event e m p d) v"
  using assms by (auto simp: wallet_ok_def split: sum.splits)

lemma ledger_inv_stream_ne:
  assumes "ledger_inv d" "w \<in> set (ld_wallets d)"
  shows "stream (ld_events d) (w_id w) \<noteq> []"
  using ledger_inv_wallet [OF assms] by (auto simp: empty_wallet_def)

lemma record_event_inv:
  assumes inv: "ledger_inv d" and w: "w \<in> set (ld_wallets d)" and sid: "se_streamId e = w_id w"
    and a: "rehydrate (w_id w) (stream (ld_events d) (w_id w)) = Inr a"
    and step: "apply_event a e = Inr a'" and wf: "store_wf (ld_events d @ [e])"
    and m: "ob_eventId m = se_eventId e" "se_aggregateType e = ''Wallet''"
  shows "ledger_inv (record_event e m (projectionFromAggregate a') d)" (is "ledger_inv ?d")
proof -
  have id: "wa_id a' = w_id w" using rehydrate_id [OF a] apply_event_id [OF step] by simp
  have "0 < wa_version a"
    using rehydrate_version [OF a] ledger_inv_stream_ne [OF inv w] by simp
  then have same: "wa_ownerId a' = wa_ownerId a \<and> wa_currency a' = wa_currency a"
    by (rule apply_event_identity [OF step])
  have "wallet_ok ?d w"
    using ledger_inv_wallet [OF inv w] a step same id sid
    by (auto simp: wallet_ok_def rehydrate_snoc)
  moreover have "wallet_ok ?d v" if "v \<in> set (ld_wallets d)" "v \<noteq> w" for v
  proof (rule wallet_ok_record)
    show "wallet_ok d v" using inv that(1) by (simp add: ledger_inv_def)
    show "w_id v \<noteq> se_streamId e" using ledger_inv_wallet_unique [OF inv that(1) w] that(2) sid by auto
  qed (simp add: id sid)
  moreover have "settlement_ok ?d s" if "s \<in> set (ld_settlements d)" for s
  proof (rule settlement_ok_record)
    show "settlement_ok d s" using inv that by (simp add: ledger_inv_def)
    show "rehydrate (se_streamId e) (stream (ld_events d) (se_streamId e)) = Inr a" using a sid by simp
    show "stream (ld_events d) (se_streamId e) \<noteq> []" using ledger_inv_stream_ne [OF inv w] sid by simp
  qed (rule step)
  moreover have "fst ` set (AList.update (w_id w) p (ld_balances d)) \<subseteq> w_id ` set (ld_wallets d)" for p
    using inv w by (auto simp: ledger_inv_def dom_update)
  ultimately show ?thesis
    using inv w wf m by (auto simp: ledger_inv_def id sid)
qed

section \<open>Appending one event\<close>

lemma append_one_ok:
  assumes wf: "store_wf (ld_events d)" and pre: "prefix (ld_events seen) (ld_events d)"
    and ok: "append_one (wallet_request sid v ed) seen now d = Inr (d', e)"
  shows "d' = d\<lparr>ld_events := ld_events d @ [e]\<rparr>" and "store_wf (ld_events d @ [e])"
    and "v = int (length (stream (ld_events d) (pg_uuid sid)))"
    and "e = stored_of (wallet_request sid v ed) now 0 ed"
proof -
  let ?req = "wallet_request sid v ed"
  from ok obtain rows stored where
    a: "appendWithinTransaction ?req (ld_events seen) (ld_events d) now = Inr (rows, stored)"
    and d': "d' = d\<lparr>ld_events := rows\<rparr>" and e: "\<exists>es. stored = e # es"
    by (auto simp: append_one_def append_event_def result_simps case_cons_eq_Inr)
  note ok' = append_ok [OF wf pre a]
  have st: "stored_events_of ?req now = [stored_of ?req now 0 ed]"
    by (rule stored_events_single) (simp add: wallet_request_def)
  then show "e = stored_of ?req now 0 ed" using e ok'(1) by auto
  then show "d' = d\<lparr>ld_events := ld_events d @ [e]\<rparr>" and "store_wf (ld_events d @ [e])"
    using d' ok' st by auto
  show "v = int (length (stream (ld_events d) (pg_uuid sid)))"
    using ok'(3) by (simp add: wallet_request_def)
qed

lemma stored_of_request [simp]:
  "se_streamId (stored_of (wallet_request sid v ed) now 0 ed) = pg_uuid sid"
  "se_payload (stored_of (wallet_request sid v ed) now 0 ed) = ed_payload ed"
  "se_eventType (stored_of (wallet_request sid v ed) now 0 ed) = ed_eventType ed"
  "se_streamVersion (stored_of (wallet_request sid v ed) now 0 ed) = v + 1"
  "se_aggregateType (stored_of (wallet_request sid v ed) now 0 ed) = ''Wallet''"
  by (simp_all add: stored_of_def wallet_request_def)

lemma carries_request: "carries ed (stored_of (wallet_request sid (wa_version a) ed) now 0 ed) a"
  by (rule carries_stored) (simp add: wallet_request_def)

lemma load_eq:
  assumes "store_wf (ld_events d)" "walletId \<noteq> []" "canonical walletId"
  shows "loadAggregate walletId d = rehydrate walletId (stream (ld_events d) walletId)"
  using loadStream_wf [OF assms(1,2)] pg_uuid_canonical [OF assms(3)] by (simp add: loadAggregate_def)

text \<open>The states a transaction sees, oldest first; the state it commits to satisfies the invariant.\<close>

definition valid_tx :: "tx \<Rightarrow> bool" where
  "valid_tx t = (ledger_le (tx_pre t) (tx_read t) \<and> ledger_le (tx_read t) (tx_check t) \<and>
     ledger_le (tx_check t) (tx_check2 t) \<and> ledger_le (tx_check2 t) (tx_db t))"

lemma valid_txD:
  assumes "valid_tx t"
  shows "ledger_le (tx_pre t) (tx_db t)" "ledger_le (tx_read t) (tx_db t)" "ledger_le (tx_check t) (tx_db t)"
    "ledger_le (tx_check2 t) (tx_db t)"
  using assms by (auto simp: valid_tx_def intro: ledger_le_trans)

text \<open>
  A command that appended at the version it read had read the current stream: the aggregate it
  decided on is the aggregate of the state it commits to.
\<close>

lemma read_is_current:
  assumes inv: "ledger_inv d" and le: "ledger_le d0 d" and ne: "walletId \<noteq> []" "canonical walletId"
    and load: "loadAggregate walletId d0 = Inr a"
    and v: "wa_version a = int (length (stream (ld_events d) walletId))"
  shows "rehydrate walletId (stream (ld_events d) walletId) = Inr a"
proof -
  have pre: "prefix (ld_events d0) (ld_events d)" using le by (simp add: ledger_le_def)
  have wf0: "store_wf (ld_events d0)" by (rule store_wf_prefix [OF ledger_inv_store [OF inv] pre])
  have r0: "rehydrate walletId (stream (ld_events d0) walletId) = Inr a"
    using load load_eq [OF wf0 ne] by simp
  have "prefix (stream (ld_events d0) walletId) (stream (ld_events d) walletId)"
    by (rule ledger_events.load_mono [OF pre])
  moreover have "length (stream (ld_events d0) walletId) = length (stream (ld_events d) walletId)"
    using rehydrate_version [OF r0] v by simp
  ultimately have "stream (ld_events d0) walletId = stream (ld_events d) walletId"
    by (metis append_eq_conv_conj prefixE take_all_iff order_refl)
  with r0 show ?thesis by simp
qed

lemma store_domain_event_ok:
  assumes inv: "ledger_inv (tx_db t)" and t: "valid_tx t" and w: "wallet \<in> set (ld_wallets (tx_db t))"
    and sid: "streamId = w_id wallet" and load: "loadAggregate streamId (tx_read t) = Inr a"
    and ok: "store_domain_event t wallet streamId a ed = Inr (d', view)"
  shows "\<exists>e m a'. rehydrate streamId (stream (ld_events (tx_db t)) streamId) = Inr a \<and>
      carries ed e a \<and> se_streamId e = streamId \<and> apply_event a e = Inr a' \<and>
      ob_eventId m = se_eventId e \<and> se_aggregateType e = ''Wallet'' \<and> store_wf (ld_events (tx_db t) @ [e]) \<and>
      d' = record_event e m (projectionFromAggregate a') (tx_db t) \<and>
      view = toView wallet (projectionFromAggregate a')"
proof -
  let ?d = "tx_db t"
  have ne: "streamId \<noteq> []" "canonical streamId" using ledger_inv_id [OF inv w] sid by simp_all
  from ok obtain d1 e d2 a' where
    app: "append_one (wallet_request streamId (wa_version a) ed) (tx_check t) (tx_now t) ?d = Inr (d1, e)"
    and enq: "enqueueWalletEvents [e] wallet (tx_trace t) (tx_now t) d1 = Inr d2"
    and upd: "apply_event a e = Inr a'"
    and proj: "project a' d2 = Inr (d', projectionFromAggregate a')"
    and view: "view = toView wallet (projectionFromAggregate a')"
    by (auto simp: store_domain_event_def project_def Let_def result_simps)
  have pre: "prefix (ld_events (tx_check t)) (ld_events ?d)"
    using valid_txD(3) [OF t] by (simp add: ledger_le_def)
  note app' = append_one_ok [OF ledger_inv_store [OF inv] pre app]
  have v: "wa_version a = int (length (stream (ld_events ?d) streamId))"
    using app'(3) pg_uuid_canonical [OF ne(2)] by simp
  have r: "rehydrate streamId (stream (ld_events ?d) streamId) = Inr a"
    by (rule read_is_current [OF inv valid_txD(2) [OF t] ne load v])
  have id: "wa_id a' = streamId" using apply_event_id [OF upd] rehydrate_id [OF r] by simp
  let ?m = "wallet_outbox_row wallet (tx_trace t) (tx_now t) e"
  have "d2 = d1\<lparr>ld_outbox := ld_outbox d1 @ [?m]\<rparr>" using enqueueWalletEvents_ok [OF enq] by simp
  moreover have "d' = d2\<lparr>ld_balances := AList.update streamId (projectionFromAggregate a') (ld_balances d2)\<rparr>"
    using proj id pg_uuid_canonical [OF ne(2)]
    by (auto simp: project_def Let_def result_simps projectionFromAggregate_def dest!: save_projection_ok)
  ultimately have "d' = record_event e ?m (projectionFromAggregate a') ?d"
    using app'(1) id by (simp add: record_event_def)
  moreover have "carries ed e a" using app'(4) carries_request by simp
  moreover have "se_streamId e = streamId" "se_aggregateType e = ''Wallet''"
    using app'(4) pg_uuid_canonical [OF ne(2)] by simp_all
  ultimately show ?thesis using r upd app'(2) view wallet_outbox_row_id by blast
qed

lemma store_domain_event_inv:
  assumes "ledger_inv (tx_db t)" "valid_tx t" "wallet \<in> set (ld_wallets (tx_db t))"
    and "streamId = w_id wallet" "loadAggregate streamId (tx_read t) = Inr a"
    and "store_domain_event t wallet streamId a ed = Inr (d', view)"
  shows "ledger_inv d'" and "ledger_le (tx_db t) d'"
  using store_domain_event_ok [OF assms] record_event_inv [OF assms(1,3)] assms(4) by auto

section \<open>Creating a wallet\<close>

lemma rehydrate_created:
  assumes "e = stored_of (wallet_request sid 0 (createdEvent u c uuid)) now 0 (createdEvent u c uuid)"
  shows "rehydrate w [e] = Inr ((empty_wallet w)
    \<lparr>wa_version := 1, wa_ownerId := Some u, wa_currency := Some c\<rparr>)"
proof -
  have "carries (createdEvent u c uuid) e (empty_wallet w)"
    using assms by (auto simp: empty_wallet_def intro!: carries_stored [of _ "empty_wallet w", simplified empty_wallet_def] simp: wallet_request_def)
  then show ?thesis using rehydrate_snoc [of w "[]" e] createdEvent_applies by simp
qed

lemma projection_created:
  "projectionFromAggregate ((empty_wallet w)\<lparr>wa_version := 1, wa_ownerId := Some u, wa_currency := Some c\<rparr>) =
    \<lparr>bp_walletId = w, bp_balanceMinor = 0, bp_heldMinor = 0, bp_availableMinor = 0, bp_streamVersion = 1\<rparr>"
  by (simp add: projectionFromAggregate_def empty_wallet_def heldMinor_def availableMinor_def)

lemma record_created_inv:
  assumes inv: "ledger_inv d" and w: "w_id w \<noteq> []" "canonical (w_id w)"
    and fresh: "w_id w \<notin> w_id ` set (ld_wallets d)"
    and key: "\<forall>v \<in> set (ld_wallets d). \<not> (w_ownerId v = w_ownerId w \<and> w_currency v = w_currency w)"
    and sid: "se_streamId e = w_id w" and empty: "stream (ld_events d) (w_id w) = []"
    and r: "rehydrate (w_id w) [e] = Inr a" "wa_ownerId a = Some (w_ownerId w)" "wa_currency a = Some (w_currency w)"
    and wf: "store_wf (ld_events d @ [e])" and m: "ob_eventId m = se_eventId e" "se_aggregateType e = ''Wallet''"
  shows "ledger_inv (record_event e m (projectionFromAggregate a) (d\<lparr>ld_wallets := ld_wallets d @ [w]\<rparr>))"
    (is "ledger_inv ?d")
proof -
  have id: "wa_id a = w_id w" by (rule rehydrate_id [OF r(1)])
  have "wallet_ok ?d w" using r empty sid id by (simp add: wallet_ok_def)
  moreover have "wallet_ok ?d v" if "v \<in> set (ld_wallets d)" for v
  proof -
    have "wallet_ok d v" using inv that by (simp add: ledger_inv_def)
    moreover have "w_id v \<noteq> w_id w" using fresh that by (metis imageI)
    ultimately show ?thesis using sid id by (auto simp: wallet_ok_def split: sum.splits)
  qed
  moreover have "settlement_ok ?d s" if "s \<in> set (ld_settlements d)" for s
  proof -
    have s: "settlement_ok d s" using inv that by (simp add: ledger_inv_def)
    then have "ts_senderWalletId s \<noteq> w_id w" using empty by (auto simp: settlement_ok_def empty_wallet_def)
    with s sid show ?thesis by (auto simp: settlement_ok_def split: sum.splits)
  qed
  moreover have "fst ` set (AList.update (w_id w) p (ld_balances d)) \<subseteq> insert (w_id w) (w_id ` set (ld_wallets d))" for p
    using inv by (auto simp: ledger_inv_def dom_update)
  moreover have "distinct (map w_id (ld_wallets d @ [w]))" using inv fresh by (simp add: ledger_inv_def)
  moreover have "distinct (map (\<lambda>w. (w_ownerId w, w_currency w)) (ld_wallets d @ [w]))"
    using inv key by (auto simp: ledger_inv_def)
  ultimately show ?thesis
    using inv w wf m by (auto simp: ledger_inv_def id sid)
qed

lemma create_wallet_ok:
  assumes inv: "ledger_inv (tx_db t)" and t: "valid_tx t"
    and ids: "walletId \<noteq> []" "canonical walletId" "canonical userId"
    and none: "find_by_owner (tx_check t) userId currency = None"
    and ok: "create_wallet t userId currency walletId eventId = Inr (d', view)"
  shows "ledger_inv d'" and "ledger_le (tx_db t) d'"
    and "ld_wallets d' = ld_wallets (tx_db t) @ [\<lparr>w_id = walletId, w_ownerId = userId, w_currency = currency\<rparr>]"
    and "wv_id view = walletId"
    and "\<exists>e a. ld_events d' = ld_events (tx_db t) @ [e] \<and> se_streamId e = walletId \<and> rehydrate walletId [e] = Inr a \<and>
      wa_balanceMinor a = 0 \<and> wa_holds a = [] \<and> stream (ld_events (tx_db t)) walletId = [] \<and>
      walletId \<notin> w_id ` set (ld_wallets (tx_db t))"
proof -
  let ?w = "\<lparr>w_id = walletId, w_ownerId = userId, w_currency = currency\<rparr>" and ?d = "tx_db t"
  have u: "uuid_wallet ?w = ?w" using ids by (simp add: uuid_wallet_def pg_uuid_canonical)
  let ?ed = "createdEvent userId currency eventId"
  from ok none obtain d1 d2 e d3 where ins: "insert_wallet ?w ?d = Inr d1"
    and app: "append_one (wallet_request walletId 0 ?ed) (tx_check2 t) (tx_now t) d1 = Inr (d2, e)"
    and enq: "enqueueWalletEvents [e] ?w (tx_trace t) (tx_now t) d2 = Inr d3"
    and sav: "save_projection \<lparr>bp_walletId = walletId, bp_balanceMinor = 0, bp_heldMinor = 0,
                bp_availableMinor = 0, bp_streamVersion = se_streamVersion e\<rparr> d3 = Inr d'"
    and view: "wv_id view = walletId"
    by (auto simp: create_wallet_def Let_def result_simps toView_def)
  note ins' = insert_wallet_ok [OF ins, unfolded u]
  have wf: "store_wf (ld_events d1)" and pre: "prefix (ld_events (tx_check2 t)) (ld_events d1)"
    using ins'(1) ledger_inv_store [OF inv] valid_txD(4) [OF t] by (simp_all add: ledger_le_def)
  note app' = append_one_ok [OF wf pre app]
  have e: "se_streamId e = walletId" "se_streamVersion e = 1" "se_aggregateType e = ''Wallet''"
    using app'(4) ids(2) by (simp_all add: pg_uuid_canonical)
  have empty: "stream (ld_events ?d) walletId = []"
    using app'(3) ids(2) ins'(1) by (simp add: pg_uuid_canonical)
  note r = rehydrate_created [OF app'(4)]
  let ?a = "(empty_wallet walletId)\<lparr>wa_version := 1, wa_ownerId := Some userId, wa_currency := Some currency\<rparr>"
  let ?m = "wallet_outbox_row ?w (tx_trace t) (tx_now t) e"
  have "d' = d3\<lparr>ld_balances := AList.update walletId (projectionFromAggregate ?a) (ld_balances d3)\<rparr>"
    using save_projection_ok [OF sav] ids(2) e(2) by (simp add: projection_created pg_uuid_canonical)
  moreover have "d3 = d2\<lparr>ld_outbox := ld_outbox d2 @ [?m]\<rparr>" using enqueueWalletEvents_ok [OF enq] by simp
  ultimately have d': "d' = record_event e ?m (projectionFromAggregate ?a) (?d\<lparr>ld_wallets := ld_wallets ?d @ [?w]\<rparr>)"
    using app'(1) ins'(1) by (simp add: record_event_def projection_created)
  have fresh: "walletId \<notin> w_id ` set (ld_wallets ?d)"
    using ins'(2) ids(2) by (auto simp: find_wallet_def find_None_iff pg_uuid_canonical)
  show "ledger_inv d'"
    unfolding d' using inv ids fresh ins'(1,3) e empty r app'(2)
    by (intro record_created_inv) (simp_all add: empty_wallet_def)
  show "ledger_le ?d d'" by (simp add: d' ledger_le_def)
  show "ld_wallets d' = ld_wallets ?d @ [?w]" by (simp add: d')
  show "wv_id view = walletId" by (rule view)
  show "\<exists>e a. ld_events d' = ld_events ?d @ [e] \<and> se_streamId e = walletId \<and> rehydrate walletId [e] = Inr a \<and>
      wa_balanceMinor a = 0 \<and> wa_holds a = [] \<and> stream (ld_events ?d) walletId = [] \<and> walletId \<notin> w_id ` set (ld_wallets ?d)"
    using e(1) r empty fresh by (intro exI [of _ e] exI [of _ ?a]) (simp add: d' empty_wallet_def)
qed

lemma create_wallet_inv:
  assumes inv: "ledger_inv (tx_db t)" and t: "valid_tx t"
    and ids: "walletId \<noteq> []" "canonical walletId" "canonical userId"
    and ok: "create_wallet t userId currency walletId eventId = Inr (d', view)"
  shows "ledger_inv d' \<and> ledger_le (tx_db t) d'"
proof (cases "find_by_owner (tx_check t) userId currency")
  case None
  then show ?thesis using create_wallet_ok [OF inv t ids None ok] by simp
next
  case (Some raced)
  with ok inv show ?thesis by (auto simp: create_wallet_def split: option.splits)
qed

lemma getOrCreateForUser_inv:
  assumes inv: "ledger_inv (tx_db t)" and t: "valid_tx t"
    and ids: "walletId \<noteq> []" "canonical walletId" "canonical userId"
    and ok: "getOrCreateForUser t userId currency walletId eventId = Inr (d', view)"
  shows "ledger_inv d'" "ledger_le (tx_db t) d'"
  using ok inv create_wallet_inv [OF inv t ids]
  by (auto simp: getOrCreateForUser_def result_simps split: option.splits sum.splits if_splits)

section \<open>Money and hold commands\<close>

lemma find_owned_ok:
  assumes "find_owned d0 walletId ownerId = Some w" "ledger_le d0 d"
  shows "w \<in> set (ld_wallets d)" and "w_id w = pg_uuid walletId" and "w_ownerId w = pg_uuid ownerId"
  using assms by (auto simp: find_owned_def find_Some_iff ledger_le_def elim!: prefixE)

lemma money_attempt_ok:
  assumes ok: "executeMoneyCommandAttempt t walletId ownerId m op eid tid = Inr (d', view)"
  shows "\<exists>w a ed. find_owned (tx_read t) walletId ownerId = Some w \<and>
     loadAggregate walletId (tx_read t) = Inr a \<and> assertAggregateIdentity w a = Inr () \<and>
     (case op of DepositOp \<Rightarrow> deposit a m eid tid | WithdrawOp \<Rightarrow> withdraw a m eid tid) = Inr ed \<and>
     store_domain_event t w (w_id w) a ed = Inr (d', view)"
  using ok by (auto simp: executeMoneyCommandAttempt_def case_option_eq_Inr result_simps)

lemma money_attempt_inv:
  assumes inv: "ledger_inv (tx_db t)" and t: "valid_tx t" and id: "canonical walletId"
    and ok: "executeMoneyCommandAttempt t walletId ownerId m op eid tid = Inr (d', view)"
  shows "ledger_inv d'" "ledger_le (tx_db t) d'"
proof -
  from money_attempt_ok [OF ok] obtain w a ed where w: "find_owned (tx_read t) walletId ownerId = Some w"
    and a: "loadAggregate walletId (tx_read t) = Inr a"
    and st: "store_domain_event t w (w_id w) a ed = Inr (d', view)" by blast
  note w' = find_owned_ok [OF w valid_txD(2) [OF t]]
  have "w_id w = walletId" using w'(2) id by (simp add: pg_uuid_canonical)
  with a st show "ledger_inv d'" "ledger_le (tx_db t) d'"
    using store_domain_event_inv [OF inv t w'(1)] by auto
qed

lemma hold_attempt_ok:
  assumes ok: "executeHoldCommandAttempt t walletId ownerId k op m allow eid tid = Inr (d', view)"
  shows "\<exists>w a ed. find_owned (tx_read t) walletId ownerId = Some w \<and>
     loadAggregate walletId (tx_read t) = Inr a \<and> assertAggregateIdentity w a = Inr () \<and>
     decide_hold a k op m allow eid tid = Inr ed \<and>
     (case ed of None \<Rightarrow> Inr (tx_db t, toView w (projectionFromAggregate a))
      | Some e \<Rightarrow> store_domain_event t w walletId a e) = Inr (d', view)"
  using ok by (auto simp: executeHoldCommandAttempt_def case_option_eq_Inr result_simps)

lemma hold_attempt_inv:
  assumes inv: "ledger_inv (tx_db t)" and t: "valid_tx t" and id: "canonical walletId"
    and ok: "executeHoldCommandAttempt t walletId ownerId k op m allow eid tid = Inr (d', view)"
  shows "ledger_inv d'" "ledger_le (tx_db t) d'"
proof -
  from hold_attempt_ok [OF ok] obtain w a ed where w: "find_owned (tx_read t) walletId ownerId = Some w"
    and a: "loadAggregate walletId (tx_read t) = Inr a"
    and st: "(case ed of None \<Rightarrow> Inr (tx_db t, toView w (projectionFromAggregate a))
      | Some e \<Rightarrow> store_domain_event t w walletId a e) = Inr (d', view)" by blast
  note w' = find_owned_ok [OF w valid_txD(2) [OF t]]
  have "walletId = w_id w" using w'(2) id by (simp add: pg_uuid_canonical)
  with a st inv show "ledger_inv d'" "ledger_le (tx_db t) d'"
    using store_domain_event_inv [OF inv t w'(1)] by (auto split: option.splits)
qed

section \<open>Settlement\<close>

lemma insert_settlement_inv:
  assumes "ledger_inv d" "insert_settlement s d = Inr d'" "settlement_ok d (uuid_settlement s)"
  shows "ledger_inv d'"
proof -
  have cong: "settlement_ok (d\<lparr>ld_settlements := x\<rparr>) r = settlement_ok d r"
    "wallet_ok (d\<lparr>ld_settlements := x\<rparr>) w = wallet_ok d w" for x r w
    by (simp_all add: settlement_ok_def wallet_ok_def cong: sum.case_cong)
  note s = insert_settlement_ok [OF assms(2)]
  then have "ts_transferId (uuid_settlement s) \<notin> ts_transferId ` set (ld_settlements d)" by auto
  with assms(1,3) s(1) show ?thesis by (simp add: ledger_inv_def cong)
qed

lemma credit_event:
  assumes "deposit a m eid tid = Inr ed" "carries ed e a" "se_streamId e = wa_id a" "0 < m"
  shows "is_credit tid (wa_id a) m e"
proof -
  have "ed = domain_event MONEY_DEPOSITED eid [(''transactionId'', JStr tid),
            (''postings'', JArr (map posting_json (transaction_postings (wa_id a) m)))]"
    using assms(1) by (simp add: deposit_def moneyEvent_ok)
  with assms(2-) show ?thesis
    by (simp add: is_credit_def posted_def carries_def domain_event_def)
qed

text \<open>
  What the writes of a settlement do: two events, two outbox messages, two projections, one receipt.
\<close>

lemma settle_writes_ok:
  assumes inv: "ledger_inv (tx_db t)" and t: "valid_tx t"
    and s: "s \<in> set (ld_wallets (tx_db t))" and r: "r \<in> set (ld_wallets (tx_db t))" and ne: "w_id s \<noteq> w_id r"
    and sload: "loadAggregate (w_id s) (tx_read t) = Inr sa"
    and rload: "loadAggregate (w_id r) (tx_read t) = Inr ra"
    and ok: "settle_writes t tid cmd m n cur s r sa ra debit credit = Inr (d', views)"
  shows "\<exists>e1 m1 sa' e2 m2 ra' d6.
      rehydrate (w_id s) (stream (ld_events (tx_db t)) (w_id s)) = Inr sa \<and>
      rehydrate (w_id r) (stream (ld_events (tx_db t)) (w_id r)) = Inr ra \<and>
      carries debit e1 sa \<and> carries credit e2 ra \<and> se_streamId e1 = w_id s \<and> se_streamId e2 = w_id r \<and>
      apply_event sa e1 = Inr sa' \<and> apply_event ra e2 = Inr ra' \<and>
      ob_eventId m1 = se_eventId e1 \<and> ob_eventId m2 = se_eventId e2 \<and>
      se_aggregateType e1 = ''Wallet'' \<and> se_aggregateType e2 = ''Wallet'' \<and>
      store_wf (ld_events (tx_db t) @ [e1]) \<and> store_wf (ld_events (tx_db t) @ [e1, e2]) \<and>
      d6 = record_event e2 m2 (projectionFromAggregate ra')
             (record_event e1 m1 (projectionFromAggregate sa') (tx_db t)) \<and>
      insert_settlement \<lparr>ts_transferId = tid, ts_senderWalletId = w_id s,
               ts_receiverWalletId = w_id r, ts_amountMinor = m,
               ts_currency = st_currency cmd, ts_destinationAmountMinor = n,
               ts_destinationCurrency = cur\<rparr> d6 = Inr d' \<and>
      views = (toView s (projectionFromAggregate sa'), toView r (projectionFromAggregate ra'))"
proof -
  let ?d = "tx_db t"
  have sid: "w_id s \<noteq> []" "canonical (w_id s)" and rid: "w_id r \<noteq> []" "canonical (w_id r)"
    using ledger_inv_id [OF inv] s r by auto
  from ok obtain d1 e1 d2 e2 d3 d4 sa' d5 ra' d6 where
    a1: "append_one (wallet_request (w_id s) (wa_version sa) debit) (tx_check t) (tx_now t) ?d = Inr (d1, e1)"
    and a2: "append_one (wallet_request (w_id r) (wa_version ra) credit) (tx_check2 t) (tx_now t) d1 = Inr (d2, e2)"
    and q1: "enqueueWalletEvents [e1] s (tx_trace t) (tx_now t) d2 = Inr d3"
    and q2: "enqueueWalletEvents [e2] r (tx_trace t) (tx_now t) d3 = Inr d4"
    and u1: "apply_event sa e1 = Inr sa'" and u2: "apply_event ra e2 = Inr ra'"
    and p1: "save_projection (projectionFromAggregate sa') d4 = Inr d5"
    and p2: "save_projection (projectionFromAggregate ra') d5 = Inr d6"
    and ins: "insert_settlement \<lparr>ts_transferId = tid, ts_senderWalletId = w_id s,
               ts_receiverWalletId = w_id r, ts_amountMinor = m,
               ts_currency = st_currency cmd, ts_destinationAmountMinor = n,
               ts_destinationCurrency = cur\<rparr> d6 = Inr d'"
    and views: "views = (toView s (projectionFromAggregate sa'), toView r (projectionFromAggregate ra'))"
    by (auto simp: settle_writes_def project_def Let_def result_simps)
  have pre1: "prefix (ld_events (tx_check t)) (ld_events ?d)"
    using valid_txD(3) [OF t] by (simp add: ledger_le_def)
  note a1' = append_one_ok [OF ledger_inv_store [OF inv] pre1 a1]
  have wf1: "store_wf (ld_events d1)" using a1'(1,2) by simp
  have pre2: "prefix (ld_events (tx_check2 t)) (ld_events d1)"
    using valid_txD(4) [OF t] a1'(1) by (auto simp: ledger_le_def elim!: prefixE)
  note a2' = append_one_ok [OF wf1 pre2 a2]
  have e1: "se_streamId e1 = w_id s" "se_aggregateType e1 = ''Wallet''"
    and e2: "se_streamId e2 = w_id r" "se_aggregateType e2 = ''Wallet''"
    using a1'(4) a2'(4) sid rid by (simp_all add: pg_uuid_canonical)
  have rs: "rehydrate (w_id s) (stream (ld_events ?d) (w_id s)) = Inr sa"
    using a1'(3) sid by (intro read_is_current [OF inv valid_txD(2) [OF t] sid sload]) (simp add: pg_uuid_canonical)
  have rr: "rehydrate (w_id r) (stream (ld_events ?d) (w_id r)) = Inr ra"
    using a2'(3) a1'(1) rid ne e1
    by (intro read_is_current [OF inv valid_txD(2) [OF t] rid rload]) (simp add: pg_uuid_canonical)
  have ids: "wa_id sa' = w_id s" "wa_id ra' = w_id r"
    using apply_event_id u1 u2 rehydrate_id rs rr by metis+
  let ?m1 = "wallet_outbox_row s (tx_trace t) (tx_now t) e1"
  let ?m2 = "wallet_outbox_row r (tx_trace t) (tx_now t) e2"
  have proj: "(projectionFromAggregate a)\<lparr>bp_walletId := x\<rparr> = projectionFromAggregate a"
    if "wa_id a = x" for a x using that by (simp add: projectionFromAggregate_def)
  have "d6 = record_event e2 ?m2 (projectionFromAggregate ra')
             (record_event e1 ?m1 (projectionFromAggregate sa') ?d)"
    using save_projection_ok [OF p1] save_projection_ok [OF p2] enqueueWalletEvents_ok [OF q1]
      enqueueWalletEvents_ok [OF q2] a1'(1) a2'(1) ids sid rid proj [OF ids(1)] proj [OF ids(2)]
    by (simp add: record_event_def pg_uuid_canonical)
  moreover have "carries debit e1 sa" "carries credit e2 ra"
    using a1'(4) a2'(4) carries_request by simp_all
  moreover have "store_wf (ld_events ?d @ [e1, e2])" using a2'(2) a1'(1) by simp
  ultimately show ?thesis using rs rr e1 e2 u1 u2 a1'(2) ins views wallet_outbox_row_id by blast
qed

lemma settle_writes_inv:
  assumes inv: "ledger_inv (tx_db t)" and t: "valid_tx t" and tid: "canonical tid"
    and s: "s \<in> set (ld_wallets (tx_db t))" and r: "r \<in> set (ld_wallets (tx_db t))" and ne: "w_id s \<noteq> w_id r"
    and sload: "loadAggregate (w_id s) (tx_read t) = Inr sa"
    and rload: "loadAggregate (w_id r) (tx_read t) = Inr ra"
    and hold: "map_of (wa_holds sa) tid = Some h" "hs_amountMinor h = m"
    and debit: "consumeHold sa tid did tid = Inr (Some debit)"
    and credit: "deposit ra n cid tid = Inr credit" "0 < n"
    and ok: "settle_writes t tid cmd m n cur s r sa ra debit credit = Inr (d', views)"
  shows "ledger_inv d'" "ledger_le (tx_db t) d'"
proof -
  let ?d = "tx_db t"
  from settle_writes_ok [OF inv t s r ne sload rload ok] obtain e1 m1 sa' e2 m2 ra' d6 where
    rs: "rehydrate (w_id s) (stream (ld_events ?d) (w_id s)) = Inr sa"
    and rr: "rehydrate (w_id r) (stream (ld_events ?d) (w_id r)) = Inr ra"
    and c: "carries debit e1 sa" "carries credit e2 ra" and e: "se_streamId e1 = w_id s" "se_streamId e2 = w_id r"
    and u: "apply_event sa e1 = Inr sa'" "apply_event ra e2 = Inr ra'"
    and m: "ob_eventId m1 = se_eventId e1" "ob_eventId m2 = se_eventId e2"
      "se_aggregateType e1 = ''Wallet''" "se_aggregateType e2 = ''Wallet''"
    and wf: "store_wf (ld_events ?d @ [e1])" "store_wf (ld_events ?d @ [e1, e2])"
    and d6: "d6 = record_event e2 m2 (projectionFromAggregate ra')
             (record_event e1 m1 (projectionFromAggregate sa') ?d)"
    and ins: "insert_settlement \<lparr>ts_transferId = tid, ts_senderWalletId = w_id s,
               ts_receiverWalletId = w_id r, ts_amountMinor = m,
               ts_currency = st_currency cmd, ts_destinationAmountMinor = n,
               ts_destinationCurrency = cur\<rparr> d6 = Inr d'" by blast
  have i1: "ledger_inv (record_event e1 m1 (projectionFromAggregate sa') ?d)"
    by (rule record_event_inv [OF inv s e(1) rs u(1) wf(1) m(1,3)])
  have i6: "ledger_inv d6"
    unfolding d6 using record_event_inv [OF i1, of r e2 ra ra' m2] r e rr u(2) wf(2) m(2,4) ne by simp
  have inv_sa: "wallet_inv sa" by (rule rehydrate_inv [OF rs])
  from consumeHold_applies [OF debit inv_sa c(1)] hold u(1)
  have "map_of (wa_holds sa') tid = Some (h\<lparr>hs_status := Consumed\<rparr>)" by auto
  moreover have "h\<lparr>hs_status := Consumed\<rparr> = \<lparr>hs_amountMinor = m, hs_status = Consumed\<rparr>"
    using hold(2) by simp
  moreover have "stream (ld_events d6) (w_id s) = stream (ld_events ?d) (w_id s) @ [e1]"
    using d6 e ne by simp
  moreover have "is_credit tid (w_id r) n e2"
    using credit_event [OF credit(1) c(2) _ credit(2)] e(2) rehydrate_id [OF rr] by simp
  moreover have "e2 \<in> set (ld_events d6)" using d6 by simp
  ultimately have ok6: "settlement_ok d6 (uuid_settlement \<lparr>ts_transferId = tid, ts_senderWalletId = w_id s,
      ts_receiverWalletId = w_id r, ts_amountMinor = m, ts_currency = st_currency cmd,
      ts_destinationAmountMinor = n, ts_destinationCurrency = cur\<rparr>)"
    using rs u(1) tid ledger_inv_id [OF inv s] ledger_inv_id [OF inv r]
    by (auto simp: settlement_ok_def uuid_settlement_def rehydrate_snoc pg_uuid_canonical)
  show "ledger_inv d'" by (rule insert_settlement_inv [OF i6 ins ok6])
  show "ledger_le ?d d'" using insert_settlement_ok(1) [OF ins] d6 by (simp add: ledger_le_def)
qed

lemma settle_attempt_ok:
  assumes "settleTransferAttempt t tid cmd m n cur did cid = Inr (d', views)"
  shows "(\<exists>raced. find_settlement (tx_read t) tid = Some raced \<and> d' = tx_db t \<and>
      assertSettlementMatches raced cmd m n cur = Inr ()) \<or>
    (\<exists>s r sa ra h debit credit. find_settlement (tx_read t) tid = None \<and>
      s \<in> set (ld_wallets (tx_read t)) \<and> r \<in> set (ld_wallets (tx_read t)) \<and> w_id s \<noteq> w_id r \<and>
      w_id s = pg_uuid (st_senderWalletId cmd) \<and> w_ownerId s = pg_uuid (st_senderUserId cmd) \<and>
      w_currency s = st_currency cmd \<and> w_id r = pg_uuid (st_receiverWalletId cmd) \<and> w_currency r = cur \<and>
      loadAggregate (w_id s) (tx_read t) = Inr sa \<and> loadAggregate (w_id r) (tx_read t) = Inr ra \<and>
      map_of (wa_holds sa) tid = Some h \<and> hs_amountMinor h = m \<and>
      consumeHold sa tid did tid = Inr (Some debit) \<and> deposit ra n cid tid = Inr credit \<and>
      settle_writes t tid cmd m n cur s r sa ra debit credit = Inr (d', views))"
proof (cases "find_settlement (tx_read t) tid")
  case (Some raced)
  with assms show ?thesis by (auto simp: settleTransferAttempt_def result_simps)
next
  case None
  with assms obtain s r where f:
    "find (\<lambda>w. w_id w = pg_uuid (st_senderWalletId cmd) \<and> w_ownerId w = pg_uuid (st_senderUserId cmd) \<and>
       w_currency w = st_currency cmd) (ld_wallets (tx_read t)) = Some s"
    "find (\<lambda>w. w_id w = pg_uuid (st_receiverWalletId cmd) \<and> w_currency w = cur) (ld_wallets (tx_read t)) = Some r"
    by (auto simp: settleTransferAttempt_def split: option.splits)
  have "s \<in> set (ld_wallets (tx_read t)) \<and> w_id s = pg_uuid (st_senderWalletId cmd) \<and>
      w_ownerId s = pg_uuid (st_senderUserId cmd) \<and> w_currency s = st_currency cmd"
    "r \<in> set (ld_wallets (tx_read t)) \<and> w_id r = pg_uuid (st_receiverWalletId cmd) \<and> w_currency r = cur"
    using f by (auto simp: find_Some_iff)
  with None f assms show ?thesis
    by (fastforce simp: settleTransferAttempt_def result_simps case_option_eq_Inr split: if_splits)
qed

lemma settle_attempt_inv:
  assumes inv: "ledger_inv (tx_db t)" and t: "valid_tx t" and tid: "canonical tid" and n: "0 < n"
    and ok: "settleTransferAttempt t tid cmd m n cur did cid = Inr (d', views)"
  shows "ledger_inv d' \<and> ledger_le (tx_db t) d'"
proof -
  have sub: "set (ld_wallets (tx_read t)) \<subseteq> set (ld_wallets (tx_db t))"
    using valid_txD(2) [OF t] by (auto simp: ledger_le_def elim!: prefixE)
  from settle_attempt_ok [OF ok] show ?thesis
  proof (elim disjE exE conjE)
    fix s r sa ra h debit credit
    assume a: "s \<in> set (ld_wallets (tx_read t))" "r \<in> set (ld_wallets (tx_read t))" "w_id s \<noteq> w_id r"
      "loadAggregate (w_id s) (tx_read t) = Inr sa" "loadAggregate (w_id r) (tx_read t) = Inr ra"
      "map_of (wa_holds sa) tid = Some h" "hs_amountMinor h = m"
      "consumeHold sa tid did tid = Inr (Some debit)" "deposit ra n cid tid = Inr credit"
      "settle_writes t tid cmd m n cur s r sa ra debit credit = Inr (d', views)"
    have sr: "s \<in> set (ld_wallets (tx_db t))" "r \<in> set (ld_wallets (tx_db t))" using a sub by auto
    show ?thesis
      using settle_writes_inv [OF inv t tid sr a(3-9) n a(10)] by simp
  qed (use inv in simp)
qed

section \<open>Validation and rebuilding\<close>

lemma validate_inv:
  assumes inv: "ledger_inv (tx_db t)" and t: "valid_tx t" and u: "ld_users (tx_pre t) = ld_users (tx_db t)"
    and ids: "walletId \<noteq> []" "canonical walletId"
    and ok: "validateTransfer t cmd walletId eventId = Inr (d', receiver)"
  shows "ledger_inv d' \<and> ledger_le (tx_db t) d'"
proof -
  have canon: "canonical (u_id x)" if "find P (ld_users (tx_db t)) = Some x" for P x
    using that inv by (auto simp: find_Some_iff ledger_inv_def)
  show ?thesis
    using ok inv canon getOrCreateForUser_inv [OF inv t ids]
    by (auto simp: validateTransfer_def Let_def result_simps case_option_eq_Inr u
        split: option.splits if_splits) blast+
qed

lemma rebuild_inv:
  assumes inv: "ledger_inv (tx_db t)" and serial: "tx_read t = tx_db t" and id: "canonical walletId"
    and ok: "rebuildBalanceProjection t walletId = Inr (d', p)"
  shows "d' = tx_db t"
proof -
  let ?d = "tx_db t"
  from ok serial obtain w a where w: "find_wallet ?d walletId = Some w"
    and a: "loadAggregate walletId ?d = Inr a" and p: "project a ?d = Inr (d', p)"
    by (auto simp: rebuildBalanceProjection_def case_option_eq_Inr result_simps)
  have w': "w \<in> set (ld_wallets ?d)" "w_id w = walletId"
    using find_wallet_Some [OF w] id by (simp_all add: pg_uuid_canonical)
  then have "rehydrate walletId (stream (ld_events ?d) walletId) = Inr a"
    using a load_eq [OF ledger_inv_store [OF inv] _ id] ledger_inv_id [OF inv w'(1)] by simp
  with ledger_inv_wallet [OF inv w'(1)] w'(2)
  have "map_of (ld_balances ?d) walletId = Some (projectionFromAggregate a)" and aid: "wa_id a = walletId"
    using rehydrate_id by auto
  then have "AList.update walletId (projectionFromAggregate a) (ld_balances ?d) = ld_balances ?d"
    by (simp add: update_triv)
  then show ?thesis
    using p aid id by (auto simp: project_def Let_def result_simps pg_uuid_canonical dest!: save_projection_ok)
qed

lemma outbox_inv:
  assumes "ledger_inv d" "map ob_eventId ob = map ob_eventId (ld_outbox d)"
  shows "ledger_inv (d\<lparr>ld_outbox := ob\<rparr>)"
proof -
  have "settlement_ok (d\<lparr>ld_outbox := ob\<rparr>) r = settlement_ok d r"
    "wallet_ok (d\<lparr>ld_outbox := ob\<rparr>) w = wallet_ok d w" for r w
    by (simp_all add: settlement_ok_def wallet_ok_def cong: sum.case_cong)
  with assms show ?thesis by (simp add: ledger_inv_def)
qed

lemma users_inv:
  assumes "ledger_inv d" "\<forall>u \<in> set us. canonical (u_id u)"
  shows "ledger_inv (d\<lparr>ld_users := us\<rparr>)"
proof -
  have "settlement_ok (d\<lparr>ld_users := us\<rparr>) r = settlement_ok d r"
    "wallet_ok (d\<lparr>ld_users := us\<rparr>) w = wallet_ok d w" for r w
    by (simp_all add: settlement_ok_def wallet_ok_def cong: sum.case_cong)
  with assms show ?thesis by (simp add: ledger_inv_def)
qed

section \<open>Committed transactions\<close>

inductive ledger_step :: "ledger_db \<Rightarrow> ledger_db \<Rightarrow> bool" where
  users: "\<forall>u \<in> set us. canonical (u_id u) \<Longrightarrow> ledger_step d (d\<lparr>ld_users := us\<rparr>)"
| create: "valid_tx t \<Longrightarrow> walletId \<noteq> [] \<Longrightarrow> canonical walletId \<Longrightarrow> canonical userId \<Longrightarrow>
    getOrCreateForUser t userId currency walletId eventId = Inr (d', view) \<Longrightarrow> ledger_step (tx_db t) d'"
| validate: "valid_tx t \<Longrightarrow> ld_users (tx_pre t) = ld_users (tx_db t) \<Longrightarrow> walletId \<noteq> [] \<Longrightarrow>
    canonical walletId \<Longrightarrow>
    validateTransfer t command walletId eventId = Inr (d', receiver) \<Longrightarrow> ledger_step (tx_db t) d'"
| money: "valid_tx t \<Longrightarrow> canonical walletId \<Longrightarrow>
    executeMoneyCommandAttempt t walletId ownerId amountMinor operation eventId transactionId = Inr (d', view) \<Longrightarrow>
    ledger_step (tx_db t) d'"
| hold: "valid_tx t \<Longrightarrow> canonical walletId \<Longrightarrow>
    executeHoldCommandAttempt t walletId ownerId holdId op amount allow eventId transactionId = Inr (d', view) \<Longrightarrow>
    ledger_step (tx_db t) d'"
| settle: "valid_tx t \<Longrightarrow> canonical transferId \<Longrightarrow> 0 < n \<Longrightarrow>
    settleTransferAttempt t transferId settlement m n currency debitId creditId = Inr (d', views) \<Longrightarrow>
    ledger_step (tx_db t) d'"
| rebuild: "tx_read t = tx_db t \<Longrightarrow> canonical walletId \<Longrightarrow>
    rebuildBalanceProjection t walletId = Inr (d', p) \<Longrightarrow> ledger_step (tx_db t) d'"
| claim: "claim lockId now n locked (ld_outbox d) = (ob, ms) \<Longrightarrow> ledger_step d (d\<lparr>ld_outbox := ob\<rparr>)"
| publish: "settle_publication message lockId outcome publishedAt now (ld_outbox d) = Inr ob \<Longrightarrow>
    ledger_step d (d\<lparr>ld_outbox := ob\<rparr>)"

inductive ledger_reachable :: "ledger_db \<Rightarrow> bool" where
  start: "ledger_reachable empty_ledger"
| step: "ledger_reachable d \<Longrightarrow> ledger_step d d' \<Longrightarrow> ledger_reachable d'"

lemma ledger_le_fields [simp]:
  "ledger_le d (d\<lparr>ld_users := us\<rparr>)" "ledger_le d (d\<lparr>ld_outbox := ob\<rparr>)"
  by (simp_all add: ledger_le_def)

lemma ledger_step_inv: "ledger_step d d' \<Longrightarrow> ledger_inv d \<Longrightarrow> ledger_inv d'"
proof (induction rule: ledger_step.induct)
  case users
  then show ?case by (simp add: users_inv)
next
  case create
  then show ?case using getOrCreateForUser_inv by blast
next
  case validate
  then show ?case using validate_inv by blast
next
  case money
  then show ?case using money_attempt_inv by blast
next
  case hold
  then show ?case using hold_attempt_inv by blast
next
  case settle
  then show ?case using settle_attempt_inv by blast
next
  case rebuild
  then show ?case using rebuild_inv by blast
next
  case claim
  then show ?case using outbox_inv ledger_outbox.claim_ids by blast
next
  case publish
  then show ?case using outbox_inv ledger_outbox.settle_ids by blast
qed

lemma ledger_step_le: "ledger_step d d' \<Longrightarrow> ledger_inv d \<Longrightarrow> ledger_le d d'"
proof (induction rule: ledger_step.induct)
  case create
  then show ?case using getOrCreateForUser_inv(2) by blast
next
  case validate
  then show ?case using validate_inv by blast
next
  case money
  then show ?case using money_attempt_inv(2) by blast
next
  case hold
  then show ?case using hold_attempt_inv(2) by blast
next
  case settle
  then show ?case using settle_attempt_inv by blast
next
  case rebuild
  then show ?case using rebuild_inv by fastforce
qed simp_all

lemma ledger_reachable_inv: "ledger_reachable d \<Longrightarrow> ledger_inv d"
  by (induction rule: ledger_reachable.induct) (auto intro: ledger_step_inv)

section \<open>Retries\<close>

lemma retry_from_Inr: "retry_from again ex run n left = Inr x \<Longrightarrow> \<exists>k. run k = Inr x"
proof (induction left arbitrary: n)
  case (Suc left)
  then show ?case by (cases "run n") (auto split: if_splits)
qed simp

lemma with_retries_Inr: "with_retries again ex run = Inr x \<Longrightarrow> \<exists>k. run k = Inr x"
  unfolding with_retries_def by (rule retry_from_Inr)

text \<open>The loop always ends in a value of one of its attempts: the error after it is unreachable.\<close>

lemma retry_from_attempt:
  "n + left = Suc MAX_CONCURRENCY_RETRIES \<Longrightarrow> 0 < left \<Longrightarrow>
    \<exists>k. n \<le> k \<and> k \<le> MAX_CONCURRENCY_RETRIES \<and> retry_from again ex run n left = run k \<and>
      (\<forall>j. n \<le> j \<and> j < k \<longrightarrow> (\<exists>e. run j = Inl e \<and> again e)) \<and>
      (\<forall>e. run k = Inl e \<longrightarrow> \<not> again e \<or> k = MAX_CONCURRENCY_RETRIES)"
proof (induction left arbitrary: n)
  case (Suc left)
  show ?case
  proof (cases "\<exists>e. run n = Inl e \<and> again e \<and> n < MAX_CONCURRENCY_RETRIES")
    case True
    then obtain e where e: "run n = Inl e" "again e" "n < MAX_CONCURRENCY_RETRIES" by blast
    have "Suc n + left = Suc MAX_CONCURRENCY_RETRIES" "0 < left" using Suc.prems e(3) by auto
    from Suc.IH [OF this] obtain k where k: "Suc n \<le> k" "k \<le> MAX_CONCURRENCY_RETRIES"
      "retry_from again ex run (Suc n) left = run k"
      "\<forall>j. Suc n \<le> j \<and> j < k \<longrightarrow> (\<exists>e. run j = Inl e \<and> again e)"
      "\<forall>e. run k = Inl e \<longrightarrow> \<not> again e \<or> k = MAX_CONCURRENCY_RETRIES" by blast
    have "\<forall>j. n \<le> j \<and> j < k \<longrightarrow> (\<exists>e. run j = Inl e \<and> again e)"
      using k(4) e by (metis Suc_leI le_neq_implies_less)
    with k e show ?thesis by (intro exI [of _ k]) auto
  next
    case False
    then have "retry_from again ex run n (Suc left) = run n"
      by (cases "run n") auto
    moreover have "n \<le> MAX_CONCURRENCY_RETRIES" using Suc.prems by simp
    ultimately show ?thesis using False by (intro exI [of _ n]) auto
  qed
qed simp

end
