(* ===== verification/Ledger_Progress.thy ===== *)
theory Ledger_Progress
  imports Ledger_Invariant
begin

text \<open>
  That commands do succeed: on a state of the ledger where no other transaction interferes, a command
  whose domain rule holds commits, with exactly the stated effect, as long as the
  identifiers are fresh and the numbers fit their columns. These lemmas give the witnesses of
  the safety properties, which hold for every interleaving.
\<close>

section \<open>Serial transactions\<close>

definition serial_tx :: "ledger_db \<Rightarrow> int \<Rightarrow> trace_context \<Rightarrow> tx" where
  "serial_tx d now tc = \<lparr>tx_pre = d, tx_read = d, tx_check = d, tx_check2 = d, tx_db = d,
     tx_now = now, tx_trace = tc\<rparr>"

lemma serial_tx_simps [simp]:
  "tx_pre (serial_tx d now tc) = d" "tx_read (serial_tx d now tc) = d" "tx_check (serial_tx d now tc) = d"
  "tx_check2 (serial_tx d now tc) = d" "tx_db (serial_tx d now tc) = d"
  "tx_now (serial_tx d now tc) = now" "tx_trace (serial_tx d now tc) = tc"
  by (simp_all add: serial_tx_def)

lemma valid_serial_tx [simp]: "valid_tx (serial_tx d now tc)"
  by (simp add: valid_tx_def)

definition fresh_event :: "ledger_db \<Rightarrow> string \<Rightarrow> bool" where
  "fresh_event d i = (i \<noteq> [] \<and> pg_uuid i \<notin> se_eventId ` set (ld_events d))"

definition wallet_event_types :: "string list" where
  "wallet_event_types = [WALLET_CREATED, MONEY_DEPOSITED, WITHDRAWAL_COMPLETED, FUNDS_HELD,
     HOLD_RELEASED, HOLD_CONSUMED]"

section \<open>The parts of a transaction\<close>

lemma length_hyphenate: "length (hyphenate s) \<le> 2 * length s"
  by (induction s rule: hyphenate.induct) auto

lemma routing_key_fits:
  assumes "ty \<in> set wallet_event_types"
  shows "length (walletRoutingKey ty 1) \<le> 200"
proof -
  have "length ty \<le> 30" using assms by (auto simp: wallet_event_types_def event_type_defs)
  with length_hyphenate [of ty] show ?thesis
    by (simp add: walletRoutingKey_def toLowerCase_def show_int_def show_nat.simps)
qed

lemma enqueue_succeeds:
  assumes "se_eventType e \<in> set wallet_event_types" "se_eventId e \<notin> ob_eventId ` set (ld_outbox d)"
  shows "enqueueWalletEvents [e] w tc now d =
    Inr (d\<lparr>ld_outbox := ld_outbox d @ [wallet_outbox_row w tc now e]\<rparr>)"
proof -
  have "\<not> 200 < length (ob_routingKey (wallet_outbox_row w tc now e))"
    using routing_key_fits [OF assms(1)]
    by (simp add: wallet_outbox_row_def new_outbox_row_def wallet_envelope_def Let_def)
  moreover have "ob_attempts (wallet_outbox_row w tc now e) = 0"
    by (simp add: wallet_outbox_row_def new_outbox_row_def Let_def)
  moreover have "\<forall>r \<in> set (ld_outbox d). ob_eventId r \<noteq> se_eventId e"
    using assms(2) by (metis imageI)
  ultimately show ?thesis by (simp add: enqueueWalletEvents_def insert_outbox_def)
qed

lemma append_one_succeeds:
  assumes wf: "store_wf (ld_events d)" and ne: "sid \<noteq> []"
    and ty: "\<forall>e \<in> set (ld_events d). se_aggregateType e = ''Wallet''"
    and ed: "0 < ed_schemaVersion ed" "ed_schemaVersion ed \<le> 2" "ed_eventType ed \<in> set wallet_event_types"
      "ed_correlationId ed = None" "ed_traceId ed = None"
    and id: "fresh_event d (ed_eventId ed)"
    and v: "v = int (length (stream (ld_events d) (pg_uuid sid)))" "v + 1 < 2 ^ 31"
  shows "append_one (wallet_request sid v ed) d now d =
    Inr (d\<lparr>ld_events := ld_events d @ [stored_of (wallet_request sid v ed) now 0 ed]\<rparr>,
         stored_of (wallet_request sid v ed) now 0 ed)"
proof -
  let ?req = "wallet_request sid v ed"
  have "trim (ed_eventType ed) \<noteq> []"
    using ed(3) by (auto simp: wallet_event_types_def event_type_defs trim_def is_space_def)
  then have "validateAppendRequest ?req = Inr ()"
    using ne ed v(1) id
    by (simp add: validateAppendRequest_def validate_event_def wallet_request_def fresh_event_def
        trim_def is_space_def)
  moreover have "distinct (map se_eventId (ld_events d))" using wf by (simp add: store_wf_def)
  moreover have "length (ed_eventType ed) \<le> 150"
    using ed(3) by (auto simp: wallet_event_types_def event_type_defs)
  ultimately have "acceptable ?req (ld_events d)"
    using ty ed v(2) id
    by (auto simp: acceptable_def wallet_request_def pg_integer_def fresh_event_def opt_fits_def)
  then have "appendWithinTransaction ?req (ld_events d) (ld_events d) now =
      Inr (ld_events d @ stored_events_of ?req now, stored_events_of ?req now)"
    using append_current [OF wf prefix_order.refl] v(1) by (simp add: wallet_request_def)
  moreover have "stored_events_of ?req now = [stored_of ?req now 0 ed]"
    by (rule stored_events_single) (simp add: wallet_request_def)
  ultimately show ?thesis by (simp add: append_one_def append_event_def)
qed

lemma save_projection_succeeds:
  assumes inv: "wallet_inv a" and r: "wa_balanceMinor a < 2 ^ 63" "0 < wa_version a" "wa_version a < 2 ^ 31"
    and w: "find_wallet d (wa_id a) \<noteq> None" and c: "canonical (wa_id a)"
  shows "save_projection (projectionFromAggregate a) d =
    Inr (d\<lparr>ld_balances := AList.update (wa_id a) (projectionFromAggregate a) (ld_balances d)\<rparr>)"
proof -
  have "0 \<le> heldMinor a" "heldMinor a \<le> wa_balanceMinor a"
    using inv wallet_inv_held_nonneg by (auto simp: wallet_inv_def)
  with r w show ?thesis
    using pg_uuid_canonical [OF c]
    by (auto simp: save_projection_def projectionFromAggregate_def pg_bigint_def pg_integer_def
        availableMinor_def)
qed

lemma outbox_fresh:
  assumes "ledger_inv d" "fresh_event d i"
  shows "pg_uuid i \<notin> ob_eventId ` set (ld_outbox d)"
proof -
  have "ob_eventId ` set (ld_outbox d) = se_eventId ` set (ld_events d)"
    using assms(1) by (simp add: ledger_inv_def flip: set_map)
  with assms(2) show ?thesis by (simp add: fresh_event_def)
qed

lemma find_wallet_member:
  "ledger_inv d \<Longrightarrow> w \<in> set (ld_wallets d) \<Longrightarrow> find_wallet d (w_id w) = Some w"
proof -
  assume inv: "ledger_inv d" and w: "w \<in> set (ld_wallets d)"
  have "w_id w = pg_uuid (w_id w)" using ledger_inv_id [OF inv w] by (simp add: canonical_def)
  then have "find_wallet d (w_id w) \<noteq> None" using w by (auto simp: find_wallet_def find_None_iff)
  then obtain v where "find_wallet d (w_id w) = Some v" by blast
  with find_wallet_Some [OF this] ledger_inv_wallet_unique [OF inv _ w] show ?thesis
    using \<open>w_id w = pg_uuid (w_id w)\<close> by auto
qed

lemma find_owned_member:
  assumes "ledger_inv d" "w \<in> set (ld_wallets d)" "canonical (w_ownerId w)"
  shows "find_owned d (w_id w) (w_ownerId w) = Some w"
proof -
  have c: "pg_uuid (w_id w) = w_id w" "pg_uuid (w_ownerId w) = w_ownerId w"
    using ledger_inv_id [OF assms(1,2)] assms(3) by (simp_all add: canonical_def)
  then have "find_owned d (w_id w) (w_ownerId w) \<noteq> None"
    using assms(2) by (auto simp: find_owned_def find_None_iff)
  then obtain v where v: "find_owned d (w_id w) (w_ownerId w) = Some v" by blast
  with find_owned_ok [OF v ledger_le_refl] ledger_inv_wallet_unique [OF assms(1) _ assms(2)] c
  show ?thesis by auto
qed

section \<open>Commands\<close>

text \<open>The state after the event \<open>ed\<close> of wallet \<open>w\<close> is committed, which takes its aggregate from \<open>a\<close> to \<open>a'\<close>.\<close>

definition committed ::
  "wallet \<Rightarrow> wallet_aggregate \<Rightarrow> event_data \<Rightarrow> int \<Rightarrow> trace_context \<Rightarrow> wallet_aggregate \<Rightarrow> ledger_db \<Rightarrow> ledger_db" where
  "committed w a ed now tc a' d =
     (let e = stored_of (wallet_request (w_id w) (wa_version a) ed) now 0 ed
      in record_event e (wallet_outbox_row w tc now e) (projectionFromAggregate a') d)"

lemma store_domain_event_succeeds:
  assumes inv: "ledger_inv d" and w: "w \<in> set (ld_wallets d)"
    and r: "rehydrate (w_id w) (stream (ld_events d) (w_id w)) = Inr a"
    and ed: "ed_schemaVersion ed = 1" "ed_eventType ed \<in> set wallet_event_types" "fresh_event d (ed_eventId ed)"
      "ed_correlationId ed = None" "ed_traceId ed = None"
    and v: "wa_version a + 1 < 2 ^ 31"
    and step: "apply_event a (stored_of (wallet_request (w_id w) (wa_version a) ed) now 0 ed) = Inr a'"
    and bal: "wa_balanceMinor a' < 2 ^ 63"
  shows "store_domain_event (serial_tx d now tc) w (w_id w) a ed =
    Inr (committed w a ed now tc a' d, toView w (projectionFromAggregate a'))"
proof -
  let ?e = "stored_of (wallet_request (w_id w) (wa_version a) ed) now 0 ed"
  let ?m = "wallet_outbox_row w tc now ?e" and ?d1 = "d\<lparr>ld_events := ld_events d @ [?e]\<rparr>"
  have c: "w_id w \<noteq> []" "canonical (w_id w)" using ledger_inv_id [OF inv w] by auto
  have len: "wa_version a = int (length (stream (ld_events d) (pg_uuid (w_id w))))"
    using rehydrate_version [OF r] pg_uuid_canonical [OF c(2)] by simp
  have ty: "\<forall>e \<in> set (ld_events d). se_aggregateType e = ''Wallet''" using inv by (simp add: ledger_inv_def)
  have app: "append_one (wallet_request (w_id w) (wa_version a) ed) d now d = Inr (?d1, ?e)"
    using append_one_succeeds [OF ledger_inv_store [OF inv] c(1) ty _ _ ed(2,4,5,3) len v] ed(1) by simp
  have "se_eventId ?e = pg_uuid (ed_eventId ed)" by (simp add: stored_of_def)
  then have enq: "enqueueWalletEvents [?e] w tc now ?d1 = Inr (?d1\<lparr>ld_outbox := ld_outbox ?d1 @ [?m]\<rparr>)"
    using enqueue_succeeds [of ?e ?d1] outbox_fresh [OF inv ed(3)] ed(2) by simp
  have a': "wa_id a' = w_id w" "wa_version a' = wa_version a + 1"
    using apply_event_id [OF step] rehydrate_id [OF r] by simp_all
  have "save_projection (projectionFromAggregate a') (?d1\<lparr>ld_outbox := ld_outbox ?d1 @ [?m]\<rparr>) =
      Inr (record_event ?e ?m (projectionFromAggregate a') d)"
    using save_projection_succeeds [of a' "?d1\<lparr>ld_outbox := ld_outbox ?d1 @ [?m]\<rparr>"]
      apply_event_inv [OF step rehydrate_inv [OF r]] bal v a' rehydrate_version [OF r] c(2)
      find_wallet_member [OF inv w]
    by (simp add: record_event_def)
  with app enq step show ?thesis by (simp add: store_domain_event_def project_def Let_def committed_def)
qed

lemma load_current:
  assumes "ledger_inv d" "w \<in> set (ld_wallets d)"
    and "rehydrate (w_id w) (stream (ld_events d) (w_id w)) = Inr a"
  shows "loadAggregate (w_id w) d = Inr a"
  using load_eq [OF ledger_inv_store] ledger_inv_id assms by simp

lemma identity_current:
  assumes "ledger_inv d" "w \<in> set (ld_wallets d)"
    and "rehydrate (w_id w) (stream (ld_events d) (w_id w)) = Inr a"
  shows "assertAggregateIdentity w a = Inr ()"
  using ledger_inv_wallet [OF assms(1,2)] assms(3) by (auto simp: assertAggregateIdentity_def)

text \<open>Every event a command decides has schema version 1, the given identifier and a known type.\<close>

definition decided :: "string \<Rightarrow> event_data \<Rightarrow> bool" where
  "decided eid ed = (ed_schemaVersion ed = 1 \<and> ed_eventId ed = eid \<and> ed_eventType ed \<in> set wallet_event_types \<and>
     ed_correlationId ed = None \<and> ed_traceId ed = None)"

lemma decided_domain_event [simp]:
  "decided eid (domain_event ty eid p) \<longleftrightarrow> ty \<in> set wallet_event_types"
  by (simp add: decided_def domain_event_def)

lemma known_types [simp]:
  "MONEY_DEPOSITED \<in> set wallet_event_types" "WITHDRAWAL_COMPLETED \<in> set wallet_event_types"
  "FUNDS_HELD \<in> set wallet_event_types" "HOLD_RELEASED \<in> set wallet_event_types"
  "HOLD_CONSUMED \<in> set wallet_event_types"
  by (simp_all add: wallet_event_types_def)

lemma decided_commands:
  "deposit a m eid tid = Inr ed \<Longrightarrow> decided eid ed"
  "withdraw a m eid tid = Inr ed \<Longrightarrow> decided eid ed"
  "placeHold a k m eid = Inr (Some ed) \<Longrightarrow> decided eid ed"
  "releaseHold a k eid = Inr (Some ed) \<Longrightarrow> decided eid ed"
  "wallet_inv a \<Longrightarrow> consumeHold a k eid tid = Inr (Some ed) \<Longrightarrow> decided eid ed"
  by (auto simp: deposit_def withdraw_def moneyEvent_ok placeHold_ok releaseHold_ok consumeHold_ok
      split: if_splits)

lemma store_decided:
  assumes inv: "ledger_inv d" and w: "w \<in> set (ld_wallets d)"
    and r: "rehydrate (w_id w) (stream (ld_events d) (w_id w)) = Inr a"
    and ed: "decided eid ed" "fresh_event d eid" and v: "wa_version a + 1 < 2 ^ 31"
    and step: "\<And>e. carries ed e a \<Longrightarrow> apply_event a e = Inr a'" and bal: "wa_balanceMinor a' < 2 ^ 63"
  shows "store_domain_event (serial_tx d now tc) w (w_id w) a ed =
    Inr (committed w a ed now tc a' d, toView w (projectionFromAggregate a'))"
  using store_domain_event_succeeds [OF inv w r _ _ _ _ _ v step [OF carries_request] bal] ed
  by (simp add: decided_def)

lemma money_attempt_commits:
  assumes inv: "ledger_inv d" and w: "w \<in> set (ld_wallets d)" "canonical (w_ownerId w)"
    and r: "rehydrate (w_id w) (stream (ld_events d) (w_id w)) = Inr a"
    and ed: "(case op of DepositOp \<Rightarrow> deposit a m eid tid | WithdrawOp \<Rightarrow> withdraw a m eid tid) = Inr ed"
      "fresh_event d eid" and v: "wa_version a + 1 < 2 ^ 31"
    and step: "\<And>e. carries ed e a \<Longrightarrow> apply_event a e = Inr a'" and bal: "wa_balanceMinor a' < 2 ^ 63"
  shows "executeMoneyCommandAttempt (serial_tx d now tc) (w_id w) (w_ownerId w) m op eid tid =
    Inr (committed w a ed now tc a' d, toView w (projectionFromAggregate a'))"
proof -
  have "decided eid ed" using ed(1) decided_commands by (cases op) auto
  from store_decided [OF inv w(1) r this ed(2) v step bal, of now tc] show ?thesis
    using find_owned_member [OF inv w] load_current [OF inv w(1) r] identity_current [OF inv w(1) r] ed(1)
    by (auto simp: executeMoneyCommandAttempt_def)
qed

lemma hold_attempt_commits:
  assumes inv: "ledger_inv d" and w: "w \<in> set (ld_wallets d)" "canonical (w_ownerId w)"
    and r: "rehydrate (w_id w) (stream (ld_events d) (w_id w)) = Inr a"
    and ed: "decide_hold a k op m allow eid tid = Inr (Some ed)" "fresh_event d eid"
    and v: "wa_version a + 1 < 2 ^ 31"
    and step: "\<And>e. carries ed e a \<Longrightarrow> apply_event a e = Inr a'" and bal: "wa_balanceMinor a' < 2 ^ 63"
  shows "executeHoldCommandAttempt (serial_tx d now tc) (w_id w) (w_ownerId w) k op m allow eid tid =
    Inr (committed w a ed now tc a' d, toView w (projectionFromAggregate a'))"
proof -
  have "decided eid ed"
    using ed(1) decided_commands rehydrate_inv [OF r]
    by (cases op) (auto simp: decide_hold_def split: option.splits if_splits)
  from store_decided [OF inv w(1) r this ed(2) v step bal, of now tc] show ?thesis
    using find_owned_member [OF inv w] load_current [OF inv w(1) r] identity_current [OF inv w(1) r] ed(1)
    by (auto simp: executeHoldCommandAttempt_def)
qed

text \<open>The state after a wallet is created.\<close>

definition created :: "string \<Rightarrow> string \<Rightarrow> string \<Rightarrow> string \<Rightarrow> int \<Rightarrow> trace_context \<Rightarrow> ledger_db \<Rightarrow> ledger_db" where
  "created userId currency walletId eid now tc d =
     (let w = \<lparr>w_id = walletId, w_ownerId = userId, w_currency = currency\<rparr>;
          ed = createdEvent userId currency eid;
          a = (empty_wallet walletId)\<lparr>wa_version := 1, wa_ownerId := Some userId, wa_currency := Some currency\<rparr>
      in committed w (empty_wallet walletId) ed now tc a (d\<lparr>ld_wallets := ld_wallets d @ [w]\<rparr>))"

lemma create_commits:
  assumes inv: "ledger_inv d" and ids: "walletId \<noteq> []" "canonical walletId" "canonical userId"
    and user: "userId \<in> u_id ` set (ld_users d)"
    and free: "walletId \<notin> w_id ` set (ld_wallets d)"
      "\<forall>v \<in> set (ld_wallets d). \<not> (w_ownerId v = userId \<and> w_currency v = currency)"
    and id: "fresh_event d eid"
  shows "\<exists>view. getOrCreateForUser (serial_tx d now tc) userId currency walletId eid =
    Inr (created userId currency walletId eid now tc d, view)"
proof -
  let ?w = "\<lparr>w_id = walletId, w_ownerId = userId, w_currency = currency\<rparr>"
  let ?d1 = "d\<lparr>ld_wallets := ld_wallets d @ [?w]\<rparr>" and ?ed = "createdEvent userId currency eid"
  let ?e = "stored_of (wallet_request walletId 0 ?ed) now 0 ?ed"
  let ?d2 = "?d1\<lparr>ld_events := ld_events d @ [?e]\<rparr>" and ?m = "wallet_outbox_row ?w tc now ?e"
  let ?a = "(empty_wallet walletId)\<lparr>wa_version := 1, wa_ownerId := Some userId, wa_currency := Some currency\<rparr>"
  let ?d3 = "?d2\<lparr>ld_outbox := ld_outbox d @ [?m]\<rparr>"
  have none: "find_by_owner d userId currency = None"
    using free(2) ids(3) by (auto simp: find_by_owner_def find_None_iff pg_uuid_canonical)
  have u: "uuid_wallet ?w = ?w" using ids by (simp add: uuid_wallet_def pg_uuid_canonical)
  have "find_wallet d walletId = None"
    using free(1) ids(2) by (auto simp: find_wallet_def find_None_iff pg_uuid_canonical)
  then have ins: "insert_wallet ?w d = Inr ?d1"
    using user free(2) by (auto simp: insert_wallet_def u Let_def)
  have "stream (ld_events d) walletId = []"
    using inv free(1) by (auto simp: stream_def filter_empty_conv ledger_inv_def)
  then have app: "append_one (wallet_request walletId 0 ?ed) d now ?d1 = Inr (?d2, ?e)"
    using append_one_succeeds [of ?d1 walletId ?ed 0 now] inv ids id
    by (simp add: append_one_def append_event_def ledger_inv_def createdEvent_def wallet_event_types_def
        fresh_event_def pg_uuid_canonical)
  have "se_eventId ?e = pg_uuid eid" by (simp add: stored_of_def createdEvent_def)
  then have enq: "enqueueWalletEvents [?e] ?w tc now ?d2 = Inr ?d3"
    using enqueue_succeeds [of ?e ?d2] outbox_fresh [OF inv id]
    by (simp add: createdEvent_def wallet_event_types_def)
  have "wallet_inv ?a" "wa_balanceMinor ?a < 2 ^ 63" "wa_version ?a = 1" "wa_id ?a = walletId"
    by (simp_all add: wallet_inv_def empty_wallet_def heldMinor_def)
  moreover have "find_wallet ?d3 walletId \<noteq> None"
    using ids(2) by (auto simp: find_wallet_def find_None_iff pg_uuid_canonical intro!: exI [of _ ?w])
  ultimately have "save_projection (projectionFromAggregate ?a) ?d3 =
      Inr (created userId currency walletId eid now tc d)"
    using save_projection_succeeds [of ?a ?d3] ids(2)
    by (simp add: created_def committed_def Let_def record_event_def empty_wallet_def)
  then have "\<exists>view. create_wallet (serial_tx d now tc) userId currency walletId eid =
      Inr (created userId currency walletId eid now tc d, view)"
    using none ins app enq by (auto simp: create_wallet_def projection_created)
  with none show ?thesis by (auto simp: getOrCreateForUser_def)
qed

section \<open>Settlement\<close>

text \<open>The command that settles hold \<open>tid\<close> of wallet \<open>s\<close> to wallet \<open>r\<close> fits its columns.\<close>

definition settleable :: "ledger_db \<Rightarrow> wallet \<Rightarrow> wallet \<Rightarrow> string \<Rightarrow> settle_transfer_dto \<Rightarrow> int \<Rightarrow> int \<Rightarrow> string \<Rightarrow> bool" where
  "settleable d s r tid cmd m n cur = (s \<in> set (ld_wallets d) \<and> r \<in> set (ld_wallets d) \<and> w_id s \<noteq> w_id r \<and>
     canonical (w_ownerId s) \<and> canonical tid \<and>
     st_senderWalletId cmd = w_id s \<and> st_senderUserId cmd = w_ownerId s \<and> st_currency cmd = w_currency s \<and>
     st_receiverWalletId cmd = w_id r \<and> cur = w_currency r \<and>
     length (w_currency s) \<le> 3 \<and> length (w_currency r) \<le> 3 \<and>
     0 < m \<and> m < 2 ^ 63 \<and> 0 < n \<and> n < 2 ^ 63 \<and> find_settlement d tid = None)"

lemma append_two:
  fixes now :: int
  assumes inv: "ledger_inv d" and s: "s \<in> set (ld_wallets d)" and r: "r \<in> set (ld_wallets d)" and ne: "w_id s \<noteq> w_id r"
    and rs: "rehydrate (w_id s) (stream (ld_events d) (w_id s)) = Inr sa"
    and rr: "rehydrate (w_id r) (stream (ld_events d) (w_id r)) = Inr ra"
    and ed: "decided did debit" "decided cid credit" and fr: "fresh_event d did" "fresh_event d cid" "pg_uuid did \<noteq> pg_uuid cid"
    and v: "wa_version sa + 1 < 2 ^ 31" "wa_version ra + 1 < 2 ^ 31"
  defines "e1 \<equiv> stored_of (wallet_request (w_id s) (wa_version sa) debit) now 0 debit"
    and "e2 \<equiv> stored_of (wallet_request (w_id r) (wa_version ra) credit) now 0 credit"
  shows "append_one (wallet_request (w_id s) (wa_version sa) debit) d now d =
      Inr (d\<lparr>ld_events := ld_events d @ [e1]\<rparr>, e1)"
    and "append_one (wallet_request (w_id r) (wa_version ra) credit) d now (d\<lparr>ld_events := ld_events d @ [e1]\<rparr>) =
      Inr (d\<lparr>ld_events := ld_events d @ [e1, e2]\<rparr>, e2)"
proof -
  have cs: "w_id s \<noteq> []" "pg_uuid (w_id s) = w_id s" and cr: "w_id r \<noteq> []" "pg_uuid (w_id r) = w_id r"
    using ledger_inv_id [OF inv] s r by (auto simp: canonical_def)
  note wf = ledger_inv_store [OF inv]
  have ty: "\<forall>e \<in> set (ld_events d). se_aggregateType e = ''Wallet''" using inv by (simp add: ledger_inv_def)
  have vs: "wa_version sa = int (length (stream (ld_events d) (pg_uuid (w_id s))))"
    using rehydrate_version [OF rs] cs by simp
  have e1: "se_streamId e1 = w_id s" "se_aggregateType e1 = ''Wallet''" "se_eventId e1 = pg_uuid did"
    using cs ed by (simp_all add: e1_def) (simp add: stored_of_def decided_def)
  show a1: "append_one (wallet_request (w_id s) (wa_version sa) debit) d now d =
      Inr (d\<lparr>ld_events := ld_events d @ [e1]\<rparr>, e1)"
    using append_one_succeeds [OF wf cs(1) ty _ _ _ _ _ _ vs v(1), of debit now] ed fr
    by (simp add: decided_def e1_def)
  let ?d1 = "d\<lparr>ld_events := ld_events d @ [e1]\<rparr>"
  have wf1: "store_wf (ld_events ?d1)" using append_one_ok(2) [OF wf prefix_order.refl a1] by simp
  have st: "stream (ld_events ?d1) (w_id r) = stream (ld_events d) (w_id r)" using e1 ne by simp
  have vr: "wa_version ra = int (length (stream (ld_events ?d1) (pg_uuid (w_id r))))"
    using rehydrate_version [OF rr] cr st by simp
  have "append_one (wallet_request (w_id r) (wa_version ra) credit) ?d1 now ?d1 =
      Inr (d\<lparr>ld_events := ld_events d @ [e1, e2]\<rparr>, e2)"
    using append_one_succeeds [OF wf1 cr(1) _ _ _ _ _ _ _ vr v(2), of credit now] ed fr ty e1
    by (simp add: decided_def e2_def fresh_event_def)
  moreover have "latest_event (ld_events d) (w_id r) = latest_event (ld_events ?d1) (w_id r)"
    using st by (simp add: latest_event_def)
  ultimately show "append_one (wallet_request (w_id r) (wa_version ra) credit) d now ?d1 =
      Inr (d\<lparr>ld_events := ld_events d @ [e1, e2]\<rparr>, e2)"
    using cr
    by (simp add: append_one_def append_event_def appendWithinTransaction_def mapAppendErrors_def
        appendUsingManager_def wallet_request_def)
qed

lemma settle_writes_commit:
  assumes inv: "ledger_inv d" and ok: "settleable d s r tid cmd m n cur"
    and rs: "rehydrate (w_id s) (stream (ld_events d) (w_id s)) = Inr sa"
    and rr: "rehydrate (w_id r) (stream (ld_events d) (w_id r)) = Inr ra"
    and ed: "decided did debit" "decided cid credit" and fr: "fresh_event d did" "fresh_event d cid" "pg_uuid did \<noteq> pg_uuid cid"
    and v: "wa_version sa + 1 < 2 ^ 31" "wa_version ra + 1 < 2 ^ 31"
    and step: "\<And>e. carries debit e sa \<Longrightarrow> apply_event sa e = Inr sa'"
      "\<And>e. carries credit e ra \<Longrightarrow> apply_event ra e = Inr ra'"
    and bal: "wa_balanceMinor sa' < 2 ^ 63" "wa_balanceMinor ra' < 2 ^ 63"
  shows "is_ok (settle_writes (serial_tx d now tc) tid cmd m n cur s r sa ra debit credit)"
proof -
  have s: "s \<in> set (ld_wallets d)" and r: "r \<in> set (ld_wallets d)" and ne: "w_id s \<noteq> w_id r"
    using ok by (simp_all add: settleable_def)
  let ?e1 = "stored_of (wallet_request (w_id s) (wa_version sa) debit) now 0 debit"
  let ?e2 = "stored_of (wallet_request (w_id r) (wa_version ra) credit) now 0 credit"
  note app = append_two [OF inv s r ne rs rr ed fr v]
  let ?m1 = "wallet_outbox_row s tc now ?e1" and ?m2 = "wallet_outbox_row r tc now ?e2"
  let ?d2 = "d\<lparr>ld_events := ld_events d @ [?e1, ?e2]\<rparr>"
  let ?d3 = "?d2\<lparr>ld_outbox := ld_outbox d @ [?m1]\<rparr>" and ?d4 = "?d2\<lparr>ld_outbox := ld_outbox d @ [?m1, ?m2]\<rparr>"
  have ids: "se_eventId ?e1 = pg_uuid did" "se_eventId ?e2 = pg_uuid cid"
    using ed by (simp_all add: stored_of_def decided_def)
  have q1: "enqueueWalletEvents [?e1] s tc now ?d2 = Inr ?d3"
    using enqueue_succeeds [of ?e1 ?d2] outbox_fresh [OF inv fr(1)] ids ed by (simp add: decided_def)
  have q2: "enqueueWalletEvents [?e2] r tc now ?d3 = Inr ?d4"
    using enqueue_succeeds [of ?e2 ?d3] outbox_fresh [OF inv fr(2)] ids ed fr(3) by (simp add: decided_def)
  note u = step(1) [OF carries_request] step(2) [OF carries_request]
  have a': "wa_id sa' = w_id s" "wa_version sa' = wa_version sa + 1" "wa_id ra' = w_id r" "wa_version ra' = wa_version ra + 1"
    using apply_event_id [OF u(1)] apply_event_id [OF u(2)] rehydrate_id [OF rs] rehydrate_id [OF rr] by auto
  have c: "canonical (w_id s)" "canonical (w_id r)" using ledger_inv_id [OF inv] s r by auto
  let ?d5 = "?d4\<lparr>ld_balances := AList.update (w_id s) (projectionFromAggregate sa') (ld_balances d)\<rparr>"
  have p1: "save_projection (projectionFromAggregate sa') ?d4 = Inr ?d5"
    using save_projection_succeeds [of sa' ?d4] apply_event_inv [OF u(1) rehydrate_inv [OF rs]] bal v a' c
      rehydrate_version [OF rs] find_wallet_member [OF inv s] by simp
  let ?d6 = "?d5\<lparr>ld_balances := AList.update (w_id r) (projectionFromAggregate ra') (ld_balances ?d5)\<rparr>"
  have p2: "save_projection (projectionFromAggregate ra') ?d5 = Inr ?d6"
    using save_projection_succeeds [of ra' ?d5] apply_event_inv [OF u(2) rehydrate_inv [OF rr]] bal v a' c
      rehydrate_version [OF rr] find_wallet_member [OF inv r] by simp
  have "is_ok (insert_settlement \<lparr>ts_transferId = tid, ts_senderWalletId = w_id s,
               ts_receiverWalletId = w_id r, ts_amountMinor = m, ts_currency = st_currency cmd,
               ts_destinationAmountMinor = n, ts_destinationCurrency = cur\<rparr> ?d6)"
    using ok c find_wallet_member [OF inv s] find_wallet_member [OF inv r]
    by (auto simp: insert_settlement_def uuid_settlement_def Let_def settleable_def pg_bigint_def
        pg_uuid_canonical find_settlement_None)
  then show ?thesis
    using app q1 q2 u p1 p2
    by (auto simp: settle_writes_def project_def Let_def is_ok_def split: sum.splits)
qed

end
