(* ===== verification/Ledger_Example.thy ===== *)
theory Ledger_Example
  imports Ledger_Progress
begin

text \<open>
  A run of the ledger on concrete data: two users, a wallet each, a deposit of 100.50, a hold of
  50.00 and its settlement. The witnesses of the ledger's properties are instances at these states.
\<close>

section \<open>States\<close>

definition ex_user :: "string \<Rightarrow> string \<Rightarrow> user" where
  "ex_user i mail = \<lparr>u_id = i, u_email = mail, u_passwordHash = ''h'', u_refreshTokenHash = None,
     u_role = RoleUser\<rparr>"

definition ex_tc :: trace_context where
  "ex_tc = \<lparr>tc_traceId = None, tc_traceparent = None, tc_tracestate = None\<rparr>"

abbreviation ex_tx :: "ledger_db \<Rightarrow> tx" where
  "ex_tx d \<equiv> serial_tx d 1000 ex_tc"

definition ex_wa :: wallet where "ex_wa = \<lparr>w_id = ''wa'', w_ownerId = ''a1'', w_currency = ''USD''\<rparr>"
definition ex_wb :: wallet where "ex_wb = \<lparr>w_id = ''wb'', w_ownerId = ''b1'', w_currency = ''USD''\<rparr>"

definition ex_db0 :: ledger_db where
  "ex_db0 = empty_ledger\<lparr>ld_users := [ex_user ''a1'' ''alice@x.io'', ex_user ''b1'' ''bob@x.io'']\<rparr>"

definition ex_db1 :: ledger_db where "ex_db1 = created ''a1'' ''USD'' ''wa'' ''e1'' 1000 ex_tc ex_db0"
definition ex_db2 :: ledger_db where "ex_db2 = created ''b1'' ''USD'' ''wb'' ''e2'' 1000 ex_tc ex_db1"

definition ex_a0 :: wallet_aggregate where
  "ex_a0 = (empty_wallet ''wa'')\<lparr>wa_version := 1, wa_ownerId := Some ''a1'', wa_currency := Some ''USD''\<rparr>"
definition ex_b0 :: wallet_aggregate where
  "ex_b0 = (empty_wallet ''wb'')\<lparr>wa_version := 1, wa_ownerId := Some ''b1'', wa_currency := Some ''USD''\<rparr>"
definition ex_a1 :: wallet_aggregate where "ex_a1 = ex_a0\<lparr>wa_version := 2, wa_balanceMinor := 10050\<rparr>"
definition ex_a2 :: wallet_aggregate where
  "ex_a2 = withHold ex_a1 3 ''f1'' \<lparr>hs_amountMinor = 5000, hs_status = Active\<rparr>"

definition ex_ed3 :: event_data where "ex_ed3 = projr (deposit ex_a0 10050 ''e3'' ''t3'')"
definition ex_ed4 :: event_data where "ex_ed4 = the (projr (placeHold ex_a1 ''f1'' 5000 ''e4''))"

definition ex_db3 :: ledger_db where "ex_db3 = committed ex_wa ex_a0 ex_ed3 1000 ex_tc ex_a1 ex_db2"
definition ex_db4 :: ledger_db where "ex_db4 = committed ex_wa ex_a1 ex_ed4 1000 ex_tc ex_a2 ex_db3"

definition ex_settle :: settle_transfer_dto where
  "ex_settle = \<lparr>st_senderUserId = ''a1'', st_senderWalletId = ''wa'', st_receiverWalletId = ''wb'',
     st_amount = JsFin 50, st_currency = ''USD'', st_targetCurrency = None, st_destinationAmount = None\<rparr>"

section \<open>The effect of a committed event on what the lemmas look at\<close>

lemma committed_simps [simp]:
  "ld_users (committed w a ed now tc a' d) = ld_users d"
  "ld_wallets (committed w a ed now tc a' d) = ld_wallets d"
  "ld_settlements (committed w a ed now tc a' d) = ld_settlements d"
  "se_eventId ` set (ld_events (committed w a ed now tc a' d)) =
     insert (pg_uuid (ed_eventId ed)) (se_eventId ` set (ld_events d))"
  "stream (ld_events (committed w a ed now tc a' d)) k = stream (ld_events d) k @
     (if pg_uuid (w_id w) = k then [stored_of (wallet_request (w_id w) (wa_version a) ed) now 0 ed] else [])"
  by (simp_all add: committed_def Let_def) (simp add: stored_of_def)

lemma created_simps [simp]:
  "ld_users (created u c w i now tc d) = ld_users d"
  "ld_wallets (created u c w i now tc d) = ld_wallets d @ [\<lparr>w_id = w, w_ownerId = u, w_currency = c\<rparr>]"
  "ld_settlements (created u c w i now tc d) = ld_settlements d"
  "se_eventId ` set (ld_events (created u c w i now tc d)) = insert (pg_uuid i) (se_eventId ` set (ld_events d))"
  by (simp_all add: created_def createdEvent_def Let_def)

lemma canonical_ex [simp]:
  "pg_uuid ''a1'' = ''a1''" "pg_uuid ''b1'' = ''b1''" "pg_uuid ''wa'' = ''wa''" "pg_uuid ''wb'' = ''wb''"
  "pg_uuid ''f1'' = ''f1''" "pg_uuid ''e1'' = ''e1''" "pg_uuid ''e2'' = ''e2''" "pg_uuid ''e3'' = ''e3''"
  "pg_uuid ''e4'' = ''e4''" "pg_uuid ''e5'' = ''e5''" "pg_uuid ''e6'' = ''e6''"
  by (simp_all add: pg_uuid_def toLowerCase_def lower_char_def)

lemma rehydrate_created_stream:
  assumes "stream (ld_events d) w = []" "canonical w"
  shows "rehydrate w (stream (ld_events (created u c w i now tc d)) w) =
    Inr ((empty_wallet w)\<lparr>wa_version := 1, wa_ownerId := Some u, wa_currency := Some c\<rparr>)"
proof -
  have "wa_version (empty_wallet w) = 0" by (simp add: empty_wallet_def)
  then show ?thesis
    using assms rehydrate_created [OF refl, of w w u c i] by (simp add: created_def Let_def canonical_def)
qed

lemma rehydrate_committed:
  assumes "rehydrate (w_id w) (stream (ld_events d) (w_id w)) = Inr a" "canonical (w_id w)"
    and "\<And>e. carries ed e a \<Longrightarrow> apply_event a e = Inr a'"
  shows "rehydrate (w_id w) (stream (ld_events (committed w a ed now tc a' d)) (w_id w)) = Inr a'"
  using assms(1,2) assms(3) [OF carries_request] by (simp add: rehydrate_snoc canonical_def)

section \<open>The run\<close>

lemma ex_reach0: "ledger_reachable ex_db0"
  unfolding ex_db0_def
  by (rule ledger_reachable.step [OF ledger_reachable.start ledger_step.users])
    (simp add: ex_user_def canonical_def)

lemma ex_reach1: "ledger_reachable ex_db1"
proof -
  have "\<exists>view. getOrCreateForUser (ex_tx ex_db0) ''a1'' ''USD'' ''wa'' ''e1'' = Inr (ex_db1, view)"
    unfolding ex_db1_def using ledger_reachable_inv [OF ex_reach0]
    by (intro create_commits)
      (simp_all add: ex_db0_def empty_ledger_def ex_user_def fresh_event_def canonical_def)
  then have "ledger_step (tx_db (ex_tx ex_db0)) ex_db1"
    using ledger_step.create [OF valid_serial_tx, of "''wa''" "''a1''"] by (auto simp: canonical_def)
  with ex_reach0 show ?thesis using ledger_reachable.step by simp
qed

lemma ex_reach2: "ledger_reachable ex_db2"
proof -
  have "\<exists>view. getOrCreateForUser (ex_tx ex_db1) ''b1'' ''USD'' ''wb'' ''e2'' = Inr (ex_db2, view)"
    unfolding ex_db2_def using ledger_reachable_inv [OF ex_reach1]
    by (intro create_commits)
      (simp_all add: ex_db0_def ex_db1_def empty_ledger_def ex_user_def fresh_event_def canonical_def)
  then have "ledger_step (tx_db (ex_tx ex_db1)) ex_db2"
    using ledger_step.create [OF valid_serial_tx, of "''wb''" "''b1''"] by (auto simp: canonical_def)
  with ex_reach1 show ?thesis using ledger_reachable.step by simp
qed

lemma ex_wallets2 [simp]: "ld_wallets ex_db2 = [ex_wa, ex_wb]"
  by (simp add: ex_db2_def ex_db1_def ex_db0_def empty_ledger_def ex_wa_def ex_wb_def)

lemma ex_ids [simp]: "w_id ex_wa = ''wa''" "w_id ex_wb = ''wb''" "w_ownerId ex_wa = ''a1''" "w_ownerId ex_wb = ''b1''"
  "w_currency ex_wa = ''USD''" "w_currency ex_wb = ''USD''"
  by (simp_all add: ex_wa_def ex_wb_def)

lemma ex_aggregate0: "rehydrate ''wa'' (stream (ld_events ex_db2) ''wa'') = Inr ex_a0"
proof -
  have "stream (ld_events ex_db2) ''wa'' = stream (ld_events ex_db1) ''wa''"
    by (simp add: ex_db2_def created_def Let_def)
  then show ?thesis
    using rehydrate_created_stream [of ex_db0 "''wa''"]
    by (simp add: ex_db1_def ex_a0_def ex_db0_def empty_ledger_def canonical_def)
qed

lemma ex_aggregate_b: "rehydrate ''wb'' (stream (ld_events ex_db2) ''wb'') = Inr ex_b0"
proof -
  have "stream (ld_events ex_db1) ''wb'' = []"
    by (simp add: ex_db1_def ex_db0_def empty_ledger_def created_def Let_def)
  then show ?thesis
    using rehydrate_created_stream [of ex_db1 "''wb''"] by (simp add: ex_db2_def ex_b0_def canonical_def)
qed

lemma ex_deposit: "deposit ex_a0 10050 ''e3'' ''t3'' = Inr ex_ed3"
  by (simp add: ex_ed3_def deposit_def moneyEvent_def createLedgerTransaction_eq)

lemma ex_ed3_applies: "carries ex_ed3 e ex_a0 \<Longrightarrow> apply_event ex_a0 e = Inr ex_a1"
  using deposit_applies [OF rehydrate_inv [OF ex_aggregate0] _ ex_deposit, of e]
  by (simp add: ex_a1_def) (simp add: ex_a0_def empty_wallet_def)

lemma ex_event_ids [simp]: "ed_eventId ex_ed3 = ''e3''" "ed_eventId ex_ed4 = ''e4''"
proof -
  show "ed_eventId ex_ed3 = ''e3''"
    using decided_commands(1) [OF ex_deposit] by (simp add: decided_def)
  show "ed_eventId ex_ed4 = ''e4''"
    by (simp add: ex_ed4_def placeHold_def ex_a1_def ex_a0_def empty_wallet_def availableMinor_def
        heldMinor_def domain_event_def)
qed

lemma ex_fresh2 [simp]: "se_eventId ` set (ld_events ex_db2) = {''e1'', ''e2''}"
  by (auto simp: ex_db2_def ex_db1_def ex_db0_def empty_ledger_def)

lemma ex_run3:
  "executeMoneyCommandAttempt (ex_tx ex_db2) ''wa'' ''a1'' 10050 DepositOp ''e3'' ''t3'' =
    Inr (ex_db3, toView ex_wa (projectionFromAggregate ex_a1))"
  using money_attempt_commits [OF ledger_reachable_inv [OF ex_reach2], where w = ex_wa and a = ex_a0
      and op = DepositOp and m = 10050 and eid = "''e3''" and tid = "''t3''" and ed = ex_ed3 and a' = ex_a1
      and now = 1000 and tc = ex_tc] ex_aggregate0 ex_deposit ex_ed3_applies
  by (simp add: canonical_def fresh_event_def ex_db3_def) (simp add: ex_a1_def ex_a0_def)

lemma ex_reach3: "ledger_reachable ex_db3"
proof -
  have "ledger_step (tx_db (ex_tx ex_db2)) ex_db3"
    by (rule ledger_step.money [OF valid_serial_tx _ ex_run3]) (simp add: canonical_def)
  with ex_reach2 show ?thesis using ledger_reachable.step by simp
qed

lemma ex_aggregate1: "rehydrate ''wa'' (stream (ld_events ex_db3) ''wa'') = Inr ex_a1"
  using rehydrate_committed [of ex_wa ex_db2 ex_a0 ex_ed3 ex_a1] ex_aggregate0 ex_ed3_applies
  by (simp add: ex_db3_def canonical_def)

lemma ex_place: "placeHold ex_a1 ''f1'' 5000 ''e4'' = Inr (Some ex_ed4)"
  by (simp add: ex_ed4_def placeHold_def ex_a1_def ex_a0_def empty_wallet_def availableMinor_def heldMinor_def)

lemma ex_ed4_applies: "carries ex_ed4 e ex_a1 \<Longrightarrow> apply_event ex_a1 e = Inr ex_a2"
  using placeHold_applies [OF ex_place] by (simp add: ex_a2_def ex_a1_def)

lemma ex_run4:
  "executeHoldCommandAttempt (ex_tx ex_db3) ''wa'' ''a1'' ''f1'' PlaceOp (Some 5000) False ''e4'' ''t4'' =
    Inr (ex_db4, toView ex_wa (projectionFromAggregate ex_a2))"
  using hold_attempt_commits [OF ledger_reachable_inv [OF ex_reach3], where w = ex_wa and a = ex_a1 and k = "''f1''"
      and op = PlaceOp and m = "Some 5000" and allow = False and eid = "''e4''" and tid = "''t4''"
      and ed = ex_ed4 and a' = ex_a2 and now = 1000 and tc = ex_tc] ex_aggregate1 ex_place ex_ed4_applies
  by (simp add: canonical_def fresh_event_def ex_db3_def ex_db4_def decide_hold_def)
    (simp add: ex_a2_def ex_a1_def ex_a0_def empty_wallet_def)

lemma ex_reach4: "ledger_reachable ex_db4"
proof -
  have "ledger_step (tx_db (ex_tx ex_db3)) ex_db4"
    by (rule ledger_step.hold [OF valid_serial_tx _ ex_run4]) (simp add: canonical_def)
  with ex_reach3 show ?thesis using ledger_reachable.step by simp
qed

lemma ex_aggregate2: "rehydrate ''wa'' (stream (ld_events ex_db4) ''wa'') = Inr ex_a2"
  using rehydrate_committed [of ex_wa ex_db3 ex_a1 ex_ed4 ex_a2] ex_aggregate1 ex_ed4_applies
  by (simp add: ex_db4_def canonical_def)

lemma ex_aggregate_b4: "rehydrate ''wb'' (stream (ld_events ex_db4) ''wb'') = Inr ex_b0"
  using ex_aggregate_b by (simp add: ex_db4_def ex_db3_def)

lemma ex_wallets4 [simp]: "ld_wallets ex_db4 = [ex_wa, ex_wb]"
  by (simp add: ex_db4_def ex_db3_def)

end
