(* ===== verification/Ledger_Safety.thy ===== *)
theory Ledger_Safety
  imports Ledger_Example
begin

text \<open>
  The properties of the ledger service, over every state its transactions can reach and every
  interleaving of them, with their witnesses on the run of \<open>Ledger_Example\<close>.
\<close>

section \<open>Balances\<close>



text \<open>
  A user has at most one wallet per currency in every reachable state, however many requests
  create it at the same time.
\<close>

theorem one_wallet_per_currency:
  assumes "ledger_reachable d" "v \<in> set (ld_wallets d)" "w \<in> set (ld_wallets d)"
    and "w_ownerId v = w_ownerId w" "w_currency v = w_currency w"
  shows "v = w"
proof -
  have "distinct (map (\<lambda>w. (w_ownerId w, w_currency w)) (ld_wallets d))"
    using ledger_reachable_inv [OF assms(1)] by (simp add: ledger_inv_def)
  with assms(2-) show ?thesis by (simp add: distinct_map inj_on_def)
qed

theorem one_wallet_per_currency_witness:
  "ledger_reachable ex_db4 \<and> ex_wa \<in> set (ld_wallets ex_db4) \<and> hd (ld_wallets ex_db4) = ex_wa"
  using one_wallet_per_currency [OF ex_reach4, of "hd (ld_wallets ex_db4)" ex_wa] ex_reach4 by simp

lemma money_event_balanced:
  assumes "apply_event a e = Inr a'"
    and "se_eventType e \<in> {MONEY_DEPOSITED, WITHDRAWAL_COMPLETED, HOLD_CONSUMED}"
  shows "\<exists>ps. readPostings (se_payload e) = Inr ps \<and> 2 \<le> length ps \<and> sum_postings ps = Inr 0"
proof -
  have "\<exists>ps. readPostings (se_payload e) = Inr ps"
    using assms(1)
  proof (cases rule: apply_event_cases)
    case money
    then show ?thesis by (auto simp: apply_money_def result_simps)
  next
    case consumed
    then show ?thesis by (auto simp: apply_consumed_def case_option_eq_Inr result_simps split: if_splits)
  qed (use assms(2) in \<open>auto simp: event_type_defs\<close>)
  then show ?thesis using readPostings_balanced by blast
qed

lemma rehydrate_applied:
  "rehydrate w es = Inr a \<Longrightarrow> e \<in> set es \<Longrightarrow> \<exists>b b'. apply_event b e = Inr b'"
proof (induction es arbitrary: a rule: rev_induct)
  case (snoc x es)
  then show ?case by (auto simp: rehydrate_snoc result_simps)
qed simp

text \<open>
  C11. The balance of every stream that rehydrates is the sum of its postings to the wallet's account,
  and every event that moves money is a balanced double entry of at least two postings.
\<close>

theorem stream_is_double_entry:
  assumes "rehydrate w es = Inr a"
  shows "wa_balanceMinor a = sum_list (map (posted w) es) \<and>
    (\<forall>e \<in> set es. se_eventType e \<in> {MONEY_DEPOSITED, WITHDRAWAL_COMPLETED, HOLD_CONSUMED} \<longrightarrow>
      (\<exists>ps. readPostings (se_payload e) = Inr ps \<and> 2 \<le> length ps \<and> sum_postings ps = Inr 0))"
  using rehydrate_posted [OF assms] rehydrate_applied [OF assms] money_event_balanced by blast

theorem stream_is_double_entry_witness:
  "\<exists>es. rehydrate ''wa'' es = Inr ex_a1 \<and> sum_list (map (posted ''wa'') es) = 10050"
proof -
  have "wa_balanceMinor ex_a1 = 10050" by (simp add: ex_a1_def ex_a0_def)
  with stream_is_double_entry [OF ex_aggregate1] ex_aggregate1 show ?thesis by auto
qed

section \<open>Holds\<close>

text \<open>
  C10. The life of a hold over any extension of a stream: it never disappears, its amount never changes,
  and once released or consumed it stays so; in particular a hold is consumed at most once and
  never both released and consumed.
\<close>

theorem hold_is_final:
  assumes "rehydrate w es = Inr a" "es \<noteq> []" "rehydrate w (es @ later) = Inr b"
    and "map_of (wa_holds a) k = Some h"
  shows "\<exists>h'. map_of (wa_holds b) k = Some h' \<and> hs_amountMinor h' = hs_amountMinor h \<and>
    (hs_status h = Active \<or> h' = h)"
proof -
  have "hold_le (map_of (wa_holds a) k) (map_of (wa_holds b) k)"
    using assms(3)
  proof (induction later arbitrary: b rule: rev_induct)
    case (snoc e later)
    then obtain c where c: "rehydrate w (es @ later) = Inr c" "apply_event c e = Inr b"
      by (auto simp: rehydrate_snoc result_simps simp flip: append_assoc)
    have "0 < wa_version c" using rehydrate_version [OF c(1)] assms(2) by (cases es) simp_all
    from hold_le_trans [OF snoc.IH [OF c(1)] apply_event_holds [OF c(2) this]] show ?case .
  qed (use assms(1) in simp)
  with assms(4) show ?thesis by (auto simp: hold_le_def split: option.splits)
qed

theorem hold_is_final_witness:
  "\<exists>es later a. rehydrate ''wa'' es = Inr ex_a2 \<and> rehydrate ''wa'' (es @ later) = Inr a \<and> later \<noteq> [] \<and>
     (\<exists>h. map_of (wa_holds a) ''f1'' = Some h \<and> hs_amountMinor h = 5000)"
proof -
  let ?es = "stream (ld_events ex_db4) ''wa''"
  obtain ed where ed: "deposit ex_a2 1 ''e9'' ''t9'' = Inr ed" by (simp add: deposit_def moneyEvent_ok)
  let ?e = "stored_of (wallet_request ''wa'' (wa_version ex_a2) ed) 0 0 ed"
  have "\<exists>b. apply_event ex_a2 ?e = Inr b"
    using deposit_applies [OF rehydrate_inv [OF ex_aggregate2] _ ed carries_request] by auto
  then obtain b where b: "rehydrate ''wa'' (?es @ [?e]) = Inr b"
    using ex_aggregate2 by (auto simp: rehydrate_snoc)
  have ne: "?es \<noteq> []" by (simp add: ex_db4_def)
  have "map_of (wa_holds ex_a2) ''f1'' = Some \<lparr>hs_amountMinor = 5000, hs_status = Active\<rparr>"
    by (simp add: ex_a2_def)
  from hold_is_final [OF ex_aggregate2 ne b this] ex_aggregate2 b show ?thesis
    by (intro exI [of _ ?es] exI [of _ "[?e]"] exI [of _ b]) auto
qed

section \<open>Settlement\<close>

lemma settle_commits_writes:
  assumes inv: "ledger_inv (tx_db t)" and t: "valid_tx t"
    and none: "find_settlement (tx_db t) tid = None"
    and ok: "settleTransferAttempt t tid cmd m n cur did cid = Inr (d', views)"
  shows "\<exists>s r sa ra h debit credit. s \<in> set (ld_wallets (tx_db t)) \<and> r \<in> set (ld_wallets (tx_db t)) \<and>
      w_id s \<noteq> w_id r \<and> w_id s = pg_uuid (st_senderWalletId cmd) \<and> w_id r = pg_uuid (st_receiverWalletId cmd) \<and>
      loadAggregate (w_id s) (tx_read t) = Inr sa \<and> loadAggregate (w_id r) (tx_read t) = Inr ra \<and>
      map_of (wa_holds sa) tid = Some h \<and> hs_amountMinor h = m \<and>
      consumeHold sa tid did tid = Inr (Some debit) \<and> deposit ra n cid tid = Inr credit \<and>
      settle_writes t tid cmd m n cur s r sa ra debit credit = Inr (d', views)"
proof -
  have "find_settlement (tx_read t) tid = None"
    using none find_settlement_le [OF _ valid_txD(2) [OF t]] by (cases "find_settlement (tx_read t) tid") auto
  moreover have "set (ld_wallets (tx_read t)) \<subseteq> set (ld_wallets (tx_db t))"
    using valid_txD(2) [OF t] by (auto simp: ledger_le_def elim!: prefixE)
  ultimately show ?thesis using settle_attempt_ok [OF ok] by (elim disjE exE conjE) (simp, blast)
qed

lemma settle_writes_receipt:
  assumes "ledger_inv (tx_db t)" "valid_tx t" "s \<in> set (ld_wallets (tx_db t))" "r \<in> set (ld_wallets (tx_db t))"
    and "w_id s \<noteq> w_id r" "loadAggregate (w_id s) (tx_read t) = Inr sa" "loadAggregate (w_id r) (tx_read t) = Inr ra"
    and "settle_writes t tid cmd m n cur s r sa ra debit credit = Inr (d', views)"
  shows "\<exists>d6. ld_settlements d6 = ld_settlements (tx_db t) \<and> ld_wallets d6 = ld_wallets (tx_db t) \<and>
    insert_settlement \<lparr>ts_transferId = tid, ts_senderWalletId = w_id s, ts_receiverWalletId = w_id r,
      ts_amountMinor = m, ts_currency = st_currency cmd, ts_destinationAmountMinor = n,
      ts_destinationCurrency = cur\<rparr> d6 = Inr d'"
proof -
  from settle_writes_ok [OF assms] obtain e1 m1 sa' e2 m2 ra' d6 where
    "d6 = record_event e2 m2 (projectionFromAggregate ra')
       (record_event e1 m1 (projectionFromAggregate sa') (tx_db t))"
    and ins: "insert_settlement \<lparr>ts_transferId = tid, ts_senderWalletId = w_id s, ts_receiverWalletId = w_id r,
      ts_amountMinor = m, ts_currency = st_currency cmd, ts_destinationAmountMinor = n,
      ts_destinationCurrency = cur\<rparr> d6 = Inr d'" by blast
  then show ?thesis by (intro exI [of _ d6]) simp
qed

lemma projection_balance [simp]:
  "bp_balanceMinor (projectionFromAggregate a) = wa_balanceMinor a"
  "bp_heldMinor (projectionFromAggregate a) = heldMinor a"
  "bp_availableMinor (projectionFromAggregate a) = availableMinor a"
  by (simp_all add: projectionFromAggregate_def)

text \<open>
  What a settlement that commits does, under any interleaving: the sender's balance and held money
  fall by the held amount (its available money is unchanged), the receiver's balance rises by
  the destination amount, every other wallet keeps its projection, and exactly one receipt is
  written.
\<close>

theorem settlement_effect:
  assumes reach: "ledger_reachable (tx_db t)" and t: "valid_tx t" and tid: "canonical tid" and n: "0 < n"
    and none: "find_settlement (tx_db t) tid = None"
    and ok: "settleTransferAttempt t tid cmd m n cur did cid = Inr (d', views)"
  shows "\<exists>s r p q p' q'. s = pg_uuid (st_senderWalletId cmd) \<and> r = pg_uuid (st_receiverWalletId cmd) \<and> s \<noteq> r \<and>
    map_of (ld_balances (tx_db t)) s = Some p \<and> map_of (ld_balances (tx_db t)) r = Some q \<and>
    map_of (ld_balances d') s = Some p' \<and> map_of (ld_balances d') r = Some q' \<and>
    bp_balanceMinor p' = bp_balanceMinor p - m \<and> bp_heldMinor p' = bp_heldMinor p - m \<and>
    bp_availableMinor p' = bp_availableMinor p \<and>
    bp_balanceMinor q' = bp_balanceMinor q + n \<and> bp_heldMinor q' = bp_heldMinor q \<and>
    (\<forall>k. k \<noteq> s \<and> k \<noteq> r \<longrightarrow> map_of (ld_balances d') k = map_of (ld_balances (tx_db t)) k) \<and>
    map ts_transferId (ld_settlements d') = map ts_transferId (ld_settlements (tx_db t)) @ [tid]"
proof -
  let ?d = "tx_db t"
  have inv: "ledger_inv ?d" by (rule ledger_reachable_inv [OF reach])
  from settle_commits_writes [OF inv t none ok] obtain s r sa ra h debit credit where
    s: "s \<in> set (ld_wallets ?d)" and r: "r \<in> set (ld_wallets ?d)" and ne: "w_id s \<noteq> w_id r"
    and ids: "w_id s = pg_uuid (st_senderWalletId cmd)" "w_id r = pg_uuid (st_receiverWalletId cmd)"
    and l: "loadAggregate (w_id s) (tx_read t) = Inr sa" "loadAggregate (w_id r) (tx_read t) = Inr ra"
    and h: "map_of (wa_holds sa) tid = Some h" "hs_amountMinor h = m"
    and c: "consumeHold sa tid did tid = Inr (Some debit)" and dep: "deposit ra n cid tid = Inr credit"
    and w: "settle_writes t tid cmd m n cur s r sa ra debit credit = Inr (d', views)" by blast
  from settle_writes_ok [OF inv t s r ne l w] obtain e1 m1 sa' e2 m2 ra' d6 where
    rs: "rehydrate (w_id s) (stream (ld_events ?d) (w_id s)) = Inr sa"
    and rr: "rehydrate (w_id r) (stream (ld_events ?d) (w_id r)) = Inr ra"
    and car: "carries debit e1 sa" "carries credit e2 ra"
    and u: "apply_event sa e1 = Inr sa'" "apply_event ra e2 = Inr ra'"
    and d6: "d6 = record_event e2 m2 (projectionFromAggregate ra')
             (record_event e1 m1 (projectionFromAggregate sa') ?d)"
    and ins: "insert_settlement \<lparr>ts_transferId = tid, ts_senderWalletId = w_id s,
               ts_receiverWalletId = w_id r, ts_amountMinor = m,
               ts_currency = st_currency cmd, ts_destinationAmountMinor = n,
               ts_destinationCurrency = cur\<rparr> d6 = Inr d'" by blast
  have d': "ld_balances d' = AList.update (wa_id ra') (projectionFromAggregate ra')
      (AList.update (wa_id sa') (projectionFromAggregate sa') (ld_balances ?d))"
    "map ts_transferId (ld_settlements d') = map ts_transferId (ld_settlements ?d) @ [tid]"
    using insert_settlement_ok(1) [OF ins] d6 tid by (simp_all add: uuid_settlement_def pg_uuid_canonical)
  have id: "wa_id sa' = w_id s" "wa_id ra' = w_id r"
    using apply_event_id u rehydrate_id rs rr by metis+
  note wis = rehydrate_inv [OF rs] and ir = rehydrate_inv [OF rr]
  from consumeHold_applies [OF c wis car(1)] h u(1) have
    sa': "hs_status h = Active" "sa' = (withHold sa (wa_version sa + 1) tid (h\<lparr>hs_status := Consumed\<rparr>))
      \<lparr>wa_balanceMinor := wa_balanceMinor sa - m\<rparr>" by auto
  have held: "heldMinor sa' = heldMinor sa - m" "wa_balanceMinor sa' = wa_balanceMinor sa - m"
    using sa' h heldMinor_withHold [OF wis] by (simp_all add: hold_weight_def)
  have ra': "wa_balanceMinor ra' = wa_balanceMinor ra + n" "heldMinor ra' = heldMinor ra"
    using deposit_applies [OF ir n dep car(2)] u(2) by auto
  have "map_of (ld_balances ?d) (w_id s) = Some (projectionFromAggregate sa)"
    "map_of (ld_balances ?d) (w_id r) = Some (projectionFromAggregate ra)"
    using ledger_inv_wallet [OF inv s] ledger_inv_wallet [OF inv r] rs rr by auto
  then show ?thesis
    using d' id ids ne held ra'
    by (intro exI [of _ "w_id s"] exI [of _ "w_id r"] exI [of _ "projectionFromAggregate sa"]
        exI [of _ "projectionFromAggregate ra"] exI [of _ "projectionFromAggregate sa'"]
        exI [of _ "projectionFromAggregate ra'"]) (auto simp: availableMinor_def)
qed

lemma ex_settle_ok:
  "is_ok (settleTransferAttempt (ex_tx ex_db4) ''f1'' ex_settle 5000 5000 ''USD'' ''e5'' ''e6'')"
proof -
  have inv: "ledger_inv ex_db4" by (rule ledger_reachable_inv [OF ex_reach4])
  note wi = rehydrate_inv [OF ex_aggregate2]
  have hold: "map_of (wa_holds ex_a2) ''f1'' = Some \<lparr>hs_amountMinor = 5000, hs_status = Active\<rparr>"
    by (simp add: ex_a2_def)
  have id: "wa_id ex_a2 = ''wa''" using rehydrate_id [OF ex_aggregate2] .
  obtain debit where debit: "consumeHold ex_a2 ''f1'' ''e5'' ''f1'' = Inr (Some debit)"
    using hold by (simp add: consumeHold_ok [OF wi])
  obtain credit where credit: "deposit ex_b0 5000 ''e6'' ''f1'' = Inr credit"
    by (simp add: deposit_def moneyEvent_ok)
  have b0: "wallet_inv ex_b0" by (rule rehydrate_inv [OF ex_aggregate_b])
  define sa' where "sa' = (withHold ex_a2 (wa_version ex_a2 + 1) ''f1'' \<lparr>hs_amountMinor = 5000, hs_status = Consumed\<rparr>)
      \<lparr>wa_balanceMinor := wa_balanceMinor ex_a2 - 5000\<rparr>"
  have s1: "apply_event ex_a2 e = Inr sa'" if "carries debit e ex_a2" for e
    using consumeHold_applies [OF debit wi that] hold by (simp add: sa'_def)
  have s2: "apply_event ex_b0 e = Inr (ex_b0\<lparr>wa_version := wa_version ex_b0 + 1, wa_balanceMinor := wa_balanceMinor ex_b0 + 5000\<rparr>)"
    if "carries credit e ex_b0" for e
    using deposit_applies [OF b0 _ credit that] by simp
  have ids: "se_eventId ` set (ld_events ex_db4) = {''e1'', ''e2'', ''e3'', ''e4''}"
    by (auto simp: ex_db4_def ex_db3_def)
  have none: "find_settlement ex_db4 ''f1'' = None"
    by (simp add: find_settlement_def ex_db4_def ex_db3_def ex_db2_def ex_db1_def ex_db0_def empty_ledger_def)
  have "is_ok (settle_writes (ex_tx ex_db4) ''f1'' ex_settle 5000 5000 ''USD'' ex_wa ex_wb ex_a2 ex_b0 debit credit)"
  proof (rule settle_writes_commit [OF inv _ _ _ _ _ _ _ _ _ _ s1 s2])
    show "decided ''e5'' debit" by (rule decided_commands(5) [OF wi debit])
    show "decided ''e6'' credit" by (rule decided_commands(1) [OF credit])
    show "settleable ex_db4 ex_wa ex_wb ''f1'' ex_settle 5000 5000 ''USD''"
      using none by (simp add: settleable_def ex_settle_def canonical_def)
  qed (use ex_aggregate2 ex_aggregate_b4 ids in \<open>simp_all add: fresh_event_def sa'_def ex_a2_def ex_a1_def ex_a0_def
        ex_b0_def empty_wallet_def\<close>)
  moreover have "find_owned ex_db4 ''wa'' ''a1'' = Some ex_wa" by (simp add: find_owned_def)
  moreover have "loadAggregate ''wa'' ex_db4 = Inr ex_a2" "loadAggregate ''wb'' ex_db4 = Inr ex_b0"
    using load_current [OF inv, of ex_wa] load_current [OF inv, of ex_wb] ex_aggregate2 ex_aggregate_b4 by simp_all
  moreover have "assertAggregateIdentity ex_wa ex_a2 = Inr ()" "assertAggregateIdentity ex_wb ex_b0 = Inr ()"
    using identity_current [OF inv, of ex_wa] identity_current [OF inv, of ex_wb] ex_aggregate2 ex_aggregate_b4
    by simp_all
  ultimately show ?thesis
    using none hold debit credit
    by (simp add: settleTransferAttempt_def ex_settle_def)
qed

theorem settlement_effect_witness:
  "\<exists>d' views p q. settleTransferAttempt (ex_tx ex_db4) ''f1'' ex_settle 5000 5000 ''USD'' ''e5'' ''e6'' = Inr (d', views) \<and>
     map_of (ld_balances d') ''wa'' = Some p \<and> bp_balanceMinor p = 5050 \<and> bp_heldMinor p = 0 \<and>
     map_of (ld_balances d') ''wb'' = Some q \<and> bp_balanceMinor q = 5000"
proof -
  obtain d' views where ok: "settleTransferAttempt (ex_tx ex_db4) ''f1'' ex_settle 5000 5000 ''USD'' ''e5'' ''e6'' = Inr (d', views)"
    using ex_settle_ok by (auto simp: is_ok_def split: sum.splits)
  have none: "find_settlement (tx_db (ex_tx ex_db4)) ''f1'' = None"
    by (simp add: find_settlement_def ex_db4_def ex_db3_def ex_db2_def ex_db1_def ex_db0_def empty_ledger_def)
  have b: "map_of (ld_balances ex_db4) ''wa'' = Some (projectionFromAggregate ex_a2)"
    "map_of (ld_balances ex_db4) ''wb'' = Some (projectionFromAggregate ex_b0)"
    using ledger_inv_wallet [OF ledger_reachable_inv [OF ex_reach4], of ex_wa] ex_aggregate2
      ledger_inv_wallet [OF ledger_reachable_inv [OF ex_reach4], of ex_wb] ex_aggregate_b4 by auto
  have "heldMinor ex_a2 = 5000" "wa_balanceMinor ex_a2 = 10050" "wa_balanceMinor ex_b0 = 0"
    by (simp_all add: ex_a2_def ex_a1_def ex_a0_def ex_b0_def empty_wallet_def withHold_def heldMinor_def)
  with settlement_effect [OF _ valid_serial_tx _ _ none ok] ex_reach4 b ok show ?thesis
    by (auto simp: ex_settle_def canonical_def)
qed

end
