(* ===== verification/Ledger_Concurrency.thy ===== *)
theory Ledger_Concurrency
  imports Ledger_Safety
begin

text \<open>
  What racing and repeated requests to the ledger do: settlements are idempotent and happen once, a
  command that decided on an outdated wallet never commits, the retry loop ends in the outcome of
  one of its attempts, and the outbox hands every event to one live lease at a time.
\<close>

section \<open>Settlement happens once\<close>

text \<open>
  A settlement whose receipt is already committed when it writes changes nothing, even if its own
  reads were taken before that receipt existed: the attempt answers from the receipt or fails, and the
  transfer is never booked twice.
\<close>

theorem settlement_happens_once:
  assumes reach: "ledger_reachable (tx_db t)" and t: "valid_tx t"
    and receipt: "find_settlement (tx_db t) tid \<noteq> None"
    and ok: "settleTransferAttempt t tid cmd m n cur did cid = Inr (d', views)"
  shows "d' = tx_db t"
proof -
  have inv: "ledger_inv (tx_db t)" by (rule ledger_reachable_inv [OF reach])
  have sub: "set (ld_wallets (tx_read t)) \<subseteq> set (ld_wallets (tx_db t))"
    using valid_txD(2) [OF t] by (auto simp: ledger_le_def elim!: prefixE)
  from receipt obtain rc where rc: "rc \<in> set (ld_settlements (tx_db t))" "ts_transferId rc = pg_uuid tid"
    using find_settlement_Some by blast
  from settle_attempt_ok [OF ok] show ?thesis
  proof (elim disjE exE conjE)
    fix s r sa ra h debit credit
    assume a: "s \<in> set (ld_wallets (tx_read t))" "r \<in> set (ld_wallets (tx_read t))" "w_id s \<noteq> w_id r"
      "loadAggregate (w_id s) (tx_read t) = Inr sa" "loadAggregate (w_id r) (tx_read t) = Inr ra"
      "settle_writes t tid cmd m n cur s r sa ra debit credit = Inr (d', views)"
    have "s \<in> set (ld_wallets (tx_db t))" "r \<in> set (ld_wallets (tx_db t))" using a sub by auto
    from settle_writes_receipt [OF inv t this a(3-6)] obtain d6 where
      d6: "ld_settlements d6 = ld_settlements (tx_db t)"
      and ins: "insert_settlement \<lparr>ts_transferId = tid, ts_senderWalletId = w_id s,
               ts_receiverWalletId = w_id r, ts_amountMinor = m,
               ts_currency = st_currency cmd, ts_destinationAmountMinor = n,
               ts_destinationCurrency = cur\<rparr> d6 = Inr d'" by blast
    have False using insert_settlement_ok(2) [OF ins] rc d6 by (auto simp: uuid_settlement_def)
    then show ?thesis ..
  qed simp
qed

theorem settlement_happens_once_witness:
  "\<exists>d5 v d' views. settleTransferAttempt (ex_tx ex_db4) ''f1'' ex_settle 5000 5000 ''USD'' ''e5'' ''e6'' = Inr (d5, v) \<and>
     settleTransferAttempt (ex_tx d5) ''f1'' ex_settle 5000 5000 ''USD'' ''e7'' ''e8'' = Inr (d', views) \<and> d' = d5"
proof -
  obtain d5 v where ok: "settleTransferAttempt (ex_tx ex_db4) ''f1'' ex_settle 5000 5000 ''USD'' ''e5'' ''e6'' = Inr (d5, v)"
    using ex_settle_ok by (auto simp: is_ok_def split: sum.splits)
  have "ledger_step (tx_db (ex_tx ex_db4)) d5"
    by (rule ledger_step.settle [OF valid_serial_tx _ _ ok]) (simp_all add: canonical_def)
  then have reach: "ledger_reachable d5" using ledger_reachable.step [OF ex_reach4] by simp
  have inv: "ledger_inv ex_db4" by (rule ledger_reachable_inv [OF ex_reach4])
  have none: "find_settlement ex_db4 ''f1'' = None"
    by (simp add: find_settlement_def ex_db4_def ex_db3_def ex_db2_def ex_db1_def ex_db0_def empty_ledger_def)
  from settle_commits_writes [OF _ valid_serial_tx _ ok] inv none
  obtain s r sa ra debit credit where w: "s \<in> set (ld_wallets ex_db4)" "r \<in> set (ld_wallets ex_db4)"
    "w_id s \<noteq> w_id r" "loadAggregate (w_id s) ex_db4 = Inr sa" "loadAggregate (w_id r) ex_db4 = Inr ra"
    "settle_writes (ex_tx ex_db4) ''f1'' ex_settle 5000 5000 ''USD'' s r sa ra debit credit = Inr (d5, v)"
    and ids: "w_id s = pg_uuid (st_senderWalletId ex_settle)" "w_id r = pg_uuid (st_receiverWalletId ex_settle)"
    unfolding serial_tx_simps by blast
  have ids': "w_id s = ''wa''" "w_id r = ''wb''" "st_currency ex_settle = ''USD''"
    using ids by (simp_all add: ex_settle_def)
  from settle_writes_receipt [OF _ valid_serial_tx _ _ w(3) _ _ w(6)] w inv obtain d6 where
    d6: "ld_wallets d6 = ld_wallets ex_db4" "ld_settlements d6 = ld_settlements ex_db4"
    and ins: "insert_settlement \<lparr>ts_transferId = ''f1'', ts_senderWalletId = ''wa'',
               ts_receiverWalletId = ''wb'', ts_amountMinor = 5000, ts_currency = ''USD'',
               ts_destinationAmountMinor = 5000, ts_destinationCurrency = ''USD''\<rparr> d6 = Inr d5"
    unfolding serial_tx_simps ids' by blast
  let ?s = "\<lparr>ts_transferId = ''f1'', ts_senderWalletId = ''wa'', ts_receiverWalletId = ''wb'',
     ts_amountMinor = 5000, ts_currency = ''USD'', ts_destinationAmountMinor = 5000, ts_destinationCurrency = ''USD''\<rparr>"
  have d5: "ld_settlements d5 = [?s]" "ld_wallets d5 = [ex_wa, ex_wb]"
    using insert_settlement_ok(1) [OF ins] d6
    by (simp_all add: uuid_settlement_def ex_db4_def ex_db3_def ex_db2_def ex_db1_def ex_db0_def empty_ledger_def)
  have b: "\<exists>p. map_of (ld_balances d5) ''wa'' = Some p" "\<exists>p. map_of (ld_balances d5) ''wb'' = Some p"
    using ledger_inv_wallet [OF ledger_reachable_inv [OF reach], of ex_wa]
      ledger_inv_wallet [OF ledger_reachable_inv [OF reach], of ex_wb] d5 by auto
  have f: "find_settlement d5 ''f1'' = Some ?s" by (simp add: find_settlement_def d5)
  have "\<exists>d' views. settleTransferAttempt (ex_tx d5) ''f1'' ex_settle 5000 5000 ''USD'' ''e7'' ''e8'' = Inr (d', views)"
    using f b by (auto simp: settleTransferAttempt_def assertSettlementMatches_def ex_settle_def
        readSettlementWallets_def find_wallet_def d5)
  then obtain d' views where again:
    "settleTransferAttempt (ex_tx d5) ''f1'' ex_settle 5000 5000 ''USD'' ''e7'' ''e8'' = Inr (d', views)" by blast
  have "d' = tx_db (ex_tx d5)"
    using settlement_happens_once [OF _ valid_serial_tx _ again] reach f by simp
  with ok again show ?thesis by auto
qed

section \<open>Outdated decisions and retries\<close>

lemma stored_read_current:
  assumes reach: "ledger_reachable (tx_db t)" and t: "valid_tx t" and id: "canonical walletId"
    and w: "find_owned (tx_read t) walletId ownerId = Some w"
    and a: "loadAggregate walletId (tx_read t) = Inr a"
    and st: "store_domain_event t w (w_id w) a ed = Inr (d', view)"
  shows "length (stream (ld_events (tx_read t)) walletId) = length (stream (ld_events (tx_db t)) walletId)"
proof -
  have inv: "ledger_inv (tx_db t)" by (rule ledger_reachable_inv [OF reach])
  note w' = find_owned_ok [OF w valid_txD(2) [OF t]]
  have wid: "w_id w = walletId" using w'(2) id by (simp add: pg_uuid_canonical)
  have "rehydrate walletId (stream (ld_events (tx_db t)) walletId) = Inr a"
    using store_domain_event_ok [OF inv t w'(1) refl _ st] a wid by auto
  moreover have "store_wf (ld_events (tx_read t))"
    using store_wf_prefix [OF ledger_inv_store [OF inv]] valid_txD(2) [OF t] by (simp add: ledger_le_def)
  then have "rehydrate walletId (stream (ld_events (tx_read t)) walletId) = Inr a"
    using a load_eq [OF _ _ id] ledger_inv_id [OF inv w'(1)] wid by simp
  ultimately show ?thesis using rehydrate_version by (metis of_nat_eq_iff)
qed

text \<open>
  C8. No lost update: a command that decided on a stream which another transaction has extended
  before it writes never commits an event. A money command fails, and a hold command that succeeds was a
  no-op on the database.
\<close>

theorem outdated_command_never_commits:
  assumes reach: "ledger_reachable (tx_db t)" and t: "valid_tx t" and id: "canonical walletId"
    and old: "length (stream (ld_events (tx_read t)) walletId) < length (stream (ld_events (tx_db t)) walletId)"
  shows "\<not> is_ok (executeMoneyCommandAttempt t walletId ownerId m op eid tid) \<and>
    (\<forall>d' view. executeHoldCommandAttempt t walletId ownerId k hop hm allow eid tid = Inr (d', view) \<longrightarrow> d' = tx_db t)"
proof (intro conjI allI impI notI)
  assume "is_ok (executeMoneyCommandAttempt t walletId ownerId m op eid tid)"
  then obtain d' view where "executeMoneyCommandAttempt t walletId ownerId m op eid tid = Inr (d', view)"
    by (auto simp: is_ok_def split: sum.splits)
  from money_attempt_ok [OF this] obtain w a ed where
    "find_owned (tx_read t) walletId ownerId = Some w" "loadAggregate walletId (tx_read t) = Inr a"
    "store_domain_event t w (w_id w) a ed = Inr (d', view)" by blast
  from stored_read_current [OF reach t id this] old show False by simp
next
  fix d' view
  assume "executeHoldCommandAttempt t walletId ownerId k hop hm allow eid tid = Inr (d', view)"
  from hold_attempt_ok [OF this] obtain w a ed where
    h: "find_owned (tx_read t) walletId ownerId = Some w" "loadAggregate walletId (tx_read t) = Inr a"
    and st: "(case ed of None \<Rightarrow> Inr (tx_db t, toView w (projectionFromAggregate a))
      | Some e \<Rightarrow> store_domain_event t w walletId a e) = Inr (d', view)" by blast
  have "w_id w = walletId" using find_owned_ok(2) [OF h(1) ledger_le_refl] id by (simp add: pg_uuid_canonical)
  with st stored_read_current [OF reach t id h] old show "d' = tx_db t"
    by (cases ed) fastforce+
qed

theorem outdated_command_never_commits_witness:
  "\<not> is_ok (executeMoneyCommandAttempt ((ex_tx ex_db3)\<lparr>tx_pre := ex_db2, tx_read := ex_db2\<rparr>)
      ''wa'' ''a1'' 10050 DepositOp ''e9'' ''t9'')"
proof -
  let ?t = "(ex_tx ex_db3)\<lparr>tx_pre := ex_db2, tx_read := ex_db2\<rparr>"
  have "ledger_le ex_db2 ex_db3"
    using ledger_step_le [OF ledger_step.money [OF valid_serial_tx _ ex_run3]] ledger_reachable_inv [OF ex_reach2]
    by (simp add: canonical_def)
  then have t: "valid_tx ?t" by (simp add: valid_tx_def)
  have "length (stream (ld_events (tx_read ?t)) ''wa'') < length (stream (ld_events (tx_db ?t)) ''wa'')"
    by (simp add: ex_db3_def)
  from outdated_command_never_commits [OF _ t _ this] ex_reach3 show ?thesis by (simp add: canonical_def)
qed

text \<open>
  The retry loop of a money command ends in the outcome of one of its 25 attempts (its trailing
  error is unreachable); every earlier attempt failed with a version conflict, and a version
  conflict reaches the caller only from the last attempt.
\<close>

theorem money_command_retries:
  assumes "toPositiveMinorUnits amount = Inr m"
  shows "\<exists>k. 1 \<le> k \<and> k \<le> 25 \<and>
    executeMoneyCommand ts w owner amount op eid tid = executeMoneyCommandAttempt (ts k) w owner m op eid tid \<and>
    (\<forall>j. 1 \<le> j \<and> j < k \<longrightarrow>
      (\<exists>e. executeMoneyCommandAttempt (ts j) w owner m op eid tid = Inl e \<and> is_version_conflict e)) \<and>
    (\<forall>e. executeMoneyCommandAttempt (ts k) w owner m op eid tid = Inl e \<and> is_version_conflict e \<longrightarrow> k = 25)"
  using assms
    retry_from_attempt [of 1 MAX_CONCURRENCY_RETRIES is_version_conflict "Err ''Unreachable concurrency retry state''"
      "\<lambda>attempt. executeMoneyCommandAttempt (ts attempt) w owner m op eid tid"]
  by (auto simp: executeMoneyCommand_def with_retries_def MAX_CONCURRENCY_RETRIES_def)

theorem money_command_retries_witness:
  "toPositiveMinorUnits (JsFin (201 / 2)) = Inr 10050 \<and>
   (\<exists>view. executeMoneyCommand (\<lambda>_. ex_tx ex_db2) ''wa'' ''a1'' (JsFin (201 / 2)) DepositOp ''e3'' ''t3'' = Inr (ex_db3, view))"
proof -
  have m: "toPositiveMinorUnits (JsFin (201 / 2)) = Inr 10050" by code_simp
  with money_command_retries [OF m, of "\<lambda>_. ex_tx ex_db2" "''wa''" "''a1''" DepositOp "''e3''" "''t3''"] ex_run3
  show ?thesis by auto
qed



section \<open>The outbox\<close>

text \<open>
  C12. The transactional outbox of the ledger: in every reachable state there is exactly one outbox
  message per stored event, in the same order, whatever publishers have claimed or failed to publish.
\<close>

theorem one_message_per_event:
  assumes "ledger_reachable d"
  shows "map ob_eventId (ld_outbox d) = map se_eventId (ld_events d) \<and> distinct (map ob_eventId (ld_outbox d))"
  using ledger_reachable_inv [OF assms] by (simp add: ledger_inv_def store_wf_def)

theorem one_message_per_event_witness:
  "ledger_reachable ex_db4 \<and> ob_eventId ` set (ld_outbox ex_db4) = {''e1'', ''e2'', ''e3'', ''e4''}"
proof -
  have "se_eventId ` set (ld_events ex_db4) = {''e1'', ''e2'', ''e3'', ''e4''}"
    by (auto simp: ex_db4_def ex_db3_def)
  with one_message_per_event [OF ex_reach4] ex_reach4 show ?thesis by (metis set_map)
qed

end
