(* ===== verification/Ledger_Findings.thy ===== *)
theory Ledger_Findings
  imports Ledger_Safety
begin

text \<open>
  Behaviours of the ledger service that its authors would not want, each as a theorem about the model
  at concrete states: identifiers in upper case, a projection rebuilt from an outdated read, a release
  that leaves no trace, and receiver references that are patterns.
\<close>

section \<open>Identifiers in upper case\<close>

definition ex_upper :: wallet_aggregate where "ex_upper = ex_a0\<lparr>wa_id := ''WA''\<rparr>"

lemma upper_id [simp]: "pg_uuid ''WA'' = ''wa''"
  by code_simp

lemma upper_load: "loadAggregate ''WA'' ex_db2 = Inr ex_upper"
proof -
  have wf: "store_wf (ld_events ex_db2)" by (rule ledger_inv_store [OF ledger_reachable_inv [OF ex_reach2]])
  have "stream (ld_events ex_db2) ''wa'' = stream (ld_events ex_db1) ''wa''"
    by (simp add: ex_db2_def created_def Let_def)
  also have "\<dots> = [stored_of (wallet_request ''wa'' 0 (createdEvent ''a1'' ''USD'' ''e1'')) 1000 0 (createdEvent ''a1'' ''USD'' ''e1'')]"
    by (simp add: ex_db1_def created_def Let_def ex_db0_def empty_ledger_def empty_wallet_def)
  finally show ?thesis
    using loadStream_wf [OF wf, of "''WA''"] rehydrate_created [OF refl, of "''WA''"]
    by (simp add: loadAggregate_def ex_upper_def ex_a0_def empty_wallet_def)
qed


section \<open>A projection rebuilt from an outdated read\<close>

text \<open>
  \<open>rebuildBalanceProjection\<close> reads the stream and writes the projection in two statements of a
  READ COMMITTED transaction. If a deposit commits in between, the rebuild overwrites the new
  projection with the old one: the API then shows a balance of 0 for a wallet that holds 100.50.
\<close>

theorem stale_rebuild_overwrites_projection:
  "\<exists>d p. rebuildBalanceProjection ((ex_tx ex_db3)\<lparr>tx_pre := ex_db2, tx_read := ex_db2\<rparr>) ''wa'' = Inr (d, p) \<and>
     valid_tx ((ex_tx ex_db3)\<lparr>tx_pre := ex_db2, tx_read := ex_db2\<rparr>) \<and>
     map_of (ld_balances d) ''wa'' = Some p \<and> bp_balanceMinor p = 0 \<and>
     (\<exists>a. rehydrate ''wa'' (stream (ld_events d) ''wa'') = Inr a \<and> wa_balanceMinor a = 10050)"
proof -
  let ?t = "(ex_tx ex_db3)\<lparr>tx_pre := ex_db2, tx_read := ex_db2\<rparr>"
  have inv2: "ledger_inv ex_db2" and inv3: "ledger_inv ex_db3"
    using ledger_reachable_inv ex_reach2 ex_reach3 by auto
  have "ledger_le ex_db2 ex_db3"
    using ledger_step_le [OF ledger_step.money [OF valid_serial_tx _ ex_run3]] inv2 by (simp add: canonical_def)
  then have t: "valid_tx ?t" by (simp add: valid_tx_def)
  have w: "find_wallet ex_db2 ''wa'' = Some ex_wa" "find_wallet ex_db3 ''wa'' = Some ex_wa"
    by (simp_all add: find_wallet_def ex_db3_def)
  have l: "loadAggregate ''wa'' ex_db2 = Inr ex_a0"
    using load_current [OF inv2, of ex_wa] ex_aggregate0 by simp
  have i: "assertAggregateIdentity ex_wa ex_a0 = Inr ()" by (simp add: assertAggregateIdentity_def ex_a0_def)
  have a0: "wa_id ex_a0 = ''wa''" "wa_balanceMinor ex_a0 = 0" "wa_version ex_a0 = 1"
    by (simp_all add: ex_a0_def empty_wallet_def)
  let ?d = "ex_db3\<lparr>ld_balances := AList.update ''wa'' (projectionFromAggregate ex_a0) (ld_balances ex_db3)\<rparr>"
  have "save_projection (projectionFromAggregate ex_a0) ex_db3 = Inr ?d"
    using save_projection_succeeds [of ex_a0 ex_db3] rehydrate_inv [OF ex_aggregate0] a0 w
    by (simp add: canonical_def)
  then have "rebuildBalanceProjection ?t ''wa'' = Inr (?d, projectionFromAggregate ex_a0)"
    using w l i by (simp add: rebuildBalanceProjection_def project_def Let_def)
  moreover have "rehydrate ''wa'' (stream (ld_events ?d) ''wa'') = Inr ex_a1" using ex_aggregate1 by simp
  moreover have "wa_balanceMinor ex_a1 = 10050" by (simp add: ex_a1_def)
  ultimately show ?thesis using t a0(2) by (intro exI [of _ ?d] exI [of _ "projectionFromAggregate ex_a0"]) simp
qed

section \<open>A release that leaves no trace\<close>

text \<open>
  Releasing the hold of a transfer that has not been placed yet answers \<^verbatim>\<open>released\<close> and records
  nothing, so that a delayed request to place the hold (a request the payments service has already
  given up on and compensated) still succeeds afterwards and reserves the money.
\<close>

theorem release_leaves_no_trace:
  "releaseTransferHold ex_db3 (\<lambda>_. ex_tx ex_db3) ex_db3 ''f1'' \<lparr>rt_senderUserId = ''a1'', rt_senderWalletId = ''wa''\<rparr>
       ''e8'' ''t8'' = Inr (ex_db3, OutcomeReleased) \<and>
   (\<exists>view. placeTransferHold (\<lambda>_. ex_tx ex_db3) ''f1''
       \<lparr>ht_senderUserId = ''a1'', ht_senderWalletId = ''wa'', ht_amount = JsFin 50\<rparr> ''e4'' ''t4'' = Inr (ex_db4, view)) \<and>
   (\<exists>a. rehydrate ''wa'' (stream (ld_events ex_db4) ''wa'') = Inr a \<and>
      map_of (wa_holds a) ''f1'' = Some \<lparr>hs_amountMinor = 5000, hs_status = Active\<rparr>)"
proof (intro conjI)
  have inv: "ledger_inv ex_db3" by (rule ledger_reachable_inv [OF ex_reach3])
  have none: "find_settlement ex_db3 ''f1'' = None"
    by (simp add: find_settlement_def ex_db3_def ex_db2_def ex_db1_def ex_db0_def empty_ledger_def)
  have w: "find_owned ex_db3 ''wa'' ''a1'' = Some ex_wa" by (simp add: find_owned_def ex_db3_def)
  have l: "loadAggregate ''wa'' ex_db3 = Inr ex_a1"
    using load_current [OF inv, of ex_wa] ex_aggregate1 by (simp add: ex_db3_def)
  have i: "assertAggregateIdentity ex_wa ex_a1 = Inr ()"
    by (simp add: assertAggregateIdentity_def ex_a1_def ex_a0_def)
  have "map_of (wa_holds ex_a1) ''f1'' = None" by (simp add: ex_a1_def ex_a0_def empty_wallet_def)
  then have "\<exists>v. executeHoldCommandAttempt (ex_tx ex_db3) ''wa'' ''a1'' ''f1'' ReleaseOp None True ''e8'' ''t8'' = Inr (ex_db3, v)"
    using w l i by (simp add: executeHoldCommandAttempt_def decide_hold_def)
  then show "releaseTransferHold ex_db3 (\<lambda>_. ex_tx ex_db3) ex_db3 ''f1'' \<lparr>rt_senderUserId = ''a1'', rt_senderWalletId = ''wa''\<rparr>
       ''e8'' ''t8'' = Inr (ex_db3, OutcomeReleased)"
    using none by (auto simp: releaseTransferHold_def executeHoldCommand_def with_retries_def
        MAX_CONCURRENCY_RETRIES_def numeral_eq_Suc)
  have "toPositiveMinorUnits (JsFin 50) = Inr 5000" by code_simp
  then show "\<exists>view. placeTransferHold (\<lambda>_. ex_tx ex_db3) ''f1''
       \<lparr>ht_senderUserId = ''a1'', ht_senderWalletId = ''wa'', ht_amount = JsFin 50\<rparr> ''e4'' ''t4'' = Inr (ex_db4, view)"
    using ex_run4 by (simp add: placeTransferHold_def placeHold_wallet_def executeHoldCommand_def
        with_retries_def MAX_CONCURRENCY_RETRIES_def numeral_eq_Suc)
  show "\<exists>a. rehydrate ''wa'' (stream (ld_events ex_db4) ''wa'') = Inr a \<and>
      map_of (wa_holds a) ''f1'' = Some \<lparr>hs_amountMinor = 5000, hs_status = Active\<rparr>"
    using ex_aggregate2 by (simp add: ex_a2_def)
qed

section \<open>Receiver references are patterns\<close>

text \<open>
  \<open>validateTransfer\<close> looks a receiver up by \<^verbatim>\<open>ILIKE\<close> on the reference as the client sent it, so that a
  percent sign anywhere matches: \<^verbatim>\<open>b%\<close> is accepted as the address of \<^verbatim>\<open>bob@x.io\<close>.
\<close>

theorem receiver_reference_is_pattern:
  "validateTransfer (ex_tx ex_db4)
     \<lparr>vt_transferId = ''f1'', vt_senderUserId = ''a1'', vt_senderWalletId = ''wa'', vt_receiverReference = ''b%'',
      vt_amount = JsFin 50, vt_currency = ''USD'', vt_targetCurrency = None, vt_destinationAmount = None\<rparr>
     ''w9'' ''e9'' = Inr (ex_db4, ''wb'')"
proof -
  have "toPositiveMinorUnits (JsFin 50) = Inr 5000" by code_simp
  moreover have "ilike ''b%'' ''alice@x.io'' = False" "ilike ''b%'' ''bob@x.io'' = True" "isUuid ''b%'' = False"
    by code_simp+
  moreover have "ld_users ex_db4 = [ex_user ''a1'' ''alice@x.io'', ex_user ''b1'' ''bob@x.io'']"
    by (simp add: ex_db4_def ex_db3_def ex_db2_def ex_db1_def ex_db0_def)
  ultimately show ?thesis by (simp add: validateTransfer_def ex_user_def find_by_owner_def)
qed

end
