(* ===== verification/Transfer_Domain.thy ===== *)
theory Transfer_Domain
  imports Errors Js_Number Js_Date
begin

text \<open>
  The domain rules of the payments service: the status machine of a transfer
  (\<^verbatim>\<open>transfers/domain/transfer-status.ts\<close>) and the quote of an exchange
  (\<^verbatim>\<open>transfers/domain/fx-quote.ts\<close>). A decimal text that the source reads with
  \<^verbatim>\<open>BigInt(...)\<close> is the integer it denotes. The lemmas show that every allowed transition
  lowers a rank, so that a transfer changes its status at most five times and its final
  statuses are final, and that a quote is the exact half-up rounding of the exchanged amount.
\<close>

section \<open>The status machine\<close>

datatype transfer_status =
    Pending | Validating | FundsHeld | Processing | Completed | Compensating | Failed

fun status_text :: "transfer_status \<Rightarrow> string" where
  "status_text Pending = ''Pending''"
| "status_text Validating = ''Validating''"
| "status_text FundsHeld = ''FundsHeld''"
| "status_text Processing = ''Processing''"
| "status_text Completed = ''Completed''"
| "status_text Compensating = ''Compensating''"
| "status_text Failed = ''Failed''"

fun ALLOWED_TRANSITIONS :: "transfer_status \<Rightarrow> transfer_status list" where
  "ALLOWED_TRANSITIONS Pending = [Validating, Failed]"
| "ALLOWED_TRANSITIONS Validating = [FundsHeld, Compensating, Failed]"
| "ALLOWED_TRANSITIONS FundsHeld = [Processing, Compensating]"
| "ALLOWED_TRANSITIONS Processing = [Completed, Compensating]"
| "ALLOWED_TRANSITIONS Compensating = [Completed, Failed]"
| "ALLOWED_TRANSITIONS Completed = []"
| "ALLOWED_TRANSITIONS Failed = []"

definition assertTransferTransition :: "transfer_status \<Rightarrow> transfer_status \<Rightarrow> (err, unit) res" where
  "assertTransferTransition current next_status =
     (if next_status \<notin> set (ALLOWED_TRANSITIONS current)
      then Inl (InvalidTransferTransition (status_text current) (status_text next_status))
      else Inr ())"

definition TERMINAL_STATUSES :: "transfer_status list" where
  "TERMINAL_STATUSES = [Completed, Failed]"

section \<open>Quotes\<close>

definition SUPPORTED_CURRENCIES :: "string list" where
  "SUPPORTED_CURRENCIES = [''USD'', ''EUR'', ''UAH'']"

definition MICRO_USD_VALUE :: "string \<Rightarrow> int" where
  "MICRO_USD_VALUE c =
     (if c = ''USD'' then 1000000 else if c = ''EUR'' then 1087000 else 24390)"

record fx_quote =
  fx_destinationAmountMinor :: int
  fx_rateNumerator :: int
  fx_rateDenominator :: int
  fx_displayRate :: string
  fx_quotedAt :: int
  fx_expiresAt :: int

definition isSupportedCurrency :: "string \<Rightarrow> bool" where
  "isSupportedCurrency value = (value \<in> set SUPPORTED_CURRENCIES)"

definition formatRate :: "int \<Rightarrow> int \<Rightarrow> string" where
  "formatRate numerator denominator =
     (let scale = 100000000;
          scaled = big_div (numerator * scale + big_div denominator 2) denominator
      in show_int (big_div scaled scale) @ ''.'' @
         padStart (show_int (big_mod scaled scale)) 8 (CHR ''0''))"

definition quoteTransfer :: "int \<Rightarrow> string \<Rightarrow> string \<Rightarrow> int \<Rightarrow> (err, fx_quote) res" where
  "quoteTransfer source sourceCurrency destinationCurrency quotedAt =
     (if \<not> isSupportedCurrency sourceCurrency \<or> \<not> isSupportedCurrency destinationCurrency
      then Inl (BadRequest ''Unsupported currency'')
      else if source \<le> 0 then Inl (BadRequest ''Invalid transfer amount'')
      else let numerator = MICRO_USD_VALUE sourceCurrency;
               denominator = MICRO_USD_VALUE destinationCurrency;
               destination = big_div (source * numerator + big_div denominator 2) denominator
           in if destination \<le> 0 then Inl (BadRequest ''FX result is below one minor unit'')
              else Inr \<lparr>fx_destinationAmountMinor = destination, fx_rateNumerator = numerator,
                        fx_rateDenominator = denominator,
                        fx_displayRate = formatRate numerator denominator,
                        fx_quotedAt = quotedAt, fx_expiresAt = quotedAt + 15 * 60000\<rparr>)"

section \<open>Ranks of statuses\<close>

fun status_rank :: "transfer_status \<Rightarrow> nat" where
  "status_rank Pending = 5"
| "status_rank Validating = 4"
| "status_rank FundsHeld = 3"
| "status_rank Processing = 2"
| "status_rank Compensating = 1"
| "status_rank Completed = 0"
| "status_rank Failed = 0"

definition final_status :: "transfer_status \<Rightarrow> bool" where
  "final_status s = (s \<in> set TERMINAL_STATUSES)"

lemma assertTransferTransition_ok [simp]:
  "assertTransferTransition s t = Inr u \<longleftrightarrow> t \<in> set (ALLOWED_TRANSITIONS s)"
  by (simp add: assertTransferTransition_def)

lemma transition_lowers_rank: "t \<in> set (ALLOWED_TRANSITIONS s) \<Longrightarrow> status_rank t < status_rank s"
  by (cases s) auto

lemma final_status_rank: "final_status s \<longleftrightarrow> status_rank s = 0"
  by (cases s) (simp_all add: final_status_def TERMINAL_STATUSES_def)

lemma final_status_iff: "final_status s \<longleftrightarrow> ALLOWED_TRANSITIONS s = []"
  by (cases s) (simp_all add: final_status_def TERMINAL_STATUSES_def)

text \<open>The histories of a status: each next one is an allowed transition.\<close>

fun status_path :: "transfer_status list \<Rightarrow> bool" where
  "status_path (s # t # ts) = (t \<in> set (ALLOWED_TRANSITIONS s) \<and> status_path (t # ts))"
| "status_path _ = True"

lemma status_path_length: "status_path (s # ts) \<Longrightarrow> length ts + status_rank (last (s # ts)) \<le> status_rank s"
proof (induction ts arbitrary: s)
  case (Cons t ts)
  then have "length ts + status_rank (last (t # ts)) \<le> status_rank t" by simp
  with Cons.prems transition_lowers_rank [of t s] show ?case by simp
qed simp

section \<open>Rounding of quotes\<close>

lemma MICRO_USD_VALUE_pos [simp]: "0 < MICRO_USD_VALUE c" "0 \<le> MICRO_USD_VALUE c" "MICRO_USD_VALUE c \<noteq> 0"
  by (simp_all add: MICRO_USD_VALUE_def)

lemma MICRO_USD_VALUE_even: "2 * (MICRO_USD_VALUE c div 2) = MICRO_USD_VALUE c"
  by (simp add: MICRO_USD_VALUE_def)

lemma half_up_div:
  assumes "0 < (d :: int)" "2 * (d div 2) = d"
  shows "(n + d div 2) div d = \<lfloor>of_int n / of_int d + 1 / 2 :: rat\<rfloor>"
proof -
  have "of_int (n + d div 2) / of_int d = (of_int n / of_int d + 1 / 2 :: rat)"
  proof -
    have "(2 :: rat) * of_int (d div 2) = of_int d"
      using assms(2) by (metis of_int_mult of_int_numeral)
    then have "(of_int (d div 2) :: rat) = of_int d / 2" by simp
    then show ?thesis using assms(1) by (simp add: field_simps)
  qed
  then show ?thesis by (metis floor_divide_of_int_eq)
qed

lemma quoteTransfer_ok:
  "quoteTransfer n c c' t = Inr q \<longleftrightarrow>
     isSupportedCurrency c \<and> isSupportedCurrency c' \<and> 0 < n \<and>
     (let d = \<lfloor>of_int (n * MICRO_USD_VALUE c) / of_int (MICRO_USD_VALUE c') + 1 / 2 :: rat\<rfloor>
      in 0 < d \<and> q = \<lparr>fx_destinationAmountMinor = d, fx_rateNumerator = MICRO_USD_VALUE c,
           fx_rateDenominator = MICRO_USD_VALUE c',
           fx_displayRate = formatRate (MICRO_USD_VALUE c) (MICRO_USD_VALUE c'),
           fx_quotedAt = t, fx_expiresAt = t + 900000\<rparr>)"
proof (cases "0 < n")
  case True
  let ?a = "MICRO_USD_VALUE c" and ?b = "MICRO_USD_VALUE c'"
  have "0 \<le> n * ?a + ?b div 2" using True MICRO_USD_VALUE_pos(1) [of c] MICRO_USD_VALUE_pos(1) [of c']
    by (simp add: order_less_imp_le)
  then have "big_div (n * ?a + big_div ?b 2) ?b = (n * ?a + ?b div 2) div ?b"
    by (simp add: big_div_nonneg less_imp_le)
  also have "\<dots> = \<lfloor>of_int (n * ?a) / of_int ?b + 1 / 2 :: rat\<rfloor>"
    by (rule half_up_div) (simp_all add: MICRO_USD_VALUE_even)
  finally show ?thesis using True by (auto simp: quoteTransfer_def Let_def)
qed (simp add: quoteTransfer_def)

lemma formatRate_fits: "length (formatRate (MICRO_USD_VALUE c) (MICRO_USD_VALUE c')) \<le> 40"
proof -
  let ?a = "MICRO_USD_VALUE c" and ?b = "MICRO_USD_VALUE c'" and ?k = "100000000 :: int"
  define s where "s = (?a * ?k + ?b div 2) div ?b"
  have v: "0 < ?a" "?a \<le> 45 * ?b" "0 < ?b" by (simp_all add: MICRO_USD_VALUE_def)
  then have n0: "0 \<le> ?a * ?k + ?b div 2" by linarith
  then have s0: "0 \<le> s" by (simp add: s_def pos_imp_zdiv_nonneg_iff)
  have "?a * ?k + ?b div 2 < 100 * ?k * ?b" using v by linarith
  moreover have "s * ?b \<le> ?a * ?k + ?b div 2"
    using v by (simp add: s_def flip: minus_mod_eq_div_mult)
  ultimately have "s * ?b < 100 * ?k * ?b" by linarith
  then have "s < 100 * ?k" using v by (simp only: mult_less_cancel_right_pos)
  then have "nat (s div ?k) < 10 ^ Suc 1" "nat (s mod ?k) < 10 ^ Suc 7"
    using s0 by (simp_all add: nat_less_iff)
  then have "length (show_nat (nat (s div ?k))) \<le> Suc 1" "length (show_nat (nat (s mod ?k))) \<le> Suc 7"
    by (blast intro: length_show_nat)+
  moreover have "formatRate ?a ?b = show_nat (nat (s div ?k)) @ ''.'' @
      padStart (show_nat (nat (s mod ?k))) 8 (CHR ''0'')"
  proof -
    have "big_div ?b 2 = ?b div 2" using v by (intro big_div_nonneg) auto
    then have "big_div (?a * ?k + big_div ?b 2) ?b = s" using v n0 by (simp only: big_div_nonneg s_def)
    moreover have "big_div s ?k = s div ?k" using s0 by (intro big_div_nonneg) auto
    moreover from this have "big_mod s ?k = s mod ?k" by (simp only: big_mod_def minus_mult_div_eq_mod)
    moreover have "show_int (s div ?k) = show_nat (nat (s div ?k))"
      "show_int (s mod ?k) = show_nat (nat (s mod ?k))"
      using s0 by (simp_all add: show_int_def pos_imp_zdiv_neg_iff)
    ultimately show ?thesis by (simp only: formatRate_def Let_def)
  qed
  ultimately show ?thesis by simp
qed

section \<open>Properties\<close>

text \<open>
  However a transfer moves along its allowed transitions, it changes its status at most five
  times, a completed or failed transfer never changes again, and every other status can still move.
\<close>

theorem status_machine_terminates:
  assumes "status_path (s # ts)"
  shows "length ts \<le> 5 \<and> (final_status s \<longrightarrow> ts = []) \<and>
    (\<not> final_status s \<longrightarrow> (\<exists>t. assertTransferTransition s t = Inr ()))"
proof (intro conjI impI)
  have r: "status_rank s \<le> 5" by (cases s) auto
  with status_path_length [OF assms] show "length ts \<le> 5" by simp
  show "ts = []" if "final_status s"
    using that status_path_length [OF assms] by (simp add: final_status_rank)
  show "\<exists>t. assertTransferTransition s t = Inr ()" if "\<not> final_status s"
    using that by (cases s) (auto simp: final_status_def TERMINAL_STATUSES_def)
qed

theorem status_machine_terminates_witness:
  "length [Validating, FundsHeld, Processing, Compensating, Failed] \<le> 5 \<and>
     (\<exists>t. assertTransferTransition Pending t = Inr ())"
proof -
  have "status_path (Pending # [Validating, FundsHeld, Processing, Compensating, Failed])" by simp
  from status_machine_terminates [OF this] show ?thesis
    by (simp add: final_status_def TERMINAL_STATUSES_def)
qed

text \<open>
  C26. A quote is exact: the destination amount is the source amount times the rate, rounded half up
  to a whole minor unit, without loss between equal currencies; the quote is refused exactly for an
  unsupported currency, an amount that is not positive, or a result below half a minor unit.
\<close>

theorem quote_is_half_up:
  "(\<forall>q. quoteTransfer n c c' t = Inr q \<longrightarrow>
      fx_destinationAmountMinor q =
        \<lfloor>of_int n * of_int (fx_rateNumerator q) / of_int (fx_rateDenominator q) + 1 / 2 :: rat\<rfloor> \<and>
      0 < fx_destinationAmountMinor q \<and> (c = c' \<longrightarrow> fx_destinationAmountMinor q = n) \<and>
      fx_expiresAt q = t + 900000 \<and> length (fx_displayRate q) \<le> 40) \<and>
   ((\<exists>e. quoteTransfer n c c' t = Inl e) \<longleftrightarrow>
      \<not> isSupportedCurrency c \<or> \<not> isSupportedCurrency c' \<or> n \<le> 0 \<or>
      2 * n * MICRO_USD_VALUE c < MICRO_USD_VALUE c')"
proof (intro conjI allI impI)
  fix q assume q: "quoteTransfer n c c' t = Inr q"
  show "fx_destinationAmountMinor q =
      \<lfloor>of_int n * of_int (fx_rateNumerator q) / of_int (fx_rateDenominator q) + 1 / 2 :: rat\<rfloor>"
    "0 < fx_destinationAmountMinor q" "fx_expiresAt q = t + 900000" "length (fx_displayRate q) \<le> 40"
    using q by (auto simp: quoteTransfer_ok Let_def formatRate_fits)
  show "fx_destinationAmountMinor q = n" if "c = c'"
  proof -
    have "(of_int n * of_int (MICRO_USD_VALUE c) / of_int (MICRO_USD_VALUE c) :: rat) = of_int n" by simp
    moreover have "\<lfloor>of_int n + 1 / 2 :: rat\<rfloor> = n" by linarith
    ultimately show ?thesis using q that by (auto simp: quoteTransfer_ok Let_def)
  qed
next
  let ?a = "MICRO_USD_VALUE c" and ?b = "MICRO_USD_VALUE c'"
  have "0 < \<lfloor>of_int (n * ?a) / of_int ?b + 1 / 2 :: rat\<rfloor> \<longleftrightarrow> (1 :: rat) \<le> of_int (n * ?a) / of_int ?b + 1 / 2"
    by linarith
  also have "\<dots> \<longleftrightarrow> (of_int ?b :: rat) \<le> of_int (2 * n * ?a)"
    by (simp add: field_simps)
  also have "\<dots> \<longleftrightarrow> \<not> 2 * n * ?a < ?b" by (simp only: of_int_le_iff not_less)
  finally have *: "0 < \<lfloor>of_int (n * ?a) / of_int ?b + 1 / 2 :: rat\<rfloor> \<longleftrightarrow> \<not> 2 * n * ?a < ?b" .
  have "(\<exists>e. quoteTransfer n c c' t = Inl e) \<longleftrightarrow> \<not> (\<exists>q. quoteTransfer n c c' t = Inr q)"
    by (cases "quoteTransfer n c c' t") auto
  also have "\<dots> \<longleftrightarrow> \<not> isSupportedCurrency c \<or> \<not> isSupportedCurrency c' \<or> n \<le> 0 \<or> 2 * n * ?a < ?b"
    using * by (auto simp: quoteTransfer_ok Let_def)
  finally show "(\<exists>e. quoteTransfer n c c' t = Inl e) \<longleftrightarrow>
      \<not> isSupportedCurrency c \<or> \<not> isSupportedCurrency c' \<or> n \<le> 0 \<or> 2 * n * ?a < ?b" .
qed

theorem quote_is_half_up_witness:
  "\<exists>q. quoteTransfer 1000 ''EUR'' ''UAH'' 0 = Inr q \<and> fx_destinationAmountMinor q = 44567"
proof -
  have ok: "isSupportedCurrency ''EUR''" "isSupportedCurrency ''UAH''" by code_simp+
  have v: "MICRO_USD_VALUE ''EUR'' = 1087000" "MICRO_USD_VALUE ''UAH'' = 24390" by code_simp+
  note * = quote_is_half_up [of 1000 "''EUR''" "''UAH''" 0]
  have "\<not> (\<exists>e. quoteTransfer 1000 ''EUR'' ''UAH'' 0 = Inl e)"
    using ok by (subst conjunct2 [OF *]) (simp add: v)
  then obtain q where q: "quoteTransfer 1000 ''EUR'' ''UAH'' 0 = Inr q"
    by (cases "quoteTransfer 1000 ''EUR'' ''UAH'' 0") blast+
  have r: "fx_rateNumerator q = 1087000" "fx_rateDenominator q = 24390"
    using q v by (auto simp: quoteTransfer_ok Let_def)
  have "\<lfloor>of_int 1000 * of_int 1087000 / of_int 24390 + 1 / 2 :: rat\<rfloor> = 44567"
    by (rule floor_unique) simp_all
  moreover have "fx_destinationAmountMinor q =
      \<lfloor>of_int 1000 * of_int (fx_rateNumerator q) / of_int (fx_rateDenominator q) + 1 / 2 :: rat\<rfloor>"
    using * q by blast
  ultimately have "fx_destinationAmountMinor q = 44567" by (simp only: r)
  with q show ?thesis by blast
qed

end
