(* ===== verification/Payments_Db.thy ===== *)
theory Payments_Db
  imports Transfer_Domain Outbox
begin

text \<open>
  The database of the payments service: the rows of its entities, the tables, and the statements on
  them with the constraints of the migrations (column lengths and ranges, \<^verbatim>\<open>CHECK\<close>, primary and
  unique keys, foreign keys), in the order PostgreSQL reports them. The numeric columns
  \<^verbatim>\<open>bigint\<close>, which TypeORM hands over as decimal texts, are integers. The lemmas show that the keys
  stay unique and that a row keeps its identity under every update.
\<close>

section \<open>Rows and tables\<close>

record transfer =
  tr_id :: string
  tr_senderUserId :: string
  tr_senderWalletId :: string
  tr_receiverReference :: string
  tr_receiverWalletId :: "string option"
  tr_splitBillShareId :: "string option"
  tr_amountMinor :: int
  tr_currency :: string
  tr_destinationCurrency :: string
  tr_destinationAmountMinor :: int
  tr_fxRateNumerator :: int
  tr_fxRateDenominator :: int
  tr_fxDisplayRate :: string
  tr_fxQuotedAt :: int
  tr_fxExpiresAt :: int
  tr_status :: transfer_status
  tr_idempotencyKey :: string
  tr_requestFingerprint :: string
  tr_failureCode :: "string option"
  tr_failureMessage :: "string option"
  tr_retryCount :: int
  tr_nextRetryAt :: "int option"
  tr_holdMayExist :: bool
  tr_lastAttemptAt :: "int option"
  tr_leaseOwner :: "string option"
  tr_leaseUntil :: "int option"
  tr_version :: int
  tr_createdAt :: int
  tr_updatedAt :: int

record split_bill =
  sb_id :: string
  sb_creatorUserId :: string
  sb_creatorReference :: string
  sb_totalMinor :: int
  sb_currency :: string
  sb_deadline :: "int option"
  sb_createdAt :: int
  sb_updatedAt :: int

record split_bill_share =
  ss_id :: string
  ss_billId :: string
  ss_participantUserId :: string
  ss_amountMinor :: int
  ss_position :: int
  ss_createdAt :: int

record split_bill_reminder =
  sr_id :: string
  sr_shareId :: string
  sr_kind :: string
  sr_eventId :: string
  sr_createdAt :: int

record payments_db =
  pd_transfers :: "transfer list"
  pd_bills :: "split_bill list"
  pd_shares :: "split_bill_share list"
  pd_reminders :: "split_bill_reminder list"
  pd_outbox :: outbox_table

definition empty_payments_db :: payments_db where
  "empty_payments_db =
     \<lparr>pd_transfers = [], pd_bills = [], pd_shares = [], pd_reminders = [], pd_outbox = []\<rparr>"

section \<open>Transfers\<close>

definition text_too_long :: err where
  "text_too_long = QueryFailed ''22001'' ''''"

definition transfer_fits :: "transfer \<Rightarrow> (err, unit) res" where
  "transfer_fits t =
     (if 320 < length (tr_receiverReference t) \<or> 3 < length (tr_currency t) \<or>
         3 < length (tr_destinationCurrency t) \<or> 40 < length (tr_fxDisplayRate t) \<or>
         200 < length (tr_idempotencyKey t) \<or> 64 < length (tr_requestFingerprint t) \<or>
         (case tr_failureCode t of None \<Rightarrow> False | Some c \<Rightarrow> 100 < length c)
      then Inl text_too_long
      else if \<not> pg_bigint (tr_amountMinor t) \<or> \<not> pg_bigint (tr_destinationAmountMinor t) \<or>
         \<not> pg_bigint (tr_fxRateNumerator t) \<or> \<not> pg_bigint (tr_fxRateDenominator t) \<or>
         \<not> pg_integer (tr_retryCount t) \<or> \<not> pg_integer (tr_version t)
      then Inl numeric_out_of_range
      else if tr_amountMinor t \<le> 0 then Inl (check_violation ''CHK_transfers_amount_positive'')
      else if tr_destinationAmountMinor t \<le> 0
      then Inl (check_violation ''CHK_transfers_destination_amount_positive'')
      else if tr_fxRateNumerator t \<le> 0 \<or> tr_fxRateDenominator t \<le> 0
      then Inl (check_violation ''CHK_transfers_fx_rate_positive'')
      else if tr_retryCount t < 0 then Inl (check_violation ''CHK_transfers_retry_count'')
      else Inr ())"

definition insert_transfer :: "transfer \<Rightarrow> payments_db \<Rightarrow> (err, payments_db) res" where
  "insert_transfer t d =
     rbind (transfer_fits t) (\<lambda>_.
     if tr_id t \<in> tr_id ` set (pd_transfers d)
     then Inl (unique_violation ''transfers_pkey'')
     else if \<exists>r \<in> set (pd_transfers d). tr_senderUserId r = tr_senderUserId t \<and>
               tr_idempotencyKey r = tr_idempotencyKey t
     then Inl (unique_violation ''UQ_transfers_sender_idempotency'')
     else if tr_splitBillShareId t \<noteq> None \<and>
             (\<exists>r \<in> set (pd_transfers d). tr_splitBillShareId r = tr_splitBillShareId t)
     then Inl (unique_violation ''UQ_transfers_split_bill_share'')
     else if (case tr_splitBillShareId t of None \<Rightarrow> False
              | Some i \<Rightarrow> i \<notin> ss_id ` set (pd_shares d))
     then Inl (foreign_key_violation ''FK_transfers_split_bill_share'')
     else Inr (d\<lparr>pd_transfers := pd_transfers d @ [t]\<rparr>))"

text \<open>An \<^verbatim>\<open>UPDATE\<close> of the rows that satisfy the criteria, with the number of affected rows.\<close>

definition update_row :: "(transfer \<Rightarrow> bool) \<Rightarrow> (transfer \<Rightarrow> transfer) \<Rightarrow> transfer \<Rightarrow> (err, transfer) res" where
  "update_row sel patch t =
     (if sel t then rbind (transfer_fits (patch t)) (\<lambda>_. Inr (patch t)) else Inr t)"

definition update_transfers ::
  "(transfer \<Rightarrow> bool) \<Rightarrow> (transfer \<Rightarrow> transfer) \<Rightarrow> payments_db \<Rightarrow> (err, payments_db \<times> nat) res" where
  "update_transfers sel patch d =
     rbind (mapM (update_row sel patch) (pd_transfers d)) (\<lambda>ts.
     Inr (d\<lparr>pd_transfers := ts\<rparr>, length (filter sel (pd_transfers d))))"

definition find_transfer :: "payments_db \<Rightarrow> string \<Rightarrow> transfer option" where
  "find_transfer d i = find (\<lambda>t. tr_id t = pg_uuid i) (pd_transfers d)"

text \<open>\<^verbatim>\<open>findOneByOrFail({ id })\<close>.\<close>

definition transfer_by_id :: "payments_db \<Rightarrow> string \<Rightarrow> (err, transfer) res" where
  "transfer_by_id d i = (case find_transfer d i of None \<Rightarrow> Inl EntityNotFound | Some t \<Rightarrow> Inr t)"

section \<open>Split bills\<close>

definition insert_bill :: "split_bill \<Rightarrow> payments_db \<Rightarrow> (err, payments_db) res" where
  "insert_bill b d =
     (if 320 < length (sb_creatorReference b) \<or> 3 < length (sb_currency b) then Inl text_too_long
      else if \<not> pg_bigint (sb_totalMinor b) then Inl numeric_out_of_range
      else if sb_totalMinor b \<le> 0 then Inl (check_violation ''CHK_split_bills_total_positive'')
      else if sb_id b \<in> sb_id ` set (pd_bills d) then Inl (unique_violation ''split_bills_pkey'')
      else Inr (d\<lparr>pd_bills := pd_bills d @ [b]\<rparr>))"

definition insert_share :: "split_bill_share \<Rightarrow> payments_db \<Rightarrow> (err, payments_db) res" where
  "insert_share s d =
     (if \<not> pg_bigint (ss_amountMinor s) \<or> \<not> pg_integer (ss_position s) then Inl numeric_out_of_range
      else if ss_amountMinor s \<le> 0 then Inl (check_violation ''CHK_split_bill_shares_amount_positive'')
      else if ss_position s < 0 then Inl (check_violation ''CHK_split_bill_shares_position'')
      else if ss_id s \<in> ss_id ` set (pd_shares d) then Inl (unique_violation ''split_bill_shares_pkey'')
      else if \<exists>r \<in> set (pd_shares d). ss_billId r = ss_billId s \<and>
                ss_participantUserId r = ss_participantUserId s
      then Inl (unique_violation ''UQ_split_bill_participant'')
      else if \<exists>r \<in> set (pd_shares d). ss_billId r = ss_billId s \<and> ss_position r = ss_position s
      then Inl (unique_violation ''UQ_split_bill_share_position'')
      else if ss_billId s \<notin> sb_id ` set (pd_bills d)
      then Inl (foreign_key_violation ''FK_split_bill_shares_bill'')
      else Inr (d\<lparr>pd_shares := pd_shares d @ [s]\<rparr>))"

text \<open>\<^verbatim>\<open>INSERT ... ON CONFLICT (share_id, kind) DO NOTHING\<close>; the flag tells whether a row was inserted.\<close>

definition insert_reminder :: "split_bill_reminder \<Rightarrow> payments_db \<Rightarrow> (err, payments_db \<times> bool) res" where
  "insert_reminder r d =
     (if \<exists>q \<in> set (pd_reminders d). sr_shareId q = sr_shareId r \<and> sr_kind q = sr_kind r
      then Inr (d, False)
      else if sr_id r \<in> sr_id ` set (pd_reminders d)
      then Inl (unique_violation ''split_bill_reminders_pkey'')
      else if sr_eventId r \<in> sr_eventId ` set (pd_reminders d)
      then Inl (unique_violation ''UQ_split_bill_reminder_event'')
      else if sr_shareId r \<notin> ss_id ` set (pd_shares d)
      then Inl (foreign_key_violation ''FK_split_bill_reminders_share'')
      else Inr (d\<lparr>pd_reminders := pd_reminders d @ [r]\<rparr>, True))"

definition find_bill :: "payments_db \<Rightarrow> string \<Rightarrow> split_bill option" where
  "find_bill d i = find (\<lambda>b. sb_id b = pg_uuid i) (pd_bills d)"

definition find_share :: "payments_db \<Rightarrow> string \<Rightarrow> split_bill_share option" where
  "find_share d i = find (\<lambda>s. ss_id s = pg_uuid i) (pd_shares d)"

definition transfer_of_share :: "payments_db \<Rightarrow> string \<Rightarrow> transfer option" where
  "transfer_of_share d i = find (\<lambda>t. tr_splitBillShareId t = Some (pg_uuid i)) (pd_transfers d)"

definition insert_payments_outbox :: "outbox_message \<Rightarrow> payments_db \<Rightarrow> (err, payments_db) res" where
  "insert_payments_outbox m d =
     rbind (insert_outbox (pd_outbox d) m) (\<lambda>ob. Inr (d\<lparr>pd_outbox := ob\<rparr>))"

section \<open>Keys\<close>

definition keys_unique :: "payments_db \<Rightarrow> bool" where
  "keys_unique d = (distinct (map tr_id (pd_transfers d)) \<and>
     distinct (map (\<lambda>t. (tr_senderUserId t, tr_idempotencyKey t)) (pd_transfers d)) \<and>
     distinct (List.map_filter tr_splitBillShareId (pd_transfers d)) \<and>
     list_all (\<lambda>t. canonical (tr_id t)) (pd_transfers d))"

lemma find_transfer_Some:
  "find_transfer d i = Some t \<Longrightarrow> t \<in> set (pd_transfers d) \<and> tr_id t = pg_uuid i"
  by (auto simp: find_transfer_def find_Some_iff)

lemma find_transfer_iff:
  assumes "distinct (map tr_id (pd_transfers d))"
  shows "find_transfer d i = Some t \<longleftrightarrow> t \<in> set (pd_transfers d) \<and> tr_id t = pg_uuid i"
proof
  assume t: "t \<in> set (pd_transfers d) \<and> tr_id t = pg_uuid i"
  then obtain r where r: "find_transfer d i = Some r"
    by (cases "find_transfer d i") (auto simp: find_transfer_def find_None_iff)
  with t find_transfer_Some [OF r] assms have "r = t" by (simp add: distinct_map inj_on_def)
  with r show "find_transfer d i = Some t" by simp
qed (rule find_transfer_Some)

lemma transfer_by_id_ok: "transfer_by_id d i = Inr t \<longleftrightarrow> find_transfer d i = Some t"
  by (auto simp: transfer_by_id_def split: option.splits)

lemma update_transfers_ok:
  assumes "update_transfers sel patch d = Inr (d', n)"
  shows "d' = d\<lparr>pd_transfers := map (\<lambda>t. if sel t then patch t else t) (pd_transfers d)\<rparr>"
    and "n = length (filter sel (pd_transfers d))"
    and "\<And>t. t \<in> set (pd_transfers d) \<Longrightarrow> sel t \<Longrightarrow> transfer_fits (patch t) = Inr ()"
proof -
  obtain ts where ts: "mapM (update_row sel patch) (pd_transfers d) = Inr ts"
      "d' = d\<lparr>pd_transfers := ts\<rparr>" "n = length (filter sel (pd_transfers d))"
    using assms by (auto simp: update_transfers_def result_simps)
  have all: "list_all2 (\<lambda>t r. update_row sel patch t = Inr r) (pd_transfers d) ts"
    using ts(1) by (simp add: mapM_Inr_iff)
  have row: "update_row sel patch t = Inr r \<Longrightarrow>
      r = (if sel t then patch t else t) \<and> (sel t \<longrightarrow> transfer_fits (patch t) = Inr ())" for t r
    by (auto simp: update_row_def result_simps split: if_splits)
  have "ts = map (\<lambda>t. if sel t then patch t else t) (pd_transfers d)"
    using all row by (auto simp: list_all2_conv_all_nth intro!: nth_equalityI)
  with ts(2) show "d' = d\<lparr>pd_transfers := map (\<lambda>t. if sel t then patch t else t) (pd_transfers d)\<rparr>" by simp
  show "n = length (filter sel (pd_transfers d))" by (rule ts(3))
  show "transfer_fits (patch t) = Inr ()" if "t \<in> set (pd_transfers d)" "sel t" for t
    using that all row by (auto simp: list_all2_conv_all_nth in_set_conv_nth)
qed

lemma update_transfers_succeeds:
  assumes "\<And>t. t \<in> set (pd_transfers d) \<Longrightarrow> sel t \<Longrightarrow> transfer_fits (patch t) = Inr ()"
  shows "update_transfers sel patch d =
    Inr (d\<lparr>pd_transfers := map (\<lambda>t. if sel t then patch t else t) (pd_transfers d)\<rparr>,
         length (filter sel (pd_transfers d)))"
proof -
  have "update_row sel patch t = Inr (if sel t then patch t else t)" if "t \<in> set (pd_transfers d)" for t
    using assms that by (simp add: update_row_def)
  then have "mapM (update_row sel patch) (pd_transfers d) =
      Inr (map (\<lambda>t. if sel t then patch t else t) (pd_transfers d))"
    unfolding mapM_Inr_iff by (simp add: list_all2_conv_all_nth)
  then show ?thesis by (simp add: update_transfers_def)
qed

lemma insert_transfer_ok:
  "insert_transfer t d = Inr d' \<longleftrightarrow>
     d' = d\<lparr>pd_transfers := pd_transfers d @ [t]\<rparr> \<and> transfer_fits t = Inr () \<and>
     tr_id t \<notin> tr_id ` set (pd_transfers d) \<and>
     (\<forall>r \<in> set (pd_transfers d). tr_senderUserId r \<noteq> tr_senderUserId t \<or>
        tr_idempotencyKey r \<noteq> tr_idempotencyKey t) \<and>
     (\<forall>i. tr_splitBillShareId t = Some i \<longrightarrow> i \<in> ss_id ` set (pd_shares d) \<and>
        (\<forall>r \<in> set (pd_transfers d). tr_splitBillShareId r \<noteq> Some i))"
  unfolding insert_transfer_def by (cases "tr_splitBillShareId t") (auto simp: rbind_eq_Inr if_Inl_eq_Inr)

lemma set_map_filter: "set (List.map_filter f xs) = {y. \<exists>x \<in> set xs. f x = Some y}"
  by (force simp: List.map_filter_def)

lemma insert_transfer_keys:
  assumes "insert_transfer t d = Inr d'" "keys_unique d" "canonical (tr_id t)"
  shows "keys_unique d'"
  using assms unfolding insert_transfer_ok keys_unique_def
  by (auto simp: List.map_filter_def set_map_filter [unfolded List.map_filter_def] split: option.splits)

lemma update_transfers_keys:
  assumes "update_transfers sel patch d = Inr (d', n)" "keys_unique d"
    and "\<And>t. tr_id (patch t) = tr_id t" "\<And>t. tr_senderUserId (patch t) = tr_senderUserId t"
      "\<And>t. tr_idempotencyKey (patch t) = tr_idempotencyKey t"
      "\<And>t. tr_splitBillShareId (patch t) = tr_splitBillShareId t"
  shows "keys_unique d'"
proof -
  let ?f = "\<lambda>t. if sel t then patch t else t"
  have d': "pd_transfers d' = map ?f (pd_transfers d)" using update_transfers_ok(1) [OF assms(1)] by simp
  have id: "tr_id (?f t) = tr_id t" "tr_senderUserId (?f t) = tr_senderUserId t"
    "tr_idempotencyKey (?f t) = tr_idempotencyKey t" "tr_splitBillShareId (?f t) = tr_splitBillShareId t" for t
    by (simp_all add: assms(3-6))
  have "List.map_filter tr_splitBillShareId (map ?f (pd_transfers d)) =
      List.map_filter tr_splitBillShareId (pd_transfers d)"
    by (induction "pd_transfers d") (simp_all add: List.map_filter_def id filter_map o_def)
  with assms(2) show ?thesis by (auto simp: keys_unique_def d' o_def id list_all_iff assms(3))
qed

end
