(* ===== verification/Split_Domain.thy ===== *)
theory Split_Domain
  imports Payments_Db
begin

text \<open>
  The domain rules of split bills: \<^verbatim>\<open>split-bills/domain/money.ts\<close>, the exact parser and printer of
  amounts, and \<^verbatim>\<open>split-bills/domain/split-bill-status.ts\<close>. A \<^verbatim>\<open>string\<close> amount is read into minor
  units without any floating point.
\<close>

section \<open>Model\<close>

text \<open>\<^verbatim>\<open>MONEY_PATTERN = /^(0|[1-9]\d*)\.\d{2}$/\<close>, on the text cut at its first point.\<close>

definition whole_ok :: "string \<Rightarrow> bool" where
  "whole_ok w = (w = ''0'' \<or> (all_digits w \<and> hd w \<noteq> CHR ''0''))"

definition MONEY_PATTERN :: "string \<Rightarrow> bool" where
  "MONEY_PATTERN value =
     (case split_on (CHR ''.'') value of
        [whole, fraction] \<Rightarrow> whole_ok whole \<and> length fraction = 2 \<and> all_digits fraction
      | _ \<Rightarrow> False)"

definition parseMoneyToMinor :: "string \<Rightarrow> string \<Rightarrow> (err, int) res" where
  "parseMoneyToMinor value field =
     (if \<not> MONEY_PATTERN value then Inl (BadRequest (field @ '' must use exact 0.00 decimal format''))
      else (case split_on (CHR ''.'') value of
              whole # fraction # _ \<Rightarrow>
                let minor = int (nat_of_digits whole) * 100 + int (nat_of_digits fraction)
                in if minor \<le> 0 then Inl (BadRequest (field @ '' must be positive''))
                   else if max_safe_integer < minor
                   then Inl (BadRequest (field @ '' exceeds supported range''))
                   else Inr minor
            | _ \<Rightarrow> Inl (TypeErr ''undefined'')))"

definition formatMinor :: "int \<Rightarrow> string" where
  "formatMinor value =
     show_int (big_div value 100) @ ''.'' @ padStart (show_int (big_mod value 100)) 2 (CHR ''0'')"

datatype split_bill_status = BillPending | PartiallyPaid | BillSettled

datatype split_share_payment_status = Unpaid | PaymentPending | PaymentFailed | Paid

fun bill_status_text :: "split_bill_status \<Rightarrow> string" where
  "bill_status_text BillPending = ''Pending''"
| "bill_status_text PartiallyPaid = ''PartiallyPaid''"
| "bill_status_text BillSettled = ''Settled''"

definition deriveSplitBillStatus :: "nat \<Rightarrow> nat \<Rightarrow> split_bill_status" where
  "deriveSplitBillStatus paidShares totalShares =
     (if 0 < totalShares \<and> paidShares = totalShares then BillSettled
      else if 0 < paidShares then PartiallyPaid else BillPending)"

section \<open>Reading and printing\<close>

lemma split_on_not_Nil [simp]: "split_on d s \<noteq> []"
  by (cases s) (auto split: list.splits)

lemma split_on_no_sep: "d \<notin> set s \<Longrightarrow> split_on d s = [s]"
  by (induction s) auto

lemma split_on_append: "d \<notin> set s \<Longrightarrow> split_on d (s @ d # t) = s # split_on d t"
  by (induction s) auto

lemma split_on_two: "split_on d s = [a, b] \<Longrightarrow> s = a @ d # b"
proof (induction s arbitrary: a)
  case (Cons c s)
  show ?case
  proof (cases "c = d")
    case True
    with Cons.prems have "a = []" "split_on d s = [b]" by auto
    moreover have "split_on d s = [b] \<Longrightarrow> s = b" for b
      by (induction s arbitrary: b) (auto split: if_splits list.splits)
    ultimately show ?thesis using True by simp
  next
    case False
    then obtain w ws where w: "split_on d s = w # ws" using Cons.prems by (auto split: list.splits)
    with False Cons.prems have "a = c # w" "ws = [b]" by auto
    with Cons.IH [of w] w show ?thesis by simp
  qed
qed simp

lemma is_digit_not_point: "all_digits s \<Longrightarrow> CHR ''.'' \<notin> set s"
  by (auto simp: all_digits_def list_all_iff is_digit_def)

lemma digits_below: "all_digits s \<Longrightarrow> nat_of_digits s < 10 ^ length s"
proof (induction s rule: rev_induct)
  case (snoc c s)
  have c: "digit_val c \<le> 9" using snoc.prems by (auto simp: all_digits_def is_digit_def digit_val_def Let_def)
  show ?case
  proof (cases "s = []")
    case True
    then show ?thesis using c by (simp add: nat_of_digits_def)
  next
    case False
    then have "nat_of_digits s < 10 ^ length s" using snoc by (simp add: all_digits_def)
    then have "nat_of_digits s + 1 \<le> 10 ^ length s" by simp
    then have "10 * nat_of_digits s + 10 \<le> 10 * 10 ^ length s" by linarith
    then show ?thesis using c by (simp add: nat_of_digits_snoc)
  qed
qed (simp add: all_digits_def)

lemma digit_char_val: "is_digit c \<Longrightarrow> digit_char (digit_val c) = c"
  by (simp add: digit_char_def digit_val_def is_digit_def Let_def)

lemma digit_val_less: "is_digit c \<Longrightarrow> digit_val c < 10"
  by (auto simp: is_digit_def digit_val_def Let_def)

lemma digit_char_0 [simp]: "digit_char 0 = CHR ''0''"
  by code_simp

lemma show_nat_0: "show_nat 0 = ''0''"
  by (subst show_nat.simps) simp

lemma show_nat_snoc: "0 < n \<Longrightarrow> d < 10 \<Longrightarrow> show_nat (10 * n + d) = show_nat n @ [digit_char d]"
  by (subst show_nat.simps) simp

text \<open>A text of digits without a leading zero is the text of its value.\<close>

lemma show_nat_nat_of_digits: "whole_ok s \<Longrightarrow> show_nat (nat_of_digits s) = s"
proof (induction s rule: rev_induct)
  case (snoc c s)
  show ?case
  proof (cases "s = []")
    case True
    then have "is_digit c" using snoc.prems by (auto simp: whole_ok_def all_digits_def is_digit_def)
    then have "digit_val c < 10" "digit_char (digit_val c) = c"
      by (simp_all add: digit_char_val digit_val_less)
    with True show ?thesis by (subst show_nat.simps) (simp add: nat_of_digits_def)
  next
    case False
    then have w: "all_digits s" "hd s \<noteq> CHR ''0''" "is_digit c"
      using snoc.prems by (auto simp: whole_ok_def all_digits_def append_eq_Cons_conv)
    then have eq: "show_nat (nat_of_digits s) = s" using snoc.IH by (simp add: whole_ok_def)
    have "0 < nat_of_digits s"
    proof (rule ccontr)
      assume "\<not> 0 < nat_of_digits s"
      then have "s = [digit_char 0]" using eq by (subst (asm) show_nat.simps) simp
      then show False using w(2) by simp
    qed
    moreover have "digit_val c < 10" "digit_char (digit_val c) = c"
      using w(3) by (simp_all add: digit_char_val digit_val_less)
    ultimately show ?thesis using eq by (simp add: nat_of_digits_snoc show_nat_snoc)
  qed
qed (simp add: whole_ok_def all_digits_def)

lemma whole_ok_show_nat: "whole_ok (show_nat n)"
proof (induction n rule: show_nat.induct)
  case (1 n)
  have d: "k = 0" if "digit_char k = CHR ''0''" "k < 10" for k
    using that digit_val_char [of k] by (simp add: digit_val_def)
  show ?case
  proof (cases "n < 10")
    case True
    then show ?thesis using d [of n]
      by (subst show_nat.simps) (auto simp: whole_ok_def all_digits_def)
  next
    case False
    then have "whole_ok (show_nat (n div 10))" using 1 by simp
    moreover have "show_nat (n div 10) \<noteq> ''0''"
      using False show_nat_inj [of "n div 10" 0] by (simp add: show_nat_0)
    ultimately show ?thesis using False
      by (subst show_nat.simps) (simp add: whole_ok_def all_digits_def)
  qed
qed

lemma two_digits:
  assumes "all_digits f" "length f = 2"
  shows "padStart (show_nat (nat_of_digits f)) 2 (CHR ''0'') = f"
proof -
  obtain a b where f: "f = [a, b]" using assms(2) by (auto simp: length_Suc_conv numeral_2_eq_2)
  have d: "is_digit a" "is_digit b" using assms(1) f by (auto simp: all_digits_def)
  have n: "nat_of_digits f = 10 * digit_val a + digit_val b" by (simp add: f nat_of_digits_def)
  have one: "show_nat (digit_val c) = [c]" if "is_digit c" for c
    using that by (subst show_nat.simps) (simp add: digit_val_less digit_char_val)
  show ?thesis
  proof (cases "digit_val a = 0")
    case True
    then have "a = CHR ''0''" using digit_char_val [OF d(1)] by simp
    moreover have "show_nat (nat_of_digits f) = [b]" using one [OF d(2)] by (simp add: n True)
    ultimately show ?thesis by (simp add: f padStart_def)
  next
    case False
    then have "show_nat (nat_of_digits f) = [a, b]"
      using d by (simp add: n show_nat_snoc digit_val_less one digit_char_val)
    then show ?thesis by (simp add: f padStart_def)
  qed
qed

lemma all_digits_padStart [simp]: "all_digits (padStart (show_nat k) n (CHR ''0''))"
  using show_nat_digits [of k] by (auto simp: padStart_def all_digits_def is_digit_def list_all_iff)

lemma formatMinor_text:
  assumes "0 < n"
  shows "formatMinor n = show_nat (nat n div 100) @ CHR ''.'' #
    padStart (show_nat (nat n mod 100)) 2 (CHR ''0'')"
proof -
  have "big_div n 100 = n div 100" using assms by (intro big_div_nonneg) auto
  moreover from this have "big_mod n 100 = n mod 100" by (simp only: big_mod_def minus_mult_div_eq_mod)
  moreover have "\<not> n div 100 < 0" "\<not> n mod 100 < 0" using assms by (simp_all add: pos_imp_zdiv_neg_iff)
  ultimately show ?thesis using assms
    by (simp add: formatMinor_def show_int_def nat_div_distrib nat_mod_distrib)
qed

lemma split_on_decimal:
  assumes "all_digits w" "all_digits f"
  shows "split_on (CHR ''.'') (w @ CHR ''.'' # f) = [w, f]"
  using assms by (simp add: split_on_append is_digit_not_point split_on_no_sep)

lemma MONEY_PATTERN_iff:
  "MONEY_PATTERN v \<longleftrightarrow> (\<exists>w f. v = w @ CHR ''.'' # f \<and> whole_ok w \<and> all_digits f \<and> length f = 2)"
proof
  assume "MONEY_PATTERN v"
  then obtain w f where "split_on (CHR ''.'') v = [w, f]" "whole_ok w" "all_digits f" "length f = 2"
    by (auto simp: MONEY_PATTERN_def split: list.splits)
  then show "\<exists>w f. v = w @ CHR ''.'' # f \<and> whole_ok w \<and> all_digits f \<and> length f = 2"
    using split_on_two by blast
next
  assume "\<exists>w f. v = w @ CHR ''.'' # f \<and> whole_ok w \<and> all_digits f \<and> length f = 2"
  then obtain w f where v: "v = w @ CHR ''.'' # f" "whole_ok w" "all_digits f" "length f = 2" by blast
  then have "all_digits w" by (auto simp: whole_ok_def all_digits_def is_digit_def)
  with v show "MONEY_PATTERN v" by (simp add: MONEY_PATTERN_def split_on_decimal)
qed

lemma parseMoneyToMinor_decimal:
  assumes "whole_ok w" "all_digits f" "length f = 2"
  shows "parseMoneyToMinor (w @ CHR ''.'' # f) field =
    (let minor = int (nat_of_digits w) * 100 + int (nat_of_digits f)
     in if minor \<le> 0 then Inl (BadRequest (field @ '' must be positive''))
        else if max_safe_integer < minor then Inl (BadRequest (field @ '' exceeds supported range''))
        else Inr minor)"
proof -
  have "all_digits w" using assms(1) by (auto simp: whole_ok_def all_digits_def is_digit_def)
  moreover have "MONEY_PATTERN (w @ CHR ''.'' # f)" using assms by (auto simp: MONEY_PATTERN_iff)
  ultimately show ?thesis using assms by (simp add: parseMoneyToMinor_def split_on_decimal Let_def)
qed

section \<open>Properties\<close>

lemma parseMoneyToMinor_iff:
  "parseMoneyToMinor value field = Inr n \<longleftrightarrow> 0 < n \<and> n \<le> max_safe_integer \<and> value = formatMinor n"
proof
  assume p: "parseMoneyToMinor value field = Inr n"
  then have "MONEY_PATTERN value" by (simp add: parseMoneyToMinor_def split: if_splits)
  then obtain w f where v: "value = w @ CHR ''.'' # f" "whole_ok w" "all_digits f" "length f = 2"
    by (auto simp: MONEY_PATTERN_iff)
  have f: "nat_of_digits f < 100" using digits_below [OF v(3)] v(4) by simp
  from p v have n: "0 < n" "n \<le> max_safe_integer" "n = int (nat_of_digits w * 100 + nat_of_digits f)"
    by (auto simp: parseMoneyToMinor_decimal Let_def split: if_splits)
  from n(3) have "nat n = nat_of_digits w * 100 + nat_of_digits f" by simp
  then have "nat n div 100 = nat_of_digits w" "nat n mod 100 = nat_of_digits f" using f by simp_all
  with n v show "0 < n \<and> n \<le> max_safe_integer \<and> value = formatMinor n"
    by (simp add: formatMinor_text show_nat_nat_of_digits two_digits)
next
  assume n: "0 < n \<and> n \<le> max_safe_integer \<and> value = formatMinor n"
  let ?f = "padStart (show_nat (nat n mod 100)) 2 (CHR ''0'')"
  have "length ?f = 2" using length_show_nat_lt_100 [of "nat n mod 100"] by simp
  moreover have "int (nat n div 100) * 100 + int (nat n mod 100) = n"
    using n by (simp add: zdiv_int zmod_int)
  ultimately show "parseMoneyToMinor value field = Inr n" using n
    by (simp add: formatMinor_text parseMoneyToMinor_decimal whole_ok_show_nat Let_def)
qed

text \<open>
  Amounts of split bills are read exactly: a text is accepted exactly if it has the form of the
  pattern with a positive value up to the largest safe integer; printing what was read gives the text
  back, and reading what was printed gives the amount back.
\<close>

theorem money_round_trip:
  "parseMoneyToMinor value field = Inr n \<longleftrightarrow> 0 < n \<and> n \<le> max_safe_integer \<and> value = formatMinor n"
  by (rule parseMoneyToMinor_iff)

end
