(* ===== verification/Payments_Outbox.thy ===== *)
theory Payments_Outbox
  imports Split_Domain Ledger_Outbox
begin

text \<open>
  \<^verbatim>\<open>messaging/outbox.service.ts\<close> of the payments service: the events it enqueues inside the transactions
  of the saga, of split bills and of reminders, and its copy of the polling publisher. Identifiers
  from \<^verbatim>\<open>randomUUID\<close>, the time and the trace context are arguments. The publisher is shown to be
  the one of the ledger, statement by statement, so that it keeps the contract \<open>leased_outbox\<close>.
\<close>

section \<open>Enqueueing\<close>

definition payment_event ::
  "string \<Rightarrow> string \<Rightarrow> string \<Rightarrow> string \<Rightarrow> string \<Rightarrow> int \<Rightarrow> (string \<times> json) list \<Rightarrow> trace_context \<Rightarrow> int \<Rightarrow> integration_event" where
  "payment_event eventId eventType correlationId aggregateType aggregateId version payload tc occurredAt =
     \<lparr>ie_eventId = eventId, ie_eventType = eventType, ie_schemaVersion = 1,
      ie_occurredAt = toISOString occurredAt, ie_producer = ''payments-service'',
      ie_correlationId = Some correlationId, ie_traceId = tc_traceId tc,
      ie_traceparent = tc_traceparent tc, ie_tracestate = tc_tracestate tc,
      ie_aggregateType = aggregateType, ie_aggregateId = aggregateId, ie_aggregateVersion = version,
      ie_payload = payload\<rparr>"

definition transfer_completed_event :: "transfer \<Rightarrow> string \<Rightarrow> string \<Rightarrow> trace_context \<Rightarrow> int \<Rightarrow> integration_event" where
  "transfer_completed_event transfer receiverWalletId eventId tc occurredAt =
     payment_event eventId ''payments.transfer.Completed'' (tr_id transfer) ''Transfer'' (tr_id transfer)
       (tr_version transfer)
       [(''senderUserId'', JStr (tr_senderUserId transfer)),
        (''senderWalletId'', JStr (tr_senderWalletId transfer)),
        (''receiverWalletId'', JStr receiverWalletId),
        (''amountMinor'', JStr (show_int (tr_amountMinor transfer))),
        (''currency'', JStr (tr_currency transfer)),
        (''destinationAmountMinor'', JStr (show_int (tr_destinationAmountMinor transfer))),
        (''destinationCurrency'', JStr (tr_destinationCurrency transfer)),
        (''fxRate'', JStr (tr_fxDisplayRate transfer)),
        (''status'', JStr ''Completed'')] tc occurredAt"

text \<open>An empty text counts as missing, as in the source's \<^verbatim>\<open>if (!value)\<close>.\<close>

definition truthy :: "string option \<Rightarrow> string option" where
  "truthy s = (case s of None \<Rightarrow> None | Some t \<Rightarrow> if t = [] then None else Some t)"

definition enqueueTransferCompleted ::
  "transfer \<Rightarrow> string \<Rightarrow> trace_context \<Rightarrow> int \<Rightarrow> payments_db \<Rightarrow> (err, payments_db) res" where
  "enqueueTransferCompleted transfer eventId tc now d =
     (case truthy (tr_receiverWalletId transfer) of
        None \<Rightarrow> Inl (Err ''Completed transfer is missing receiver wallet'')
      | Some receiverWalletId \<Rightarrow>
          insert_payments_outbox (new_outbox_row eventId ''payments.transfer.completed.v1''
            (envelope_json (transfer_completed_event transfer receiverWalletId eventId tc now)) now now) d)"

definition enqueue ::
  "string \<Rightarrow> string \<Rightarrow> string \<Rightarrow> string \<Rightarrow> string \<Rightarrow> (string \<times> json) list \<Rightarrow> string \<Rightarrow> trace_context \<Rightarrow> int \<Rightarrow>
     payments_db \<Rightarrow> (err, payments_db) res" where
  "enqueue eventType routingKey aggregateType aggregateId correlationId payload eventId tc now d =
     insert_payments_outbox (new_outbox_row eventId routingKey
       (envelope_json (payment_event eventId eventType correlationId aggregateType aggregateId 1 payload tc now))
       now now) d"

definition shares_of_bill :: "payments_db \<Rightarrow> string \<Rightarrow> split_bill_share list" where
  "shares_of_bill d billId = filter (\<lambda>s. ss_billId s = billId) (pd_shares d)"

definition share_paid :: "payments_db \<Rightarrow> split_bill_share \<Rightarrow> bool" where
  "share_paid d s = (case transfer_of_share d (ss_id s) of None \<Rightarrow> False | Some t \<Rightarrow> tr_status t = Completed)"

definition share_payload ::
  "transfer \<Rightarrow> split_bill \<Rightarrow> split_bill_share \<Rightarrow> split_bill_status \<Rightarrow> (string \<times> json) list" where
  "share_payload transfer bill share status =
     [(''splitBillId'', JStr (ss_billId share)), (''shareId'', JStr (ss_id share)),
      (''transferId'', JStr (tr_id transfer)), (''participantUserId'', JStr (ss_participantUserId share)),
      (''amountMinor'', JStr (show_int (ss_amountMinor share))), (''currency'', JStr (sb_currency bill)),
      (''billStatus'', JStr (bill_status_text status))]"

definition enqueueSplitSharePaid ::
  "transfer \<Rightarrow> string \<Rightarrow> string \<Rightarrow> trace_context \<Rightarrow> int \<Rightarrow> payments_db \<Rightarrow> (err, payments_db) res" where
  "enqueueSplitSharePaid transfer paidEventId statusEventId tc now d =
     (case truthy (tr_splitBillShareId transfer) of
        None \<Rightarrow> Inr d
      | Some shareId \<Rightarrow>
          (case find_share d shareId of
             None \<Rightarrow> Inl (Err ''Completed split payment is missing its share'')
           | Some share \<Rightarrow>
               (let shares = shares_of_bill d (ss_billId share);
                    status = deriveSplitBillStatus (length (filter (share_paid d) shares)) (length shares)
                in case find_bill d (ss_billId share) of
                     None \<Rightarrow> Inl (TypeErr ''share.bill is null'')
                   | Some bill \<Rightarrow>
                       let common = share_payload transfer bill share status in
                       rbind (enqueue ''payments.split-bill.SharePaid'' ''payments.split-bill.share-paid.v1''
                                ''SplitBillShare'' (ss_id share) (tr_id transfer)
                                (common @ [(''ownerId'', JStr (ss_participantUserId share))])
                                paidEventId tc now d) (\<lambda>d1.
                       if sb_creatorUserId bill \<noteq> ss_participantUserId share
                       then enqueue ''payments.split-bill.StatusChanged'' ''payments.split-bill.status-changed.v1''
                              ''SplitBill'' (ss_billId share) (tr_id transfer)
                              (common @ [(''ownerId'', JStr (sb_creatorUserId bill))]) statusEventId tc now d1
                       else Inr d1))))"

definition deadline_json :: "int option \<Rightarrow> json" where
  "deadline_json t = json_nullable (map_option toISOString t)"

definition enqueueSplitBillCreated ::
  "split_bill \<Rightarrow> split_bill_share \<Rightarrow> string \<Rightarrow> trace_context \<Rightarrow> int \<Rightarrow> payments_db \<Rightarrow> (err, payments_db) res" where
  "enqueueSplitBillCreated bill share eventId tc now d =
     enqueue ''payments.split-bill.Created'' ''payments.split-bill.created.v1'' ''SplitBill'' (sb_id bill) (sb_id bill)
       [(''ownerId'', JStr (ss_participantUserId share)), (''splitBillId'', JStr (sb_id bill)),
        (''shareId'', JStr (ss_id share)), (''creatorUserId'', JStr (sb_creatorUserId bill)),
        (''amountMinor'', JStr (show_int (ss_amountMinor share))), (''currency'', JStr (sb_currency bill)),
        (''deadline'', deadline_json (sb_deadline bill))] eventId tc now d"

definition enqueueOverdueReminder ::
  "string \<Rightarrow> split_bill \<Rightarrow> split_bill_share \<Rightarrow> trace_context \<Rightarrow> int \<Rightarrow> payments_db \<Rightarrow> (err, payments_db) res" where
  "enqueueOverdueReminder eventId bill share tc now d =
     enqueue ''payments.split-bill.ShareOverdue'' ''payments.split-bill.share-overdue.v1'' ''SplitBillShare''
       (ss_id share) (sb_id bill)
       [(''ownerId'', JStr (ss_participantUserId share)), (''splitBillId'', JStr (sb_id bill)),
        (''shareId'', JStr (ss_id share)), (''amountMinor'', JStr (show_int (ss_amountMinor share))),
        (''currency'', JStr (sb_currency bill)), (''deadline'', deadline_json (sb_deadline bill))]
       eventId tc now d"

section \<open>Publishing\<close>

definition PAYMENTS_LOCK_DURATION_MS :: int where "PAYMENTS_LOCK_DURATION_MS = 30000"
definition PAYMENTS_MAX_BACKOFF_MS :: int where "PAYMENTS_MAX_BACKOFF_MS = 60000"

definition claim_payments ::
  "string \<Rightarrow> int \<Rightarrow> nat \<Rightarrow> string list \<Rightarrow> outbox_table \<Rightarrow> outbox_table \<times> outbox_message list" where
  "claim_payments lockId now batchSize locked ob =
     (let lockedUntil = now + PAYMENTS_LOCK_DURATION_MS;
          candidates = take batchSize (order_outbox
            (filter (\<lambda>m. claimable now m \<and> ob_eventId m \<notin> set locked) ob));
          chosen = (\<lambda>m. ob_eventId m \<in> ob_eventId ` set candidates);
          ob' = update_outbox chosen (\<lambda>m. m\<lparr>ob_lockId := Some lockId, ob_lockedUntil := Some lockedUntil\<rparr>) ob
      in (ob', filter chosen ob'))"

definition settle_payments_publication ::
  "outbox_message \<Rightarrow> string \<Rightarrow> string option \<Rightarrow> int \<Rightarrow> int \<Rightarrow> outbox_table \<Rightarrow> (err, outbox_table) res" where
  "settle_payments_publication message lockId outcome publishedAt now ob =
     (let criteria = (\<lambda>m. ob_eventId m = ob_eventId message \<and> ob_lockId m = Some lockId)
      in case outcome of
           None \<Rightarrow> Inr (update_outbox criteria (\<lambda>m. m\<lparr>ob_publishedAt := Some publishedAt,
             ob_lockedUntil := None, ob_lockId := None, ob_lastError := None\<rparr>) ob)
         | Some error \<Rightarrow>
             let attempts = ob_attempts message + 1;
                 delay = min (2 ^ nat (attempts - 1) * 1000) PAYMENTS_MAX_BACKOFF_MS
             in if \<not> pg_integer attempts then Inl numeric_out_of_range
                else Inr (update_outbox criteria (\<lambda>m. m\<lparr>ob_attempts := attempts,
                       ob_availableAt := now + delay, ob_lockedUntil := None, ob_lockId := None,
                       ob_lastError := Some (take 2000 error)\<rparr>) ob))"

definition publishBatch_payments ::
  "string \<Rightarrow> int \<Rightarrow> nat \<Rightarrow> string list \<Rightarrow> (outbox_message \<Rightarrow> string option) \<Rightarrow> (outbox_message \<Rightarrow> int) \<Rightarrow>
     outbox_table \<Rightarrow> (err, outbox_table \<times> nat) res" where
  "publishBatch_payments lockId now batchSize locked publish clock ob =
     (let (ob', claimed) = claim_payments lockId now batchSize locked ob
      in rbind (foldM (\<lambda>t message. case truthy (ob_lockId message) of
             None \<Rightarrow> Inl (Err ''Claimed outbox message has no lock'')
           | Some l \<Rightarrow> settle_payments_publication message l (publish message) (clock message) now t) ob' claimed)
         (\<lambda>t. Inr (t, length claimed)))"

section \<open>The publisher is the one of the ledger\<close>

lemma claim_payments_eq: "claim_payments = claim"
  by (simp add: fun_eq_iff claim_payments_def claim_def Let_def PAYMENTS_LOCK_DURATION_MS_def
      LOCK_DURATION_MS_def)

lemma settle_payments_publication_eq: "settle_payments_publication = settle_publication"
  by (auto simp: fun_eq_iff settle_payments_publication_def settle_publication_def Let_def under_lease_def
      backoff_def PAYMENTS_MAX_BACKOFF_MS_def MAX_BACKOFF_MS_def errorMessage_def update_outbox_def
      split: option.splits)

interpretation payments_outbox: leased_outbox claim_payments settle_payments_publication
  by (simp only: claim_payments_eq settle_payments_publication_eq) (rule ledger_outbox.leased_outbox_axioms)

text \<open>
  The publisher of the payments service is written out again in its own file; it behaves as the one
  of the ledger: on every table a claim leases and answers the same messages, and a publication is
  recorded in the same way, with the same backoff.
\<close>

theorem publishers_agree:
  "claim_payments lockId now batchSize locked ob = claim lockId now batchSize locked ob \<and>
   settle_payments_publication m lockId outcome publishedAt now ob = settle_publication m lockId outcome publishedAt now ob"
  by (simp add: claim_payments_eq settle_payments_publication_eq)

section \<open>What is enqueued\<close>

lemma insert_payments_outbox_ok:
  "insert_payments_outbox m d = Inr d' \<Longrightarrow>
    d' = d\<lparr>pd_outbox := pd_outbox d @ [m]\<rparr> \<and> ob_eventId m \<notin> ob_eventId ` set (pd_outbox d)"
  by (auto simp: insert_payments_outbox_def result_simps dest!: insert_outbox_ok)

lemma enqueue_ok:
  "enqueue ty rk aty ai c p i tc now d = Inr d' \<Longrightarrow>
    \<exists>m. d' = d\<lparr>pd_outbox := pd_outbox d @ [m]\<rparr> \<and> ob_routingKey m = rk \<and> ob_eventId m = i \<and>
      i \<notin> ob_eventId ` set (pd_outbox d)"
  by (auto simp: enqueue_def new_outbox_row_def dest!: insert_payments_outbox_ok)

lemma payments_enqueue_succeeds:
  assumes "i \<notin> ob_eventId ` set (pd_outbox d)" "length rk \<le> 200"
  shows "\<exists>m. enqueue ty rk aty ai c p i tc now d = Inr (d\<lparr>pd_outbox := pd_outbox d @ [m]\<rparr>) \<and>
    ob_eventId m = i \<and> ob_routingKey m = rk"
  using assms by (auto simp: enqueue_def insert_payments_outbox_def insert_outbox_def new_outbox_row_def image_iff)

lemma enqueueTransferCompleted_ok:
  assumes "enqueueTransferCompleted t i tc now d = Inr d'"
  shows "\<exists>m w. tr_receiverWalletId t = Some w \<and> w \<noteq> [] \<and> d' = d\<lparr>pd_outbox := pd_outbox d @ [m]\<rparr> \<and>
    ob_eventId m = i \<and> ob_event m = envelope_json (transfer_completed_event t w i tc now) \<and>
    ob_routingKey m = ''payments.transfer.completed.v1''"
  using assms by (auto simp: enqueueTransferCompleted_def truthy_def new_outbox_row_def
      split: option.splits if_splits dest!: insert_payments_outbox_ok)

lemma enqueueTransferCompleted_succeeds:
  assumes "tr_receiverWalletId t = Some w" "w \<noteq> []" "i \<notin> ob_eventId ` set (pd_outbox d)"
  shows "\<exists>m. enqueueTransferCompleted t i tc now d = Inr (d\<lparr>pd_outbox := pd_outbox d @ [m]\<rparr>) \<and>
    ob_eventId m = i \<and> ob_routingKey m = ''payments.transfer.completed.v1'' \<and>
    ob_event m = envelope_json (transfer_completed_event t w i tc now)"
  using assms by (auto simp: enqueueTransferCompleted_def truthy_def insert_payments_outbox_def
      insert_outbox_def new_outbox_row_def image_iff)

lemma enqueueSplitSharePaid_ok:
  assumes "enqueueSplitSharePaid t i j tc now d = Inr d'"
  shows "\<exists>ms. d' = d\<lparr>pd_outbox := pd_outbox d @ ms\<rparr>"
proof (cases "truthy (tr_splitBillShareId t)")
  case None
  then show ?thesis using assms by (auto simp: enqueueSplitSharePaid_def intro: exI [of _ "[]"])
next
  case (Some s)
  with assms show ?thesis
    by (fastforce simp: enqueueSplitSharePaid_def case_option_eq_Inr Let_def result_simps
        split: if_splits dest!: enqueue_ok)
qed

end
