(* ===== verification/Transfers_Service.thy ===== *)
theory Transfers_Service
  imports Payments_Outbox
begin

text \<open>
  \<^verbatim>\<open>transfers/transfers.service.ts\<close>: the creation of transfers with its idempotency key and request
  fingerprint, the reading of their status and the guarded transition. SHA-256 (Node's
  \<^verbatim>\<open>crypto\<close>) is the parameter \<open>sha256\<close>; identifiers from \<^verbatim>\<open>randomUUID\<close> and the time are arguments.
  The statements of one creation see the successive states of the record \<open>create_tx\<close>: other
  requests may commit between them, and \<open>cx_later\<close> is what they do after the insertion.
\<close>

section \<open>Requests\<close>

record create_transfer_dto =
  ct_fromWalletId :: string
  ct_toWalletIdentifier :: string
  ct_amount :: jsnum
  ct_currency :: string
  ct_targetCurrency :: "string option"

record canonical_request =
  cr_senderUserId :: string
  cr_senderWalletId :: string
  cr_receiverReference :: string
  cr_amountMinor :: int
  cr_currency :: string
  cr_destinationCurrency :: string
  cr_splitBillShareId :: "string option"

record transfer_view =
  tv_id :: string
  tv_senderUserId :: string
  tv_senderWalletId :: string
  tv_receiverReference :: string
  tv_receiverWalletId :: "string option"
  tv_splitBillShareId :: "string option"
  tv_amount :: string
  tv_currency :: string
  tv_destinationAmount :: string
  tv_destinationCurrency :: string
  tv_fxRate :: string
  tv_fxQuotedAt :: int
  tv_fxExpiresAt :: int
  tv_status :: transfer_status
  tv_idempotencyKey :: string
  tv_failureCode :: "string option"
  tv_failureMessage :: "string option"
  tv_retryCount :: int
  tv_nextRetryAt :: "int option"
  tv_createdAt :: int
  tv_updatedAt :: int

definition MAX_IDEMPOTENCY_KEY_LENGTH :: nat where "MAX_IDEMPOTENCY_KEY_LENGTH = 200"

definition IDEMPOTENCY_CONSTRAINT :: string where
  "IDEMPOTENCY_CONSTRAINT = ''UQ_transfers_sender_idempotency''"

definition normalizeIdempotencyKey :: "string option \<Rightarrow> (err, string) res" where
  "normalizeIdempotencyKey value =
     (case truthy (map_option trim value) of
        None \<Rightarrow> Inl (BadRequest ''Idempotency-Key header is required'')
      | Some key \<Rightarrow>
          if MAX_IDEMPOTENCY_KEY_LENGTH < length key
          then Inl (BadRequest (''Idempotency-Key must not exceed '' @ show_nat MAX_IDEMPOTENCY_KEY_LENGTH @ '' characters''))
          else Inr key)"

text \<open>The double written \<^verbatim>\<open>1e-8\<close>.\<close>

definition amount_tolerance :: jsnum where
  "amount_tolerance = double_round (1 / 100000000)"

definition transferAmountToMinorUnits :: "jsnum \<Rightarrow> (err, int) res" where
  "transferAmountToMinorUnits amount =
     (let scaled = js_mul amount (JsFin 100);
          rounded = math_round scaled
      in if \<not> is_finite amount \<or> js_le amount (JsFin 0) \<or> \<not> is_safe_integer rounded \<or>
            js_less amount_tolerance (js_abs (js_sub scaled rounded))
         then Inl (BadRequest ''Invalid transfer amount'')
         else Inr (bigint_of rounded))"

definition canonicalRequest :: "create_transfer_dto \<Rightarrow> string \<Rightarrow> string option \<Rightarrow> (err, canonical_request) res" where
  "canonicalRequest dto senderUserId splitBillShareId =
     rbind (transferAmountToMinorUnits (ct_amount dto)) (\<lambda>amountMinor.
     Inr \<lparr>cr_senderUserId = senderUserId, cr_senderWalletId = toLowerCase (ct_fromWalletId dto),
          cr_receiverReference = trim (ct_toWalletIdentifier dto), cr_amountMinor = amountMinor,
          cr_currency = toUpperCase (trim (ct_currency dto)),
          cr_destinationCurrency = toUpperCase (trim (case ct_targetCurrency dto of
             None \<Rightarrow> ct_currency dto | Some c \<Rightarrow> c)),
          cr_splitBillShareId = splitBillShareId\<rparr>)"

text \<open>\<^verbatim>\<open>JSON.stringify\<close> of the flat request object, with the quoting of strings.\<close>

definition hex_digit :: "nat \<Rightarrow> char" where
  "hex_digit n = (if n < 10 then digit_char n else char_of (87 + n))"

definition json_char :: "char \<Rightarrow> string" where
  "json_char c =
     (let n = (of_char c :: nat)
      in if n = 34 then [CHR 0x5C, CHR 0x22]
         else if n = 92 then [CHR 0x5C, CHR 0x5C]
         else if n = 8 then [CHR 0x5C, CHR ''b'']
         else if n = 9 then [CHR 0x5C, CHR ''t'']
         else if n = 10 then [CHR 0x5C, CHR ''n'']
         else if n = 12 then [CHR 0x5C, CHR ''f'']
         else if n = 13 then [CHR 0x5C, CHR ''r'']
         else if n < 32 then [CHR 0x5C, CHR ''u'', CHR ''0'', CHR ''0'', hex_digit (n div 16), hex_digit (n mod 16)]
         else [c])"

definition json_quote :: "string \<Rightarrow> string" where
  "json_quote s = CHR 0x22 # concat (map json_char s) @ [CHR 0x22]"

definition stringify_field :: "string \<times> string option \<Rightarrow> string" where
  "stringify_field kv = json_quote (fst kv) @ '':'' @ (case snd kv of None \<Rightarrow> ''null'' | Some v \<Rightarrow> json_quote v)"

fun join_fields :: "string list \<Rightarrow> string" where
  "join_fields [] = []"
| "join_fields [f] = f"
| "join_fields (f # g # fs) = f @ '','' @ join_fields (g # fs)"

definition stringify_request :: "canonical_request \<Rightarrow> string" where
  "stringify_request r = ''{'' @ join_fields (map stringify_field
     [(''senderUserId'', Some (cr_senderUserId r)), (''senderWalletId'', Some (cr_senderWalletId r)),
      (''receiverReference'', Some (cr_receiverReference r)),
      (''amountMinor'', Some (show_int (cr_amountMinor r))), (''currency'', Some (cr_currency r)),
      (''destinationCurrency'', Some (cr_destinationCurrency r)),
      (''splitBillShareId'', cr_splitBillShareId r)]) @ ''}''"

definition fingerprint :: "(string \<Rightarrow> string) \<Rightarrow> canonical_request \<Rightarrow> string" where
  "fingerprint sha256 request = sha256 (stringify_request request)"

definition quote_request :: "canonical_request \<Rightarrow> int \<Rightarrow> (err, fx_quote) res" where
  "quote_request request now =
     quoteTransfer (cr_amountMinor request) (cr_currency request) (cr_destinationCurrency request) now"

definition formatTransferMinor :: "int \<Rightarrow> string" where
  "formatTransferMinor amountMinor =
     show_int (big_div amountMinor 100) @ ''.'' @ padStart (show_int (big_mod amountMinor 100)) 2 (CHR ''0'')"

definition transfer_toView :: "transfer \<Rightarrow> transfer_view" where
  "transfer_toView t =
     \<lparr>tv_id = tr_id t, tv_senderUserId = tr_senderUserId t, tv_senderWalletId = tr_senderWalletId t,
      tv_receiverReference = tr_receiverReference t, tv_receiverWalletId = tr_receiverWalletId t,
      tv_splitBillShareId = tr_splitBillShareId t,
      tv_amount = formatTransferMinor (tr_amountMinor t), tv_currency = tr_currency t,
      tv_destinationAmount = formatTransferMinor (tr_destinationAmountMinor t),
      tv_destinationCurrency = tr_destinationCurrency t, tv_fxRate = tr_fxDisplayRate t,
      tv_fxQuotedAt = tr_fxQuotedAt t, tv_fxExpiresAt = tr_fxExpiresAt t, tv_status = tr_status t,
      tv_idempotencyKey = tr_idempotencyKey t, tv_failureCode = tr_failureCode t,
      tv_failureMessage = tr_failureMessage t, tv_retryCount = tr_retryCount t,
      tv_nextRetryAt = tr_nextRetryAt t, tv_createdAt = tr_createdAt t, tv_updatedAt = tr_updatedAt t\<rparr>"

section \<open>Creation\<close>

record create_tx =
  cx_share :: payments_db
  cx_existing :: payments_db
  cx_db :: payments_db
  cx_later :: "payments_db \<Rightarrow> payments_db"
  cx_now :: int

definition find_by_key :: "payments_db \<Rightarrow> string \<Rightarrow> string \<Rightarrow> transfer option" where
  "find_by_key d senderUserId idempotencyKey =
     find (\<lambda>t. tr_senderUserId t = pg_uuid senderUserId \<and> tr_idempotencyKey t = idempotencyKey) (pd_transfers d)"

definition resolveExisting :: "transfer \<Rightarrow> string \<Rightarrow> (err, transfer_view) res" where
  "resolveExisting existing fp =
     (if tr_requestFingerprint existing \<noteq> fp
      then Inl (Conflict ''Idempotency-Key was already used with a different request'')
      else Inr (transfer_toView existing))"

definition isCreationUniqueViolation :: "err \<Rightarrow> bool" where
  "isCreationUniqueViolation e =
     (case e of
        QueryFailed code c \<Rightarrow> code = ''23505'' \<and> (c = IDEMPOTENCY_CONSTRAINT \<or> c = ''UQ_transfers_split_bill_share'')
      | _ \<Rightarrow> False)"

definition new_transfer :: "string \<Rightarrow> canonical_request \<Rightarrow> fx_quote \<Rightarrow> string \<Rightarrow> string \<Rightarrow> int \<Rightarrow> transfer" where
  "new_transfer i r q key fp now =
     \<lparr>tr_id = pg_uuid i, tr_senderUserId = pg_uuid (cr_senderUserId r),
      tr_senderWalletId = pg_uuid (cr_senderWalletId r), tr_receiverReference = cr_receiverReference r,
      tr_receiverWalletId = None, tr_splitBillShareId = map_option pg_uuid (cr_splitBillShareId r),
      tr_amountMinor = cr_amountMinor r, tr_currency = cr_currency r,
      tr_destinationCurrency = cr_destinationCurrency r,
      tr_destinationAmountMinor = fx_destinationAmountMinor q, tr_fxRateNumerator = fx_rateNumerator q,
      tr_fxRateDenominator = fx_rateDenominator q, tr_fxDisplayRate = fx_displayRate q,
      tr_fxQuotedAt = fx_quotedAt q, tr_fxExpiresAt = fx_expiresAt q, tr_status = Pending,
      tr_idempotencyKey = key, tr_requestFingerprint = fp, tr_failureCode = None, tr_failureMessage = None,
      tr_retryCount = 0, tr_nextRetryAt = None, tr_holdMayExist = False, tr_lastAttemptAt = None,
      tr_leaseOwner = None, tr_leaseUntil = None, tr_version = 1, tr_createdAt = now, tr_updatedAt = now\<rparr>"

text \<open>
  The creation answers with the committed state and the view. The share lookup is skipped when the
  request pays no share.
\<close>

definition find_share_transfer :: "payments_db \<Rightarrow> canonical_request \<Rightarrow> transfer option" where
  "find_share_transfer d r =
     (case truthy (cr_splitBillShareId r) of None \<Rightarrow> None | Some s \<Rightarrow> transfer_of_share d s)"

definition insert_or_winner ::
  "create_tx \<Rightarrow> transfer \<Rightarrow> canonical_request \<Rightarrow> string \<Rightarrow> string \<Rightarrow> (err, payments_db \<times> transfer_view) res" where
  "insert_or_winner x transfer r key fp =
     (case rbind (insert_transfer transfer (cx_db x)) (\<lambda>d.
           rbind (transfer_by_id (cx_later x d) (tr_id transfer)) (\<lambda>t. Inr (d, transfer_toView t))) of
        Inr dv \<Rightarrow> Inr dv
      | Inl e \<Rightarrow>
          if \<not> isCreationUniqueViolation e then Inl e
          else (case (if truthy (cr_splitBillShareId r) \<noteq> None then find_share_transfer (cx_later x (cx_db x)) r
                      else find_by_key (cx_later x (cx_db x)) (cr_senderUserId r) key) of
                  None \<Rightarrow> Inl (Err ''Idempotency winner was not visible after unique conflict'')
                | Some winner \<Rightarrow> rbind (resolveExisting winner fp) (\<lambda>v. Inr (cx_db x, v))))"

definition createCanonical ::
  "(string \<Rightarrow> string) \<Rightarrow> create_tx \<Rightarrow> string \<Rightarrow> canonical_request \<Rightarrow> string \<Rightarrow> (err, payments_db \<times> transfer_view) res" where
  "createCanonical sha256 x newId r key =
     (let fp = fingerprint sha256 r
      in case find_share_transfer (cx_share x) r of
           Some shareTransfer \<Rightarrow> rbind (resolveExisting shareTransfer fp) (\<lambda>v. Inr (cx_db x, v))
         | None \<Rightarrow>
             (case find_by_key (cx_existing x) (cr_senderUserId r) key of
                Some existing \<Rightarrow> rbind (resolveExisting existing fp) (\<lambda>v. Inr (cx_db x, v))
              | None \<Rightarrow>
                  rbind (quote_request r (cx_now x)) (\<lambda>q.
                  insert_or_winner x (new_transfer newId r q key fp (cx_now x)) r key fp)))"

definition create_transfer ::
  "(string \<Rightarrow> string) \<Rightarrow> create_tx \<Rightarrow> string \<Rightarrow> create_transfer_dto \<Rightarrow> string option \<Rightarrow> string \<Rightarrow>
     (err, payments_db \<times> transfer_view) res" where
  "create_transfer sha256 x newId dto idempotencyKeyHeader senderUserId =
     rbind (normalizeIdempotencyKey idempotencyKeyHeader) (\<lambda>key.
     rbind (canonicalRequest dto senderUserId None) (\<lambda>r.
     createCanonical sha256 x newId r key))"

record split_share_payment =
  sp_shareId :: string
  sp_participantUserId :: string
  sp_fromWalletId :: string
  sp_receiverReference :: string
  sp_amountMinor :: int
  sp_currency :: string

definition share_request :: "split_share_payment \<Rightarrow> canonical_request" where
  "share_request input =
     \<lparr>cr_senderUserId = sp_participantUserId input, cr_senderWalletId = toLowerCase (sp_fromWalletId input),
      cr_receiverReference = toLowerCase (trim (sp_receiverReference input)),
      cr_amountMinor = sp_amountMinor input, cr_currency = sp_currency input,
      cr_destinationCurrency = sp_currency input, cr_splitBillShareId = Some (sp_shareId input)\<rparr>"

definition createSplitSharePayment ::
  "(string \<Rightarrow> string) \<Rightarrow> create_tx \<Rightarrow> string \<Rightarrow> split_share_payment \<Rightarrow> string option \<Rightarrow>
     (err, payments_db \<times> transfer_view) res" where
  "createSplitSharePayment sha256 x newId input idempotencyKeyHeader =
     rbind (normalizeIdempotencyKey idempotencyKeyHeader) (\<lambda>key.
     createCanonical sha256 x newId (share_request input) key)"

section \<open>Reading and transition\<close>

definition getStatus :: "payments_db \<Rightarrow> string \<Rightarrow> string \<Rightarrow> (err, transfer_view) res" where
  "getStatus d i senderUserId =
     (case find (\<lambda>t. tr_id t = pg_uuid i \<and> tr_senderUserId t = pg_uuid senderUserId) (pd_transfers d) of
        None \<Rightarrow> Inl (NotFound ''Transfer not found'')
      | Some t \<Rightarrow> Inr (transfer_toView t))"

definition transition_transfer ::
  "payments_db \<Rightarrow> payments_db \<Rightarrow> string \<Rightarrow> transfer_status \<Rightarrow> int \<Rightarrow> (err, payments_db \<times> transfer) res" where
  "transition_transfer seen d i next_status now =
     (case find_transfer seen i of
        None \<Rightarrow> Inl (NotFound ''Transfer not found'')
      | Some current \<Rightarrow>
          rbind (map_err (\<lambda>e. case e of
                   InvalidTransferTransition a b \<Rightarrow> Conflict (''Invalid transfer transition: '' @ a @ '' -> '' @ b)
                 | _ \<Rightarrow> e) (assertTransferTransition (tr_status current) next_status)) (\<lambda>_.
          rbind (update_transfers
                   (\<lambda>t. tr_id t = tr_id current \<and> tr_status t = tr_status current \<and> tr_version t = tr_version current)
                   (\<lambda>t. t\<lparr>tr_status := next_status, tr_version := tr_version t + 1, tr_updatedAt := now\<rparr>) d) (\<lambda>(d', n).
          if n \<noteq> 1 then Inl (Conflict ''Transfer state changed concurrently'')
          else rbind (transfer_by_id d' i) (\<lambda>t. Inr (d', t)))))"

section \<open>Amounts and new rows\<close>

lemma amount_tolerance_lower: "\<exists>v. amount_tolerance = JsFin v \<and> 99 / 10000000000 < v"
proof -
  have "(2 :: rat) powi (- 1022) \<le> 2 powi (- 53)" by (rule power_int_increasing) simp_all
  then have low: "(2 :: rat) powi (- 1022) \<le> \<bar>1 / 100000000\<bar>" unfolding powi2_consts by linarith
  have "\<bar>1 / 100000000 :: rat\<bar> \<le> 1" by simp
  also have "(1 :: rat) \<le> 2 ^ 1000" by (rule one_le_power) simp
  finally obtain v where v: "amount_tolerance = JsFin v"
      "\<bar>v - 1 / 100000000\<bar> \<le> \<bar>1 / 100000000\<bar> * (2 :: rat) powi (- 53)"
    using double_round_normal [OF low] by (auto simp: amount_tolerance_def)
  then have "99 / 10000000000 < v" by (simp only: powi2_consts abs_le_iff) simp
  with v(1) show ?thesis by blast
qed

lemma transferAmountToMinorUnits_decimal:
  assumes k: "0 < k" "k \<le> 11000000" and x: "near_decimal k x"
  shows "transferAmountToMinorUnits (JsFin x) = Inr k"
proof -
  have k50: "k < 2 ^ 50" using k by simp
  obtain y where y: "js_mul (JsFin x) (JsFin 100) = JsFin y" "\<bar>y - of_int k\<bar> \<le> of_int k * 2 powi (- 51)"
    using scaled_decimal [OF k(1) k50 x] by blast
  have r: "math_round (JsFin y) = JsFin (of_int k)"
    using scaled_decimal_round [OF k(1) k50 x] y(1) by simp
  have kr: "0 < (of_int k :: rat)" "(of_int k :: rat) \<le> 11000000"
    using k by (simp, metis of_int_le_iff of_int_numeral)
  have small: "\<bar>y - of_int k\<bar> \<le> 49 / 10000000000"
    using y(2) kr by (simp only: powi2_consts)
  obtain v where v: "amount_tolerance = JsFin v" "99 / 10000000000 < v" using amount_tolerance_lower by blast
  have "\<not> js_less amount_tolerance (js_abs (js_sub (JsFin y) (JsFin (of_int k))))"
  proof -
    have "\<bar>y - of_int k\<bar> \<le> 1" using small by linarith
    then obtain w where w: "double_round (y - of_int k) = JsFin w" using double_round_fin by blast
    have "\<bar>w\<bar> \<le> 2 * (49 / 10000000000)"
      using double_round_double [OF w] mult_left_mono [OF small, of 2] by simp
    also have "\<dots> < v" using v(2) by simp
    finally have "\<not> v < \<bar>w\<bar>" by simp
    then show ?thesis unfolding v(1) using w by simp
  qed
  moreover have "\<not> x \<le> 0"
  proof -
    have "\<bar>x - of_int k / 100\<bar> \<le> of_int k / 100 * (1 / 9007199254740992)"
      using x by (simp only: near_decimal_def powi2_consts)
    then have "of_int k / 100 - x \<le> of_int k / 100 * (1 / 9007199254740992)" by linarith
    then show ?thesis using kr(1) by linarith
  qed
  ultimately show ?thesis
    using y(1) r k by (simp add: transferAmountToMinorUnits_def Let_def max_safe_integer_def)
qed

lemma transferAmountToMinorUnits_ok:
  "transferAmountToMinorUnits a = Inr n \<Longrightarrow> 0 \<le> n \<and> n \<le> max_safe_integer"
proof -
  assume a: "transferAmountToMinorUnits a = Inr n"
  then have f: "is_finite a" "\<not> js_le a (JsFin 0)" "is_safe_integer (math_round (js_mul a (JsFin 100)))"
    "n = bigint_of (math_round (js_mul a (JsFin 100)))"
    by (simp_all add: transferAmountToMinorUnits_def Let_def split: if_splits)
  from f(1,2) obtain r where r: "a = JsFin r" "\<not> r \<le> 0" by (cases a) auto
  from f(3,4) obtain v where v: "math_round (js_mul a (JsFin 100)) = JsFin v"
      "\<bar>\<lfloor>v\<rfloor>\<bar> \<le> max_safe_integer" "n = \<lfloor>v\<rfloor>"
    by (cases "math_round (js_mul a (JsFin 100))") simp_all
  obtain w where w: "js_mul a (JsFin 100) = JsFin w" "v = of_int \<lfloor>w + 1 / 2\<rfloor>"
    using v(1) by (cases "js_mul a (JsFin 100)") auto
  have "0 \<le> w" using w r double_round_nonneg [of "r * 100" w] by simp
  then have "0 \<le> \<lfloor>w + 1 / 2\<rfloor>" by simp
  with v w show ?thesis by simp
qed

lemma quote_request_bounds:
  assumes "quote_request r now = Inr q" "cr_amountMinor r \<le> max_safe_integer"
  shows "0 < cr_amountMinor r" "0 < fx_destinationAmountMinor q" "pg_bigint (fx_destinationAmountMinor q)"
    "fx_rateNumerator q = MICRO_USD_VALUE (cr_currency r)"
    "fx_rateDenominator q = MICRO_USD_VALUE (cr_destinationCurrency r)"
    "length (fx_displayRate q) \<le> 40" "length (cr_currency r) = 3" "length (cr_destinationCurrency r) = 3"
proof -
  let ?a = "MICRO_USD_VALUE (cr_currency r)" and ?b = "MICRO_USD_VALUE (cr_destinationCurrency r)"
  let ?n = "cr_amountMinor r"
  note ok = assms(1) [unfolded quote_request_def quoteTransfer_ok Let_def]
  show n: "0 < ?n" "0 < fx_destinationAmountMinor q" "fx_rateNumerator q = ?a" "fx_rateDenominator q = ?b"
    "length (fx_displayRate q) \<le> 40"
    using ok by (auto simp: formatRate_fits)
  show "length (cr_currency r) = 3" "length (cr_destinationCurrency r) = 3"
    using ok by (auto simp: isSupportedCurrency_def SUPPORTED_CURRENCIES_def)
  have ab: "?a \<le> 45 * ?b" "0 < ?b" by (simp_all add: MICRO_USD_VALUE_def)
  have "(of_int (?n * ?a) :: rat) \<le> of_int (?n * (45 * ?b))"
    unfolding of_int_le_iff using n(1) ab(1) by (intro mult_left_mono) auto
  then have "(of_int (?n * ?a) / of_int ?b :: rat) \<le> of_int (45 * ?n)"
    using ab(2) by (simp add: divide_le_eq algebra_simps)
  then have "of_int (?n * ?a) / of_int ?b + 1 / 2 < (of_int (45 * ?n + 1) :: rat)"
    by simp
  then have "\<lfloor>of_int (?n * ?a) / of_int ?b + 1 / 2 :: rat\<rfloor> < 45 * ?n + 1" by (simp only: floor_less_iff)
  then have "fx_destinationAmountMinor q \<le> 45 * ?n" using ok by auto
  then show "pg_bigint (fx_destinationAmountMinor q)"
    using n(2) assms(2) by (simp add: pg_bigint_def max_safe_integer_def)
qed

lemma new_transfer_fits:
  assumes "quote_request r now = Inr q" "cr_amountMinor r \<le> max_safe_integer"
    and "length (cr_receiverReference r) \<le> 320" "length key \<le> 200" "length fp \<le> 64"
  shows "transfer_fits (new_transfer i r q key fp now) = Inr ()"
proof -
  note b = quote_request_bounds [OF assms(1,2)]
  have "pg_bigint (cr_amountMinor r)" using b(1) assms(2) by (simp add: pg_bigint_def max_safe_integer_def)
  moreover have "pg_bigint (MICRO_USD_VALUE c)" for c by (simp add: MICRO_USD_VALUE_def pg_bigint_def)
  moreover have "pg_integer 0" "pg_integer 1" by (simp_all add: pg_integer_def)
  ultimately show ?thesis using b assms
    by (simp add: transfer_fits_def new_transfer_def not_less not_le)
qed

lemma normalizeIdempotencyKey_ok:
  "normalizeIdempotencyKey h = Inr key \<Longrightarrow> length key \<le> 200 \<and> key \<noteq> []"
  by (auto simp: normalizeIdempotencyKey_def truthy_def MAX_IDEMPOTENCY_KEY_LENGTH_def
      split: option.splits if_splits)

section \<open>Idempotency\<close>

text \<open>What never changes about a committed transfer.\<close>

definition same_request :: "transfer \<Rightarrow> transfer \<Rightarrow> bool" where
  "same_request t t' = (tr_id t' = tr_id t \<and> tr_senderUserId t' = tr_senderUserId t \<and>
     tr_idempotencyKey t' = tr_idempotencyKey t \<and> tr_requestFingerprint t' = tr_requestFingerprint t \<and>
     tr_splitBillShareId t' = tr_splitBillShareId t \<and> tr_senderWalletId t' = tr_senderWalletId t \<and>
     tr_receiverReference t' = tr_receiverReference t \<and> tr_amountMinor t' = tr_amountMinor t \<and>
     tr_currency t' = tr_currency t \<and> tr_destinationAmountMinor t' = tr_destinationAmountMinor t \<and>
     tr_destinationCurrency t' = tr_destinationCurrency t)"

definition payments_le :: "payments_db \<Rightarrow> payments_db \<Rightarrow> bool" where
  "payments_le d d' = list_all (\<lambda>t. list_ex (same_request t) (pd_transfers d')) (pd_transfers d)"

text \<open>
  The states of one creation: each extends the one before, and what other requests commit afterwards
  keeps the rows and the unique keys.
\<close>

definition valid_create :: "create_tx \<Rightarrow> bool" where
  "valid_create x = (payments_le (cx_share x) (cx_existing x) \<and> payments_le (cx_existing x) (cx_db x) \<and>
     keys_unique (cx_db x) \<and> (\<forall>d. payments_le d (cx_later x d)) \<and>
     (\<forall>d. keys_unique d \<longrightarrow> keys_unique (cx_later x d)))"

lemma same_request_refl [simp]: "same_request t t"
  by (simp add: same_request_def)

lemma payments_leD: "payments_le d d' \<Longrightarrow> t \<in> set (pd_transfers d) \<Longrightarrow>
    \<exists>t' \<in> set (pd_transfers d'). same_request t t'"
  by (auto simp: payments_le_def list_all_iff list_ex_iff)

lemma payments_le_refl [simp]: "payments_le d d"
  unfolding payments_le_def list_all_iff list_ex_iff using same_request_refl by blast

lemma find_by_key_Some:
  "find_by_key d u k = Some t \<Longrightarrow>
    t \<in> set (pd_transfers d) \<and> tr_senderUserId t = pg_uuid u \<and> tr_idempotencyKey t = k"
  by (auto simp: find_by_key_def find_Some_iff)

lemma find_by_key_exists:
  "t \<in> set (pd_transfers d) \<Longrightarrow> tr_senderUserId t = pg_uuid u \<Longrightarrow> tr_idempotencyKey t = k \<Longrightarrow>
    \<exists>r. find_by_key d u k = Some r"
  by (cases "find_by_key d u k") (auto simp: find_by_key_def find_None_iff)

lemma same_key_same_row:
  assumes "keys_unique d" "t \<in> set (pd_transfers d)" "r \<in> set (pd_transfers d)"
    and "tr_senderUserId t = tr_senderUserId r" "tr_idempotencyKey t = tr_idempotencyKey r"
  shows "t = r"
  using assms by (auto simp: keys_unique_def distinct_map inj_on_def)

lemma resolveExisting_row:
  assumes "same_request t r"
  shows "resolveExisting t fp = (if tr_requestFingerprint r \<noteq> fp
      then Inl (Conflict ''Idempotency-Key was already used with a different request'')
      else Inr (transfer_toView t))"
  using assms by (simp add: resolveExisting_def same_request_def)

text \<open>Once a row with the key is committed, every creation with the key resolves to it.\<close>

lemma creation_resolves_to_row:
  assumes valid: "valid_create x" and share: "cr_splitBillShareId r = None"
    and row: "t0 \<in> set (pd_transfers (cx_db x))" "tr_senderUserId t0 = pg_uuid (cr_senderUserId r)"
      "tr_idempotencyKey t0 = key"
    and ok: "quote_request r (cx_now x) = Inr q" "cr_amountMinor r \<le> max_safe_integer"
      "length (cr_receiverReference r) \<le> 320" "length key \<le> 200" "length (fingerprint sha r) \<le> 64"
    and fresh: "pg_uuid i \<notin> tr_id ` set (pd_transfers (cx_db x))"
  shows "\<exists>t. same_request t0 t \<and> createCanonical sha x i r key =
    rbind (resolveExisting t (fingerprint sha r)) (\<lambda>v. Inr (cx_db x, v))"
proof -
  note v = valid [unfolded valid_create_def]
  have no_share: "find_share_transfer d r = None" for d by (simp add: find_share_transfer_def share truthy_def)
  show ?thesis
  proof (cases "find_by_key (cx_existing x) (cr_senderUserId r) key")
    case (Some e)
    note e = find_by_key_Some [OF Some]
    then obtain e' where e': "e' \<in> set (pd_transfers (cx_db x))" "same_request e e'"
      using v payments_leD by blast
    with e row have "e' = t0" using v by (intro same_key_same_row [of "cx_db x"]) (auto simp: same_request_def)
    with e'(2) have "same_request t0 e" by (simp add: same_request_def)
    with Some show ?thesis by (auto simp: createCanonical_def no_share)
  next
    case None
    let ?fp = "fingerprint sha r"
    let ?t = "new_transfer i r q key ?fp (cx_now x)"
    have "insert_transfer ?t (cx_db x) = Inl (unique_violation ''UQ_transfers_sender_idempotency'')"
      using new_transfer_fits [OF ok] fresh row
      by (auto simp: insert_transfer_def new_transfer_def)
    moreover obtain t1 where t1: "t1 \<in> set (pd_transfers (cx_later x (cx_db x)))" "same_request t0 t1"
      using v payments_leD row(1) by blast
    moreover obtain w where w: "find_by_key (cx_later x (cx_db x)) (cr_senderUserId r) key = Some w"
      using find_by_key_exists [OF t1(1), of "cr_senderUserId r" key] t1(2) row by (auto simp: same_request_def)
    moreover have "w = t1"
      using find_by_key_Some [OF w] t1 row v
      by (intro same_key_same_row [of "cx_later x (cx_db x)"]) (auto simp: same_request_def)
    ultimately have "createCanonical sha x i r key = rbind (resolveExisting t1 ?fp) (\<lambda>v. Inr (cx_db x, v))"
      by (simp add: createCanonical_def no_share None ok(1) Let_def insert_or_winner_def
          isCreationUniqueViolation_def IDEMPOTENCY_CONSTRAINT_def unique_violation_def share truthy_def)
    with t1(2) show ?thesis by blast
  qed
qed

text \<open>A creation that succeeds leaves a row with its key, its fingerprint and the answered id.\<close>

lemma creation_leaves_row:
  assumes c: "createCanonical sha x i r key = Inr (d, v)" and valid: "valid_create x"
    and share: "cr_splitBillShareId r = None"
  shows "\<exists>t \<in> set (pd_transfers d). tr_id t = tv_id v \<and> tr_senderUserId t = pg_uuid (cr_senderUserId r) \<and>
    tr_idempotencyKey t = key \<and> tr_requestFingerprint t = fingerprint sha r"
proof -
  note va = valid [unfolded valid_create_def]
  have no_share: "find_share_transfer d r = None" for d by (simp add: find_share_transfer_def share truthy_def)
  let ?fp = "fingerprint sha r"
  have resolved: "resolveExisting t ?fp = Inr v \<Longrightarrow> tr_requestFingerprint t = ?fp \<and> tv_id v = tr_id t" for t
    by (auto simp: resolveExisting_def transfer_toView_def split: if_splits)
  show ?thesis
  proof (cases "find_by_key (cx_existing x) (cr_senderUserId r) key")
    case (Some e)
    note e = find_by_key_Some [OF Some]
    then obtain e' where e': "e' \<in> set (pd_transfers (cx_db x))" "same_request e e'"
      using va payments_leD by blast
    have "resolveExisting e ?fp = Inr v" "d = cx_db x" using c Some by (auto simp: createCanonical_def no_share result_simps Let_def)
    with e e' resolved show ?thesis by (force simp: same_request_def)
  next
    case None
    then obtain q where q: "insert_or_winner x (new_transfer i r q key ?fp (cx_now x)) r key ?fp = Inr (d, v)"
      using c by (auto simp: createCanonical_def no_share result_simps Let_def)
    let ?t = "new_transfer i r q key ?fp (cx_now x)"
    show ?thesis
    proof (cases "insert_transfer ?t (cx_db x)")
      case (Inr d1)
      then have "?t \<in> set (pd_transfers d1)" by (auto simp: insert_transfer_ok)
      moreover obtain t' where "find_transfer (cx_later x d1) (tr_id ?t) = Some t'" "v = transfer_toView t'" "d = d1"
        using q Inr by (auto simp: insert_or_winner_def transfer_by_id_def isCreationUniqueViolation_def
            split: sum.splits option.splits if_splits)
      ultimately show ?thesis using find_transfer_Some [of "cx_later x d1" "tr_id ?t" t']
        by (intro bexI [of _ ?t]) (auto simp: new_transfer_def transfer_toView_def)
    next
      case (Inl e)
      then have "isCreationUniqueViolation e" using q by (auto simp: insert_or_winner_def split: if_splits)
      then obtain t where t: "t \<in> set (pd_transfers (cx_db x))" "tr_senderUserId t = pg_uuid (cr_senderUserId r)"
          "tr_idempotencyKey t = key"
        using Inl by (auto simp: insert_transfer_def new_transfer_def isCreationUniqueViolation_def share
            IDEMPOTENCY_CONSTRAINT_def unique_violation_def foreign_key_violation_def transfer_fits_def rbind_def
            text_too_long_def numeric_out_of_range_def check_violation_def split: if_splits sum.splits)
      obtain t' where t': "t' \<in> set (pd_transfers (cx_later x (cx_db x)))" "same_request t t'"
        using va payments_leD t(1) by blast
      obtain w where w: "find_by_key (cx_later x (cx_db x)) (cr_senderUserId r) key = Some w"
          "resolveExisting w ?fp = Inr v" "d = cx_db x"
        using q Inl \<open>isCreationUniqueViolation e\<close>
        by (auto simp: insert_or_winner_def share truthy_def result_simps split: option.splits)
      have "w = t'" using find_by_key_Some [OF w(1)] t t' va
        by (intro same_key_same_row [of "cx_later x (cx_db x)"]) (auto simp: same_request_def)
      with t t' w resolved [OF w(2)] show ?thesis by (force simp: same_request_def)
    qed
  qed
qed

section \<open>Properties\<close>

text \<open>
  C24. A creation is idempotent, also under races: once a creation with an idempotency key has
  succeeded, another request of the same user with that key creates nothing, whether its lookups saw
  the first transfer or not. It answers with the same transfer if the fingerprints of the two
  requests agree, and with a conflict otherwise.
\<close>

theorem creation_is_idempotent:
  assumes c1: "create_transfer sha x1 i1 dto1 h user = Inr (d1, v1)"
    and r1: "canonicalRequest dto1 user None = Inr r1" and r2: "canonicalRequest dto2 user None = Inr r2"
    and "valid_create x1" "valid_create x2" "payments_le d1 (cx_db x2)"
    and "quote_request r2 (cx_now x2) = Inr q" "length (cr_receiverReference r2) \<le> 320"
    and "\<And>s. length (sha s) = 64" "pg_uuid i2 \<notin> tr_id ` set (pd_transfers (cx_db x2))"
  shows "if fingerprint sha r2 = fingerprint sha r1
    then \<exists>v2. create_transfer sha x2 i2 dto2 h user = Inr (cx_db x2, v2) \<and> tv_id v2 = tv_id v1
    else create_transfer sha x2 i2 dto2 h user =
      Inl (Conflict ''Idempotency-Key was already used with a different request'')"
proof -
  obtain key where key: "normalizeIdempotencyKey h = Inr key"
    using c1 by (auto simp: create_transfer_def result_simps)
  have c: "createCanonical sha x1 i1 r1 key = Inr (d1, v1)"
    using c1 r1 by (simp add: create_transfer_def key)
  have u: "cr_senderUserId r1 = user" "cr_senderUserId r2 = user"
    "cr_splitBillShareId r1 = None" "cr_splitBillShareId r2 = None" "cr_amountMinor r2 \<le> max_safe_integer"
    using r1 r2 by (auto simp: canonicalRequest_def result_simps dest: transferAmountToMinorUnits_ok)
  obtain t where t: "t \<in> set (pd_transfers d1)" "tr_id t = tv_id v1" "tr_senderUserId t = pg_uuid user"
      "tr_idempotencyKey t = key" "tr_requestFingerprint t = fingerprint sha r1"
    using creation_leaves_row [OF c assms(4) u(3)] u(1) by auto
  obtain t0 where t0: "t0 \<in> set (pd_transfers (cx_db x2))" "same_request t t0"
    using payments_leD [OF assms(6) t(1)] by blast
  obtain t' where t': "same_request t0 t'" "createCanonical sha x2 i2 r2 key =
      rbind (resolveExisting t' (fingerprint sha r2)) (\<lambda>v. Inr (cx_db x2, v))"
    using creation_resolves_to_row [OF assms(5) u(4) t0(1) _ _ assms(7) u(5) assms(8), of key sha i2]
      t t0(2) u(2) normalizeIdempotencyKey_ok [OF key] assms(9,10)
    by (auto simp: same_request_def fingerprint_def)
  have "create_transfer sha x2 i2 dto2 h user = createCanonical sha x2 i2 r2 key"
    by (simp add: create_transfer_def key r2)
  with t' t t0(2) show ?thesis
    by (auto simp: resolveExisting_def same_request_def transfer_toView_def)
qed

definition ex_dto :: create_transfer_dto where
  "ex_dto = \<lparr>ct_fromWalletId = ''w1'', ct_toWalletIdentifier = ''bob'', ct_amount = JsFin 10,
     ct_currency = ''USD'', ct_targetCurrency = Some ''EUR''\<rparr>"

definition ex_sha :: "string \<Rightarrow> string" where
  "ex_sha s = take 64 (s @ replicate 64 (CHR ''.''))"

definition ex_create_tx :: "payments_db \<Rightarrow> create_tx" where
  "ex_create_tx d = \<lparr>cx_share = empty_payments_db, cx_existing = empty_payments_db, cx_db = d,
     cx_later = (\<lambda>d. d), cx_now = 0\<rparr>"

lemma ex_canonical:
  "canonicalRequest ex_dto ''u1'' None = Inr \<lparr>cr_senderUserId = ''u1'', cr_senderWalletId = ''w1'',
     cr_receiverReference = ''bob'', cr_amountMinor = 1000, cr_currency = ''USD'',
     cr_destinationCurrency = ''EUR'', cr_splitBillShareId = None\<rparr>"
  by code_simp

lemma ex_quote:
  assumes "cr_amountMinor r = 1000" "cr_currency r = ''USD''" "cr_destinationCurrency r = ''EUR''"
  shows "\<exists>q. quote_request r now = Inr q"
proof -
  have "isSupportedCurrency ''USD''" "isSupportedCurrency ''EUR''" by code_simp+
  moreover have "0 < \<lfloor>of_int (1000 * 1000000) / of_int 1087000 + 1 / 2 :: rat\<rfloor>" by simp
  ultimately show ?thesis by (simp add: quote_request_def quoteTransfer_ok assms Let_def MICRO_USD_VALUE_def)
qed

lemma ex_valid_create: "keys_unique d \<Longrightarrow> valid_create (ex_create_tx d)"
  by (simp add: valid_create_def ex_create_tx_def) (simp add: payments_le_def empty_payments_db_def)

lemma ex_key: "normalizeIdempotencyKey (Some '' k1 '') = Inr ''k1''"
  by code_simp

lemma ex_first_creation:
  "\<exists>d v. create_transfer ex_sha (ex_create_tx empty_payments_db) ''t1'' ex_dto (Some '' k1 '') ''u1'' = Inr (d, v) \<and>
     keys_unique d \<and> tr_id ` set (pd_transfers d) = {''t1''}"
proof -
  let ?r = "\<lparr>cr_senderUserId = ''u1'', cr_senderWalletId = ''w1'', cr_receiverReference = ''bob'',
    cr_amountMinor = 1000, cr_currency = ''USD'', cr_destinationCurrency = ''EUR'', cr_splitBillShareId = None\<rparr>"
  let ?x = "ex_create_tx empty_payments_db"
  obtain q where q: "quote_request ?r 0 = Inr q" using ex_quote [of ?r 0] by auto
  let ?t = "new_transfer ''t1'' ?r q ''k1'' (fingerprint ex_sha ?r) 0"
  have fits: "transfer_fits ?t = Inr ()"
    by (rule new_transfer_fits [OF q]) (simp_all add: max_safe_integer_def fingerprint_def ex_sha_def)
  let ?d = "empty_payments_db\<lparr>pd_transfers := [?t]\<rparr>"
  have ins: "insert_transfer ?t empty_payments_db = Inr ?d"
    unfolding insert_transfer_ok using fits by (simp add: empty_payments_db_def new_transfer_def)
  have u: "pg_uuid ''t1'' = ''t1''" by code_simp
  have "find_transfer ?d ''t1'' = Some ?t" by (simp add: find_transfer_def new_transfer_def u)
  then have "createCanonical ex_sha ?x ''t1'' ?r ''k1'' = Inr (?d, transfer_toView ?t)"
    using q ins by (simp add: createCanonical_def Let_def find_share_transfer_def truthy_def find_by_key_def
        ex_create_tx_def empty_payments_db_def insert_or_winner_def transfer_by_id_def new_transfer_def u)
  moreover have "keys_unique ?d" by (simp add: keys_unique_def List.map_filter_def new_transfer_def)
  ultimately show ?thesis using ex_canonical ex_key by (auto simp: create_transfer_def new_transfer_def u)
qed

theorem creation_is_idempotent_witness:
  "\<exists>d v v'. create_transfer ex_sha (ex_create_tx empty_payments_db) ''t1'' ex_dto (Some '' k1 '') ''u1'' = Inr (d, v) \<and>
     create_transfer ex_sha (ex_create_tx d) ''t2'' ex_dto (Some '' k1 '') ''u1'' = Inr (d, v') \<and> tv_id v' = tv_id v"
proof -
  from ex_first_creation obtain d v where
    c: "create_transfer ex_sha (ex_create_tx empty_payments_db) ''t1'' ex_dto (Some '' k1 '') ''u1'' = Inr (d, v)"
      "keys_unique d" "tr_id ` set (pd_transfers d) = {''t1''}"
    by (elim exE conjE) (rule that)
  have x: "cx_db (ex_create_tx d) = d" "cx_now (ex_create_tx d) = 0" by (simp_all add: ex_create_tx_def)
  have "keys_unique empty_payments_db" by (simp add: keys_unique_def empty_payments_db_def List.map_filter_def)
  then have v0: "valid_create (ex_create_tx empty_payments_db)" by (rule ex_valid_create)
  let ?r = "\<lparr>cr_senderUserId = ''u1'', cr_senderWalletId = ''w1'', cr_receiverReference = ''bob'',
    cr_amountMinor = 1000, cr_currency = ''USD'', cr_destinationCurrency = ''EUR'', cr_splitBillShareId = None\<rparr>"
  obtain q where q: "quote_request ?r (cx_now (ex_create_tx d)) = Inr q"
    using ex_quote [of ?r "cx_now (ex_create_tx d)"] by auto
  have "pg_uuid ''t2'' = ''t2''" by code_simp
  then have fresh: "pg_uuid ''t2'' \<notin> tr_id ` set (pd_transfers (cx_db (ex_create_tx d)))" by (simp add: x c(3))
  have le: "payments_le d (cx_db (ex_create_tx d))" by (simp add: x)
  have sha: "length (ex_sha s) = 64" for s by (simp add: ex_sha_def)
  have ref: "length (cr_receiverReference ?r) \<le> 320" by simp
  from creation_is_idempotent [OF c(1) ex_canonical ex_canonical v0 ex_valid_create [OF c(2)] le q ref sha fresh]
  obtain v' where "create_transfer ex_sha (ex_create_tx d) ''t2'' ex_dto (Some '' k1 '') ''u1'' = Inr (d, v')"
    "tv_id v' = tv_id v" by (auto simp: x)
  with c(1) show ?thesis by (intro exI conjI)
qed

text \<open>
  The amount of a request is read exactly: every double nearest to a decimal amount with two
  places of at most 110000.00 is accepted and read as its minor units.
\<close>

theorem amount_read_exactly:
  assumes "0 < k" "k \<le> 11000000" "near_decimal k x"
  shows "transferAmountToMinorUnits (JsFin x) = Inr k"
  by (rule transferAmountToMinorUnits_decimal [OF assms])

theorem amount_read_exactly_witness:
  "transferAmountToMinorUnits (JsFin (5 / 2)) = Inr 250"
  by (rule amount_read_exactly) (simp_all add: near_decimal_def)

end
