(* ===== verification/Transfer_Saga.thy ===== *)
theory Transfer_Saga
  imports Transfers_Service
begin

text \<open>
  \<^verbatim>\<open>transfers/transfer-saga.service.ts\<close> and \<^verbatim>\<open>transfers/transfer-policy.service.ts\<close>: the orchestration
  of one transfer. The code runs in a monad of state and exceptions. The state holds the database, the
  log of what was asked of the ledger and of what it acknowledged, a counter of the statements and
  calls made so far, and the local variable \<^verbatim>\<open>transfer\<close>, which the exception handler reads.

  The world is a record of parameters: the answers of the ledger gateway, the clock, fresh
  identifiers, the configuration, and \<open>sw_env\<close>, what every other request, worker and timer does to
  the database and the log before a statement is executed. A statement or a transaction of the code
  is one atomic step. \<open>sw_rawLength\<close> is the length of the array that TypeORM's \<^verbatim>\<open>query\<close> answers for an
  \<^verbatim>\<open>UPDATE ... RETURNING\<close> of so many rows.
\<close>

section \<open>The world and the state\<close>

record policy_config =
  pc_maxTransferAmount :: jsnum
  pc_blockedReferences :: string

datatype ledger_call =
    HoldRequested string
  | HoldPlaced string
  | SettleRequested string
  | SettleAcked string
  | ReleaseAcked string
  | AlreadySettled string

record saga_world =
  sw_env :: "nat \<Rightarrow> payments_db \<times> ledger_call list \<Rightarrow> payments_db \<times> ledger_call list"
  sw_validate :: "nat \<Rightarrow> transfer \<Rightarrow> (err, string option) res"
  sw_placeHold :: "nat \<Rightarrow> transfer \<Rightarrow> (err, unit) res"
  sw_settle :: "nat \<Rightarrow> transfer \<Rightarrow> (err, unit) res"
  sw_release :: "nat \<Rightarrow> transfer \<Rightarrow> (err, string option) res"
  sw_time :: "nat \<Rightarrow> int"
  sw_uuid :: "nat \<Rightarrow> nat \<Rightarrow> string"
  sw_trace :: trace_context
  sw_policy :: "policy_config option"
  sw_maxAttempts :: int
  sw_retryBase :: int
  sw_leaseMs :: int
  sw_rawLength :: "nat \<Rightarrow> nat"

record saga_state =
  sg_db :: payments_db
  sg_calls :: "ledger_call list"
  sg_clock :: nat
  sg_transfer :: transfer

type_synonym 'a saga = "saga_state \<Rightarrow> (err, 'a) res \<times> saga_state"

named_theorems saga_simps \<open>unfolding of the saga monad\<close>

definition sreturn :: "'a \<Rightarrow> 'a saga" where
  "sreturn x = (\<lambda>s. (Inr x, s))"

definition sthrow :: "err \<Rightarrow> 'a saga" where
  "sthrow e = (\<lambda>s. (Inl e, s))"

definition sbind :: "'a saga \<Rightarrow> ('a \<Rightarrow> 'b saga) \<Rightarrow> 'b saga" where
  "sbind m f = (\<lambda>s. case m s of (r, s') \<Rightarrow> (case r of Inl e \<Rightarrow> (Inl e, s') | Inr x \<Rightarrow> f x s'))"

definition scatch :: "'a saga \<Rightarrow> (err \<Rightarrow> 'a saga) \<Rightarrow> 'a saga" where
  "scatch m h = (\<lambda>s. case m s of (r, s') \<Rightarrow> (case r of Inl e \<Rightarrow> h e s' | Inr x \<Rightarrow> (Inr x, s')))"

definition slift :: "(err, 'a) res \<Rightarrow> 'a saga" where
  "slift r = (\<lambda>s. (r, s))"

definition get_transfer :: "transfer saga" where
  "get_transfer = (\<lambda>s. (Inr (sg_transfer s), s))"

definition set_transfer :: "transfer \<Rightarrow> unit saga" where
  "set_transfer t = (\<lambda>s. (Inr (), s\<lparr>sg_transfer := t\<rparr>))"

text \<open>One atomic statement or transaction; it is given the counter, for the time and fresh ids.\<close>

definition db_stmt :: "saga_world \<Rightarrow> (nat \<Rightarrow> payments_db \<Rightarrow> (err, payments_db \<times> 'a) res) \<Rightarrow> 'a saga" where
  "db_stmt w f = (\<lambda>s.
     let k = sg_clock s;
         (d, calls) = sw_env w k (sg_db s, sg_calls s);
         s1 = s\<lparr>sg_db := d, sg_calls := calls, sg_clock := Suc k\<rparr>
     in case f k d of Inl e \<Rightarrow> (Inl e, s1) | Inr (d', x) \<Rightarrow> (Inr x, s1\<lparr>sg_db := d'\<rparr>))"

text \<open>One call of the ledger: what is logged when it is sent, and when it is answered.\<close>

definition ledger_request ::
  "(nat \<Rightarrow> transfer \<Rightarrow> (err, 'a) res) \<Rightarrow> transfer \<Rightarrow> ledger_call list \<Rightarrow> ('a \<Rightarrow> ledger_call list) \<Rightarrow> 'a saga" where
  "ledger_request answer t sent acked = (\<lambda>s.
     let k = sg_clock s;
         s1 = s\<lparr>sg_calls := sg_calls s @ sent, sg_clock := Suc k\<rparr>
     in case answer k t of
          Inl e \<Rightarrow> (Inl e, s1)
        | Inr x \<Rightarrow> (Inr x, s1\<lparr>sg_calls := sg_calls s1 @ acked x\<rparr>))"

section \<open>The policy\<close>

definition policy_reject :: "string \<Rightarrow> string \<Rightarrow> err" where
  "policy_reject code message = LedgerCommand message Terminal code False"

definition blocked_references :: "string \<Rightarrow> string list" where
  "blocked_references text = filter (\<lambda>v. v \<noteq> []) (map (\<lambda>v. toLowerCase (trim v)) (split_on (CHR '','') text))"

definition policy_validate :: "policy_config \<Rightarrow> transfer \<Rightarrow> int \<Rightarrow> (err, unit) res" where
  "policy_validate p t now =
     (if \<not> isSupportedCurrency (tr_currency t) \<or> \<not> isSupportedCurrency (tr_destinationCurrency t)
      then Inl (policy_reject ''UNSUPPORTED_CURRENCY'' ''Currency is not supported'')
      else let maximum = math_round (js_mul (pc_maxTransferAmount p) (JsFin 100))
           in if \<not> is_integer maximum then Inl (Err ''RangeError'')
              else if bigint_of maximum < tr_amountMinor t
              then Inl (policy_reject ''TRANSFER_LIMIT_EXCEEDED'' ''Transfer amount exceeds the configured limit'')
              else if toLowerCase (tr_receiverReference t) \<in> set (blocked_references (pc_blockedReferences p))
              then Inl (policy_reject ''RECEIVER_BLOCKED'' ''Receiver is blocked by transfer policy'')
              else if tr_fxExpiresAt t \<le> now
              then Inl (policy_reject ''FX_QUOTE_EXPIRED'' ''Persisted FX quote has expired'')
              else Inr ())"

section \<open>Failures\<close>

record ledger_error =
  le_message :: string
  le_kind :: ledger_failure_kind
  le_code :: string
  le_ambiguous :: bool

text \<open>The message of an exception; that of a failed query is its SQLSTATE here.\<close>

fun error_message :: "err \<Rightarrow> string" where
  "error_message (Err m) = m"
| "error_message (TypeErr m) = m"
| "error_message (BadRequest m) = m"
| "error_message (NotFound m) = m"
| "error_message (Conflict m) = m"
| "error_message (Unauthorized m) = m"
| "error_message (Forbidden m) = m"
| "error_message (TooManyRequests m) = m"
| "error_message (ServiceUnavailable m) = m"
| "error_message (HttpError c m) = m"
| "error_message (LedgerCommand m k c a) = m"
| "error_message (QueryFailed c n) = c"
| "error_message (InvalidTransferTransition a b) = ''Invalid transfer transition: '' @ a @ '' -> '' @ b"
| "error_message EntityNotFound = ''Could not find any entity''"
| "error_message (ExpectedStreamVersion i v a) = ''Expected stream version''"
| "error_message (DuplicateEventId i) = ''Duplicate event id''"
| "error_message (StreamAggregateType a b c) = ''Stream aggregate type''"
| "error_message SagaLeaseLost = ''Saga lease was lost''"

definition asLedgerError :: "err \<Rightarrow> ledger_error" where
  "asLedgerError e =
     (case e of
        LedgerCommand m k c a \<Rightarrow> \<lparr>le_message = m, le_kind = k, le_code = c, le_ambiguous = a\<rparr>
      | _ \<Rightarrow> \<lparr>le_message = take 2000 (error_message e), le_kind = Retryable,
              le_code = ''UNEXPECTED_SAGA_ERROR'', le_ambiguous = True\<rparr>)"

section \<open>Guarded updates\<close>

text \<open>
  A patch is a function on the row. TypeORM sets \<^verbatim>\<open>updated_at\<close> in every update of a repository.
\<close>

definition transitionUsingManager ::
  "transfer \<Rightarrow> string \<Rightarrow> transfer_status \<Rightarrow> (transfer \<Rightarrow> transfer) \<Rightarrow> int \<Rightarrow> payments_db \<Rightarrow>
     (err, payments_db \<times> transfer) res" where
  "transitionUsingManager t leaseOwner next_status patch now d =
     rbind (assertTransferTransition (tr_status t) next_status) (\<lambda>_.
     rbind (update_transfers
              (\<lambda>r. tr_id r = tr_id t \<and> tr_status r = tr_status t \<and> tr_version r = tr_version t \<and>
                   tr_leaseOwner r = Some leaseOwner)
              (\<lambda>r. (patch r)\<lparr>tr_status := next_status, tr_version := tr_version r + 1, tr_updatedAt := now\<rparr>) d)
       (\<lambda>(d', affected).
     if affected \<noteq> 1 then Inl SagaLeaseLost
     else rbind (transfer_by_id d' (tr_id t)) (\<lambda>t'. Inr (d', t'))))"

definition transitionClaimed ::
  "saga_world \<Rightarrow> transfer \<Rightarrow> string \<Rightarrow> transfer_status \<Rightarrow> (nat \<Rightarrow> transfer \<Rightarrow> transfer) \<Rightarrow> transfer saga" where
  "transitionClaimed w t leaseOwner next_status patch =
     db_stmt w (\<lambda>k. transitionUsingManager t leaseOwner next_status (patch k) (sw_time w k))"

definition update_claimed_rows ::
  "transfer \<Rightarrow> string \<Rightarrow> (transfer \<Rightarrow> transfer) \<Rightarrow> int \<Rightarrow> payments_db \<Rightarrow> (err, payments_db \<times> unit) res" where
  "update_claimed_rows t leaseOwner patch now d =
     rbind (update_transfers
              (\<lambda>r. tr_id r = tr_id t \<and> tr_version r = tr_version t \<and> tr_leaseOwner r = Some leaseOwner)
              (\<lambda>r. (patch r)\<lparr>tr_version := tr_version r + 1, tr_updatedAt := now\<rparr>) d)
       (\<lambda>(d', affected). if affected \<noteq> 1 then Inl SagaLeaseLost else Inr (d', ()))"

definition read_transfer :: "saga_world \<Rightarrow> string \<Rightarrow> transfer saga" where
  "read_transfer w i = db_stmt w (\<lambda>k d. rbind (transfer_by_id d i) (\<lambda>t. Inr (d, t)))"

definition updateClaimed ::
  "saga_world \<Rightarrow> transfer \<Rightarrow> string \<Rightarrow> (nat \<Rightarrow> transfer \<Rightarrow> transfer) \<Rightarrow> transfer saga" where
  "updateClaimed w t leaseOwner patch =
     sbind (db_stmt w (\<lambda>k. update_claimed_rows t leaseOwner (patch k) (sw_time w k))) (\<lambda>_.
     read_transfer w (tr_id t))"

definition claimable_transfer :: "string \<Rightarrow> int \<Rightarrow> transfer \<Rightarrow> bool" where
  "claimable_transfer i now r = (tr_id r = pg_uuid i \<and> \<not> final_status (tr_status r) \<and>
     (case tr_nextRetryAt r of None \<Rightarrow> True | Some n \<Rightarrow> n \<le> now) \<and>
     (case tr_leaseUntil r of None \<Rightarrow> True | Some u \<Rightarrow> u < now))"

definition claim_rows :: "string \<Rightarrow> string \<Rightarrow> int \<Rightarrow> int \<Rightarrow> payments_db \<Rightarrow> (err, payments_db \<times> nat) res" where
  "claim_rows i leaseOwner leaseUntil now d =
     update_transfers (claimable_transfer i now)
       (\<lambda>r. r\<lparr>tr_leaseOwner := Some leaseOwner, tr_leaseUntil := Some leaseUntil\<rparr>) d"

definition claim_transfer :: "saga_world \<Rightarrow> string \<Rightarrow> string \<Rightarrow> int \<Rightarrow> transfer option saga" where
  "claim_transfer w i leaseOwner now =
     sbind (db_stmt w (\<lambda>k. claim_rows i leaseOwner (now + sw_leaseMs w) now)) (\<lambda>rows.
     if sw_rawLength w rows = 0 then sreturn None
     else sbind (read_transfer w i) (\<lambda>t. sreturn (Some t)))"

section \<open>Outcomes of a step\<close>

definition retry_delay :: "saga_world \<Rightarrow> int \<Rightarrow> int" where
  "retry_delay w retryCount = min (sw_retryBase w * 2 ^ nat (retryCount - 1)) 60000"

definition scheduleRetry :: "saga_world \<Rightarrow> transfer \<Rightarrow> string \<Rightarrow> ledger_error \<Rightarrow> int \<Rightarrow> unit saga" where
  "scheduleRetry w t leaseOwner failure now =
     (let retryCount = tr_retryCount t + 1
      in sbind (updateClaimed w t leaseOwner (\<lambda>k r. r\<lparr>tr_retryCount := retryCount,
                  tr_nextRetryAt := Some (now + retry_delay w retryCount), tr_lastAttemptAt := Some now,
                  tr_failureCode := Some (le_code failure), tr_failureMessage := Some (le_message failure),
                  tr_leaseOwner := None, tr_leaseUntil := None\<rparr>)) (\<lambda>_. sreturn ()))"

definition complete_rows ::
  "saga_world \<Rightarrow> transfer \<Rightarrow> string \<Rightarrow> nat \<Rightarrow> payments_db \<Rightarrow> (err, payments_db \<times> unit) res" where
  "complete_rows w t leaseOwner k d =
     rbind (transitionUsingManager t leaseOwner Completed
              (\<lambda>r. r\<lparr>tr_retryCount := 0, tr_nextRetryAt := None, tr_failureCode := None,
                     tr_failureMessage := None, tr_leaseOwner := None, tr_leaseUntil := None,
                     tr_lastAttemptAt := Some (sw_time w k)\<rparr>) (sw_time w k) d) (\<lambda>(d1, completed).
     rbind (enqueueTransferCompleted completed (sw_uuid w k 0) (sw_trace w) (sw_time w k) d1) (\<lambda>d2.
     rbind (enqueueSplitSharePaid completed (sw_uuid w k 1) (sw_uuid w k 2) (sw_trace w) (sw_time w k) d2) (\<lambda>d3.
     Inr (d3, ()))))"

definition complete :: "saga_world \<Rightarrow> transfer \<Rightarrow> string \<Rightarrow> unit saga" where
  "complete w t leaseOwner = db_stmt w (complete_rows w t leaseOwner)"

definition fail_transfer :: "saga_world \<Rightarrow> transfer \<Rightarrow> string \<Rightarrow> ledger_error option \<Rightarrow> unit saga" where
  "fail_transfer w t leaseOwner failure =
     sbind (transitionClaimed w t leaseOwner Failed (\<lambda>k r. r\<lparr>tr_nextRetryAt := None,
              tr_failureCode := (case failure of Some f \<Rightarrow> Some (le_code f) | None \<Rightarrow> tr_failureCode t),
              tr_failureMessage := (case failure of Some f \<Rightarrow> Some (le_message f) | None \<Rightarrow> tr_failureMessage t),
              tr_leaseOwner := None, tr_leaseUntil := None, tr_lastAttemptAt := Some (sw_time w k)\<rparr>))
       (\<lambda>_. sreturn ())"

text \<open>\<^verbatim>\<open>'stop'\<close> is \<^const>\<open>None\<close>.\<close>

definition handleFailure :: "saga_world \<Rightarrow> transfer \<Rightarrow> string \<Rightarrow> err \<Rightarrow> int \<Rightarrow> transfer option saga" where
  "handleFailure w t leaseOwner error now =
     (let failure = asLedgerError error
      in if tr_status t = Compensating
         then sbind (scheduleRetry w t leaseOwner failure now) (\<lambda>_. sreturn None)
         else if le_kind failure = Retryable \<and> tr_retryCount t + 1 < sw_maxAttempts w
         then sbind (scheduleRetry w t leaseOwner failure now) (\<lambda>_. sreturn None)
         else if tr_holdMayExist t
         then sbind (transitionClaimed w t leaseOwner Compensating (\<lambda>k r. r\<lparr>tr_retryCount := 0,
                  tr_nextRetryAt := None, tr_failureCode := Some (le_code failure),
                  tr_failureMessage := Some (le_message failure)\<rparr>)) (\<lambda>t'. sreturn (Some t'))
         else sbind (fail_transfer w t leaseOwner (Some failure)) (\<lambda>_. sreturn None))"

section \<open>The steps\<close>

text \<open>A step answers whether the loop goes on.\<close>

definition advance :: "saga_world \<Rightarrow> string \<Rightarrow> transfer_status \<Rightarrow> (nat \<Rightarrow> transfer \<Rightarrow> transfer) \<Rightarrow> bool saga" where
  "advance w leaseOwner next_status patch =
     sbind get_transfer (\<lambda>t.
     sbind (transitionClaimed w t leaseOwner next_status patch) (\<lambda>t'.
     sbind (set_transfer t') (\<lambda>_. sreturn True)))"

definition resolve_receiver :: "saga_world \<Rightarrow> string \<Rightarrow> unit saga" where
  "resolve_receiver w leaseOwner =
     sbind get_transfer (\<lambda>t.
     if truthy (tr_receiverWalletId t) = None
     then sbind (ledger_request (sw_validate w) t [] (\<lambda>_. [])) (\<lambda>receiverWalletId.
          sbind (updateClaimed w t leaseOwner (\<lambda>k r. r\<lparr>
                   tr_receiverWalletId := (case receiverWalletId of None \<Rightarrow> tr_receiverWalletId r
                                           | Some i \<Rightarrow> Some (pg_uuid i)),
                   tr_retryCount := 0, tr_nextRetryAt := None, tr_failureCode := None,
                   tr_failureMessage := None\<rparr>)) set_transfer)
     else sreturn ())"

definition record_hold_intent :: "saga_world \<Rightarrow> string \<Rightarrow> unit saga" where
  "record_hold_intent w leaseOwner =
     sbind get_transfer (\<lambda>t.
     if \<not> tr_holdMayExist t
     then sbind (updateClaimed w t leaseOwner (\<lambda>k r. r\<lparr>tr_holdMayExist := True,
                   tr_lastAttemptAt := Some (sw_time w k)\<rparr>)) set_transfer
     else sreturn ())"

definition step_validating :: "saga_world \<Rightarrow> string \<Rightarrow> int \<Rightarrow> bool saga" where
  "step_validating w leaseOwner now =
     sbind get_transfer (\<lambda>current.
     sbind (case sw_policy w of None \<Rightarrow> sreturn () | Some p \<Rightarrow> slift (policy_validate p current now)) (\<lambda>_.
     sbind (resolve_receiver w leaseOwner) (\<lambda>_.
     sbind (record_hold_intent w leaseOwner) (\<lambda>_.
     sbind get_transfer (\<lambda>holding.
     sbind (ledger_request (sw_placeHold w) holding [HoldRequested (tr_id holding)]
              (\<lambda>_. [HoldPlaced (tr_id holding)])) (\<lambda>_.
     advance w leaseOwner FundsHeld (\<lambda>k r. r\<lparr>tr_retryCount := 0, tr_nextRetryAt := None,
       tr_lastAttemptAt := Some (sw_time w k)\<rparr>)))))))"

definition step_processing :: "saga_world \<Rightarrow> string \<Rightarrow> bool saga" where
  "step_processing w leaseOwner =
     sbind get_transfer (\<lambda>t.
     sbind (ledger_request (sw_settle w) t [SettleRequested (tr_id t)] (\<lambda>_. [SettleAcked (tr_id t)])) (\<lambda>_.
     sbind (complete w t leaseOwner) (\<lambda>_. sreturn False)))"

definition step_compensating :: "saga_world \<Rightarrow> string \<Rightarrow> bool saga" where
  "step_compensating w leaseOwner =
     sbind get_transfer (\<lambda>t.
     sbind (ledger_request (sw_release w) t [] (\<lambda>outcome.
              if outcome = Some ''already_settled'' then [AlreadySettled (tr_id t)] else [ReleaseAcked (tr_id t)]))
       (\<lambda>outcome.
     if outcome = Some ''already_settled''
     then sbind (complete w t leaseOwner) (\<lambda>_. sreturn False)
     else sbind (fail_transfer w t leaseOwner None) (\<lambda>_. sreturn False)))"

definition saga_step :: "saga_world \<Rightarrow> string \<Rightarrow> int \<Rightarrow> bool saga" where
  "saga_step w leaseOwner now =
     sbind get_transfer (\<lambda>t. case tr_status t of
       Pending \<Rightarrow> advance w leaseOwner Validating (\<lambda>k r. r\<lparr>tr_retryCount := 0, tr_nextRetryAt := None\<rparr>)
     | Validating \<Rightarrow> step_validating w leaseOwner now
     | FundsHeld \<Rightarrow> advance w leaseOwner Processing (\<lambda>k r. r\<lparr>tr_retryCount := 0, tr_nextRetryAt := None\<rparr>)
     | Processing \<Rightarrow> step_processing w leaseOwner
     | Compensating \<Rightarrow> step_compensating w leaseOwner
     | _ \<Rightarrow> sreturn True)"

definition recover_step :: "saga_world \<Rightarrow> string \<Rightarrow> int \<Rightarrow> err \<Rightarrow> bool saga" where
  "recover_step w leaseOwner now error =
     (if error = SagaLeaseLost then sreturn False
      else sbind get_transfer (\<lambda>t.
           sbind (handleFailure w t leaseOwner error now) (\<lambda>outcome.
           case outcome of None \<Rightarrow> sreturn False
           | Some t' \<Rightarrow> sbind (set_transfer t') (\<lambda>_. sreturn True))))"

definition budget_exhausted :: ledger_error where
  "budget_exhausted = \<lparr>le_message = ''Saga step budget exhausted'', le_kind = Retryable,
     le_code = ''SAGA_STEP_BUDGET_EXHAUSTED'', le_ambiguous = True\<rparr>"

fun run_loop :: "saga_world \<Rightarrow> string \<Rightarrow> int \<Rightarrow> nat \<Rightarrow> unit saga" where
  "run_loop w leaseOwner now 0 =
     sbind get_transfer (\<lambda>t. scheduleRetry w t leaseOwner budget_exhausted now)"
| "run_loop w leaseOwner now (Suc n) =
     sbind get_transfer (\<lambda>t.
     if tr_status t \<in> set TERMINAL_STATUSES then sreturn ()
     else sbind (scatch (saga_step w leaseOwner now) (recover_step w leaseOwner now)) (\<lambda>goes_on.
          if goes_on then run_loop w leaseOwner now n else sreturn ()))"

definition run_saga :: "saga_world \<Rightarrow> string \<Rightarrow> string \<Rightarrow> int \<Rightarrow> unit saga" where
  "run_saga w transferId leaseOwner now =
     sbind (claim_transfer w transferId leaseOwner now) (\<lambda>claimed.
     case claimed of
       None \<Rightarrow> sreturn ()
     | Some t \<Rightarrow> sbind (set_transfer t) (\<lambda>_. run_loop w leaseOwner now 8))"

section \<open>Recovery\<close>

definition recoverable :: "int \<Rightarrow> transfer \<Rightarrow> bool" where
  "recoverable now r = (\<not> final_status (tr_status r) \<and>
     (case tr_nextRetryAt r of None \<Rightarrow> True | Some n \<Rightarrow> n \<le> now) \<and>
     (case tr_leaseUntil r of None \<Rightarrow> True | Some u \<Rightarrow> u < now))"

text \<open>\<^verbatim>\<open>ORDER BY COALESCE(next_retry_at, created_at), created_at\<close>: the second key first, both stable.\<close>

definition due_transfers :: "int \<Rightarrow> nat \<Rightarrow> payments_db \<Rightarrow> string list" where
  "due_transfers now limit d = map tr_id (take limit
     (sort_key (\<lambda>r. case tr_nextRetryAt r of None \<Rightarrow> tr_createdAt r | Some n \<Rightarrow> n)
       (sort_key tr_createdAt (filter (recoverable now) (pd_transfers d)))))"

fun run_each :: "saga_world \<Rightarrow> (string \<Rightarrow> string) \<Rightarrow> int \<Rightarrow> string list \<Rightarrow> unit saga" where
  "run_each w owner now [] = sreturn ()"
| "run_each w owner now (i # is') = sbind (run_saga w i (owner i) now) (\<lambda>_. run_each w owner now is')"

definition recoverDue :: "saga_world \<Rightarrow> (string \<Rightarrow> string) \<Rightarrow> int \<Rightarrow> nat \<Rightarrow> nat saga" where
  "recoverDue w owner now limit =
     sbind (db_stmt w (\<lambda>k d. Inr (d, due_transfers now limit d))) (\<lambda>ids.
     sbind (run_each w owner now ids) (\<lambda>_. sreturn (length ids)))"

end
