(* ===== verification/Saga_Invariant.thy ===== *)
theory Saga_Invariant
  imports Transfer_Saga
begin

text \<open>
  The invariant of the payments database and of the log of ledger calls, how rows may develop, and
  that the saga keeps both against every interference that does so too. Assertions are proved in
  triples: a precondition, a computation, and a postcondition on its result; every triple also says
  that the invariant is kept, that rows and the log only develop, and that the local variable only
  moves to a later version of its row.
\<close>

section \<open>Development of rows\<close>

definition status_le :: "transfer_status \<Rightarrow> transfer_status \<Rightarrow> bool" where
  "status_le = (\<lambda>s t. t \<in> set (ALLOWED_TRANSITIONS s))\<^sup>*\<^sup>*"

definition same_but_lease :: "transfer \<Rightarrow> transfer \<Rightarrow> bool" where
  "same_but_lease r r' = (r'\<lparr>tr_leaseOwner := None, tr_leaseUntil := None\<rparr> =
     r\<lparr>tr_leaseOwner := None, tr_leaseUntil := None\<rparr>)"

definition row_le :: "transfer \<Rightarrow> transfer \<Rightarrow> bool" where
  "row_le r r' = (same_request r r' \<and> status_le (tr_status r) (tr_status r') \<and>
     (tr_holdMayExist r \<longrightarrow> tr_holdMayExist r') \<and> (tr_version r < tr_version r' \<or> same_but_lease r r'))"

definition db_le :: "payments_db \<Rightarrow> payments_db \<Rightarrow> bool" where
  "db_le d d' = (\<forall>r \<in> set (pd_transfers d). \<exists>r' \<in> set (pd_transfers d'). row_le r r')"

lemma status_le_refl [simp]: "status_le s s"
  by (simp add: status_le_def)

lemma status_le_step: "t \<in> set (ALLOWED_TRANSITIONS s) \<Longrightarrow> status_le s t"
  by (auto simp: status_le_def)

lemma status_le_trans [trans]: "status_le r s \<Longrightarrow> status_le s t \<Longrightarrow> status_le r t"
  by (simp add: status_le_def)

lemma status_le_rank: "status_le s t \<Longrightarrow> status_rank t \<le> status_rank s"
  unfolding status_le_def
  by (induction rule: rtranclp_induct) (auto dest: transition_lowers_rank)

lemma status_le_final:
  assumes "status_le s t" "final_status s"
  shows "t = s"
  using assms unfolding status_le_def
  by (induction rule: converse_rtranclp_induct) (auto simp: final_status_iff)

lemma same_but_lease_refl [simp]: "same_but_lease r r"
  by (simp add: same_but_lease_def)

lemma same_but_leaseD:
  assumes "same_but_lease r r'"
  shows "tr_id r' = tr_id r" "tr_senderUserId r' = tr_senderUserId r" "tr_status r' = tr_status r"
    "tr_holdMayExist r' = tr_holdMayExist r" "tr_version r' = tr_version r"
    "tr_receiverWalletId r' = tr_receiverWalletId r" "tr_splitBillShareId r' = tr_splitBillShareId r"
    "tr_idempotencyKey r' = tr_idempotencyKey r" "tr_requestFingerprint r' = tr_requestFingerprint r"
    "tr_retryCount r' = tr_retryCount r" "tr_amountMinor r' = tr_amountMinor r"
    "tr_senderWalletId r' = tr_senderWalletId r" "tr_receiverReference r' = tr_receiverReference r"
    "tr_currency r' = tr_currency r" "tr_destinationAmountMinor r' = tr_destinationAmountMinor r"
    "tr_destinationCurrency r' = tr_destinationCurrency r"
  using assms by (cases r, cases r', simp add: same_but_lease_def)+

lemma same_but_lease_trans: "same_but_lease r s \<Longrightarrow> same_but_lease s t \<Longrightarrow> same_but_lease r t"
  by (simp add: same_but_lease_def)

lemma same_request_trans: "same_request r s \<Longrightarrow> same_request s t \<Longrightarrow> same_request r t"
  by (simp add: same_request_def)

lemma row_le_refl [simp]: "row_le r r"
  by (simp add: row_le_def)

lemma row_le_version: "row_le r r' \<Longrightarrow> tr_version r \<le> tr_version r'"
  by (auto simp: row_le_def dest: same_but_leaseD)

lemma row_le_trans [trans]:
  assumes "row_le r s" "row_le s t"
  shows "row_le r t"
proof -
  have "tr_version r < tr_version t \<or> same_but_lease r t"
    using assms row_le_version [OF assms(1)] row_le_version [OF assms(2)]
    unfolding row_le_def by (auto dest: same_but_leaseD(5) intro: same_but_lease_trans)
  with assms show ?thesis unfolding row_le_def by (blast intro: same_request_trans status_le_trans)
qed

lemma row_le_id: "row_le r r' \<Longrightarrow> tr_id r' = tr_id r"
  by (simp add: row_le_def same_request_def)

lemma row_le_same_version: "row_le r r' \<Longrightarrow> tr_version r' = tr_version r \<Longrightarrow> same_but_lease r r'"
  by (simp add: row_le_def)

lemma row_le_final: "row_le r r' \<Longrightarrow> final_status (tr_status r) \<Longrightarrow> tr_status r' = tr_status r"
  by (auto simp: row_le_def dest: status_le_final)

lemma db_le_refl [simp]: "db_le d d"
  unfolding db_le_def using row_le_refl by blast

lemma db_le_trans [trans]: "db_le d e \<Longrightarrow> db_le e f \<Longrightarrow> db_le d f"
  unfolding db_le_def by (meson row_le_trans)

lemma db_le_payments_le: "db_le d d' \<Longrightarrow> payments_le d d'"
  unfolding db_le_def payments_le_def list_all_iff list_ex_iff row_le_def by blast

section \<open>The invariant\<close>

text \<open>What a version of a row says for good about the ledger.\<close>

definition row_history :: "ledger_call list \<Rightarrow> transfer \<Rightarrow> bool" where
  "row_history c r =
     ((tr_status r \<in> {FundsHeld, Processing} \<longrightarrow> tr_holdMayExist r \<and> HoldPlaced (tr_id r) \<in> set c) \<and>
      (tr_status r = Compensating \<longrightarrow> tr_holdMayExist r) \<and>
      (tr_status r = Completed \<longrightarrow> SettleAcked (tr_id r) \<in> set c \<or> AlreadySettled (tr_id r) \<in> set c) \<and>
      (tr_status r = Failed \<and> tr_holdMayExist r \<longrightarrow> ReleaseAcked (tr_id r) \<in> set c))"

fun call_transfer :: "ledger_call \<Rightarrow> string" where
  "call_transfer (HoldRequested i) = i"
| "call_transfer (HoldPlaced i) = i"
| "call_transfer (SettleRequested i) = i"
| "call_transfer (SettleAcked i) = i"
| "call_transfer (ReleaseAcked i) = i"
| "call_transfer (AlreadySettled i) = i"

text \<open>The transfer that a message announces as completed.\<close>

definition completion_id :: "outbox_message \<Rightarrow> string option" where
  "completion_id m =
     (if ob_routingKey m = ''payments.transfer.completed.v1''
      then (case jget ''aggregate'' (ob_event m) of None \<Rightarrow> None | Some a \<Rightarrow> jstring (jget ''id'' a))
      else None)"

definition completed_ids :: "payments_db \<Rightarrow> string list" where
  "completed_ids d = List.map_filter completion_id (pd_outbox d)"

text \<open>Bills and shares: the shares of a bill cover its total, and a transfer that pays a share pays its amount.\<close>

definition bills_inv :: "payments_db \<Rightarrow> bool" where
  "bills_inv d =
     (distinct (map sb_id (pd_bills d)) \<and> distinct (map ss_id (pd_shares d)) \<and>
      (\<forall>s \<in> set (pd_shares d). canonical (ss_id s) \<and> ss_billId s \<in> sb_id ` set (pd_bills d)) \<and>
      (\<forall>b \<in> set (pd_bills d). sum_list (map ss_amountMinor (shares_of_bill d (sb_id b))) = sb_totalMinor b) \<and>
      (\<forall>t \<in> set (pd_transfers d). \<forall>i. tr_splitBillShareId t = Some i \<longrightarrow>
         (\<exists>s \<in> set (pd_shares d). ss_id s = i \<and> ss_amountMinor s = tr_amountMinor t)))"

lemma bills_inv_cong:
  assumes "bills_inv d" "pd_bills d' = pd_bills d" "pd_shares d' = pd_shares d"
    and "\<And>t'. t' \<in> set (pd_transfers d') \<Longrightarrow> \<exists>t \<in> set (pd_transfers d).
      tr_splitBillShareId t' = tr_splitBillShareId t \<and> tr_amountMinor t' = tr_amountMinor t"
  shows "bills_inv d'"
  using assms(1) unfolding bills_inv_def shares_of_bill_def assms(2,3) by (metis assms(4))

definition saga_inv :: "payments_db \<Rightarrow> ledger_call list \<Rightarrow> bool" where
  "saga_inv d c =
     (keys_unique d \<and> (\<forall>x \<in> set c. call_transfer x \<in> tr_id ` set (pd_transfers d)) \<and>
      (\<forall>r \<in> set (pd_transfers d). row_history c r \<and>
         (final_status (tr_status r) \<longrightarrow> tr_leaseOwner r = None) \<and>
         (HoldRequested (tr_id r) \<in> set c \<longrightarrow> tr_holdMayExist r) \<and>
         (SettleRequested (tr_id r) \<in> set c \<longrightarrow> HoldPlaced (tr_id r) \<in> set c)) \<and>
      distinct (completed_ids d) \<and>
      set (completed_ids d) = {tr_id r | r. r \<in> set (pd_transfers d) \<and> tr_status r = Completed} \<and>
      bills_inv d)"

definition good_world :: "saga_world \<Rightarrow> bool" where
  "good_world w = (\<forall>k d c d' c'. saga_inv d c \<and> sw_env w k (d, c) = (d', c') \<longrightarrow>
     saga_inv d' c' \<and> db_le d d' \<and> set c \<subseteq> set c')"

lemma row_history_mono: "row_history c r \<Longrightarrow> set c \<subseteq> set c' \<Longrightarrow> row_history c' r"
  by (auto simp: row_history_def)

lemma row_history_lease: "same_but_lease r r' \<Longrightarrow> row_history c r' = row_history c r"
  by (simp add: row_history_def same_but_leaseD)

lemma saga_inv_keys: "saga_inv d c \<Longrightarrow> keys_unique d"
  by (simp add: saga_inv_def)

lemma saga_inv_bills: "saga_inv d c \<Longrightarrow> bills_inv d"
  by (simp add: saga_inv_def)

lemma row_le_request: "row_le r r' \<Longrightarrow> same_request r r'"
  by (simp add: row_le_def)

section \<open>Replacing one row\<close>

definition replace_row :: "transfer \<Rightarrow> payments_db \<Rightarrow> payments_db" where
  "replace_row r' d = d\<lparr>pd_transfers := map (\<lambda>x. if tr_id x = tr_id r' then r' else x) (pd_transfers d)\<rparr>"

lemma same_id_same_row:
  assumes "keys_unique d" "r \<in> set (pd_transfers d)" "x \<in> set (pd_transfers d)" "tr_id x = tr_id r"
  shows "x = r"
  using assms by (auto simp: keys_unique_def distinct_map inj_on_def)

lemma find_transfer_own:
  assumes "keys_unique d" "r \<in> set (pd_transfers d)"
  shows "find_transfer d (tr_id r) = Some r"
proof -
  have "pg_uuid (tr_id r) = tr_id r"
    using assms by (simp add: keys_unique_def list_all_iff canonical_def)
  with assms show ?thesis by (simp add: find_transfer_iff keys_unique_def)
qed

lemma keys_unique_cong:
  assumes "map (\<lambda>t. (tr_id t, (tr_senderUserId t, tr_idempotencyKey t), tr_splitBillShareId t)) (pd_transfers d') =
    map (\<lambda>t. (tr_id t, (tr_senderUserId t, tr_idempotencyKey t), tr_splitBillShareId t)) (pd_transfers d)"
  shows "keys_unique d' = keys_unique d"
proof -
  let ?k = "\<lambda>t. (tr_id t, (tr_senderUserId t, tr_idempotencyKey t), tr_splitBillShareId t)"
  have proj: "map tr_id xs = map fst (map ?k xs)"
    "map (\<lambda>t. (tr_senderUserId t, tr_idempotencyKey t)) xs = map (fst \<circ> snd) (map ?k xs)"
    "List.map_filter tr_splitBillShareId xs = List.map_filter (snd \<circ> snd) (map ?k xs)"
    "list_all (\<lambda>t. canonical (tr_id t)) xs = list_all (canonical \<circ> fst) (map ?k xs)" for xs
    by (simp_all add: List.map_filter_def filter_map o_def list_all_iff)
  show ?thesis unfolding keys_unique_def proj assms ..
qed

lemma replace_row_keys:
  assumes "keys_unique d" "r \<in> set (pd_transfers d)" "same_request r r'"
  shows "keys_unique (replace_row r' d)"
proof -
  let ?f = "\<lambda>x. if tr_id x = tr_id r' then r' else x"
  have "same_request x (?f x)" if "x \<in> set (pd_transfers d)" for x
    using assms that same_id_same_row [of d r x] by (auto simp: same_request_def)
  then have "keys_unique (replace_row r' d) = keys_unique d"
    by (intro keys_unique_cong) (auto simp: replace_row_def same_request_def)
  with assms(1) show ?thesis by simp
qed

lemma replace_row_mem:
  assumes "keys_unique d" "r \<in> set (pd_transfers d)" "tr_id r' = tr_id r"
  shows "set (pd_transfers (replace_row r' d)) = insert r' (set (pd_transfers d) - {r})"
  using assms same_id_same_row [of d r] by (auto simp: replace_row_def image_iff)

lemma replace_row_db_le:
  assumes "keys_unique d" "r \<in> set (pd_transfers d)" "row_le r r'"
  shows "db_le d (replace_row r' d)"
proof -
  have m: "set (pd_transfers (replace_row r' d)) = insert r' (set (pd_transfers d) - {r})"
    using assms row_le_id by (intro replace_row_mem)
  show ?thesis unfolding db_le_def
  proof
    fix x assume x: "x \<in> set (pd_transfers d)"
    show "\<exists>y \<in> set (pd_transfers (replace_row r' d)). row_le x y"
      using x m assms(3) row_le_refl by (cases "x = r") blast+
  qed
qed

lemma replace_row_bills:
  assumes "bills_inv d" "keys_unique d" "r \<in> set (pd_transfers d)" "same_request r r'"
  shows "bills_inv (replace_row r' d)"
proof (rule bills_inv_cong [OF assms(1)])
  fix x assume "x \<in> set (pd_transfers (replace_row r' d))"
  then have "x = r' \<or> x \<in> set (pd_transfers d)"
    using replace_row_mem [OF assms(2,3)] assms(4) by (auto simp: same_request_def)
  then show "\<exists>t \<in> set (pd_transfers d). tr_splitBillShareId x = tr_splitBillShareId t \<and> tr_amountMinor x = tr_amountMinor t"
    using assms(3,4) by (auto simp: same_request_def)
qed (simp_all add: replace_row_def)

lemma replace_row_inv:
  assumes inv: "saga_inv d c" and r: "r \<in> set (pd_transfers d)" "row_le r r'"
    and new: "row_history c r'" "(tr_status r = Completed) = (tr_status r' = Completed)"
      "final_status (tr_status r') \<Longrightarrow> tr_leaseOwner r' = None"
  shows "saga_inv (replace_row r' d) c"
proof -
  have id: "tr_id r' = tr_id r" using r(2) by (rule row_le_id)
  note k = saga_inv_keys [OF inv]
  note m = replace_row_mem [OF k r(1) id]
  have ids: "tr_id ` set (pd_transfers (replace_row r' d)) = tr_id ` set (pd_transfers d)"
    using m r(1) id by auto
  have o: "completed_ids (replace_row r' d) = completed_ids d"
    by (simp add: completed_ids_def replace_row_def)
  have hold: "tr_holdMayExist r \<Longrightarrow> tr_holdMayExist r'" using r(2) by (simp add: row_le_def)
  have "{tr_id x | x. x \<in> set (pd_transfers (replace_row r' d)) \<and> tr_status x = Completed} =
      {tr_id x | x. x \<in> set (pd_transfers d) \<and> tr_status x = Completed}"
    using m new(2) r(1) id by auto metis+
  moreover have "keys_unique (replace_row r' d)"
    using r(2) by (intro replace_row_keys [OF k r(1)]) (simp add: row_le_def)
  moreover have "bills_inv (replace_row r' d)"
    using replace_row_bills [OF saga_inv_bills [OF inv] k r(1) row_le_request [OF r(2)]] .
  ultimately show ?thesis
    using inv m ids o new(1,3) hold id r(1) unfolding saga_inv_def by auto
qed

section \<open>Compare and swap\<close>

lemma cas_update:
  assumes keys: "keys_unique d" and t: "r0 \<in> set (pd_transfers d)" "row_le t r0"
    and u: "update_transfers (\<lambda>r. tr_id r = tr_id t \<and> P r) patch d = Inr (d', n)" "n = 1"
    and P: "\<And>r. P r \<Longrightarrow> tr_version r = tr_version t" and patch: "\<And>r. tr_id (patch r) = tr_id r"
  shows "same_but_lease t r0" "P r0" "d' = replace_row (patch r0) d" "transfer_fits (patch r0) = Inr ()"
proof -
  have one: "filter (\<lambda>r. tr_id r = tr_id t \<and> P r) (pd_transfers d) \<noteq> []"
    using update_transfers_ok(2) [OF u(1)] u(2) by auto
  then obtain r where r: "r \<in> set (pd_transfers d)" "tr_id r = tr_id t" "P r"
    by (auto simp: filter_empty_conv)
  have "r = r0" using r t keys row_le_id [OF t(2)] by (intro same_id_same_row) auto
  with r P [OF r(3)] show "same_but_lease t r0" "P r0" using row_le_same_version [OF t(2)] by auto
  have id: "tr_id r0 = tr_id t" using row_le_id [OF t(2)] .
  have "(if tr_id x = tr_id t \<and> P x then patch x else x) = (if tr_id x = tr_id (patch r0) then patch r0 else x)"
    if "x \<in> set (pd_transfers d)" for x
    using that same_id_same_row [OF keys t(1) that] \<open>P r0\<close> patch id by auto
  then show "d' = replace_row (patch r0) d"
    using update_transfers_ok(1) [OF u(1)] by (simp add: replace_row_def cong: map_cong)
  show "transfer_fits (patch r0) = Inr ()"
    using update_transfers_ok(3) [OF u(1) t(1)] id \<open>P r0\<close> by simp
qed

text \<open>The row after a guarded transition.\<close>

definition moved :: "transfer \<Rightarrow> transfer_status \<Rightarrow> int \<Rightarrow> transfer \<Rightarrow> transfer" where
  "moved r next_status now patched = patched\<lparr>tr_status := next_status, tr_version := tr_version r + 1, tr_updatedAt := now\<rparr>"

definition keeps_identity :: "(transfer \<Rightarrow> transfer) \<Rightarrow> bool" where
  "keeps_identity patch = (\<forall>r. same_request r (patch r) \<and> (tr_holdMayExist r \<longrightarrow> tr_holdMayExist (patch r)) \<and>
     tr_status (patch r) = tr_status r)"

lemma transitionUsingManager_ok:
  assumes inv: "keys_unique d" and t: "r0 \<in> set (pd_transfers d)" "row_le t r0"
    and patch: "keeps_identity patch"
    and run: "transitionUsingManager t owner nxt patch now d = Inr (d', t')"
  shows "nxt \<in> set (ALLOWED_TRANSITIONS (tr_status t))" "same_but_lease t r0" "tr_leaseOwner r0 = Some owner"
    "t' = moved r0 nxt now (patch r0)" "d' = replace_row t' d" "row_le r0 t'"
proof -
  let ?P = "\<lambda>r. tr_status r = tr_status t \<and> tr_version r = tr_version t \<and> tr_leaseOwner r = Some owner"
  obtain n where n: "nxt \<in> set (ALLOWED_TRANSITIONS (tr_status t))"
      "update_transfers (\<lambda>r. tr_id r = tr_id t \<and> ?P r) (\<lambda>r. moved r nxt now (patch r)) d = Inr (d', n)" "n = 1"
      "transfer_by_id d' (tr_id t) = Inr t'"
    using run by (auto simp: transitionUsingManager_def result_simps moved_def split: if_splits)
  have mid: "tr_id (moved r nxt now (patch r)) = tr_id r" for r
    using patch by (simp add: moved_def keeps_identity_def same_request_def)
  note c = cas_update [OF inv t n(2,3) _ mid]
  have cas: "same_but_lease t r0" "?P r0" "d' = replace_row (moved r0 nxt now (patch r0)) d"
    using c by auto
  show n1: "nxt \<in> set (ALLOWED_TRANSITIONS (tr_status t))" by (rule n(1))
  show "same_but_lease t r0" "tr_leaseOwner r0 = Some owner" using cas by auto
  have sr: "same_request r0 (moved r0 nxt now (patch r0))"
    using patch by (simp add: moved_def keeps_identity_def same_request_def)
  have le: "row_le r0 (moved r0 nxt now (patch r0))"
    using patch n1 cas(2) sr by (simp add: row_le_def keeps_identity_def moved_def status_le_step)
  have "moved r0 nxt now (patch r0) \<in> set (pd_transfers d')"
    using cas(3) replace_row_mem [OF inv t(1) mid] by simp
  moreover have "keys_unique d'" using cas(3) replace_row_keys [OF inv t(1) sr] by simp
  ultimately have "find_transfer d' (tr_id r0) = Some (moved r0 nxt now (patch r0))"
    using find_transfer_own mid by metis
  with n(4) row_le_id [OF t(2)] show "t' = moved r0 nxt now (patch r0)" by (simp add: transfer_by_id_ok)
  with cas(3) le show "d' = replace_row t' d" "row_le r0 t'" by simp_all
qed

section \<open>Triples\<close>

text \<open>A version of a row that the worker has read and that the log still bears out.\<close>

definition known :: "transfer \<Rightarrow> payments_db \<Rightarrow> ledger_call list \<Rightarrow> bool" where
  "known t d c = ((\<exists>r \<in> set (pd_transfers d). row_le t r) \<and> row_history c t)"

definition state_inv :: "saga_state \<Rightarrow> bool" where
  "state_inv s = (saga_inv (sg_db s) (sg_calls s) \<and> known (sg_transfer s) (sg_db s) (sg_calls s))"

definition world_le :: "saga_state \<Rightarrow> saga_state \<Rightarrow> bool" where
  "world_le s s' = (db_le (sg_db s) (sg_db s') \<and> set (sg_calls s) \<subseteq> set (sg_calls s'))"

definition state_le :: "saga_state \<Rightarrow> saga_state \<Rightarrow> bool" where
  "state_le s s' = (world_le s s' \<and> row_le (sg_transfer s) (sg_transfer s'))"

definition triple :: "(saga_state \<Rightarrow> bool) \<Rightarrow> 'a saga \<Rightarrow> ('a \<Rightarrow> saga_state \<Rightarrow> bool) \<Rightarrow> bool" where
  "triple P m Q = (\<forall>s r s'. state_inv s \<and> P s \<and> m s = (r, s') \<longrightarrow>
     state_inv s' \<and> state_le s s' \<and> (\<forall>x. r = Inr x \<longrightarrow> Q x s'))"

lemma tripleI:
  "(\<And>s r s'. state_inv s \<Longrightarrow> P s \<Longrightarrow> m s = (r, s') \<Longrightarrow>
     state_inv s' \<and> state_le s s' \<and> (\<forall>x. r = Inr x \<longrightarrow> Q x s')) \<Longrightarrow> triple P m Q"
  by (auto simp: triple_def)

lemma tripleD:
  assumes "triple P m Q" "state_inv s" "P s" "m s = (r, s')"
  shows "state_inv s'" "state_le s s'" "r = Inr x \<Longrightarrow> Q x s'"
  using assms by (auto simp: triple_def)

text \<open>Assertions on the database and the log that no development invalidates.\<close>

definition stable :: "(payments_db \<Rightarrow> ledger_call list \<Rightarrow> bool) \<Rightarrow> bool" where
  "stable F = (\<forall>d c d' c'. F d c \<and> db_le d d' \<and> set c \<subseteq> set c' \<longrightarrow> F d' c')"

lemma stableD: "stable F \<Longrightarrow> F d c \<Longrightarrow> db_le d d' \<Longrightarrow> set c \<subseteq> set c' \<Longrightarrow> F d' c'"
  unfolding stable_def by blast

lemma stable_known [intro!]: "stable (known t)"
  unfolding stable_def known_def db_le_def by (meson row_history_mono row_le_trans)

lemma stable_conj [intro!]: "stable F \<Longrightarrow> stable G \<Longrightarrow> stable (\<lambda>d c. F d c \<and> G d c)"
  unfolding stable_def by blast

lemma stable_const [intro!]: "stable (\<lambda>d c. b)"
  by (simp add: stable_def)

lemma stable_call [intro!]: "stable (\<lambda>d c. x \<in> set c)"
  unfolding stable_def by blast

lemma world_le_refl [simp]: "world_le s s"
  by (simp add: world_le_def)

lemma state_le_refl [simp]: "state_le s s"
  by (simp add: state_le_def)

lemma state_le_trans: "state_le s s' \<Longrightarrow> state_le s' s'' \<Longrightarrow> state_le s s''"
  unfolding state_le_def world_le_def by (meson db_le_trans row_le_trans subset_trans)

lemma triple_conseq:
  "triple P m Q \<Longrightarrow> (\<And>s. P' s \<Longrightarrow> P s) \<Longrightarrow> (\<And>x s. Q x s \<Longrightarrow> Q' x s) \<Longrightarrow> triple P' m Q'"
  unfolding triple_def by blast

lemma triple_return: "triple (Q x) (sreturn x) Q"
  by (simp add: triple_def sreturn_def)

lemma triple_throw: "triple P (sthrow e) Q"
  by (simp add: triple_def sthrow_def)

lemma triple_slift: "(\<And>x. r = Inr x \<Longrightarrow> triple (Q x) (sreturn x) Q') \<Longrightarrow> triple (\<lambda>s. \<forall>x. r = Inr x \<longrightarrow> Q x s) (slift r) Q'"
  by (cases r) (auto simp: triple_def slift_def sreturn_def)

lemma triple_get: "triple (\<lambda>s. Q (sg_transfer s) s) get_transfer Q"
  by (simp add: triple_def get_transfer_def)

lemma triple_bind:
  assumes "triple P m Q" "\<And>x. triple (Q x) (f x) R"
  shows "triple P (sbind m f) R"
proof (rule tripleI)
  fix s r s' assume s: "state_inv s" "P s" "sbind m f s = (r, s')"
  obtain r1 s1 where m: "m s = (r1, s1)" by fastforce
  note s1 = tripleD [OF assms(1) s(1,2) m]
  show "state_inv s' \<and> state_le s s' \<and> (\<forall>x. r = Inr x \<longrightarrow> R x s')"
  proof (cases r1)
    case (Inl e)
    with s(3) m s1 show ?thesis by (auto simp: sbind_def)
  next
    case (Inr x)
    with s(3) m have f: "f x s1 = (r, s')" by (simp add: sbind_def)
    note s2 = tripleD [OF assms(2) s1(1) s1(3) [OF Inr] f]
    from s2 state_le_trans [OF s1(2) s2(2)] show ?thesis by blast
  qed
qed

text \<open>
  A handler starts from a later version of the local variable: the precondition may be any
  assertion that survives that.
\<close>

lemma triple_catch:
  assumes "triple P m Q" "\<And>e. triple E (h e) Q" "\<And>s s'. state_le s s' \<Longrightarrow> P s \<Longrightarrow> E s'"
  shows "triple P (scatch m h) Q"
proof (rule tripleI)
  fix s r s' assume s: "state_inv s" "P s" "scatch m h s = (r, s')"
  obtain r1 s1 where m: "m s = (r1, s1)" by fastforce
  note s1 = tripleD [OF assms(1) s(1,2) m]
  show "state_inv s' \<and> state_le s s' \<and> (\<forall>x. r = Inr x \<longrightarrow> Q x s')"
  proof (cases r1)
    case (Inl e)
    with s(3) m have h: "h e s1 = (r, s')" by (simp add: scatch_def)
    note s2 = tripleD [OF assms(2) s1(1) assms(3) [OF s1(2) s(2)] h]
    from s2 state_le_trans [OF s1(2) s2(2)] show ?thesis by blast
  next
    case (Inr x)
    with s(3) m s1 show ?thesis by (auto simp: scatch_def)
  qed
qed

lemma triple_set: "triple (\<lambda>s. known t (sg_db s) (sg_calls s) \<and> row_le (sg_transfer s) t \<and> Q () (s\<lparr>sg_transfer := t\<rparr>)) (set_transfer t) Q"
  by (auto simp: triple_def set_transfer_def state_inv_def state_le_def world_le_def known_def)

text \<open>A statement: interference first, then an atomic change that keeps the invariant.\<close>

lemma triple_db_stmt:
  assumes w: "good_world w" and F: "stable F"
    and step: "\<And>k d c d' x. saga_inv d c \<Longrightarrow> known t d c \<Longrightarrow> F d c \<Longrightarrow> f k d = Inr (d', x) \<Longrightarrow>
      saga_inv d' c \<and> db_le d d' \<and> R d' c x"
  shows "triple (\<lambda>s. sg_transfer s = t \<and> F (sg_db s) (sg_calls s)) (db_stmt w f)
    (\<lambda>x s. sg_transfer s = t \<and> F (sg_db s) (sg_calls s) \<and> R (sg_db s) (sg_calls s) x)"
proof (rule tripleI)
  fix s r s' assume s: "state_inv s" "sg_transfer s = t \<and> F (sg_db s) (sg_calls s)" "db_stmt w f s = (r, s')"
  obtain d c where e: "sw_env w (sg_clock s) (sg_db s, sg_calls s) = (d, c)" by fastforce
  have inv: "saga_inv d c" "db_le (sg_db s) d" "set (sg_calls s) \<subseteq> set c"
    using w s(1) e unfolding good_world_def state_inv_def by blast+
  have kn0: "known t (sg_db s) (sg_calls s)" using s by (simp add: state_inv_def)
  note kn = stableD [OF stable_known kn0] and Fs = stableD [OF F conjunct2 [OF s(2)]]
  show "state_inv s' \<and> state_le s s' \<and> (\<forall>x. r = Inr x \<longrightarrow>
      sg_transfer s' = t \<and> F (sg_db s') (sg_calls s') \<and> R (sg_db s') (sg_calls s') x)"
  proof (cases "f (sg_clock s) d")
    case (Inl err)
    then have "s' = s\<lparr>sg_db := d, sg_calls := c, sg_clock := Suc (sg_clock s)\<rparr>" "r = Inl err"
      using s(3) e by (auto simp: db_stmt_def)
    with inv kn [OF inv(2,3)] s(2) show ?thesis by (simp add: state_inv_def state_le_def world_le_def)
  next
    case (Inr p)
    obtain d' x where p: "p = (d', x)" by fastforce
    have st: "saga_inv d' c" "db_le d d'" "R d' c x"
      using step [OF inv(1) kn [OF inv(2,3)] Fs [OF inv(2,3)], of "sg_clock s" d' x] Inr p by auto
    have s': "s' = s\<lparr>sg_db := d', sg_calls := c, sg_clock := Suc (sg_clock s)\<rparr>" "r = Inr x"
      using s(3) e Inr p by (auto simp: db_stmt_def)
    have le: "db_le (sg_db s) d'" using inv(2) st(2) by (rule db_le_trans)
    from s' inv kn [OF le inv(3)] Fs [OF le inv(3)] st s(2) le show ?thesis
      by (auto simp: state_inv_def state_le_def world_le_def)
  qed
qed

text \<open>A call: what is logged is logged about a row that exists.\<close>

lemma triple_ledger_request:
  assumes F: "stable F"
    and sent: "\<And>d c. saga_inv d c \<Longrightarrow> known t d c \<Longrightarrow> F d c \<Longrightarrow> saga_inv d (c @ sent)"
    and acked: "\<And>k d c x. saga_inv d c \<Longrightarrow> known t d c \<Longrightarrow> F d c \<Longrightarrow> answer k t = Inr x \<Longrightarrow> saga_inv d (c @ acked x)"
  shows "triple (\<lambda>s. sg_transfer s = t \<and> F (sg_db s) (sg_calls s)) (ledger_request answer t sent acked)
    (\<lambda>x s. sg_transfer s = t \<and> F (sg_db s) (sg_calls s) \<and> set (acked x) \<subseteq> set (sg_calls s))"
proof (rule tripleI)
  fix s r s' assume s: "state_inv s" "sg_transfer s = t \<and> F (sg_db s) (sg_calls s)"
    "ledger_request answer t sent acked s = (r, s')"
  have i: "saga_inv (sg_db s) (sg_calls s)" "known t (sg_db s) (sg_calls s)" using s by (auto simp: state_inv_def)
  note more = stableD [OF stable_known i(2) db_le_refl] stableD [OF F conjunct2 [OF s(2)] db_le_refl]
  have i1: "saga_inv (sg_db s) (sg_calls s @ sent)" using sent i s(2) by blast
  have m1: "known t (sg_db s) (sg_calls s @ sent)" "F (sg_db s) (sg_calls s @ sent)" using more by auto
  show "state_inv s' \<and> state_le s s' \<and> (\<forall>x. r = Inr x \<longrightarrow>
      sg_transfer s' = t \<and> F (sg_db s') (sg_calls s') \<and> set (acked x) \<subseteq> set (sg_calls s'))"
  proof (cases "answer (sg_clock s) t")
    case (Inl err)
    then have "s' = s\<lparr>sg_calls := sg_calls s @ sent, sg_clock := Suc (sg_clock s)\<rparr>" "r = Inl err"
      using s(3) by (auto simp: ledger_request_def)
    with i1 m1 s(2) show ?thesis by (auto simp: state_inv_def state_le_def world_le_def)
  next
    case (Inr x)
    then have s': "s' = s\<lparr>sg_calls := (sg_calls s @ sent) @ acked x, sg_clock := Suc (sg_clock s)\<rparr>" "r = Inr x"
      using s(3) by (auto simp: ledger_request_def)
    have "saga_inv (sg_db s) ((sg_calls s @ sent) @ acked x)" using acked [OF i1 m1 Inr] .
    moreover have "known t (sg_db s) ((sg_calls s @ sent) @ acked x)" "F (sg_db s) ((sg_calls s @ sent) @ acked x)"
      using more by auto
    ultimately show ?thesis using s' s(2) by (auto simp: state_inv_def state_le_def world_le_def)
  qed
qed

section \<open>Transitions and updates\<close>

lemma known_row:
  assumes "known t d c"
  obtains r where "r \<in> set (pd_transfers d)" "row_le t r"
  using assms by (auto simp: known_def)

lemma new_row_known:
  assumes "r' \<in> set (pd_transfers d)" "row_history c r'"
  shows "known r' d c"
  using assms row_le_refl unfolding known_def by blast

lemma transition_keeps:
  assumes inv: "saga_inv d c" and kn: "known t d c" and patch: "keeps_identity patch"
    and run: "transitionUsingManager t owner nxt patch now d = Inr (d', t')" and nxt: "nxt \<noteq> Completed"
    and fin: "\<And>r. nxt = Failed \<Longrightarrow> tr_leaseOwner (patch r) = None"
    and hist: "\<And>r. same_but_lease t r \<Longrightarrow> row_history c r \<Longrightarrow> row_history c (moved r nxt now (patch r))"
  shows "saga_inv d' c \<and> db_le d d' \<and> known t' d' c \<and> row_le t t' \<and> tr_status t' = nxt \<and>
    nxt \<in> set (ALLOWED_TRANSITIONS (tr_status t)) \<and> (\<exists>r. same_but_lease t r \<and> t' = moved r nxt now (patch r))"
proof -
  obtain r where r: "r \<in> set (pd_transfers d)" "row_le t r" using kn by (rule known_row)
  note k = saga_inv_keys [OF inv]
  note ok = transitionUsingManager_ok [OF k r patch run]
  have rh: "row_history c r" using inv r(1) by (simp add: saga_inv_def)
  have h: "row_history c t'" using hist [OF ok(2) rh] ok(4) by simp
  have st: "tr_status t' = nxt" using ok(4) by (simp add: moved_def)
  have "tr_status r \<noteq> Completed" using ok(1) same_but_leaseD(3) [OF ok(2)] by auto
  moreover have "tr_leaseOwner t' = None" if "final_status nxt"
    using that nxt fin ok(4) by (auto simp: final_status_def TERMINAL_STATUSES_def moved_def)
  ultimately have "saga_inv d' c" using replace_row_inv [OF inv r(1) ok(6) h] st nxt ok(5) by simp
  moreover have "db_le d d'" using replace_row_db_le [OF k r(1) ok(6)] ok(5) by simp
  moreover have "t' \<in> set (pd_transfers d')"
    using replace_row_mem [OF k r(1) row_le_id [OF ok(6)]] ok(5) by simp
  moreover have "row_le t t'" using r(2) ok(6) by (rule row_le_trans)
  ultimately show ?thesis using ok st h new_row_known by blast
qed

lemma triple_transition:
  assumes w: "good_world w" and F: "stable F" and patch: "\<And>k. keeps_identity (patch k)" and nxt: "nxt \<noteq> Completed"
    and fin: "\<And>k r. nxt = Failed \<Longrightarrow> tr_leaseOwner (patch k r) = None"
    and hist: "\<And>k r d c now. same_but_lease t r \<Longrightarrow> row_history c r \<Longrightarrow> F d c \<Longrightarrow>
      row_history c (moved r nxt now (patch k r))"
  shows "triple (\<lambda>s. sg_transfer s = t \<and> F (sg_db s) (sg_calls s)) (transitionClaimed w t owner nxt patch)
    (\<lambda>t' s. sg_transfer s = t \<and> F (sg_db s) (sg_calls s) \<and> known t' (sg_db s) (sg_calls s) \<and> row_le t t' \<and>
       tr_status t' = nxt \<and> nxt \<in> set (ALLOWED_TRANSITIONS (tr_status t)))"
  unfolding transitionClaimed_def
proof (rule triple_db_stmt [OF w F, where R = "\<lambda>d c t'. known t' d c \<and> row_le t t' \<and> tr_status t' = nxt \<and>
    nxt \<in> set (ALLOWED_TRANSITIONS (tr_status t))"])
  fix k d c d' x
  assume a: "saga_inv d c" "known t d c" "F d c" "transitionUsingManager t owner nxt (patch k) (sw_time w k) d = Inr (d', x)"
  from transition_keeps [OF a(1,2) patch a(4) nxt fin hist [OF _ _ a(3)]]
  show "saga_inv d' c \<and> db_le d d' \<and> known x d' c \<and> row_le t x \<and> tr_status x = nxt \<and>
    nxt \<in> set (ALLOWED_TRANSITIONS (tr_status t))" by blast
qed

text \<open>The row after a guarded update.\<close>

definition touched :: "transfer \<Rightarrow> int \<Rightarrow> transfer \<Rightarrow> transfer" where
  "touched r now patched = patched\<lparr>tr_version := tr_version r + 1, tr_updatedAt := now\<rparr>"

lemma update_claimed_keeps:
  assumes inv: "saga_inv d c" and kn: "known t d c" and patch: "keeps_identity patch"
    and run: "update_claimed_rows t owner patch now d = Inr (d', u)"
    and hist: "\<And>r. same_but_lease t r \<Longrightarrow> \<not> final_status (tr_status r) \<Longrightarrow> row_history c r \<Longrightarrow>
      row_history c (touched r now (patch r))"
  shows "saga_inv d' c \<and> db_le d d' \<and> (\<exists>r. same_but_lease t r \<and> known (touched r now (patch r)) d' c \<and>
    row_le t (touched r now (patch r)))"
proof -
  obtain r where r: "r \<in> set (pd_transfers d)" "row_le t r" using kn by (rule known_row)
  note k = saga_inv_keys [OF inv]
  let ?P = "\<lambda>r. tr_version r = tr_version t \<and> tr_leaseOwner r = Some owner" and ?r = "touched r now (patch r)"
  obtain n where n: "update_transfers (\<lambda>r. tr_id r = tr_id t \<and> ?P r) (\<lambda>r. touched r now (patch r)) d = Inr (d', n)" "n = 1"
    using run by (auto simp: update_claimed_rows_def result_simps touched_def split: if_splits)
  have mid: "tr_id (touched r now (patch r)) = tr_id r" for r
    using patch by (simp add: touched_def keeps_identity_def same_request_def)
  note cas = cas_update [OF k r n _ mid]
  have c: "same_but_lease t r" "d' = replace_row ?r d" "tr_leaseOwner r = Some owner" using cas by auto
  have nf: "\<not> final_status (tr_status r)" using inv r(1) c(3) by (auto simp: saga_inv_def)
  have le: "row_le r ?r"
    using patch by (simp add: row_le_def keeps_identity_def touched_def same_request_def)
  have h: "row_history c ?r" using hist [OF c(1) nf] inv r(1) by (simp add: saga_inv_def)
  have "tr_status ?r = tr_status r" using patch by (simp add: keeps_identity_def touched_def)
  then have "saga_inv d' c" using replace_row_inv [OF inv r(1) le h] c(2) nf by simp
  moreover have "db_le d d'" using replace_row_db_le [OF k r(1) le] c(2) by simp
  moreover have "known ?r d' c"
    using new_row_known h replace_row_mem [OF k r(1) mid] c(2) by simp
  ultimately show ?thesis using c(1) row_le_trans [OF r(2) le] by blast
qed

lemma transfer_by_id_known:
  assumes "saga_inv d c" "known r d c" "transfer_by_id d (tr_id r) = Inr t'"
  shows "known t' d c" "row_le r t'"
proof -
  obtain x where x: "x \<in> set (pd_transfers d)" "row_le r x" using assms(2) by (rule known_row)
  have "find_transfer d (tr_id r) = Some x"
    using find_transfer_own [OF saga_inv_keys [OF assms(1)] x(1)] row_le_id [OF x(2)] by simp
  with assms(3) have "t' = x" by (simp add: transfer_by_id_ok)
  with x assms(1) show "known t' d c" "row_le r t'" by (auto intro: new_row_known simp: saga_inv_def)
qed

lemma triple_read:
  assumes w: "good_world w" and F: "stable F"
  shows "triple (\<lambda>s. sg_transfer s = t \<and> (\<exists>r. tr_id r = tr_id t \<and> known r (sg_db s) (sg_calls s) \<and> G r) \<and> F (sg_db s) (sg_calls s))
    (read_transfer w (tr_id t))
    (\<lambda>t' s. sg_transfer s = t \<and> F (sg_db s) (sg_calls s) \<and> known t' (sg_db s) (sg_calls s) \<and> (\<exists>r. G r \<and> row_le r t'))"
proof -
  let ?F = "\<lambda>d c. (\<exists>r. tr_id r = tr_id t \<and> known r d c \<and> G r) \<and> F d c"
  have st: "stable ?F" using F stable_known unfolding stable_def by meson
  have "triple (\<lambda>s. sg_transfer s = t \<and> ?F (sg_db s) (sg_calls s)) (read_transfer w (tr_id t))
    (\<lambda>t' s. sg_transfer s = t \<and> ?F (sg_db s) (sg_calls s) \<and> known t' (sg_db s) (sg_calls s) \<and> (\<exists>r. G r \<and> row_le r t'))"
    unfolding read_transfer_def
  proof (rule triple_db_stmt [OF w st, where R = "\<lambda>d c t'. known t' d c \<and> (\<exists>r. G r \<and> row_le r t')"])
    fix k d c d' x
    assume a: "saga_inv d c" "?F d c" "rbind (transfer_by_id d (tr_id t)) (\<lambda>t. Inr (d, t)) = Inr (d', x)"
    then obtain r where r: "tr_id r = tr_id t" "known r d c" "G r" by blast
    from a(3) have "transfer_by_id d (tr_id r) = Inr x" "d' = d" using r(1) by (auto simp: result_simps)
    with transfer_by_id_known [OF a(1) r(2)] a(1) r(3)
    show "saga_inv d' c \<and> db_le d d' \<and> known x d' c \<and> (\<exists>r. G r \<and> row_le r x)" by auto
  qed
  then show ?thesis by (rule triple_conseq) auto
qed

lemma triple_update:
  assumes w: "good_world w" and F: "stable F" and patch: "\<And>k. keeps_identity (patch k)"
    and hist: "\<And>k r d c now. same_but_lease t r \<Longrightarrow> \<not> final_status (tr_status r) \<Longrightarrow> row_history c r \<Longrightarrow>
      F d c \<Longrightarrow> row_history c (touched r now (patch k r))"
  shows "triple (\<lambda>s. sg_transfer s = t \<and> F (sg_db s) (sg_calls s)) (updateClaimed w t owner patch)
    (\<lambda>t' s. sg_transfer s = t \<and> F (sg_db s) (sg_calls s) \<and> known t' (sg_db s) (sg_calls s) \<and> row_le t t' \<and>
       (\<exists>k r now. same_but_lease t r \<and> row_le (touched r now (patch k r)) t'))"
proof -
  let ?G = "\<lambda>x. row_le t x \<and> (\<exists>k r now. same_but_lease t r \<and> x = touched r now (patch k r))"
  show ?thesis unfolding updateClaimed_def
  proof (rule triple_bind)
    show "triple (\<lambda>s. sg_transfer s = t \<and> F (sg_db s) (sg_calls s))
      (db_stmt w (\<lambda>k. update_claimed_rows t owner (patch k) (sw_time w k)))
      (\<lambda>u s. sg_transfer s = t \<and> F (sg_db s) (sg_calls s) \<and> (\<exists>x. known x (sg_db s) (sg_calls s) \<and> ?G x))"
    proof (rule triple_db_stmt [OF w F, where R = "\<lambda>d c u. \<exists>x. known x d c \<and> ?G x"])
      fix k d c d' u
      assume a: "saga_inv d c" "known t d c" "F d c" "update_claimed_rows t owner (patch k) (sw_time w k) d = Inr (d', u)"
      from update_claimed_keeps [OF a(1,2) patch a(4) hist [OF _ _ _ a(3)]]
      show "saga_inv d' c \<and> db_le d d' \<and> (\<exists>x. known x d' c \<and> ?G x)" by blast
    qed
  next
    fix u
    show "triple (\<lambda>s. sg_transfer s = t \<and> F (sg_db s) (sg_calls s) \<and> (\<exists>x. known x (sg_db s) (sg_calls s) \<and> ?G x))
      (read_transfer w (tr_id t)) (\<lambda>t' s. sg_transfer s = t \<and> F (sg_db s) (sg_calls s) \<and>
        known t' (sg_db s) (sg_calls s) \<and> row_le t t' \<and>
        (\<exists>k r now. same_but_lease t r \<and> row_le (touched r now (patch k r)) t'))"
      by (rule triple_conseq [OF triple_read [OF w F, of t ?G]])
        (use row_le_id in blast, use row_le_trans in blast)
  qed
qed

section \<open>Completion\<close>

lemma completion_id_completed:
  assumes "ob_routingKey m = ''payments.transfer.completed.v1''"
    and "ob_event m = envelope_json (transfer_completed_event t wallet i tc now)"
  shows "completion_id m = Some (tr_id t)"
proof -
  have "jget ''aggregate'' (ob_event m) = Some (JObj [(''type'', JStr ''Transfer''), (''id'', JStr (tr_id t)),
      (''version'', json_int (tr_version t))])"
    unfolding assms(2) by (simp add: jget_def envelope_json_def transfer_completed_event_def payment_event_def
        json_optional_def split: option.splits)
  with assms(1) show ?thesis by (simp add: completion_id_def jget_def jstring_def)
qed

lemma enqueueSplitSharePaid_messages:
  assumes "enqueueSplitSharePaid t i j tc now d = Inr d'"
  shows "\<exists>ms. d' = d\<lparr>pd_outbox := pd_outbox d @ ms\<rparr> \<and> (\<forall>m \<in> set ms. completion_id m = None)"
proof (cases "truthy (tr_splitBillShareId t)")
  case None
  then show ?thesis using assms by (auto simp: enqueueSplitSharePaid_def intro: exI [of _ "[]"])
next
  case (Some s)
  with assms obtain share bill d1 where
    d1: "enqueue ''payments.split-bill.SharePaid'' ''payments.split-bill.share-paid.v1'' ''SplitBillShare''
      (ss_id share) (tr_id t) (share_payload t bill share (deriveSplitBillStatus
        (length (filter (share_paid d) (shares_of_bill d (ss_billId share))))
        (length (shares_of_bill d (ss_billId share)))) @ [(''ownerId'', JStr (ss_participantUserId share))])
      i tc now d = Inr d1"
    and d2: "d' = d1 \<or> (\<exists>p. enqueue ''payments.split-bill.StatusChanged'' ''payments.split-bill.status-changed.v1''
      ''SplitBill'' (ss_billId share) (tr_id t) p j tc now d1 = Inr d')"
    by (auto simp: enqueueSplitSharePaid_def case_option_eq_Inr Let_def rbind_eq_Inr split: if_splits)
  from enqueue_ok [OF d1] obtain m1 where
    m1: "d1 = d\<lparr>pd_outbox := pd_outbox d @ [m1]\<rparr>" "completion_id m1 = None"
    by (auto simp: completion_id_def)
  from d2 show ?thesis
  proof
    assume "\<exists>p. enqueue ''payments.split-bill.StatusChanged'' ''payments.split-bill.status-changed.v1''
      ''SplitBill'' (ss_billId share) (tr_id t) p j tc now d1 = Inr d'"
    then obtain m2 where "d' = d1\<lparr>pd_outbox := pd_outbox d1 @ [m2]\<rparr>" "completion_id m2 = None"
      by (auto simp: completion_id_def dest!: enqueue_ok)
    with m1 show ?thesis by (intro exI [of _ "[m1, m2]"]) simp
  qed (use m1 in \<open>auto intro: exI [of _ "[m1]"]\<close>)
qed

lemma map_filter_append_None:
  "(\<forall>x \<in> set ys. f x = None) \<Longrightarrow> List.map_filter f (xs @ ys) = List.map_filter f xs"
  by (simp add: List.map_filter_def)

lemma saga_inv_outbox:
  assumes "saga_inv d c" "\<forall>m \<in> set ms. completion_id m = None"
  shows "saga_inv (d\<lparr>pd_outbox := pd_outbox d @ ms\<rparr>) c"
proof -
  have "bills_inv d" using assms(1) by (simp add: saga_inv_def)
  then have "bills_inv (d\<lparr>pd_outbox := pd_outbox d @ ms\<rparr>)" by (rule bills_inv_cong) auto
  with assms show ?thesis by (simp add: saga_inv_def completed_ids_def keys_unique_def map_filter_append_None)
qed

lemma complete_keeps:
  assumes inv: "saga_inv d c" and kn: "known t d c" and run: "complete_rows w t owner k d = Inr (d', u)"
    and acked: "SettleAcked (tr_id t) \<in> set c \<or> AlreadySettled (tr_id t) \<in> set c"
  shows "saga_inv d' c \<and> db_le d d'"
proof -
  let ?patch = "\<lambda>r. r\<lparr>tr_retryCount := 0, tr_nextRetryAt := None, tr_failureCode := None,
    tr_failureMessage := None, tr_leaseOwner := None, tr_leaseUntil := None, tr_lastAttemptAt := Some (sw_time w k)\<rparr>"
  obtain d1 t' d2 where r1: "transitionUsingManager t owner Completed ?patch (sw_time w k) d = Inr (d1, t')"
    and r2: "enqueueTransferCompleted t' (sw_uuid w k 0) (sw_trace w) (sw_time w k) d1 = Inr d2"
    and r3: "enqueueSplitSharePaid t' (sw_uuid w k 1) (sw_uuid w k 2) (sw_trace w) (sw_time w k) d2 = Inr d'"
    using run by (auto simp: complete_rows_def result_simps)
  obtain r where r: "r \<in> set (pd_transfers d)" "row_le t r" using kn by (rule known_row)
  note keys = saga_inv_keys [OF inv]
  have kp: "keeps_identity ?patch" by (simp add: keeps_identity_def same_request_def)
  note ok = transitionUsingManager_ok [OF keys r kp r1]
  have id: "tr_id t' = tr_id r" "tr_id r = tr_id t" using row_le_id [OF ok(6)] row_le_id [OF r(2)] by simp_all
  have st: "tr_status t' = Completed" "tr_status r \<noteq> Completed"
    using ok(1,4) same_but_leaseD(3) [OF ok(2)] by (auto simp: moved_def)
  obtain m where m: "d2 = d1\<lparr>pd_outbox := pd_outbox d1 @ [m]\<rparr>" "completion_id m = Some (tr_id t')"
    using enqueueTransferCompleted_ok [OF r2] completion_id_completed by blast
  obtain ms where ms: "d' = d2\<lparr>pd_outbox := pd_outbox d2 @ ms\<rparr>" "\<forall>m \<in> set ms. completion_id m = None"
    using enqueueSplitSharePaid_messages [OF r3] by blast
  have mem: "set (pd_transfers d1) = insert t' (set (pd_transfers d) - {r})"
    using replace_row_mem [OF keys r(1) id(1)] ok(5) by simp
  have ids: "tr_id ` set (pd_transfers d1) = tr_id ` set (pd_transfers d)" using mem r(1) id(1) by auto
  have cid: "completed_ids d2 = completed_ids d @ [tr_id r]"
    using m ok(5) id by (simp add: completed_ids_def List.map_filter_def replace_row_def)
  have only: "x = r" if "x \<in> set (pd_transfers d)" "tr_id x = tr_id r" for x
    using same_id_same_row [OF keys r(1) that] .
  then have fresh: "tr_id r \<notin> set (completed_ids d)" using inv st(2) by (auto simp: saga_inv_def)
  have "{tr_id x | x. x \<in> set (pd_transfers d1) \<and> tr_status x = Completed} =
      insert (tr_id r) {tr_id x | x. x \<in> set (pd_transfers d) \<and> tr_status x = Completed}"
    using mem st id(1) by (auto intro: exI [of _ t'])
  moreover have "keys_unique d2"
  proof -
    have "keys_unique d1" using replace_row_keys [OF keys r(1)] ok(5,6) by (simp add: row_le_def)
    then show ?thesis using m(1) by (simp add: keys_unique_def)
  qed
  moreover have "row_history c t'" using st(1) acked id by (simp add: row_history_def)
  moreover have "tr_leaseOwner t' = None" using ok(4) by (simp add: moved_def)
  moreover have "tr_holdMayExist r \<Longrightarrow> tr_holdMayExist t'" using ok(6) by (simp add: row_le_def)
  moreover have "bills_inv d2"
  proof -
    have "bills_inv d1"
      using replace_row_bills [OF saga_inv_bills [OF inv] keys r(1) row_le_request [OF ok(6)]] ok(5) by simp
    then show ?thesis by (rule bills_inv_cong) (use m(1) in auto)
  qed
  ultimately have "saga_inv d2 c"
    using inv mem ids cid fresh m(1) id r(1) unfolding saga_inv_def by (auto 0 2)
  then have "saga_inv d' c" using saga_inv_outbox ms by blast
  moreover have "db_le d d1" using replace_row_db_le [OF keys r(1) ok(6)] ok(5) by simp
  moreover have "pd_transfers d' = pd_transfers d1" using ms(1) m(1) by simp
  ultimately show ?thesis by (simp add: db_le_def)
qed

lemma triple_complete:
  assumes w: "good_world w" and F: "stable F"
    and acked: "\<And>d c. F d c \<Longrightarrow> SettleAcked (tr_id t) \<in> set c \<or> AlreadySettled (tr_id t) \<in> set c"
  shows "triple (\<lambda>s. sg_transfer s = t \<and> F (sg_db s) (sg_calls s)) (complete w t owner) (\<lambda>u s. True)"
proof -
  have "triple (\<lambda>s. sg_transfer s = t \<and> F (sg_db s) (sg_calls s)) (complete w t owner)
      (\<lambda>u s. sg_transfer s = t \<and> F (sg_db s) (sg_calls s) \<and> True)"
    unfolding complete_def
    by (rule triple_db_stmt [OF w F, where R = "\<lambda>d c u. True"]) (use complete_keeps acked in blast)
  then show ?thesis by (rule triple_conseq) auto
qed

end
