(* ===== verification/Saga_Steps.thy ===== *)
theory Saga_Steps
  imports Saga_Invariant
begin

text \<open>
  Every step of the saga, its failure handling, its loop and its recovery keep the invariant of
  \<open>Saga_Invariant\<close>, and every turn of the loop lowers the rank of the status, so that the budget of
  eight turns is never used up.
\<close>

section \<open>Rules for the building blocks\<close>

lemma triple_get_bind:
  assumes "\<And>t. triple (\<lambda>s. sg_transfer s = t \<and> P s) (f t) R"
  shows "triple P (sbind get_transfer f) R"
proof (rule triple_bind)
  show "triple P get_transfer (\<lambda>t s. sg_transfer s = t \<and> P s)"
    by (rule triple_conseq [OF triple_get]) auto
qed (rule assms)

lemma triple_pre: "triple P m Q \<Longrightarrow> (\<And>s. P' s \<Longrightarrow> P s) \<Longrightarrow> triple P' m Q"
  by (erule triple_conseq)

lemma triple_true: "triple P m Q \<Longrightarrow> triple P m (\<lambda>x s. True)"
  by (erule triple_conseq) auto

lemma row_history_cong:
  "tr_id r' = tr_id r \<Longrightarrow> tr_status r' = tr_status r \<Longrightarrow> tr_holdMayExist r' = tr_holdMayExist r \<Longrightarrow>
    row_history c r' = row_history c r"
  by (simp add: row_history_def)

lemma triple_scheduleRetry:
  assumes "good_world w"
  shows "triple (\<lambda>s. sg_transfer s = t) (scheduleRetry w t owner failure now) (\<lambda>u s. sg_transfer s = t)"
  unfolding scheduleRetry_def Let_def
proof (rule triple_bind)
  show "triple (\<lambda>s. sg_transfer s = t) (updateClaimed w t owner (\<lambda>k r. r\<lparr>tr_retryCount := tr_retryCount t + 1,
      tr_nextRetryAt := Some (now + retry_delay w (tr_retryCount t + 1)), tr_lastAttemptAt := Some now,
      tr_failureCode := Some (le_code failure), tr_failureMessage := Some (le_message failure),
      tr_leaseOwner := None, tr_leaseUntil := None\<rparr>)) (\<lambda>x s. sg_transfer s = t)"
  proof (rule triple_conseq [OF triple_update [OF assms stable_const, of _ t True]])
    show "row_history c (touched r now' (r\<lparr>tr_retryCount := tr_retryCount t + 1,
      tr_nextRetryAt := Some (now + retry_delay w (tr_retryCount t + 1)), tr_lastAttemptAt := Some now,
      tr_failureCode := Some (le_code failure), tr_failureMessage := Some (le_message failure),
      tr_leaseOwner := None, tr_leaseUntil := None\<rparr>))" if "row_history c r" for r c now'
      using that by (subst row_history_cong [of _ r]) (simp_all add: touched_def)
  qed (auto simp: keeps_identity_def same_request_def)
qed (rule triple_return)

lemma triple_fail:
  assumes "good_world w"
  shows "triple (\<lambda>s. sg_transfer s = t \<and> (tr_holdMayExist t \<longrightarrow> ReleaseAcked (tr_id t) \<in> set (sg_calls s)))
    (fail_transfer w t owner failure) (\<lambda>u s. True)"
  unfolding fail_transfer_def
proof (rule triple_bind)
  have F: "stable (\<lambda>d c. tr_holdMayExist t \<longrightarrow> ReleaseAcked (tr_id t) \<in> set c)"
    unfolding stable_def by blast
  let ?patch = "\<lambda>k r. r\<lparr>tr_nextRetryAt := None,
      tr_failureCode := (case failure of Some f \<Rightarrow> Some (le_code f) | None \<Rightarrow> tr_failureCode t),
      tr_failureMessage := (case failure of Some f \<Rightarrow> Some (le_message f) | None \<Rightarrow> tr_failureMessage t),
      tr_leaseOwner := None, tr_leaseUntil := None, tr_lastAttemptAt := Some (sw_time w k)\<rparr>"
  show "triple (\<lambda>s. sg_transfer s = t \<and> (tr_holdMayExist t \<longrightarrow> ReleaseAcked (tr_id t) \<in> set (sg_calls s)))
    (transitionClaimed w t owner Failed ?patch) (\<lambda>x s. True)"
  proof (rule triple_true [OF triple_transition [OF assms F]])
    show "keeps_identity (?patch k)" for k by (simp add: keeps_identity_def same_request_def)
    show "row_history c (moved r Failed now (?patch k r))"
      if "same_but_lease t r" "tr_holdMayExist t \<longrightarrow> ReleaseAcked (tr_id t) \<in> set c" for k r c now
      using that same_but_leaseD [OF that(1)] by (simp add: row_history_def moved_def)
  qed simp_all
qed (rule triple_return)

lemma triple_handleFailure:
  assumes "good_world w"
  shows "triple (\<lambda>s. sg_transfer s = t) (handleFailure w t owner error now)
    (\<lambda>outcome s. \<forall>t'. outcome = Some t' \<longrightarrow> sg_transfer s = t \<and> known t' (sg_db s) (sg_calls s) \<and> row_le t t' \<and>
       tr_status t' = Compensating \<and> Compensating \<in> set (ALLOWED_TRANSITIONS (tr_status t)))"
    (is "triple _ _ ?Q")
proof -
  let ?f = "asLedgerError error"
  let ?patch = "\<lambda>k r. r\<lparr>tr_retryCount := 0, tr_nextRetryAt := None, tr_failureCode := Some (le_code ?f),
    tr_failureMessage := Some (le_message ?f)\<rparr>"
  have retry: "triple (\<lambda>s. sg_transfer s = t) (sbind (scheduleRetry w t owner ?f now) (\<lambda>_. sreturn None)) ?Q"
    by (rule triple_bind [OF triple_scheduleRetry [OF assms]])
      (rule triple_conseq [OF triple_return], simp_all)
  have compensate: "triple (\<lambda>s. sg_transfer s = t)
      (sbind (transitionClaimed w t owner Compensating ?patch) (\<lambda>t'. sreturn (Some t'))) ?Q" if "tr_holdMayExist t"
  proof (rule triple_bind)
    show "triple (\<lambda>s. sg_transfer s = t) (transitionClaimed w t owner Compensating ?patch)
      (\<lambda>t' s. sg_transfer s = t \<and> known t' (sg_db s) (sg_calls s) \<and> row_le t t' \<and> tr_status t' = Compensating \<and>
        Compensating \<in> set (ALLOWED_TRANSITIONS (tr_status t)))"
    proof (rule triple_conseq [OF triple_transition [OF assms stable_const, of _ _ t True]])
      show "keeps_identity (?patch k)" for k by (simp add: keeps_identity_def same_request_def)
      show "row_history c (moved r Compensating now' (?patch k r))" if "same_but_lease t r" for k r c now'
        using \<open>tr_holdMayExist t\<close> same_but_leaseD [OF that] by (simp add: row_history_def moved_def)
    qed auto
    show "triple (\<lambda>s. sg_transfer s = t \<and> known t' (sg_db s) (sg_calls s) \<and> row_le t t' \<and> tr_status t' = Compensating \<and>
        Compensating \<in> set (ALLOWED_TRANSITIONS (tr_status t))) (sreturn (Some t')) ?Q" for t'
      by (rule triple_conseq [OF triple_return]) auto
  qed
  have failed: "triple (\<lambda>s. sg_transfer s = t) (sbind (fail_transfer w t owner (Some ?f)) (\<lambda>_. sreturn None)) ?Q"
    if "\<not> tr_holdMayExist t"
    by (rule triple_bind [OF triple_pre [OF triple_fail [OF assms, of t]]])
      (use that in simp, rule triple_conseq [OF triple_return], simp_all)
  show ?thesis unfolding handleFailure_def Let_def
    by (simp only: split: if_split) (use retry compensate failed in blast)
qed

text \<open>The rank of the local variable.\<close>

abbreviation local_rank :: "saga_state \<Rightarrow> nat" where
  "local_rank s \<equiv> status_rank (tr_status (sg_transfer s))"

lemma row_le_rank: "row_le t t' \<Longrightarrow> status_rank (tr_status t') \<le> status_rank (tr_status t)"
  by (simp add: row_le_def status_le_rank)

lemma state_le_rank: "state_le s s' \<Longrightarrow> local_rank s' \<le> local_rank s"
  by (simp add: state_le_def row_le_rank)

lemma triple_set_known:
  assumes "\<And>s. P s \<Longrightarrow> known t' (sg_db s) (sg_calls s) \<and> row_le (sg_transfer s) t' \<and> Q x (s\<lparr>sg_transfer := t'\<rparr>)"
  shows "triple P (sbind (set_transfer t') (\<lambda>_. sreturn x)) Q"
  by (rule triple_bind [OF triple_conseq [OF triple_set [of t' "\<lambda>u. Q x"]] triple_return]) (use assms in auto)

lemma triple_recover:
  assumes "good_world w"
  shows "triple (\<lambda>s. local_rank s \<le> n) (recover_step w owner now error) (\<lambda>goes_on s. goes_on \<longrightarrow> local_rank s < n)"
proof (cases "error = SagaLeaseLost")
  case True
  then show ?thesis unfolding recover_step_def by (simp, intro triple_conseq [OF triple_return]) auto
next
  case False
  have "triple (\<lambda>s. sg_transfer s = t \<and> local_rank s \<le> n) (sbind (handleFailure w t owner error now) (\<lambda>outcome.
       case outcome of None \<Rightarrow> sreturn False | Some t' \<Rightarrow> sbind (set_transfer t') (\<lambda>_. sreturn True)))
     (\<lambda>goes_on s. goes_on \<longrightarrow> local_rank s < n)" for t
  proof (cases "status_rank (tr_status t) \<le> n")
    case True
    show ?thesis
    proof (rule triple_bind [OF triple_pre [OF triple_handleFailure [OF assms, of t]]])
      fix outcome
      show "triple (\<lambda>s. \<forall>t'. outcome = Some t' \<longrightarrow> sg_transfer s = t \<and> known t' (sg_db s) (sg_calls s) \<and>
          row_le t t' \<and> tr_status t' = Compensating \<and> Compensating \<in> set (ALLOWED_TRANSITIONS (tr_status t)))
        (case outcome of None \<Rightarrow> sreturn False | Some t' \<Rightarrow> sbind (set_transfer t') (\<lambda>_. sreturn True))
        (\<lambda>goes_on s. goes_on \<longrightarrow> local_rank s < n)"
      proof (cases outcome)
        case None
        then show ?thesis by (simp, intro triple_conseq [OF triple_return]) auto
      next
        case (Some t')
        then show ?thesis using True by (simp, intro triple_set_known) (auto dest!: transition_lowers_rank)
      qed
    qed auto
  qed (auto simp: triple_def)
  with False show ?thesis unfolding recover_step_def by (simp add: triple_get_bind)
qed

section \<open>Steps\<close>

lemma triple_advance:
  assumes w: "good_world w" and F: "stable F" and "\<And>k. keeps_identity (patch k)" "\<not> final_status nxt"
    and "\<And>t k r d c now. P t \<Longrightarrow> same_but_lease t r \<Longrightarrow> row_history c r \<Longrightarrow> F d c \<Longrightarrow>
      row_history c (moved r nxt now (patch k r))"
  shows "triple (\<lambda>s. P (sg_transfer s) \<and> F (sg_db s) (sg_calls s) \<and> local_rank s \<le> n) (advance w owner nxt patch)
    (\<lambda>goes_on s. goes_on \<longrightarrow> local_rank s < n)"
  unfolding advance_def
proof (rule triple_get_bind)
  fix t :: transfer
  show "triple (\<lambda>s. sg_transfer s = t \<and> P (sg_transfer s) \<and> F (sg_db s) (sg_calls s) \<and> local_rank s \<le> n)
    (sbind (transitionClaimed w t owner nxt patch) (\<lambda>t'. sbind (set_transfer t') (\<lambda>_. sreturn True)))
    (\<lambda>goes_on s. goes_on \<longrightarrow> local_rank s < n)"
  proof (cases "P t \<and> status_rank (tr_status t) \<le> n")
    case True
    show ?thesis
    proof (rule triple_bind [OF triple_pre [OF triple_transition [OF w F assms(3), where nxt = nxt and t = t]]])
      show "nxt \<noteq> Completed" "nxt = Failed \<Longrightarrow> tr_leaseOwner (patch k r) = None" for k r
        using assms(4) by (auto simp: final_status_def TERMINAL_STATUSES_def)
      show "row_history c (moved r nxt now (patch k r))"
        if "same_but_lease t r" "row_history c r" "F d c" for k r d c now
        using assms(5) that True by blast
      show "triple (\<lambda>s. sg_transfer s = t \<and> F (sg_db s) (sg_calls s) \<and> known t' (sg_db s) (sg_calls s) \<and> row_le t t' \<and>
          tr_status t' = nxt \<and> nxt \<in> set (ALLOWED_TRANSITIONS (tr_status t)))
        (sbind (set_transfer t') (\<lambda>_. sreturn True)) (\<lambda>goes_on s. goes_on \<longrightarrow> local_rank s < n)" for t'
        using True by (intro triple_set_known) (auto dest!: transition_lowers_rank)
    qed auto
  qed (auto simp: triple_def)
qed

text \<open>Logging a call about a known row.\<close>

lemma saga_inv_log:
  assumes inv: "saga_inv d c" and kn: "known t d c"
    and new: "\<And>y. y \<in> set ys \<Longrightarrow> call_transfer y = tr_id t"
    and hold: "HoldRequested (tr_id t) \<in> set ys \<Longrightarrow> tr_holdMayExist t"
    and settle: "SettleRequested (tr_id t) \<in> set ys \<Longrightarrow> HoldPlaced (tr_id t) \<in> set c"
  shows "saga_inv d (c @ ys)"
proof -
  obtain r0 where r0: "r0 \<in> set (pd_transfers d)" "row_le t r0" using kn by (rule known_row)
  have id0: "tr_id r0 = tr_id t" using row_le_id [OF r0(2)] .
  have "call_transfer y \<in> tr_id ` set (pd_transfers d)" if "y \<in> set ys" for y
    using new [OF that] r0(1) id0 by (metis image_eqI)
  moreover have "row_history (c @ ys) r" if "r \<in> set (pd_transfers d)" for r
    using inv that by (auto simp: saga_inv_def intro: row_history_mono)
  moreover have "tr_holdMayExist r" if r: "r \<in> set (pd_transfers d)" "HoldRequested (tr_id r) \<in> set ys" for r
  proof -
    have "tr_id r = tr_id t" using new [OF r(2)] by simp
    moreover from this have "r = r0" using same_id_same_row [OF saga_inv_keys [OF inv] r0(1) r(1)] id0 by simp
    ultimately show ?thesis using hold r(2) r0(2) by (simp add: row_le_def)
  qed
  moreover have "HoldPlaced (tr_id r) \<in> set c" if "SettleRequested (tr_id r) \<in> set ys" for r
    using new [OF that] settle that by simp
  ultimately show ?thesis using inv unfolding saga_inv_def by auto
qed

lemma triple_rank:
  assumes "triple P m Q"
  shows "triple (\<lambda>s. P s \<and> local_rank s \<le> n) m (\<lambda>x s. Q x s \<and> local_rank s \<le> n)"
proof (rule tripleI)
  fix s r s' assume s: "state_inv s" "P s \<and> local_rank s \<le> n" "m s = (r, s')"
  note t = tripleD [OF assms s(1) conjunct1 [OF s(2)] s(3)]
  from t(1,3) t(2) state_le_rank [OF t(2)] s(2)
  show "state_inv s' \<and> state_le s s' \<and> (\<forall>x. r = Inr x \<longrightarrow> Q x s' \<and> local_rank s' \<le> n)" by auto
qed

lemma triple_update_local:
  assumes w: "good_world w" and patch: "\<And>k. keeps_identity (patch k)"
    and post: "\<And>k r t' now. same_but_lease t r \<Longrightarrow> row_le (touched r now (patch k r)) t' \<Longrightarrow> R t'"
  shows "triple (\<lambda>s. sg_transfer s = t) (sbind (updateClaimed w t owner patch) set_transfer) (\<lambda>u s. R (sg_transfer s))"
proof (rule triple_bind)
  show "triple (\<lambda>s. sg_transfer s = t) (updateClaimed w t owner patch)
    (\<lambda>t' s. sg_transfer s = t \<and> known t' (sg_db s) (sg_calls s) \<and> row_le t t' \<and> R t')"
  proof (rule triple_conseq [OF triple_update [OF w stable_const patch, of t True]])
    fix k r c now assume r: "same_but_lease t r" "\<not> final_status (tr_status r)" "row_history c r"
    have "tr_status (touched r now (patch k r)) = tr_status r" "tr_id (touched r now (patch k r)) = tr_id r"
      using patch [of k] by (simp_all add: touched_def keeps_identity_def same_request_def)
    moreover have "tr_holdMayExist r \<Longrightarrow> tr_holdMayExist (touched r now (patch k r))"
      using patch [of k] by (simp add: touched_def keeps_identity_def)
    ultimately show "row_history c (touched r now (patch k r))"
      using r(2,3) by (auto simp: row_history_def final_status_def TERMINAL_STATUSES_def)
  qed (use post in auto)
  show "triple (\<lambda>s. sg_transfer s = t \<and> known t' (sg_db s) (sg_calls s) \<and> row_le t t' \<and> R t') (set_transfer t')
    (\<lambda>u s. R (sg_transfer s))" for t'
    by (rule triple_pre [OF triple_set]) auto
qed

lemma triple_resolve_receiver:
  assumes w: "good_world w"
  shows "triple (\<lambda>s. True) (resolve_receiver w owner) (\<lambda>u s. True)"
  unfolding resolve_receiver_def
proof (rule triple_get_bind, split if_split, intro conjI impI)
  fix t :: transfer
  show "triple (\<lambda>s. sg_transfer s = t \<and> True)
    (sbind (ledger_request (sw_validate w) t [] (\<lambda>_. [])) (\<lambda>receiverWalletId.
       sbind (updateClaimed w t owner (\<lambda>k r. r\<lparr>tr_receiverWalletId := (case receiverWalletId of
           None \<Rightarrow> tr_receiverWalletId r | Some i \<Rightarrow> Some (pg_uuid i)), tr_retryCount := 0, tr_nextRetryAt := None,
           tr_failureCode := None, tr_failureMessage := None\<rparr>)) set_transfer)) (\<lambda>u s. True)"
  proof (rule triple_bind)
    show "triple (\<lambda>s. sg_transfer s = t \<and> True) (ledger_request (sw_validate w) t [] (\<lambda>_. [])) (\<lambda>x s. sg_transfer s = t)"
      by (rule triple_conseq [OF triple_ledger_request [OF stable_const, of t True]]) auto
  qed (rule triple_update_local [OF w], auto simp: keeps_identity_def same_request_def)
  show "triple (\<lambda>s. sg_transfer s = t \<and> True) (sreturn ()) (\<lambda>u s. True)"
    by (rule triple_pre [OF triple_return]) simp
qed

lemma triple_record_hold_intent:
  assumes w: "good_world w"
  shows "triple (\<lambda>s. True) (record_hold_intent w owner) (\<lambda>u s. tr_holdMayExist (sg_transfer s))"
  unfolding record_hold_intent_def
proof (rule triple_get_bind, split if_split, intro conjI impI)
  fix t :: transfer
  show "triple (\<lambda>s. sg_transfer s = t \<and> True) (sreturn ()) (\<lambda>u s. tr_holdMayExist (sg_transfer s))"
    if "\<not> \<not> tr_holdMayExist t"
    by (rule triple_pre [OF triple_return]) (use that in auto)
  show "triple (\<lambda>s. sg_transfer s = t \<and> True) (sbind (updateClaimed w t owner
      (\<lambda>k r. r\<lparr>tr_holdMayExist := True, tr_lastAttemptAt := Some (sw_time w k)\<rparr>)) set_transfer)
    (\<lambda>u s. tr_holdMayExist (sg_transfer s))"
    by (rule triple_pre [OF triple_update_local [OF w, where R = tr_holdMayExist]])
      (auto simp: keeps_identity_def same_request_def row_le_def touched_def)
qed

lemma triple_step_validating:
  assumes w: "good_world w"
  shows "triple (\<lambda>s. local_rank s \<le> n) (step_validating w owner now) (\<lambda>goes_on s. goes_on \<longrightarrow> local_rank s < n)"
  unfolding step_validating_def
proof (intro triple_get_bind triple_bind)
  let ?hold = "\<lambda>s. tr_holdMayExist (sg_transfer s) \<and> local_rank s \<le> n"
  fix current
  show "triple (\<lambda>s. sg_transfer s = current \<and> local_rank s \<le> n)
      (case sw_policy w of None \<Rightarrow> sreturn () | Some p \<Rightarrow> slift (policy_validate p current now))
      (\<lambda>u s. True \<and> local_rank s \<le> n)"
    by (auto simp: triple_def sreturn_def slift_def split: option.splits)
  show "triple (\<lambda>s. True \<and> local_rank s \<le> n) (resolve_receiver w owner) (\<lambda>u s. True \<and> local_rank s \<le> n)"
    by (rule triple_rank [OF triple_resolve_receiver [OF w]])
  show "triple (\<lambda>s. True \<and> local_rank s \<le> n) (record_hold_intent w owner) (\<lambda>u. ?hold)"
    by (rule triple_rank [OF triple_record_hold_intent [OF w]])
  fix holding :: transfer
  have F: "stable (\<lambda>d c. tr_holdMayExist holding \<and> status_rank (tr_status holding) \<le> n)" by (rule stable_const)
  show "triple (\<lambda>s. sg_transfer s = holding \<and> ?hold s)
      (ledger_request (sw_placeHold w) holding [HoldRequested (tr_id holding)] (\<lambda>_. [HoldPlaced (tr_id holding)]))
      (\<lambda>u s. (sg_transfer s = holding \<and> tr_holdMayExist holding) \<and> HoldPlaced (tr_id holding) \<in> set (sg_calls s) \<and>
         local_rank s \<le> n)"
    by (rule triple_conseq [OF triple_ledger_request [OF F, of holding]]) (auto intro: saga_inv_log)
  show "triple (\<lambda>s. (sg_transfer s = holding \<and> tr_holdMayExist holding) \<and> HoldPlaced (tr_id holding) \<in> set (sg_calls s) \<and>
         local_rank s \<le> n)
      (advance w owner FundsHeld (\<lambda>k r. r\<lparr>tr_retryCount := 0, tr_nextRetryAt := None, tr_lastAttemptAt := Some (sw_time w k)\<rparr>))
      (\<lambda>goes_on s. goes_on \<longrightarrow> local_rank s < n)"
  proof (rule triple_advance [OF w stable_call, where P = "\<lambda>t. t = holding \<and> tr_holdMayExist holding"])
    show "row_history c (moved r FundsHeld now (r\<lparr>tr_retryCount := 0, tr_nextRetryAt := None, tr_lastAttemptAt := Some (sw_time w k)\<rparr>))"
      if "t = holding \<and> tr_holdMayExist holding" "same_but_lease t r" "HoldPlaced (tr_id holding) \<in> set c" for t k r c now
      using that same_but_leaseD [OF that(2)] by (simp add: row_history_def moved_def)
  qed (simp_all add: keeps_identity_def same_request_def final_status_def TERMINAL_STATUSES_def)
qed

lemma triple_step_processing:
  assumes w: "good_world w"
  shows "triple (\<lambda>s. tr_status (sg_transfer s) = Processing) (step_processing w owner) (\<lambda>goes_on s. \<not> goes_on)"
  unfolding step_processing_def
proof (rule triple_get_bind)
  fix t :: transfer
  show "triple (\<lambda>s. sg_transfer s = t \<and> tr_status (sg_transfer s) = Processing)
    (sbind (ledger_request (sw_settle w) t [SettleRequested (tr_id t)] (\<lambda>_. [SettleAcked (tr_id t)])) (\<lambda>_.
     sbind (complete w t owner) (\<lambda>_. sreturn False))) (\<lambda>goes_on s. \<not> goes_on)"
  proof (intro triple_bind)
    have F: "stable (\<lambda>d c. tr_status t = Processing)" by (rule stable_const)
    show "triple (\<lambda>s. sg_transfer s = t \<and> tr_status (sg_transfer s) = Processing)
      (ledger_request (sw_settle w) t [SettleRequested (tr_id t)] (\<lambda>_. [SettleAcked (tr_id t)]))
      (\<lambda>u s. sg_transfer s = t \<and> SettleAcked (tr_id t) \<in> set (sg_calls s))"
    proof (rule triple_conseq [OF triple_ledger_request [OF F, of t]])
      fix d c assume a: "saga_inv d c" "known t d c" "tr_status t = Processing"
      then have "HoldPlaced (tr_id t) \<in> set c" by (simp add: known_def row_history_def)
      with a show "saga_inv d (c @ [SettleRequested (tr_id t)])" by (auto intro: saga_inv_log)
    qed (auto intro: saga_inv_log)
    show "triple (\<lambda>s. sg_transfer s = t \<and> SettleAcked (tr_id t) \<in> set (sg_calls s)) (complete w t owner) (\<lambda>u s. True)"
      by (rule triple_complete [OF w stable_call]) simp
    show "triple (\<lambda>s. True) (sreturn False) (\<lambda>goes_on s. \<not> goes_on)" by (rule triple_pre [OF triple_return]) simp
  qed
qed

lemma triple_step_compensating:
  assumes w: "good_world w"
  shows "triple (\<lambda>s. True) (step_compensating w owner) (\<lambda>goes_on s. \<not> goes_on)"
  unfolding step_compensating_def
proof (rule triple_get_bind, rule triple_bind)
  fix t :: transfer
  let ?acked = "\<lambda>outcome. if outcome = Some ''already_settled'' then [AlreadySettled (tr_id t)] else [ReleaseAcked (tr_id t)]"
  show "triple (\<lambda>s. sg_transfer s = t \<and> True) (ledger_request (sw_release w) t [] ?acked)
    (\<lambda>outcome s. sg_transfer s = t \<and> set (?acked outcome) \<subseteq> set (sg_calls s))"
    by (rule triple_conseq [OF triple_ledger_request [OF stable_const, of t True]]) (auto intro: saga_inv_log)
  fix outcome
  have stop: "triple (\<lambda>s. True) (sreturn False) (\<lambda>goes_on s. \<not> goes_on)" by (rule triple_pre [OF triple_return]) simp
  have c: "triple (\<lambda>s. sg_transfer s = t \<and> AlreadySettled (tr_id t) \<in> set (sg_calls s))
      (sbind (complete w t owner) (\<lambda>_. sreturn False)) (\<lambda>goes_on s. \<not> goes_on)"
    by (rule triple_bind [OF triple_complete [OF w stable_call] stop]) simp
  have f: "triple (\<lambda>s. sg_transfer s = t \<and> ReleaseAcked (tr_id t) \<in> set (sg_calls s))
      (sbind (fail_transfer w t owner None) (\<lambda>_. sreturn False)) (\<lambda>goes_on s. \<not> goes_on)"
    by (rule triple_bind [OF triple_pre [OF triple_fail [OF w]] stop]) simp
  show "triple (\<lambda>s. sg_transfer s = t \<and> set (?acked outcome) \<subseteq> set (sg_calls s))
    (if outcome = Some ''already_settled'' then sbind (complete w t owner) (\<lambda>_. sreturn False)
     else sbind (fail_transfer w t owner None) (\<lambda>_. sreturn False)) (\<lambda>goes_on s. \<not> goes_on)"
    by (cases "outcome = Some ''already_settled''") (use c f in simp_all)
qed

lemma triple_saga_step:
  assumes w: "good_world w"
  shows "triple (\<lambda>s. \<not> final_status (tr_status (sg_transfer s)) \<and> local_rank s \<le> n) (saga_step w owner now)
    (\<lambda>goes_on s. goes_on \<longrightarrow> local_rank s < n)"
  unfolding saga_step_def
proof (rule triple_get_bind)
  fix t :: transfer
  have kp: "keeps_identity (\<lambda>r. r\<lparr>tr_retryCount := 0, tr_nextRetryAt := None\<rparr>)"
    by (simp add: keeps_identity_def same_request_def)
  have adv: "triple (\<lambda>s. sg_transfer s = t \<and> local_rank s \<le> n)
      (advance w owner nxt (\<lambda>k r. r\<lparr>tr_retryCount := 0, tr_nextRetryAt := None\<rparr>)) (\<lambda>goes_on s. goes_on \<longrightarrow> local_rank s < n)"
    if "(tr_status t, nxt) \<in> {(Pending, Validating), (FundsHeld, Processing)}" for nxt
  proof (rule triple_pre [OF triple_advance [OF w stable_const [of True] kp, where P = "\<lambda>x. x = t"]])
    show "row_history c (moved r nxt now' (r\<lparr>tr_retryCount := 0, tr_nextRetryAt := None\<rparr>))"
      if "x = t" "same_but_lease x r" "row_history c r" for x r c now'
      using that same_but_leaseD [OF that(2)] \<open>(tr_status t, nxt) \<in> _\<close> by (auto simp: row_history_def moved_def)
  qed (use that in \<open>auto simp: final_status_def TERMINAL_STATUSES_def\<close>)
  show "triple (\<lambda>s. sg_transfer s = t \<and> \<not> final_status (tr_status (sg_transfer s)) \<and> local_rank s \<le> n)
    (case tr_status t of
       Pending \<Rightarrow> advance w owner Validating (\<lambda>k r. r\<lparr>tr_retryCount := 0, tr_nextRetryAt := None\<rparr>)
     | Validating \<Rightarrow> step_validating w owner now
     | FundsHeld \<Rightarrow> advance w owner Processing (\<lambda>k r. r\<lparr>tr_retryCount := 0, tr_nextRetryAt := None\<rparr>)
     | Processing \<Rightarrow> step_processing w owner
     | Compensating \<Rightarrow> step_compensating w owner
     | _ \<Rightarrow> sreturn True) (\<lambda>goes_on s. goes_on \<longrightarrow> local_rank s < n)"
  proof (cases "tr_status t")
    case Pending
    then show ?thesis by simp (rule triple_pre [OF adv], auto)
  next
    case Validating
    then show ?thesis by simp (rule triple_pre [OF triple_step_validating [OF w]], auto)
  next
    case FundsHeld
    then show ?thesis by simp (rule triple_pre [OF adv], auto)
  next
    case Processing
    then show ?thesis by simp (rule triple_conseq [OF triple_step_processing [OF w]], auto)
  next
    case Compensating
    then show ?thesis by simp (rule triple_conseq [OF triple_step_compensating [OF w]], auto)
  qed (auto simp: triple_def final_status_def TERMINAL_STATUSES_def)
qed

section \<open>The loop\<close>

lemma triple_turn:
  assumes w: "good_world w"
  shows "triple (\<lambda>s. \<not> final_status (tr_status (sg_transfer s)) \<and> local_rank s \<le> n)
    (scatch (saga_step w owner now) (recover_step w owner now)) (\<lambda>goes_on s. goes_on \<longrightarrow> local_rank s < n)"
  by (rule triple_catch [OF triple_saga_step [OF w] triple_recover [OF w]])
    (use state_le_rank order_trans in blast)

lemma triple_run_loop:
  assumes w: "good_world w"
  shows "triple (\<lambda>s. True) (run_loop w owner now n) (\<lambda>u s. True)"
proof (induction n)
  case 0
  show ?case unfolding run_loop.simps
    by (rule triple_get_bind) (rule triple_conseq [OF triple_scheduleRetry [OF w]], auto)
next
  case (Suc n)
  show ?case unfolding run_loop.simps
  proof (rule triple_get_bind)
    fix t :: transfer
    have ret: "triple P (sreturn ()) (\<lambda>u s. True)" for P by (rule triple_pre [OF triple_return]) simp
    show "triple (\<lambda>s. sg_transfer s = t \<and> True) (if tr_status t \<in> set TERMINAL_STATUSES then sreturn ()
      else sbind (scatch (saga_step w owner now) (recover_step w owner now)) (\<lambda>goes_on.
        if goes_on then run_loop w owner now n else sreturn ())) (\<lambda>u s. True)"
    proof (cases "tr_status t \<in> set TERMINAL_STATUSES")
      case False
      have "triple (\<lambda>s. sg_transfer s = t) (sbind (scatch (saga_step w owner now) (recover_step w owner now)) (\<lambda>goes_on.
        if goes_on then run_loop w owner now n else sreturn ())) (\<lambda>u s. True)"
      proof (rule triple_bind)
        show "triple (\<lambda>s. sg_transfer s = t) (scatch (saga_step w owner now) (recover_step w owner now)) (\<lambda>g s. True)"
          by (rule triple_conseq [OF triple_turn [OF w, of "status_rank (tr_status t)"]])
            (use False in \<open>auto simp: final_status_def\<close>)
        show "triple (\<lambda>s. True) (if g then run_loop w owner now n else sreturn ()) (\<lambda>u s. True)" for g
          using Suc ret by simp
      qed
      with False show ?thesis by simp
    qed (simp add: ret)
  qed
qed

text \<open>Turns beyond the rank of the status change nothing.\<close>

lemma run_loop_budget:
  assumes w: "good_world w" and s: "state_inv s" "local_rank s < n" "n \<le> m"
  shows "run_loop w owner now m s = run_loop w owner now n s"
  using s
proof (induction n arbitrary: s m)
  case (Suc n)
  then obtain m' where m: "m = Suc m'" "n \<le> m'" by (cases m) auto
  show ?case
  proof (cases "tr_status (sg_transfer s) \<in> set TERMINAL_STATUSES")
    case True
    then show ?thesis by (simp add: m sbind_def get_transfer_def)
  next
    case False
    let ?turn = "scatch (saga_step w owner now) (recover_step w owner now)"
    obtain r s1 where t: "?turn s = (r, s1)" by fastforce
    have pre: "\<not> final_status (tr_status (sg_transfer s)) \<and> local_rank s \<le> local_rank s"
      using False by (simp add: final_status_def)
    note tr = tripleD [OF triple_turn [OF w] Suc.prems(1) pre t]
    have s1: "state_inv s1" by (rule tr(1))
    have s2: "local_rank s1 < n" if "r = Inr True" using tr(3) [OF that] Suc.prems(2) by simp
    show ?thesis
    proof (cases r)
      case (Inl e)
      then show ?thesis using t by (simp add: m sbind_def get_transfer_def)
    next
      case (Inr g)
      then show ?thesis using t Suc.IH [OF s1 s2 m(2)] False
        by (cases g) (simp_all add: m sbind_def get_transfer_def)
    qed
  qed
qed simp

end
