(* ===== verification/Saga_Safety.thy ===== *)
theory Saga_Safety
  imports Saga_Steps
begin

text \<open>
  What the saga guarantees: whatever the ledger answers and whatever other workers, requests and
  timers do in between, as long as they too keep the invariant, one run or one recovery pass keeps
  it. The invariant ties the status of a transfer to what the ledger has acknowledged and to the
  outbox.
\<close>

section \<open>Claiming\<close>

lemma lease_change_keeps:
  assumes inv: "saga_inv d c"
    and f: "\<And>r. same_but_lease r (f r)" "\<And>r. final_status (tr_status r) \<Longrightarrow> f r = r"
  shows "saga_inv (d\<lparr>pd_transfers := map f (pd_transfers d)\<rparr>) c \<and> db_le d (d\<lparr>pd_transfers := map f (pd_transfers d)\<rparr>)"
proof
  let ?d = "d\<lparr>pd_transfers := map f (pd_transfers d)\<rparr>"
  note same = same_but_leaseD [OF f(1)]
  have "keys_unique ?d = keys_unique d" by (rule keys_unique_cong) (simp add: same)
  moreover have "{tr_id r | r. r \<in> set (pd_transfers ?d) \<and> tr_status r = Completed} =
      {tr_id r | r. r \<in> set (pd_transfers d) \<and> tr_status r = Completed}"
    by (auto simp: same) (metis imageI same(1,3))
  moreover have "row_history c (f r) = row_history c r" for r by (rule row_history_lease [OF f(1)])
  moreover have "tr_leaseOwner (f r) = None" if "final_status (tr_status r)" "tr_leaseOwner r = None" for r
    using f(2) [OF that(1)] that(2) by simp
  moreover have "bills_inv ?d"
  proof (rule bills_inv_cong [of d])
    fix x assume "x \<in> set (pd_transfers ?d)"
    then obtain r where "r \<in> set (pd_transfers d)" "x = f r" by auto
    then show "\<exists>t \<in> set (pd_transfers d). tr_splitBillShareId x = tr_splitBillShareId t \<and> tr_amountMinor x = tr_amountMinor t"
      using same by auto
  qed (use inv in \<open>simp_all add: saga_inv_def\<close>)
  ultimately show "saga_inv ?d c"
    using inv by (auto simp: saga_inv_def completed_ids_def same image_image)
  show "db_le d ?d" using f(1)
    by (fastforce simp: db_le_def row_le_def same_request_def same)
qed

lemma claim_keeps:
  assumes "saga_inv d c" "claim_rows i owner until now d = Inr (d', n)"
  shows "saga_inv d' c \<and> db_le d d'"
proof -
  let ?f = "\<lambda>r. if claimable_transfer i now r then r\<lparr>tr_leaseOwner := Some owner, tr_leaseUntil := Some until\<rparr> else r"
  have "d' = d\<lparr>pd_transfers := map ?f (pd_transfers d)\<rparr>"
    using update_transfers_ok(1) assms(2) unfolding claim_rows_def by blast
  moreover have "same_but_lease r (?f r)" for r by (simp add: same_but_lease_def)
  moreover have "?f r = r" if "final_status (tr_status r)" for r using that by (simp add: claimable_transfer_def)
  ultimately show ?thesis using lease_change_keeps [OF assms(1), of ?f] by simp
qed

text \<open>A statement before the local variable is set.\<close>

definition books :: "saga_state \<Rightarrow> bool" where
  "books s = saga_inv (sg_db s) (sg_calls s)"

lemma world_le_trans: "world_le s s' \<Longrightarrow> world_le s' s'' \<Longrightarrow> world_le s s''"
  unfolding world_le_def by (meson db_le_trans subset_trans)

lemma db_stmt_keeps:
  assumes w: "good_world w" and s: "books s" "db_stmt w f s = (r, s')"
    and step: "\<And>k d c d' x. saga_inv d c \<Longrightarrow> f k d = Inr (d', x) \<Longrightarrow> saga_inv d' c \<and> db_le d d' \<and> R d' x"
  shows "books s' \<and> world_le s s' \<and> (\<forall>x. r = Inr x \<longrightarrow> R (sg_db s') x)"
proof -
  obtain d c where e: "sw_env w (sg_clock s) (sg_db s, sg_calls s) = (d, c)" by fastforce
  have inv: "saga_inv d c" "db_le (sg_db s) d" "set (sg_calls s) \<subseteq> set c"
    using w s(1) e unfolding good_world_def books_def by blast+
  show ?thesis
  proof (cases "f (sg_clock s) d")
    case (Inl err)
    with s(2) e inv show ?thesis by (auto simp: db_stmt_def books_def world_le_def)
  next
    case (Inr p)
    obtain d' x where p: "p = (d', x)" by fastforce
    have st: "saga_inv d' c" "db_le d d'" "R d' x" using step [OF inv(1)] Inr p by auto
    have "db_le (sg_db s) d'" using inv(2) st(2) by (rule db_le_trans)
    with s(2) e inv st Inr p show ?thesis by (auto simp: db_stmt_def books_def world_le_def)
  qed
qed

lemma read_keeps:
  assumes w: "good_world w" and s: "books s" "read_transfer w i s = (r, s')"
  shows "books s' \<and> world_le s s' \<and> (\<forall>t. r = Inr t \<longrightarrow> t \<in> set (pd_transfers (sg_db s')))"
  using s(2) unfolding read_transfer_def
  by (rule db_stmt_keeps [OF w s(1)]) (auto simp: result_simps transfer_by_id_ok dest: find_transfer_Some)

lemma claim_transfer_keeps:
  assumes w: "good_world w" and s: "books s" "claim_transfer w i owner now s = (r, s')"
  shows "books s' \<and> world_le s s' \<and> (\<forall>t. r = Inr (Some t) \<longrightarrow> t \<in> set (pd_transfers (sg_db s')))"
proof -
  let ?f = "\<lambda>k. claim_rows i owner (now + sw_leaseMs w) now"
  obtain r1 s1 where c: "db_stmt w ?f s = (r1, s1)" by fastforce
  have k1: "books s1 \<and> world_le s s1"
    using db_stmt_keeps [OF w s(1) c, of "\<lambda>d x. True"] claim_keeps by auto
  show ?thesis
  proof (cases r1)
    case (Inl e)
    with s(2) c k1 show ?thesis by (auto simp: claim_transfer_def sbind_def)
  next
    case (Inr n)
    show ?thesis
    proof (cases "sw_rawLength w n = 0")
      case True
      with s(2) c Inr k1 show ?thesis by (auto simp: claim_transfer_def sbind_def sreturn_def)
    next
      case False
      obtain r2 s2 where rd: "read_transfer w i s1 = (r2, s2)" by fastforce
      note k2 = read_keeps [OF w conjunct1 [OF k1] rd]
      with s(2) c Inr False rd k1 world_le_trans show ?thesis
        by (auto simp: claim_transfer_def sbind_def sreturn_def split: sum.splits)
    qed
  qed
qed

lemma run_saga_keeps:
  assumes w: "good_world w" and s: "books s" "run_saga w i owner now s = (r, s')"
  shows "books s' \<and> world_le s s'"
proof -
  obtain r1 s1 where c: "claim_transfer w i owner now s = (r1, s1)" by fastforce
  note k1 = claim_transfer_keeps [OF w s(1) c]
  show ?thesis
  proof (cases "\<exists>t. r1 = Inr (Some t)")
    case True
    then obtain t where t: "r1 = Inr (Some t)" by blast
    let ?s = "s1\<lparr>sg_transfer := t\<rparr>"
    have "t \<in> set (pd_transfers (sg_db s1))" using k1 t by blast
    then have i: "state_inv ?s"
      using k1 by (auto simp: state_inv_def books_def saga_inv_def intro!: new_row_known)
    have l: "run_loop w owner now 8 ?s = (r, s')"
      using s(2) c t by (simp add: run_saga_def sbind_def set_transfer_def)
    note tr = tripleD [OF triple_run_loop [OF w] i TrueI l]
    have "world_le s1 s'" using tr(2) by (simp add: state_le_def world_le_def)
    with tr(1) k1 world_le_trans show ?thesis by (auto simp: state_inv_def books_def)
  next
    case False
    then have "r1 = Inr None \<or> (\<exists>e. r1 = Inl e)" by (metis not_None_eq sum.exhaust)
    with s(2) c k1 show ?thesis by (auto simp: run_saga_def sbind_def sreturn_def)
  qed
qed

lemma run_each_keeps:
  assumes w: "good_world w"
  shows "books s \<Longrightarrow> run_each w owner now ids s = (r, s') \<Longrightarrow> books s' \<and> world_le s s'"
proof (induction ids arbitrary: s)
  case Nil
  then show ?case by (simp add: sreturn_def)
next
  case (Cons i ids)
  obtain r1 s1 where c: "run_saga w i (owner i) now s = (r1, s1)" by fastforce
  note k1 = run_saga_keeps [OF w Cons.prems(1) c]
  show ?case
  proof (cases r1)
    case (Inl e)
    with Cons.prems c k1 show ?thesis by (simp add: sbind_def)
  next
    case (Inr u)
    then have "run_each w owner now ids s1 = (r, s')" using Cons.prems c by (simp add: sbind_def)
    with Cons.IH [of s1] k1 world_le_trans show ?thesis by blast
  qed
qed

lemma recoverDue_keeps:
  assumes w: "good_world w" and s: "books s" "recoverDue w owner now limit s = (r, s')"
  shows "books s' \<and> world_le s s'"
proof -
  obtain r1 s1 where c: "db_stmt w (\<lambda>k d. Inr (d, due_transfers now limit d)) s = (r1, s1)" by fastforce
  have k1: "books s1 \<and> world_le s s1" using db_stmt_keeps [OF w s(1) c, of "\<lambda>d x. True"] by auto
  show ?thesis
  proof (cases r1)
    case (Inl e)
    with s(2) c k1 show ?thesis by (simp add: recoverDue_def sbind_def)
  next
    case (Inr ids)
    obtain r2 s2 where e: "run_each w owner now ids s1 = (r2, s2)" by fastforce
    have "s' = s2" using s(2) c Inr e by (cases r2) (auto simp: recoverDue_def sbind_def sreturn_def)
    with run_each_keeps [OF w conjunct1 [OF k1] e] k1 world_le_trans show ?thesis by blast
  qed
qed

end
