(* ===== verification/Saga_Progress.thy ===== *)
theory Saga_Progress
  imports Saga_Safety
begin

text \<open>
  What the saga does when nobody interferes: its statements succeed on the row it has claimed, and
  the run brings the transfer to its end. These are the results the properties about outcomes rest
  on; a world is quiet if its environment changes nothing.
\<close>

section \<open>Statements on a claimed row\<close>

definition quiet :: "saga_world \<Rightarrow> bool" where
  "quiet w = (\<forall>k dc. sw_env w k dc = dc)"

lemma quiet_good: "quiet w \<Longrightarrow> good_world w"
  by (auto simp: quiet_def good_world_def)

lemma quiet_db_stmt:
  "quiet w \<Longrightarrow> db_stmt w f s = (case f (sg_clock s) (sg_db s) of
     Inl e \<Rightarrow> (Inl e, s\<lparr>sg_clock := Suc (sg_clock s)\<rparr>)
   | Inr (d', x) \<Rightarrow> (Inr x, s\<lparr>sg_db := d', sg_clock := Suc (sg_clock s)\<rparr>))"
  by (auto simp: db_stmt_def quiet_def split: sum.splits)

lemma update_own_row:
  assumes keys: "keys_unique d" and r: "r \<in> set (pd_transfers d)" "P r" and id: "\<And>x. tr_id (patch x) = tr_id x"
    and fits: "transfer_fits (patch r) = Inr ()"
  shows "update_transfers (\<lambda>x. tr_id x = tr_id r \<and> P x) patch d = Inr (replace_row (patch r) d, 1)"
proof -
  have only: "x = r" if "x \<in> set (pd_transfers d)" "tr_id x = tr_id r" for x
    using same_id_same_row [OF keys r(1) that] .
  have "filter (\<lambda>x. tr_id x = tr_id r \<and> P x) (pd_transfers d) = filter (\<lambda>x. x = r) (pd_transfers d)"
    using only r(2) by (intro filter_cong) auto
  moreover have "length (filter (\<lambda>x. x = r) (pd_transfers d)) = 1"
  proof -
    have "distinct (pd_transfers d)" using keys by (auto simp: keys_unique_def distinct_map)
    then have "length (filter (\<lambda>x. x = r) (pd_transfers d)) = card (set (filter (\<lambda>x. x = r) (pd_transfers d)))"
      by (simp only: distinct_card distinct_filter)
    also have "set (filter (\<lambda>x. x = r) (pd_transfers d)) = {r}" using r(1) by auto
    finally show ?thesis by simp
  qed
  moreover have "map (\<lambda>t. if tr_id t = tr_id r \<and> P t then patch t else t) (pd_transfers d) =
      pd_transfers (replace_row (patch r) d)"
    using only r(2) id by (auto simp: replace_row_def)
  moreover have "transfer_fits (patch x) = Inr ()" if "x \<in> set (pd_transfers d)" "tr_id x = tr_id r \<and> P x" for x
    using only [OF that(1)] that(2) fits by simp
  ultimately show ?thesis
    by (subst update_transfers_succeeds) (auto simp: replace_row_def)
qed

lemma own_row_replaced:
  assumes "keys_unique d" "r \<in> set (pd_transfers d)" "same_request r r'"
  shows "keys_unique (replace_row r' d)" "r' \<in> set (pd_transfers (replace_row r' d))"
    "transfer_by_id (replace_row r' d) (tr_id r) = Inr r'"
proof -
  have id: "tr_id r' = tr_id r" using assms(3) by (simp add: same_request_def)
  show k: "keys_unique (replace_row r' d)" by (rule replace_row_keys [OF assms])
  show m: "r' \<in> set (pd_transfers (replace_row r' d))" using replace_row_mem [OF assms(1,2) id] by simp
  show "transfer_by_id (replace_row r' d) (tr_id r) = Inr r'"
    using find_transfer_own [OF k m] id by (simp add: transfer_by_id_ok)
qed

lemma transition_succeeds:
  assumes "keys_unique d" "r \<in> set (pd_transfers d)" "tr_leaseOwner r = Some owner" "keeps_identity patch"
    and "nxt \<in> set (ALLOWED_TRANSITIONS (tr_status r))" "transfer_fits (moved r nxt now (patch r)) = Inr ()"
  shows "transitionUsingManager r owner nxt patch now d =
    Inr (replace_row (moved r nxt now (patch r)) d, moved r nxt now (patch r))"
proof -
  have sr: "same_request x (moved x nxt now (patch x))" for x
    using assms(4) by (simp add: moved_def keeps_identity_def same_request_def)
  have "update_transfers (\<lambda>x. tr_id x = tr_id r \<and> (tr_status x = tr_status r \<and> tr_version x = tr_version r \<and>
      tr_leaseOwner x = Some owner)) (\<lambda>x. moved x nxt now (patch x)) d = Inr (replace_row (moved r nxt now (patch r)) d, 1)"
    using assms sr by (intro update_own_row) (auto simp: same_request_def)
  then show ?thesis using assms(5) own_row_replaced(3) [OF assms(1,2) sr]
    by (simp add: transitionUsingManager_def moved_def assertTransferTransition_def)
qed

lemma update_claimed_succeeds:
  assumes "keys_unique d" "r \<in> set (pd_transfers d)" "tr_leaseOwner r = Some owner" "keeps_identity patch"
    and "transfer_fits (touched r now (patch r)) = Inr ()"
  shows "update_claimed_rows r owner patch now d = Inr (replace_row (touched r now (patch r)) d, ())"
proof -
  have sr: "same_request x (touched x now (patch x))" for x
    using assms(4) by (simp add: touched_def keeps_identity_def same_request_def)
  have "update_transfers (\<lambda>x. tr_id x = tr_id r \<and> (tr_version x = tr_version r \<and>
      tr_leaseOwner x = Some owner)) (\<lambda>x. touched x now (patch x)) d = Inr (replace_row (touched r now (patch r)) d, 1)"
    using assms sr by (intro update_own_row) (auto simp: same_request_def)
  then show ?thesis by (simp add: update_claimed_rows_def touched_def)
qed

text \<open>The state of a worker that holds the lease of the row in its local variable.\<close>

definition working :: "string \<Rightarrow> transfer \<Rightarrow> saga_state \<Rightarrow> bool" where
  "working owner r s = (keys_unique (sg_db s) \<and> r \<in> set (pd_transfers (sg_db s)) \<and> sg_transfer s = r \<and>
     tr_leaseOwner r = Some owner)"

lemma run_advance:
  assumes w: "quiet w" and s: "working owner r s" and p: "keeps_identity (patch (sg_clock s))"
    "tr_leaseOwner (patch (sg_clock s) r) = Some owner"
    and n: "nxt \<in> set (ALLOWED_TRANSITIONS (tr_status r))"
    and fits: "transfer_fits (moved r nxt (sw_time w (sg_clock s)) (patch (sg_clock s) r)) = Inr ()"
  shows "\<exists>s' r'. advance w owner nxt patch s = (Inr True, s') \<and> working owner r' s' \<and>
    r' = moved r nxt (sw_time w (sg_clock s)) (patch (sg_clock s) r) \<and>
    s' = s\<lparr>sg_db := replace_row r' (sg_db s), sg_clock := Suc (sg_clock s), sg_transfer := r'\<rparr>"
proof -
  let ?k = "sg_clock s"
  let ?r = "moved r nxt (sw_time w ?k) (patch ?k r)"
  have k: "keys_unique (sg_db s)" "r \<in> set (pd_transfers (sg_db s))" "sg_transfer s = r" "tr_leaseOwner r = Some owner"
    using s by (auto simp: working_def)
  note t = transition_succeeds [OF k(1,2,4) p(1) n fits]
  have "same_request r ?r" using p(1) by (simp add: moved_def keeps_identity_def same_request_def)
  note o = own_row_replaced [OF k(1,2) this]
  have "advance w owner nxt patch s =
      (Inr True, s\<lparr>sg_db := replace_row ?r (sg_db s), sg_clock := Suc ?k, sg_transfer := ?r\<rparr>)"
    by (simp add: advance_def sbind_def get_transfer_def k(3) transitionClaimed_def quiet_db_stmt [OF w] t
        set_transfer_def sreturn_def)
  moreover have "tr_leaseOwner ?r = Some owner" using p(2) by (simp add: moved_def)
  ultimately show ?thesis using o by (auto simp: working_def)
qed

lemma run_update:
  assumes w: "quiet w" and s: "working owner r s" and p: "keeps_identity (patch (sg_clock s))"
    "tr_leaseOwner (patch (sg_clock s) r) = Some owner"
    and fits: "transfer_fits (touched r (sw_time w (sg_clock s)) (patch (sg_clock s) r)) = Inr ()"
  shows "\<exists>s' r'. sbind (updateClaimed w r owner patch) set_transfer s = (Inr (), s') \<and> working owner r' s' \<and>
    r' = touched r (sw_time w (sg_clock s)) (patch (sg_clock s) r) \<and>
    s' = s\<lparr>sg_db := replace_row r' (sg_db s), sg_clock := Suc (Suc (sg_clock s)), sg_transfer := r'\<rparr>"
proof -
  let ?k = "sg_clock s"
  let ?r = "touched r (sw_time w ?k) (patch ?k r)"
  have k: "keys_unique (sg_db s)" "r \<in> set (pd_transfers (sg_db s))" "sg_transfer s = r" "tr_leaseOwner r = Some owner"
    using s by (auto simp: working_def)
  note u = update_claimed_succeeds [OF k(1,2,4) p(1) fits]
  have "same_request r ?r" using p(1) by (simp add: touched_def keeps_identity_def same_request_def)
  note o = own_row_replaced [OF k(1,2) this]
  have "sbind (updateClaimed w r owner patch) set_transfer s =
      (Inr (), s\<lparr>sg_db := replace_row ?r (sg_db s), sg_clock := Suc (Suc ?k), sg_transfer := ?r\<rparr>)"
    by (simp add: updateClaimed_def sbind_def quiet_db_stmt [OF w] u read_transfer_def o(3) set_transfer_def)
  moreover have "tr_leaseOwner ?r = Some owner" using p(2) by (simp add: touched_def)
  ultimately show ?thesis using o by (auto simp: working_def)
qed

text \<open>The terms of a transfer: all columns but those the saga writes.\<close>

definition terms :: "transfer \<Rightarrow> transfer" where
  "terms t = t\<lparr>tr_receiverWalletId := None, tr_status := Pending, tr_failureCode := None, tr_failureMessage := None,
     tr_retryCount := 0, tr_nextRetryAt := None, tr_holdMayExist := False, tr_lastAttemptAt := None,
     tr_leaseOwner := None, tr_leaseUntil := None, tr_version := 0, tr_updatedAt := 0\<rparr>"

lemma terms_sel:
  "tr_id (terms t) = tr_id t"
  "tr_receiverReference (terms t) = tr_receiverReference t"
  "tr_currency (terms t) = tr_currency t"
  "tr_destinationCurrency (terms t) = tr_destinationCurrency t"
  "tr_fxDisplayRate (terms t) = tr_fxDisplayRate t"
  "tr_idempotencyKey (terms t) = tr_idempotencyKey t"
  "tr_requestFingerprint (terms t) = tr_requestFingerprint t"
  "tr_amountMinor (terms t) = tr_amountMinor t"
  "tr_destinationAmountMinor (terms t) = tr_destinationAmountMinor t"
  "tr_fxRateNumerator (terms t) = tr_fxRateNumerator t"
  "tr_fxRateDenominator (terms t) = tr_fxRateDenominator t"
  "tr_splitBillShareId (terms t) = tr_splitBillShareId t"
  "tr_fxExpiresAt (terms t) = tr_fxExpiresAt t"
  "tr_senderUserId (terms t) = tr_senderUserId t"
  by (simp_all add: terms_def)

lemmas terms_eqD =
  arg_cong [of "terms t'" "terms t" tr_id for t t', unfolded terms_sel]
  arg_cong [of "terms t'" "terms t" tr_receiverReference for t t', unfolded terms_sel]
  arg_cong [of "terms t'" "terms t" tr_currency for t t', unfolded terms_sel]
  arg_cong [of "terms t'" "terms t" tr_destinationCurrency for t t', unfolded terms_sel]
  arg_cong [of "terms t'" "terms t" tr_fxDisplayRate for t t', unfolded terms_sel]
  arg_cong [of "terms t'" "terms t" tr_idempotencyKey for t t', unfolded terms_sel]
  arg_cong [of "terms t'" "terms t" tr_requestFingerprint for t t', unfolded terms_sel]
  arg_cong [of "terms t'" "terms t" tr_amountMinor for t t', unfolded terms_sel]
  arg_cong [of "terms t'" "terms t" tr_destinationAmountMinor for t t', unfolded terms_sel]
  arg_cong [of "terms t'" "terms t" tr_fxRateNumerator for t t', unfolded terms_sel]
  arg_cong [of "terms t'" "terms t" tr_fxRateDenominator for t t', unfolded terms_sel]
  arg_cong [of "terms t'" "terms t" tr_splitBillShareId for t t', unfolded terms_sel]
  arg_cong [of "terms t'" "terms t" tr_fxExpiresAt for t t', unfolded terms_sel]
  arg_cong [of "terms t'" "terms t" tr_senderUserId for t t', unfolded terms_sel]

lemma terms_moved [simp]: "terms (moved r n now p) = terms p"
  by (simp add: moved_def terms_def)

lemma terms_touched [simp]: "terms (touched r now p) = terms p"
  by (simp add: touched_def terms_def)

lemma transfer_fits_iff:
  "transfer_fits t = Inr () \<longleftrightarrow>
     length (tr_receiverReference t) \<le> 320 \<and> length (tr_currency t) \<le> 3 \<and> length (tr_destinationCurrency t) \<le> 3 \<and>
     length (tr_fxDisplayRate t) \<le> 40 \<and> length (tr_idempotencyKey t) \<le> 200 \<and> length (tr_requestFingerprint t) \<le> 64 \<and>
     (\<forall>c. tr_failureCode t = Some c \<longrightarrow> length c \<le> 100) \<and>
     pg_bigint (tr_amountMinor t) \<and> pg_bigint (tr_destinationAmountMinor t) \<and> pg_bigint (tr_fxRateNumerator t) \<and>
     pg_bigint (tr_fxRateDenominator t) \<and> pg_integer (tr_retryCount t) \<and> pg_integer (tr_version t) \<and>
     0 < tr_amountMinor t \<and> 0 < tr_destinationAmountMinor t \<and> 0 < tr_fxRateNumerator t \<and> 0 < tr_fxRateDenominator t \<and>
     0 \<le> tr_retryCount t"
  unfolding transfer_fits_def if_Inl_eq_Inr by (cases "tr_failureCode t") (simp_all add: not_less not_le conj_ac)

text \<open>The constraints of the table depend on the terms, the version, the retries and the failure code.\<close>

lemma transfer_fits_terms:
  assumes "transfer_fits t = Inr ()" "terms t' = terms t" "pg_integer (tr_version t')" "pg_integer (tr_retryCount t')"
    and "0 \<le> tr_retryCount t'" "\<And>c. tr_failureCode t' = Some c \<Longrightarrow> length c \<le> 100"
  shows "transfer_fits t' = Inr ()"
  using assms(1,3-6) unfolding transfer_fits_iff terms_eqD [OF assms(2)] by blast

lemma policy_terms:
  assumes "terms t' = terms t"
  shows "policy_validate p t' now = policy_validate p t now"
  unfolding policy_validate_def terms_eqD [OF assms] ..

lemma moved_sel [simp]:
  "tr_status (moved r n now p) = n" "tr_version (moved r n now p) = tr_version r + 1"
  "tr_leaseOwner (moved r n now p) = tr_leaseOwner p" "tr_holdMayExist (moved r n now p) = tr_holdMayExist p"
  "tr_receiverWalletId (moved r n now p) = tr_receiverWalletId p" "tr_retryCount (moved r n now p) = tr_retryCount p"
  "tr_failureCode (moved r n now p) = tr_failureCode p"
  by (simp_all add: moved_def)

lemma touched_sel [simp]:
  "tr_status (touched r now p) = tr_status p" "tr_version (touched r now p) = tr_version r + 1"
  "tr_leaseOwner (touched r now p) = tr_leaseOwner p" "tr_holdMayExist (touched r now p) = tr_holdMayExist p"
  "tr_receiverWalletId (touched r now p) = tr_receiverWalletId p" "tr_retryCount (touched r now p) = tr_retryCount p"
  "tr_failureCode (touched r now p) = tr_failureCode p"
  by (simp_all add: touched_def)

section \<open>Turns of the loop\<close>

lemma run_loop_turn:
  assumes "\<not> final_status (tr_status (sg_transfer s))" "saga_step w owner now s = (Inr g, s1)"
  shows "run_loop w owner now (Suc n) s = (if g then run_loop w owner now n s1 else (Inr (), s1))"
  using assms by (simp add: sbind_def get_transfer_def scatch_def sreturn_def final_status_def)

text \<open>What a worker has made of the transfer \<open>t\<close> after \<open>j\<close> writes, starting from the database \<open>d\<close>.\<close>

definition progressed :: "string \<Rightarrow> transfer \<Rightarrow> int \<Rightarrow> payments_db \<Rightarrow> transfer \<Rightarrow> saga_state \<Rightarrow> bool" where
  "progressed owner t j d r s = (working owner r s \<and> terms r = terms t \<and> tr_version r = tr_version t + j \<and>
     tr_retryCount r \<in> {0, tr_retryCount t} \<and> tr_failureCode r \<in> {None, tr_failureCode t} \<and> sg_db s = replace_row r d)"

lemma replace_row_twice: "tr_id r = tr_id r' \<Longrightarrow> replace_row r' (replace_row r d) = replace_row r' d"
  by (simp add: replace_row_def o_def)

lemma replace_row_self:
  assumes "keys_unique d" "r \<in> set (pd_transfers d)"
  shows "replace_row r d = d"
proof -
  have "map (\<lambda>x. if tr_id x = tr_id r then r else x) (pd_transfers d) = pd_transfers d"
    by (rule map_idI) (use same_id_same_row [OF assms] in auto)
  then show ?thesis by (simp add: replace_row_def)
qed

lemma claim_succeeds:
  fixes owner :: string
  assumes w: "quiet w" and keys: "keys_unique (sg_db s)" and t: "t \<in> set (pd_transfers (sg_db s))"
    and due: "recoverable now t" and fits: "transfer_fits t = Inr ()" and raw: "sw_rawLength w 1 \<noteq> 0"
  defines "t1 \<equiv> t\<lparr>tr_leaseOwner := Some owner, tr_leaseUntil := Some (now + sw_leaseMs w)\<rparr>"
  shows "claim_transfer w (tr_id t) owner now s = (Inr (Some t1),
    s\<lparr>sg_db := replace_row t1 (sg_db s), sg_clock := Suc (Suc (sg_clock s))\<rparr>)"
proof -
  let ?patch = "\<lambda>r. r\<lparr>tr_leaseOwner := Some owner, tr_leaseUntil := Some (now + sw_leaseMs w)\<rparr>"
  have uu: "pg_uuid (tr_id t) = tr_id t"
    using keys t by (simp add: keys_unique_def list_all_iff canonical_def)
  have sel: "claimable_transfer (tr_id t) now = (\<lambda>x. tr_id x = tr_id t \<and> recoverable now x)"
    by (simp add: fun_eq_iff claimable_transfer_def recoverable_def uu)
  have "transfer_fits t1 = transfer_fits t" by (simp add: transfer_fits_def t1_def)
  then have "transfer_fits t1 = Inr ()" using fits by simp
  then have "claim_rows (tr_id t) owner (now + sw_leaseMs w) now (sg_db s) = Inr (replace_row t1 (sg_db s), 1)"
    unfolding claim_rows_def sel t1_def by (intro update_own_row [where P = "recoverable now", OF keys t due]) simp_all
  moreover have "same_request t t1" by (simp add: same_request_def t1_def)
  note own_row_replaced(3) [OF keys t this]
  ultimately show ?thesis using raw
    by (simp add: claim_transfer_def sbind_def quiet_db_stmt [OF w] read_transfer_def sreturn_def)
qed

lemma progressed_fits:
  assumes "progressed owner t j d r s" "transfer_fits t = Inr ()" "pg_integer (tr_version t + 8)" "0 \<le> j" "j < 8"
    and "terms r' = terms r" "tr_version r' = tr_version r + 1" "tr_retryCount r' \<in> {0, tr_retryCount r}"
    and "tr_failureCode r' \<in> {None, tr_failureCode r}"
  shows "transfer_fits r' = Inr ()"
proof (rule transfer_fits_terms [OF assms(2)])
  have t: "pg_integer (tr_retryCount t)" "0 \<le> tr_retryCount t" "pg_integer (tr_version t)"
    "\<And>c. tr_failureCode t = Some c \<Longrightarrow> length c \<le> 100"
    using assms(2) by (auto simp: transfer_fits_iff)
  show "terms r' = terms t" using assms by (simp add: progressed_def)
  show "pg_integer (tr_version r')" using assms t(3) by (auto simp: progressed_def pg_integer_def)
  show "pg_integer (tr_retryCount r')" "0 \<le> tr_retryCount r'"
    using assms(1,8) t by (auto simp: progressed_def pg_integer_def)
  show "length c \<le> 100" if "tr_failureCode r' = Some c" for c
    using assms(1,9) t that by (auto simp: progressed_def)
qed

lemma stage_advance:
  assumes w: "quiet w" and s: "progressed owner t j d r s"
    and ok: "transfer_fits t = Inr ()" "pg_integer (tr_version t + 8)" "0 \<le> j" "j < 8"
    and p: "keeps_identity (patch (sg_clock s))" "terms (patch (sg_clock s) r) = terms r"
      "tr_leaseOwner (patch (sg_clock s) r) = tr_leaseOwner r" "tr_retryCount (patch (sg_clock s) r) = 0"
      "tr_failureCode (patch (sg_clock s) r) = tr_failureCode r"
    and n: "nxt \<in> set (ALLOWED_TRANSITIONS (tr_status r))"
  shows "\<exists>r' s'. advance w owner nxt patch s = (Inr True, s') \<and> progressed owner t (j + 1) d r' s' \<and>
    tr_status r' = nxt \<and> tr_holdMayExist r' = tr_holdMayExist (patch (sg_clock s) r) \<and>
    tr_receiverWalletId r' = tr_receiverWalletId (patch (sg_clock s) r) \<and> sg_calls s' = sg_calls s"
proof -
  let ?r = "moved r nxt (sw_time w (sg_clock s)) (patch (sg_clock s) r)"
  have wk: "working owner r s" using s by (simp add: progressed_def)
  have fits: "transfer_fits ?r = Inr ()" by (rule progressed_fits [OF s ok]) (simp_all add: p)
  have l: "tr_leaseOwner (patch (sg_clock s) r) = Some owner" using wk p(3) by (simp add: working_def)
  obtain s' where s': "advance w owner nxt patch s = (Inr True, s')" "working owner ?r s'"
      "s' = s\<lparr>sg_db := replace_row ?r (sg_db s), sg_clock := Suc (sg_clock s), sg_transfer := ?r\<rparr>"
    using run_advance [where patch = patch, OF w wk p(1) l n fits] by blast
  have "tr_id r = tr_id ?r" using terms_eqD(1) [of ?r r] p(2) by simp
  then have "sg_db s' = replace_row ?r d" using s s'(3) by (simp add: progressed_def replace_row_twice)
  with s' s p have "progressed owner t (j + 1) d ?r s'" by (auto simp: progressed_def)
  with s' show ?thesis by (intro exI [of _ ?r] exI [of _ s']) simp
qed

lemma stage_update:
  assumes w: "quiet w" and s: "progressed owner t j d r s"
    and ok: "transfer_fits t = Inr ()" "pg_integer (tr_version t + 8)" "0 \<le> j" "j < 8"
    and p: "keeps_identity (patch (sg_clock s))" "terms (patch (sg_clock s) r) = terms r"
      "tr_leaseOwner (patch (sg_clock s) r) = tr_leaseOwner r" "tr_retryCount (patch (sg_clock s) r) \<in> {0, tr_retryCount r}"
      "tr_failureCode (patch (sg_clock s) r) \<in> {None, tr_failureCode r}"
  shows "\<exists>r' s'. sbind (updateClaimed w r owner patch) set_transfer s = (Inr (), s') \<and>
    progressed owner t (j + 1) d r' s' \<and>
    tr_status r' = tr_status r \<and> tr_holdMayExist r' = tr_holdMayExist (patch (sg_clock s) r) \<and>
    tr_receiverWalletId r' = tr_receiverWalletId (patch (sg_clock s) r) \<and> sg_calls s' = sg_calls s"
proof -
  let ?r = "touched r (sw_time w (sg_clock s)) (patch (sg_clock s) r)"
  have wk: "working owner r s" using s by (simp add: progressed_def)
  have fits: "transfer_fits ?r = Inr ()"
    by (rule progressed_fits [OF s ok]) (use p in simp_all)
  have l: "tr_leaseOwner (patch (sg_clock s) r) = Some owner" using wk p(3) by (simp add: working_def)
  obtain s' where s': "sbind (updateClaimed w r owner patch) set_transfer s = (Inr (), s')" "working owner ?r s'"
      "s' = s\<lparr>sg_db := replace_row ?r (sg_db s), sg_clock := Suc (Suc (sg_clock s)), sg_transfer := ?r\<rparr>"
    using run_update [where patch = patch, OF w wk p(1) l fits] by blast
  have st: "tr_status (patch (sg_clock s) r) = tr_status r" using p(1) by (simp add: keeps_identity_def)
  have "tr_id r = tr_id ?r" using terms_eqD(1) [of ?r r] p(2) by simp
  then have "sg_db s' = replace_row ?r d" using s s'(3) by (simp add: progressed_def replace_row_twice)
  moreover have "tr_retryCount ?r \<in> {0, tr_retryCount t}" "tr_failureCode ?r \<in> {None, tr_failureCode t}"
    using s p(4,5) by (auto simp: progressed_def)
  ultimately have "progressed owner t (j + 1) d ?r s'" using s' s p(2) by (simp add: progressed_def)
  with s' st show ?thesis by (intro exI [of _ ?r] exI [of _ s']) simp
qed

text \<open>The ledger accepts: the answers of a world in which every call succeeds.\<close>

definition accepting :: "saga_world \<Rightarrow> string \<Rightarrow> bool" where
  "accepting w receiver = (\<forall>k t. sw_validate w k t = Inr (Some receiver) \<and> sw_placeHold w k t = Inr () \<and>
     sw_settle w k t = Inr ())"

definition policy_ok :: "saga_world \<Rightarrow> transfer \<Rightarrow> int \<Rightarrow> bool" where
  "policy_ok w t now = (case sw_policy w of None \<Rightarrow> True | Some p \<Rightarrow> policy_validate p t now = Inr ())"

lemma stage_validating:
  assumes w: "quiet w" "accepting w receiver" and s: "progressed owner t j d r s"
    and ok: "transfer_fits t = Inr ()" "pg_integer (tr_version t + 8)" "0 \<le> j" "j < 6"
    and r: "tr_status r = Validating" "tr_receiverWalletId r = None" "\<not> tr_holdMayExist r" and p: "policy_ok w t now"
  shows "\<exists>r' s'. step_validating w owner now s = (Inr True, s') \<and> progressed owner t (j + 3) d r' s' \<and>
    tr_status r' = FundsHeld \<and> tr_receiverWalletId r' = Some (pg_uuid receiver) \<and>
    sg_calls s' = sg_calls s @ [HoldRequested (tr_id t), HoldPlaced (tr_id t)]"
proof -
  have lt: "sg_transfer s = r" "terms r = terms t" using s by (auto simp: progressed_def working_def)
  have pol: "(case sw_policy w of None \<Rightarrow> sreturn () | Some p \<Rightarrow> slift (policy_validate p (sg_transfer s) now)) s = (Inr (), s)"
    using p policy_terms [OF lt(2)] by (simp add: lt(1) policy_ok_def sreturn_def slift_def split: option.splits)
  let ?s1 = "s\<lparr>sg_clock := Suc (sg_clock s)\<rparr>"
  have s1: "progressed owner t j d r ?s1" using s by (auto simp: progressed_def working_def)
  let ?p1 = "\<lambda>k r. r\<lparr>tr_receiverWalletId := Some (pg_uuid receiver), tr_retryCount := 0, tr_nextRetryAt := None,
    tr_failureCode := None, tr_failureMessage := None\<rparr>"
  obtain r2 s2 where s2: "sbind (updateClaimed w r owner ?p1) set_transfer ?s1 = (Inr (), s2)"
    "progressed owner t (j + 1) d r2 s2" "tr_status r2 = Validating" "\<not> tr_holdMayExist r2"
    "tr_receiverWalletId r2 = Some (pg_uuid receiver)" "sg_calls s2 = sg_calls s"
    using stage_update [OF w(1) s1 ok(1,2,3), of ?p1] ok(4) r
    by (auto simp: keeps_identity_def same_request_def terms_def)
  have rr: "resolve_receiver w owner s = (Inr (), s2)"
    using s2(1) w(2) r(2) lt(1)
    by (simp add: resolve_receiver_def sbind_def get_transfer_def truthy_def ledger_request_def accepting_def)
  let ?p2 = "\<lambda>k r. r\<lparr>tr_holdMayExist := True, tr_lastAttemptAt := Some (sw_time w k)\<rparr>"
  obtain r3 s3 where s3: "sbind (updateClaimed w r2 owner ?p2) set_transfer s2 = (Inr (), s3)"
    "progressed owner t (j + 1 + 1) d r3 s3" "tr_status r3 = Validating" "tr_holdMayExist r3"
    "tr_receiverWalletId r3 = Some (pg_uuid receiver)" "sg_calls s3 = sg_calls s"
    using stage_update [OF w(1) s2(2) ok(1,2), of ?p2] ok(3,4) s2
    by (auto simp: keeps_identity_def same_request_def terms_def)
  have l2: "sg_transfer s2 = r2" using s2(2) by (simp add: progressed_def working_def)
  have rh: "record_hold_intent w owner s2 = (Inr (), s3)"
    using s3(1) s2(4) l2 by (simp add: record_hold_intent_def sbind_def get_transfer_def)
  let ?s4 = "s3\<lparr>sg_clock := Suc (sg_clock s3), sg_calls := sg_calls s @ [HoldRequested (tr_id t), HoldPlaced (tr_id t)]\<rparr>"
  have l3: "sg_transfer s3 = r3" "tr_id r3 = tr_id t"
    using s3(2) by (auto simp: progressed_def working_def dest: terms_eqD(1))
  have s4: "progressed owner t (j + 1 + 1) d r3 ?s4" using s3(2) by (auto simp: progressed_def working_def)
  let ?p3 = "\<lambda>k r. r\<lparr>tr_retryCount := 0, tr_nextRetryAt := None, tr_lastAttemptAt := Some (sw_time w k)\<rparr>"
  obtain r5 s5 where s5: "advance w owner FundsHeld ?p3 ?s4 = (Inr True, s5)"
    "progressed owner t (j + 1 + 1 + 1) d r5 s5" "tr_status r5 = FundsHeld"
    "tr_receiverWalletId r5 = Some (pg_uuid receiver)" "sg_calls s5 = sg_calls ?s4"
    using stage_advance [OF w(1) s4 ok(1,2), of ?p3 FundsHeld] ok(3,4) s3(3,5)
    by (auto simp: keeps_identity_def same_request_def terms_def)
  have "step_validating w owner now s = (Inr True, s5)"
    unfolding step_validating_def using pol rr rh s5(1) l3 w(2) s3(6)
    by (simp add: sbind_def get_transfer_def ledger_request_def accepting_def)
  with s5 show ?thesis by (intro exI [of _ r5] exI [of _ s5]) (simp add: algebra_simps)
qed

lemma stage_complete:
  assumes w: "quiet w" and s: "progressed owner t j d r s"
    and ok: "transfer_fits t = Inr ()" "pg_integer (tr_version t + 8)" "0 \<le> j" "j < 8"
    and r: "Completed \<in> set (ALLOWED_TRANSITIONS (tr_status r))" "tr_receiverWalletId r = Some x" "x \<noteq> []"
      "tr_splitBillShareId t = None"
    and fresh: "sw_uuid w (sg_clock s) 0 \<notin> ob_eventId ` set (pd_outbox d)"
  shows "\<exists>r' s' m. complete w r owner s = (Inr (), s') \<and> tr_status r' = Completed \<and> tr_id r' = tr_id t \<and>
    pd_transfers (sg_db s') = pd_transfers (replace_row r' d) \<and> r' \<in> set (pd_transfers (sg_db s')) \<and>
    pd_outbox (sg_db s') = pd_outbox d @ [m] \<and> completion_id m = Some (tr_id t) \<and> sg_calls s' = sg_calls s"
proof -
  let ?k = "sg_clock s"
  let ?patch = "\<lambda>r. r\<lparr>tr_retryCount := 0, tr_nextRetryAt := None, tr_failureCode := None,
    tr_failureMessage := None, tr_leaseOwner := None, tr_leaseUntil := None, tr_lastAttemptAt := Some (sw_time w ?k)\<rparr>"
  let ?r = "moved r Completed (sw_time w ?k) (?patch r)"
  have wk: "keys_unique (sg_db s)" "r \<in> set (pd_transfers (sg_db s))" "tr_leaseOwner r = Some owner" "terms r = terms t"
    "sg_db s = replace_row r d"
    using s by (auto simp: progressed_def working_def)
  have tm: "terms (?patch r) = terms r" by (simp add: terms_def)
  have kp: "keeps_identity ?patch" by (simp add: keeps_identity_def same_request_def)
  have fits: "transfer_fits ?r = Inr ()" by (rule progressed_fits [OF s ok]) (simp_all add: tm)
  note tr = transition_succeeds [OF wk(1-3) kp r(1) fits]
  let ?d1 = "replace_row ?r (sg_db s)"
  have id: "tr_id ?r = tr_id r" "tr_id r = tr_id t" "tr_splitBillShareId ?r = None"
    using terms_eqD(1) [OF wk(4)] terms_eqD(12) [OF wk(4)] r(4) by (simp_all add: moved_def)
  have d1: "?d1 = replace_row ?r d" unfolding wk(5) by (rule replace_row_twice) (simp add: id)
  have ob: "pd_outbox ?d1 = pd_outbox d" unfolding d1 by (simp add: replace_row_def)
  have "sw_uuid w ?k 0 \<notin> ob_eventId ` set (pd_outbox ?d1)" using fresh ob by simp
  then obtain m where m: "enqueueTransferCompleted ?r (sw_uuid w ?k 0) (sw_trace w) (sw_time w ?k) ?d1 =
      Inr (?d1\<lparr>pd_outbox := pd_outbox ?d1 @ [m]\<rparr>)" "completion_id m = Some (tr_id ?r)"
    using enqueueTransferCompleted_succeeds [of ?r x "sw_uuid w ?k 0" ?d1 "sw_trace w" "sw_time w ?k"] r(2,3)
      completion_id_completed by auto
  let ?d2 = "?d1\<lparr>pd_outbox := pd_outbox ?d1 @ [m]\<rparr>"
  have "enqueueSplitSharePaid ?r i i' tc now ?d2 = Inr ?d2" for i i' tc now
    using id(3) by (simp add: enqueueSplitSharePaid_def truthy_def)
  then have "complete_rows w r owner ?k (sg_db s) = Inr (?d2, ())"
    using tr m(1) by (simp add: complete_rows_def)
  then have c: "complete w r owner s = (Inr (), s\<lparr>sg_db := ?d2, sg_clock := Suc ?k\<rparr>)"
    by (simp add: complete_def quiet_db_stmt [OF w])
  have "?r \<in> set (pd_transfers ?d1)"
    using replace_row_mem [OF wk(1,2) id(1)] by simp
  with c m(2) id ob d1 show ?thesis
    by (intro exI [of _ ?r] exI [of _ "s\<lparr>sg_db := ?d2, sg_clock := Suc ?k\<rparr>"] exI [of _ m]) simp
qed

section \<open>The whole run\<close>

lemma claimed_progressed:
  fixes owner :: string
  assumes w: "quiet w" and keys: "keys_unique (sg_db s)" and t: "t \<in> set (pd_transfers (sg_db s))"
    and due: "recoverable now t" and fits: "transfer_fits t = Inr ()" and raw: "sw_rawLength w 1 \<noteq> 0"
  shows "\<exists>r s'. run_saga w (tr_id t) owner now s = run_loop w owner now 8 s' \<and> progressed owner t 0 (sg_db s) r s' \<and>
    tr_status r = tr_status t \<and> tr_holdMayExist r = tr_holdMayExist t \<and> tr_receiverWalletId r = tr_receiverWalletId t \<and>
    sg_calls s' = sg_calls s"
proof -
  let ?t = "t\<lparr>tr_leaseOwner := Some owner, tr_leaseUntil := Some (now + sw_leaseMs w)\<rparr>"
  let ?s = "s\<lparr>sg_db := replace_row ?t (sg_db s), sg_clock := Suc (Suc (sg_clock s)), sg_transfer := ?t\<rparr>"
  note c = claim_succeeds [OF w keys t due fits raw, of owner]
  have sr: "same_request t ?t" by (simp add: same_request_def)
  note o = own_row_replaced [OF keys t sr]
  have "progressed owner t 0 (sg_db s) ?t ?s"
    using o by (simp add: progressed_def working_def terms_def)
  moreover have "run_saga w (tr_id t) owner now s = run_loop w owner now 8 ?s"
    using c by (simp add: run_saga_def sbind_def set_transfer_def)
  ultimately show ?thesis by (intro exI [of _ ?t] exI [of _ ?s]) simp
qed

lemma pending_runs_to_completion:
  fixes owner :: string
  assumes w: "quiet w" "accepting w receiver" "receiver \<noteq> []" and keys: "keys_unique (sg_db s)"
    and t: "t \<in> set (pd_transfers (sg_db s))" "recoverable now t" "transfer_fits t = Inr ()"
      "pg_integer (tr_version t + 8)" and raw: "sw_rawLength w 1 \<noteq> 0" and pol: "policy_ok w t now"
    and new: "tr_status t = Pending" "tr_receiverWalletId t = None" "\<not> tr_holdMayExist t" "tr_splitBillShareId t = None"
    and fresh: "\<And>k. sw_uuid w k 0 \<notin> ob_eventId ` set (pd_outbox (sg_db s))"
  shows "\<exists>s' t' m. run_saga w (tr_id t) owner now s = (Inr (), s') \<and> t' \<in> set (pd_transfers (sg_db s')) \<and>
    tr_id t' = tr_id t \<and> tr_status t' = Completed \<and> pd_outbox (sg_db s') = pd_outbox (sg_db s) @ [m] \<and>
    completion_id m = Some (tr_id t) \<and>
    sg_calls s' = sg_calls s @ [HoldRequested (tr_id t), HoldPlaced (tr_id t), SettleRequested (tr_id t), SettleAcked (tr_id t)]"
proof -
  let ?d = "sg_db s" and ?np = "\<lambda>k r. r\<lparr>tr_retryCount := 0, tr_nextRetryAt := None\<rparr>"
  have kp: "keeps_identity (\<lambda>r. r\<lparr>tr_retryCount := 0, tr_nextRetryAt := None\<rparr>)"
    by (simp add: keeps_identity_def same_request_def)
  have tm: "terms (r\<lparr>tr_retryCount := 0, tr_nextRetryAt := None\<rparr>) = terms r" for r by (simp add: terms_def)
  obtain r1 s1 where 1: "run_saga w (tr_id t) owner now s = run_loop w owner now 8 s1" "progressed owner t 0 ?d r1 s1"
      "tr_status r1 = Pending" "\<not> tr_holdMayExist r1" "tr_receiverWalletId r1 = None" "sg_calls s1 = sg_calls s"
    using claimed_progressed [OF w(1) keys t(1,2,3) raw, of owner] new by auto
  obtain r2 s2 where 2: "advance w owner Validating ?np s1 = (Inr True, s2)" "progressed owner t 1 ?d r2 s2"
      "tr_status r2 = Validating" "\<not> tr_holdMayExist r2" "tr_receiverWalletId r2 = None" "sg_calls s2 = sg_calls s"
    using stage_advance [OF w(1) 1(2) t(3,4), of ?np Validating] 1 kp tm by auto
  obtain r3 s3 where 3: "step_validating w owner now s2 = (Inr True, s3)" "progressed owner t (1 + 3) ?d r3 s3"
      "tr_status r3 = FundsHeld" "tr_receiverWalletId r3 = Some (pg_uuid receiver)"
      "sg_calls s3 = sg_calls s @ [HoldRequested (tr_id t), HoldPlaced (tr_id t)]"
    using stage_validating [OF w(1,2) 2(2) t(3,4) _ _ 2(3,5,4) pol] 2(6) by auto
  obtain r4 s4 where 4: "advance w owner Processing ?np s3 = (Inr True, s4)" "progressed owner t (1 + 3 + 1) ?d r4 s4"
      "tr_status r4 = Processing" "tr_receiverWalletId r4 = Some (pg_uuid receiver)" "sg_calls s4 = sg_calls s3"
    using stage_advance [OF w(1) 3(2) t(3,4), of ?np Processing] 3 kp tm by auto
  let ?s5 = "s4\<lparr>sg_clock := Suc (sg_clock s4), sg_calls := sg_calls s4 @ [SettleRequested (tr_id t), SettleAcked (tr_id t)]\<rparr>"
  have 5: "progressed owner t (1 + 3 + 1) ?d r4 ?s5" using 4(2) by (auto simp: progressed_def working_def)
  have "pg_uuid receiver \<noteq> []" using w(3) by simp
  then obtain r6 s6 m where 6: "complete w r4 owner ?s5 = (Inr (), s6)" "tr_status r6 = Completed" "tr_id r6 = tr_id t"
      "r6 \<in> set (pd_transfers (sg_db s6))" "pd_outbox (sg_db s6) = pd_outbox ?d @ [m]"
      "completion_id m = Some (tr_id t)" "sg_calls s6 = sg_calls ?s5"
    using stage_complete [OF w(1) 5 t(3,4) _ _ _ 4(4) _ new(4) fresh] 4(3) by auto
  have loc: "sg_transfer s1 = r1" "sg_transfer s2 = r2" "sg_transfer s3 = r3" "sg_transfer s4 = r4" "tr_id r4 = tr_id t"
    using 1(2) 2(2) 3(2) 4(2) by (auto simp: progressed_def working_def dest: terms_eqD(1))
  have steps: "saga_step w owner now s1 = (Inr True, s2)" "saga_step w owner now s2 = (Inr True, s3)"
    "saga_step w owner now s3 = (Inr True, s4)"
    using 1(3) 2(1,3) 3(1,3) 4(1) by (simp_all add: saga_step_def sbind_def get_transfer_def loc)
  have "step_processing w owner s4 = (Inr False, s6)"
    using 6(1) w(2) loc by (simp add: step_processing_def sbind_def get_transfer_def ledger_request_def accepting_def sreturn_def)
  then have last: "saga_step w owner now s4 = (Inr False, s6)"
    using 4(3) by (simp add: saga_step_def sbind_def get_transfer_def loc)
  have nf: "\<not> final_status (tr_status (sg_transfer s1))" "\<not> final_status (tr_status (sg_transfer s2))"
    "\<not> final_status (tr_status (sg_transfer s3))" "\<not> final_status (tr_status (sg_transfer s4))"
    using 1(3) 2(3) 3(3) 4(3) by (simp_all add: loc final_status_rank)
  have "run_loop w owner now 8 s1 = (Inr (), s6)"
    using run_loop_turn [OF nf(1) steps(1), of 7] run_loop_turn [OF nf(2) steps(2), of 6]
      run_loop_turn [OF nf(3) steps(3), of 5] run_loop_turn [OF nf(4) last, of 4]
    by (simp add: numeral_eq_Suc del: run_loop.simps)
  with 1(1) 6 3(5) 4(5) show ?thesis by (intro exI [of _ s6] exI [of _ r6] exI [of _ m]) simp
qed

end
