(* ===== verification/Split_Bills.thy ===== *)
theory Split_Bills
  imports Transfer_Saga
begin

text \<open>
  \<^verbatim>\<open>split-bills/split-bills.service.ts\<close> and \<^verbatim>\<open>split-bills/split-bill-reminder.service.ts\<close>: bills
  split among participants, the payment of a share by a transfer, and the reminders of overdue shares.
  Identifiers from \<^verbatim>\<open>randomUUID\<close> and the time are arguments. \<open>js_date\<close> is the time value of
  \<^verbatim>\<open>new Date(text)\<close>, which ECMAScript leaves to the engine and its time zone; \<^const>\<open>None\<close> is an invalid date.
\<close>

section \<open>Requests and views\<close>

datatype split_mode = SplitEqual | SplitCustom

text \<open>A missing \<^verbatim>\<open>share\<close> is \<^const>\<open>None\<close>, an explicit \<^verbatim>\<open>null\<close> is \<^term>\<open>Some None\<close>.\<close>

record split_participant =
  pt_userId :: string
  pt_share :: "string option option"

record create_split_bill_dto =
  cb_total :: string
  cb_currency :: string
  cb_mode :: split_mode
  cb_participants :: "split_participant list"
  cb_deadline :: "string option"

record split_share_view =
  sv_id :: string
  sv_participantUserId :: string
  sv_amount :: string
  sv_paymentStatus :: split_share_payment_status
  sv_transferId :: "string option"
  sv_transferStatus :: "transfer_status option"

record split_bill_view =
  bv_id :: string
  bv_creatorUserId :: string
  bv_creatorReference :: string
  bv_total :: string
  bv_currency :: string
  bv_deadline :: "int option"
  bv_status :: split_bill_status
  bv_shares :: "split_share_view list"
  bv_createdAt :: int
  bv_updatedAt :: int

section \<open>Shares\<close>

definition custom_share :: "nat \<Rightarrow> split_participant \<Rightarrow> (err, int) res" where
  "custom_share index p =
     (let field = ''participants['' @ show_nat index @ ''].share''
      in case pt_share p of
           Some (Some share) \<Rightarrow>
             if share = [] then Inl (BadRequest (field @ '' is required for custom split''))
             else parseMoneyToMinor share field
         | _ \<Rightarrow> Inl (BadRequest (field @ '' is required for custom split'')))"

definition equal_amounts :: "int \<Rightarrow> nat \<Rightarrow> int list" where
  "equal_amounts totalMinor count =
     map (\<lambda>index. big_div totalMinor (int count) + (if int index < big_mod totalMinor (int count) then 1 else 0)) [0..<count]"

definition shareAmounts :: "create_split_bill_dto \<Rightarrow> int \<Rightarrow> (err, int list) res" where
  "shareAmounts dto totalMinor =
     (case cb_mode dto of
        SplitEqual \<Rightarrow>
          if \<exists>p \<in> set (cb_participants dto). pt_share p \<noteq> None
          then Inl (BadRequest ''Equal split must not include custom shares'')
          else if cb_participants dto = [] then Inl (Err ''RangeError: Division by zero'')
          else if big_div totalMinor (int (length (cb_participants dto))) = 0
          then Inl (BadRequest ''Total is too small for all participants'')
          else Inr (equal_amounts totalMinor (length (cb_participants dto)))
      | SplitCustom \<Rightarrow>
          rbind (mapM (\<lambda>(index, p). custom_share index p) (enumerate 0 (cb_participants dto))) (\<lambda>amounts.
          if foldl (+) 0 amounts \<noteq> totalMinor then Inl (BadRequest ''Sum of shares must equal bill total'')
          else Inr amounts))"

section \<open>Views\<close>

definition shareView :: "payments_db \<Rightarrow> split_bill_share \<Rightarrow> split_share_view" where
  "shareView d share =
     (let transfer = transfer_of_share d (ss_id share)
      in \<lparr>sv_id = ss_id share, sv_participantUserId = ss_participantUserId share,
          sv_amount = formatMinor (ss_amountMinor share),
          sv_paymentStatus = (case transfer of
             None \<Rightarrow> Unpaid
           | Some t \<Rightarrow> if tr_status t = Completed then Paid
                       else if tr_status t = Failed then PaymentFailed else PaymentPending),
          sv_transferId = map_option tr_id transfer, sv_transferStatus = map_option tr_status transfer\<rparr>)"

definition bill_toView :: "payments_db \<Rightarrow> split_bill \<Rightarrow> split_bill_share list \<Rightarrow> split_bill_view" where
  "bill_toView d bill bill_shares =
     (let views = map (shareView d) bill_shares;
          paid = length (filter (\<lambda>v. sv_paymentStatus v = Paid) views)
      in \<lparr>bv_id = sb_id bill, bv_creatorUserId = sb_creatorUserId bill,
          bv_creatorReference = sb_creatorReference bill, bv_total = formatMinor (sb_totalMinor bill),
          bv_currency = sb_currency bill, bv_deadline = sb_deadline bill,
          bv_status = deriveSplitBillStatus paid (length views), bv_shares = views,
          bv_createdAt = sb_createdAt bill, bv_updatedAt = sb_updatedAt bill\<rparr>)"

definition get_bill :: "payments_db \<Rightarrow> string \<Rightarrow> string \<Rightarrow> (err, split_bill_view) res" where
  "get_bill d i userId =
     (case find_bill d i of
        None \<Rightarrow> Inl (NotFound ''Split bill not found'')
      | Some bill \<Rightarrow>
          let bill_shares = sort_key ss_position (shares_of_bill d (sb_id bill))
          in if sb_creatorUserId bill \<noteq> userId \<and>
                \<not> (\<exists>s \<in> set bill_shares. ss_participantUserId s = userId)
             then Inl (NotFound ''Split bill not found'')
             else Inr (bill_toView d bill bill_shares))"

text \<open>
  \<^verbatim>\<open>SELECT DISTINCT b.id ... ORDER BY b.id\<close>; each bill is then read by a statement of its own, which
  sees the state \<open>later\<close> of its index.
\<close>

fun insert_by :: "('a \<Rightarrow> 'a \<Rightarrow> bool) \<Rightarrow> 'a \<Rightarrow> 'a list \<Rightarrow> 'a list" where
  "insert_by le x [] = [x]"
| "insert_by le x (y # ys) = (if le x y then x # y # ys else y # insert_by le x ys)"

definition sort_by :: "('a \<Rightarrow> 'a \<Rightarrow> bool) \<Rightarrow> 'a list \<Rightarrow> 'a list" where
  "sort_by le xs = foldr (insert_by le) xs []"

definition bills_of_user :: "payments_db \<Rightarrow> string \<Rightarrow> string list" where
  "bills_of_user d userId =
     sort_by bytes_le (map sb_id (filter (\<lambda>b. sb_creatorUserId b = pg_uuid userId \<or>
       (\<exists>s \<in> set (pd_shares d). ss_billId s = sb_id b \<and> ss_participantUserId s = pg_uuid userId)) (pd_bills d)))"

definition list_bills :: "payments_db \<Rightarrow> (nat \<Rightarrow> payments_db) \<Rightarrow> string \<Rightarrow> (err, split_bill_view list) res" where
  "list_bills d later userId =
     rbind (mapM (\<lambda>(k, i). get_bill (later k) i userId) (enumerate 0 (bills_of_user d userId))) (\<lambda>bills.
     Inr (sort_key (\<lambda>b. - bv_createdAt b) bills))"

section \<open>Creation\<close>

definition deadline_of :: "(string \<Rightarrow> int option) \<Rightarrow> string option \<Rightarrow> (err, int option) res" where
  "deadline_of js_date text =
     (case truthy text of
        None \<Rightarrow> Inr None
      | Some t \<Rightarrow> (case js_date t of None \<Rightarrow> Inl (QueryFailed ''22007'' '''') | Some v \<Rightarrow> Inr (Some v)))"

definition uuid_bill :: "split_bill \<Rightarrow> split_bill" where
  "uuid_bill b = b\<lparr>sb_id := pg_uuid (sb_id b), sb_creatorUserId := pg_uuid (sb_creatorUserId b)\<rparr>"

definition uuid_share :: "split_bill_share \<Rightarrow> split_bill_share" where
  "uuid_share s = s\<lparr>ss_id := pg_uuid (ss_id s), ss_billId := pg_uuid (ss_billId s),
     ss_participantUserId := pg_uuid (ss_participantUserId s)\<rparr>"

record bill_ids =
  bi_bill :: string
  bi_share :: "nat \<Rightarrow> string"
  bi_event :: "nat \<Rightarrow> string"

fun create_shares ::
  "bill_ids \<Rightarrow> split_bill \<Rightarrow> trace_context \<Rightarrow> int \<Rightarrow> nat \<Rightarrow> (string \<times> int) list \<Rightarrow> payments_db \<Rightarrow>
     (err, payments_db) res" where
  "create_shares ids bill tc now index [] d = Inr d"
| "create_shares ids bill tc now index ((participantId, amount) # rest) d =
     (let share = \<lparr>ss_id = bi_share ids index, ss_billId = sb_id bill, ss_participantUserId = participantId,
                   ss_amountMinor = amount, ss_position = int index, ss_createdAt = now\<rparr>
      in rbind (insert_share (uuid_share share) d) (\<lambda>d1.
         rbind (enqueueSplitBillCreated bill share (bi_event ids index) tc now d1) (\<lambda>d2.
         create_shares ids bill tc now (Suc index) rest d2)))"

definition create_bill_rows ::
  "(string \<Rightarrow> int option) \<Rightarrow> bill_ids \<Rightarrow> trace_context \<Rightarrow> int \<Rightarrow> create_split_bill_dto \<Rightarrow> string \<Rightarrow> string \<Rightarrow>
     payments_db \<Rightarrow> (err, payments_db) res" where
  "create_bill_rows js_date ids tc now dto creatorUserId creatorReference d =
     rbind (parseMoneyToMinor (cb_total dto) ''total'') (\<lambda>totalMinor.
     let participantIds = map (\<lambda>p. toLowerCase (pt_userId p)) (cb_participants dto)
     in if \<not> distinct participantIds then Inl (BadRequest ''Participants must be unique'')
        else rbind (shareAmounts dto totalMinor) (\<lambda>amounts.
             rbind (deadline_of js_date (cb_deadline dto)) (\<lambda>deadline.
             let bill = \<lparr>sb_id = bi_bill ids, sb_creatorUserId = creatorUserId,
                         sb_creatorReference = toLowerCase (trim creatorReference), sb_totalMinor = totalMinor,
                         sb_currency = toUpperCase (cb_currency dto), sb_deadline = deadline,
                         sb_createdAt = now, sb_updatedAt = now\<rparr>
             in rbind (insert_bill (uuid_bill bill) d) (\<lambda>d1.
                create_shares ids bill tc now 0 (zip participantIds amounts) d1))))"

text \<open>The transaction commits or leaves the database as it was; the view is read from a later state.\<close>

definition create_bill ::
  "(string \<Rightarrow> int option) \<Rightarrow> bill_ids \<Rightarrow> trace_context \<Rightarrow> int \<Rightarrow> create_split_bill_dto \<Rightarrow> string \<Rightarrow> string \<Rightarrow>
     (payments_db \<Rightarrow> payments_db) \<Rightarrow> payments_db \<Rightarrow> (err, split_bill_view) res \<times> payments_db" where
  "create_bill js_date ids tc now dto creatorUserId creatorReference later d =
     (case create_bill_rows js_date ids tc now dto creatorUserId creatorReference d of
        Inl e \<Rightarrow> (Inl e, d)
      | Inr d' \<Rightarrow> (get_bill (later d') (bi_bill ids) creatorUserId, d'))"

section \<open>Payment of a share\<close>

definition find_bill_share :: "payments_db \<Rightarrow> string \<Rightarrow> string \<Rightarrow> split_bill_share option" where
  "find_bill_share d billId shareId =
     find (\<lambda>s. ss_id s = pg_uuid shareId \<and> ss_billId s = pg_uuid billId) (pd_shares d)"

definition share_payment ::
  "payments_db \<Rightarrow> string \<Rightarrow> string \<Rightarrow> string \<Rightarrow> string \<Rightarrow> (err, split_share_payment) res" where
  "share_payment d billId shareId participantUserId fromWalletId =
     (case find_bill_share d billId shareId of
        None \<Rightarrow> Inl (NotFound ''Split share not found'')
      | Some share \<Rightarrow>
          if ss_participantUserId share \<noteq> participantUserId then Inl (NotFound ''Split share not found'')
          else (case find_bill d (ss_billId share) of
                  None \<Rightarrow> Inl (TypeErr ''share.bill is null'')
                | Some bill \<Rightarrow> Inr \<lparr>sp_shareId = ss_id share, sp_participantUserId = participantUserId,
                    sp_fromWalletId = fromWalletId, sp_receiverReference = sb_creatorReference bill,
                    sp_amountMinor = ss_amountMinor share, sp_currency = sb_currency bill\<rparr>))"

text \<open>
  The whole request runs in the monad of the saga. \<open>seen\<close> gives what the reads of the creation see
  before and after its insertion.
\<close>

definition payShare ::
  "saga_world \<Rightarrow> (string \<Rightarrow> string) \<Rightarrow> (nat \<Rightarrow> payments_db \<Rightarrow> create_tx) \<Rightarrow> string \<Rightarrow> string \<Rightarrow> int \<Rightarrow> string \<Rightarrow> string \<Rightarrow>
     string \<Rightarrow> string \<Rightarrow> string option \<Rightarrow> (split_bill_view \<times> transfer_view) saga" where
  "payShare w sha256 seen newId leaseOwner now billId shareId participantUserId fromWalletId idempotencyKey =
     sbind (db_stmt w (\<lambda>k d. rbind (share_payment d billId shareId participantUserId fromWalletId) (\<lambda>i. Inr (d, i))))
       (\<lambda>input.
     sbind (db_stmt w (\<lambda>k d. createSplitSharePayment sha256 ((seen k d)\<lparr>cx_db := d\<rparr>) newId input idempotencyKey))
       (\<lambda>transfer.
     sbind (run_saga w (tv_id transfer) leaseOwner now) (\<lambda>_.
     sbind (db_stmt w (\<lambda>k d. rbind (get_bill d billId participantUserId) (\<lambda>v. Inr (d, v)))) (\<lambda>bill.
     sbind (db_stmt w (\<lambda>k d. rbind (getStatus d (tv_id transfer) participantUserId) (\<lambda>v. Inr (d, v)))) (\<lambda>status.
     sreturn (bill, status))))))"

section \<open>Reminders\<close>

definition overdue_share :: "payments_db \<Rightarrow> int \<Rightarrow> split_bill_share \<Rightarrow> bool" where
  "overdue_share d now s =
     ((case find_bill d (ss_billId s) of
         None \<Rightarrow> False
       | Some b \<Rightarrow> (case sb_deadline b of None \<Rightarrow> False | Some dl \<Rightarrow> dl \<le> now)) \<and>
      (case transfer_of_share d (ss_id s) of None \<Rightarrow> True | Some t \<Rightarrow> tr_status t = Failed) \<and>
      \<not> (\<exists>r \<in> set (pd_reminders d). sr_shareId r = ss_id s \<and> sr_kind r = ''overdue''))"

definition share_deadline :: "payments_db \<Rightarrow> split_bill_share \<Rightarrow> int" where
  "share_deadline d s = (case find_bill d (ss_billId s) of
     None \<Rightarrow> 0 | Some b \<Rightarrow> (case sb_deadline b of None \<Rightarrow> 0 | Some dl \<Rightarrow> dl))"

text \<open>\<open>locked\<close> are the shares whose rows another transaction has locked: \<^verbatim>\<open>FOR UPDATE OF s SKIP LOCKED\<close>.\<close>

definition overdue_candidates :: "payments_db \<Rightarrow> string list \<Rightarrow> int \<Rightarrow> nat \<Rightarrow> string list" where
  "overdue_candidates d locked now limit =
     take limit (map ss_id (sort_by
       (\<lambda>s t. share_deadline d s < share_deadline d t \<or>
              (share_deadline d s = share_deadline d t \<and> bytes_le (ss_id s) (ss_id t)))
       (filter (\<lambda>s. overdue_share d now s \<and> ss_id s \<notin> set locked) (pd_shares d))))"

text \<open>The identifiers of the \<open>k\<close>-th candidate: its reminder and its event.\<close>

fun remind_each ::
  "(nat \<Rightarrow> string \<times> string) \<Rightarrow> trace_context \<Rightarrow> int \<Rightarrow> nat \<Rightarrow> string list \<Rightarrow> payments_db \<Rightarrow>
     (err, payments_db \<times> nat) res" where
  "remind_each ids tc clock k [] d = Inr (d, 0)"
| "remind_each ids tc clock k (candidate # rest) d =
     (case find_share d candidate of
        None \<Rightarrow> remind_each ids tc clock (Suc k) rest d
      | Some share \<Rightarrow>
          rbind (insert_reminder \<lparr>sr_id = fst (ids k), sr_shareId = ss_id share, sr_kind = ''overdue'',
                   sr_eventId = snd (ids k), sr_createdAt = clock\<rparr> d) (\<lambda>(d1, inserted).
          if \<not> inserted then remind_each ids tc clock (Suc k) rest d1
          else (case find_bill d1 (ss_billId share) of
                  None \<Rightarrow> Inl (TypeErr ''share.bill is null'')
                | Some bill \<Rightarrow>
                    rbind (enqueueOverdueReminder (snd (ids k)) bill share tc clock d1) (\<lambda>d2.
                    rbind (remind_each ids tc clock (Suc k) rest d2) (\<lambda>(d3, created).
                    Inr (d3, created + 1))))))"

definition detectAndEnqueue ::
  "(nat \<Rightarrow> string \<times> string) \<Rightarrow> trace_context \<Rightarrow> int \<Rightarrow> payments_db \<Rightarrow> string list \<Rightarrow> int \<Rightarrow> nat \<Rightarrow> payments_db \<Rightarrow>
     (err, payments_db \<times> nat) res" where
  "detectAndEnqueue ids tc clock seen locked now limit d =
     remind_each ids tc clock 0 (overdue_candidates seen locked now limit) d"

end
