(* ===== verification/Split_Bill_Properties.thy ===== *)
theory Split_Bill_Properties
  imports Split_Bills
begin

text \<open>
  What the split bills promise: the shares of a bill are positive and sum to its total, in an equal
  split they differ by at most one minor unit, a bill is created with all its shares and one message
  to each participant or not at all, and an overdue share is announced once.
\<close>

section \<open>Amounts of shares\<close>

lemma sum_first_units: "0 \<le> r \<Longrightarrow> (\<Sum>i\<leftarrow>[0..<n]. if int i < r then 1 else 0) = min r (int n)"
  by (induction n) auto

lemma equal_amounts_sum:
  assumes "0 \<le> t" "0 < n"
  shows "sum_list (equal_amounts t n) = t"
proof -
  let ?b = "t div int n" and ?r = "t mod int n"
  have "sum_list (equal_amounts t n) = (\<Sum>i\<leftarrow>[0..<n]. ?b + (if int i < ?r then 1 else 0))"
    using assms by (simp add: equal_amounts_def big_div_nonneg big_mod_nonneg)
  also have "\<dots> = int n * ?b + min ?r (int n)"
    by (simp only: sum_list_addf sum_first_units [OF pos_mod_sign] sum_list_triv assms of_nat_0_less_iff) simp
  also have "min ?r (int n) = ?r" using assms pos_mod_bound [of "int n" t] by simp
  finally show ?thesis by simp
qed

lemma equal_amounts_near:
  assumes "x \<in> set (equal_amounts t n)" "y \<in> set (equal_amounts t n)"
  shows "\<bar>x - y\<bar> \<le> 1" "big_div t (int n) \<le> x"
  using assms by (auto simp: equal_amounts_def)

lemma length_equal_amounts [simp]: "length (equal_amounts t n) = n"
  by (simp add: equal_amounts_def)

lemma foldl_sum: "foldl (+) (a::int) xs = a + sum_list xs"
  by (induction xs arbitrary: a) (simp_all add: algebra_simps)

lemma custom_share_pos: "custom_share k p = Inr n \<Longrightarrow> 0 < n"
  by (auto simp: custom_share_def Let_def parseMoneyToMinor_iff split: option.splits if_splits)

lemma mapM_result:
  assumes "mapM f xs = Inr ys" "y \<in> set ys"
  shows "\<exists>x \<in> set xs. f x = Inr y"
  using assms unfolding mapM_Inr_iff by (induction xs ys rule: list_all2_induct) auto

lemma shareAmounts_ok:
  assumes "shareAmounts dto t = Inr xs" "0 < t"
  shows "length xs = length (cb_participants dto)" "sum_list xs = t" "\<forall>x \<in> set xs. 0 < x"
proof -
  let ?n = "length (cb_participants dto)"
  have "length xs = ?n \<and> sum_list xs = t \<and> (\<forall>x \<in> set xs. 0 < x)"
  proof (cases "cb_mode dto")
    case SplitEqual
    with assms have x: "xs = equal_amounts t ?n" "0 < ?n" "big_div t (int ?n) \<noteq> 0"
      by (auto simp: shareAmounts_def split: if_splits)
    have "0 \<le> t div int ?n" using assms(2) using x(2) by (intro div_int_pos_iff [THEN iffD2]) simp
    then have "0 < big_div t (int ?n)" using x(2,3) assms(2) by (simp add: big_div_nonneg)
    then have "0 < y" if "y \<in> set xs" for y using equal_amounts_near(2) [of y t ?n y] that x(1) by simp
    then show ?thesis using x equal_amounts_sum [of t ?n] assms(2) by simp
  next
    case SplitCustom
    with assms obtain ys where y: "mapM (\<lambda>(index, p). custom_share index p) (enumerate 0 (cb_participants dto)) = Inr ys"
        "foldl (+) 0 ys = t" "xs = ys"
      by (auto simp: shareAmounts_def result_simps split: if_splits)
    have "0 < x" if x: "x \<in> set ys" for x
    proof -
      obtain z where "(\<lambda>(index, p). custom_share index p) z = Inr x"
        using mapM_result [OF y(1) x] by blast
      then show ?thesis using custom_share_pos by (cases z) auto
    qed
    with y mapM_length [OF y(1)] show ?thesis by (simp add: foldl_sum)
  qed
  then show "length xs = ?n" "sum_list xs = t" "\<forall>x \<in> set xs. 0 < x" by blast+
qed

section \<open>Creation\<close>

text \<open>The rows that the creation of shares adds for the participants and amounts \<open>xs\<close>, from position \<open>k\<close>.\<close>

definition share_rows :: "bill_ids \<Rightarrow> split_bill \<Rightarrow> int \<Rightarrow> nat \<Rightarrow> (string \<times> int) list \<Rightarrow> split_bill_share list" where
  "share_rows ids bill now k xs = map (\<lambda>(i, u, a). uuid_share \<lparr>ss_id = bi_share ids i, ss_billId = sb_id bill,
     ss_participantUserId = u, ss_amountMinor = a, ss_position = int i, ss_createdAt = now\<rparr>) (enumerate k xs)"

lemma insert_share_ok: "insert_share s d = Inr d' \<Longrightarrow> d' = d\<lparr>pd_shares := pd_shares d @ [s]\<rparr>"
  by (simp add: insert_share_def if_Inl_eq_Inr)

lemma enqueueSplitBillCreated_ok:
  "enqueueSplitBillCreated bill share i tc now d = Inr d' \<Longrightarrow>
    \<exists>m. d' = d\<lparr>pd_outbox := pd_outbox d @ [m]\<rparr> \<and> ob_routingKey m = ''payments.split-bill.created.v1'' \<and> ob_eventId m = i"
  unfolding enqueueSplitBillCreated_def by (blast dest: enqueue_ok)

lemma create_shares_ok:
  assumes "create_shares ids bill tc now k xs d = Inr d'"
  shows "\<exists>ms. d' = d\<lparr>pd_shares := pd_shares d @ share_rows ids bill now k xs, pd_outbox := pd_outbox d @ ms\<rparr> \<and>
    length ms = length xs \<and> (\<forall>m \<in> set ms. ob_routingKey m = ''payments.split-bill.created.v1'')"
  using assms
proof (induction xs arbitrary: k d)
  case Nil
  then show ?case by (simp add: share_rows_def)
next
  case (Cons x xs)
  obtain u a where x: "x = (u, a)" by fastforce
  let ?s = "\<lparr>ss_id = bi_share ids k, ss_billId = sb_id bill, ss_participantUserId = u, ss_amountMinor = a,
    ss_position = int k, ss_createdAt = now\<rparr>"
  obtain d1 d2 where s: "insert_share (uuid_share ?s) d = Inr d1"
      "enqueueSplitBillCreated bill ?s (bi_event ids k) tc now d1 = Inr d2"
      "create_shares ids bill tc now (Suc k) xs d2 = Inr d'"
    using Cons.prems by (auto simp: x Let_def result_simps)
  obtain m where m: "d2 = d1\<lparr>pd_outbox := pd_outbox d1 @ [m]\<rparr>" "ob_routingKey m = ''payments.split-bill.created.v1''"
    using enqueueSplitBillCreated_ok [OF s(2)] by blast
  obtain ms where "d' = d2\<lparr>pd_shares := pd_shares d2 @ share_rows ids bill now (Suc k) xs, pd_outbox := pd_outbox d2 @ ms\<rparr>"
      "length ms = length xs" "\<forall>m \<in> set ms. ob_routingKey m = ''payments.split-bill.created.v1''"
    using Cons.IH [OF s(3)] by blast
  with m insert_share_ok [OF s(1)] show ?case
    by (intro exI [of _ "m # ms"]) (simp add: share_rows_def x)
qed

lemma create_shares_ids:
  assumes "create_shares ids bill tc now k xs d = Inr d'" "distinct (map ss_id (pd_shares d))"
  shows "distinct (map ss_id (pd_shares d'))"
  using assms
proof (induction xs arbitrary: k d)
  case (Cons x xs)
  obtain u a where x: "x = (u, a)" by fastforce
  obtain s d1 share i d2 where s: "insert_share s d = Inr d1" "enqueueSplitBillCreated bill share i tc now d1 = Inr d2"
      "create_shares ids bill tc now (Suc k) xs d2 = Inr d'"
    using Cons.prems by (auto simp: x Let_def result_simps)
  have "ss_id s \<notin> ss_id ` set (pd_shares d)" using s(1) by (simp add: insert_share_def if_Inl_eq_Inr)
  then have "distinct (map ss_id (pd_shares d2))"
    using Cons.prems(2) insert_share_ok [OF s(1)] enqueueSplitBillCreated_ok [OF s(2)] by auto
  with Cons.IH s(3) show ?case by blast
qed simp

lemma share_rows_canonical: "\<forall>s \<in> set (share_rows ids bill now k xs). canonical (ss_id s)"
  by (auto simp: share_rows_def uuid_share_def)

lemma insert_bill_ok:
  "insert_bill b d = Inr d' \<Longrightarrow> d' = d\<lparr>pd_bills := pd_bills d @ [b]\<rparr> \<and> sb_id b \<notin> sb_id ` set (pd_bills d)"
  by (simp add: insert_bill_def if_Inl_eq_Inr)

lemma share_rows_sel:
  "map ss_amountMinor (share_rows ids bill now k xs) = map snd xs"
  "map ss_participantUserId (share_rows ids bill now k xs) = map (pg_uuid \<circ> fst) xs"
  "map ss_position (share_rows ids bill now k xs) = map int [k..<k + length xs]"
  "\<forall>s \<in> set (share_rows ids bill now k xs). ss_billId s = pg_uuid (sb_id bill)"
proof (induction xs arbitrary: k)
  case (Cons x xs)
  {
    case 1 show ?case using Cons(1) [of "Suc k"] by (cases x) (simp add: share_rows_def uuid_share_def)
  next
    case 2 show ?case using Cons(2) [of "Suc k"] by (cases x) (simp add: share_rows_def uuid_share_def)
  next
    case 3 show ?case using Cons(3) [of "Suc k"] upt_conv_Cons [of k "k + length (x # xs)"]
      by (cases x) (simp add: share_rows_def uuid_share_def del: upt_Suc)
  next
    case 4 show ?case using Cons(4) [of "Suc k"] by (cases x) (simp add: share_rows_def uuid_share_def)
  }
qed (simp_all add: share_rows_def)

lemma create_bill_rows_ok:
  assumes "create_bill_rows js_date ids tc now dto creator reference d = Inr d'"
  obtains bill amounts ms where
    "parseMoneyToMinor (cb_total dto) ''total'' = Inr (sb_totalMinor bill)" "sb_id bill = bi_bill ids"
    "distinct (map (\<lambda>p. toLowerCase (pt_userId p)) (cb_participants dto))"
    "shareAmounts dto (sb_totalMinor bill) = Inr amounts" "length ms = length (cb_participants dto)"
    "\<forall>m \<in> set ms. ob_routingKey m = ''payments.split-bill.created.v1''"
    "sb_id (uuid_bill bill) \<notin> sb_id ` set (pd_bills d)"
    "distinct (map ss_id (pd_shares d)) \<Longrightarrow> distinct (map ss_id (pd_shares d'))"
    "d' = d\<lparr>pd_bills := pd_bills d @ [uuid_bill bill],
      pd_shares := pd_shares d @ share_rows ids bill now 0
        (zip (map (\<lambda>p. toLowerCase (pt_userId p)) (cb_participants dto)) amounts),
      pd_outbox := pd_outbox d @ ms\<rparr>"
proof -
  let ?us = "map (\<lambda>p. toLowerCase (pt_userId p)) (cb_participants dto)"
  obtain t amounts dl where 1: "parseMoneyToMinor (cb_total dto) ''total'' = Inr t" "distinct ?us"
      "shareAmounts dto t = Inr amounts" "deadline_of js_date (cb_deadline dto) = Inr dl"
    using assms by (auto simp: create_bill_rows_def Let_def result_simps split: if_splits)
  define bill where "bill = \<lparr>sb_id = bi_bill ids, sb_creatorUserId = creator,
    sb_creatorReference = toLowerCase (trim reference), sb_totalMinor = t, sb_currency = toUpperCase (cb_currency dto),
    sb_deadline = dl, sb_createdAt = now, sb_updatedAt = now\<rparr>"
  obtain d1 where 2: "insert_bill (uuid_bill bill) d = Inr d1"
      "create_shares ids bill tc now 0 (zip ?us amounts) d1 = Inr d'"
    using assms 1 by (auto simp: create_bill_rows_def Let_def result_simps bill_def)
  obtain ms where 3: "d' = d1\<lparr>pd_shares := pd_shares d1 @ share_rows ids bill now 0 (zip ?us amounts),
        pd_outbox := pd_outbox d1 @ ms\<rparr>" "length ms = length (zip ?us amounts)"
      "\<forall>m \<in> set ms. ob_routingKey m = ''payments.split-bill.created.v1''"
    using create_shares_ok [OF 2(2)] by blast
  have "0 < t" using 1(1) by (simp add: parseMoneyToMinor_iff)
  note len = shareAmounts_ok(1) [OF 1(3) this]
  have "distinct (map ss_id (pd_shares d'))" if "distinct (map ss_id (pd_shares d))"
    using create_shares_ids [OF 2(2)] that insert_bill_ok [OF 2(1)] by simp
  then show ?thesis
    using 1 3 len insert_bill_ok [OF 2(1)] by (intro that [of bill amounts ms]) (simp_all add: bill_def)
qed

text \<open>
  C25. A bill is created whole or not at all. If its transaction commits, the database gains the bill,
  one share for each of its distinct participants in their order, and one message for each share; the
  shares are positive and sum exactly to the total the client wrote, and in an equal split they differ
  by at most one minor unit. Otherwise the request fails and nothing has changed.
\<close>

theorem bill_is_fully_shared:
  assumes "create_bill js_date ids tc now dto creator reference later d = (r, d')"
  shows "(\<exists>e. r = Inl e \<and> d' = d) \<or>
    (\<exists>bill shares ms. d' = d\<lparr>pd_bills := pd_bills d @ [bill], pd_shares := pd_shares d @ shares,
        pd_outbox := pd_outbox d @ ms\<rparr> \<and>
      formatMinor (sb_totalMinor bill) = cb_total dto \<and> sum_list (map ss_amountMinor shares) = sb_totalMinor bill \<and>
      (\<forall>s \<in> set shares. 0 < ss_amountMinor s \<and> ss_billId s = sb_id bill) \<and>
      map ss_participantUserId shares = map (\<lambda>p. pg_uuid (pt_userId p)) (cb_participants dto) \<and>
      distinct (map ss_participantUserId shares) \<and> map ss_position shares = map int [0..<length shares] \<and>
      length ms = length shares \<and>
      (cb_mode dto = SplitEqual \<longrightarrow> (\<forall>s \<in> set shares. \<forall>t \<in> set shares. \<bar>ss_amountMinor s - ss_amountMinor t\<bar> \<le> 1)))"
proof (cases "create_bill_rows js_date ids tc now dto creator reference d")
  case (Inl e)
  with assms show ?thesis by (auto simp: create_bill_def)
next
  case (Inr d1)
  with assms have d1: "d1 = d'" by (simp add: create_bill_def)
  let ?us = "map (\<lambda>p. toLowerCase (pt_userId p)) (cb_participants dto)"
  from create_bill_rows_ok [OF Inr] obtain bill amounts ms where
    b: "parseMoneyToMinor (cb_total dto) ''total'' = Inr (sb_totalMinor bill)" "distinct ?us"
      "shareAmounts dto (sb_totalMinor bill) = Inr amounts" "length ms = length (cb_participants dto)"
      "d' = d\<lparr>pd_bills := pd_bills d @ [uuid_bill bill],
        pd_shares := pd_shares d @ share_rows ids bill now 0 (zip ?us amounts), pd_outbox := pd_outbox d @ ms\<rparr>"
    unfolding d1 by blast
  let ?ss = "share_rows ids bill now 0 (zip ?us amounts)"
  have t: "0 < sb_totalMinor bill" "formatMinor (sb_totalMinor bill) = cb_total dto"
    using b(1) by (simp_all add: parseMoneyToMinor_iff)
  note a = shareAmounts_ok [OF b(3) t(1)]
  have am: "map ss_amountMinor ?ss = amounts" using a(1) by (simp add: share_rows_sel)
  have us: "map ss_participantUserId ?ss = map (\<lambda>p. pg_uuid (pt_userId p)) (cb_participants dto)"
    using a(1) by (simp add: share_rows_sel flip: map_map) (simp add: pg_uuid_def toLowerCase_def)
  have len: "length ?ss = length (cb_participants dto)" using arg_cong [OF us, of length] by simp
  have "distinct (map ss_participantUserId ?ss)" using b(2) by (simp add: us pg_uuid_def)
  moreover have "map ss_position ?ss = map int [0..<length ?ss]" using len a(1) by (simp add: share_rows_sel)
  moreover have "0 < ss_amountMinor s" if "s \<in> set ?ss" for s using a(3) that am by (metis imageI set_map)
  moreover have "\<bar>ss_amountMinor s - ss_amountMinor u\<bar> \<le> 1"
    if "cb_mode dto = SplitEqual" "s \<in> set ?ss" "u \<in> set ?ss" for s u
  proof -
    have "amounts = equal_amounts (sb_totalMinor bill) (length (cb_participants dto))"
      using b(3) that(1) by (simp add: shareAmounts_def split: if_splits)
    then show ?thesis using that(2,3) am equal_amounts_near(1) by (metis imageI set_map)
  qed
  ultimately show ?thesis using b t a(2) am us len share_rows_sel(4) [of ids bill now 0]
    by (intro disjI2 exI [of _ "uuid_bill bill"] exI [of _ ?ss] exI [of _ ms]) (auto simp: uuid_bill_def)
qed

definition ex_bill_ids :: bill_ids where
  "ex_bill_ids = \<lparr>bi_bill = ''b1'', bi_share = (\<lambda>k. ''s'' @ show_nat k), bi_event = (\<lambda>k. ''e'' @ show_nat k)\<rparr>"

definition ex_bill_dto :: create_split_bill_dto where
  "ex_bill_dto = \<lparr>cb_total = ''10.00'', cb_currency = ''USD'', cb_mode = SplitEqual,
     cb_participants = [\<lparr>pt_userId = ''u1'', pt_share = None\<rparr>, \<lparr>pt_userId = ''u2'', pt_share = None\<rparr>,
       \<lparr>pt_userId = ''u3'', pt_share = None\<rparr>], cb_deadline = None\<rparr>"

definition ex_trace :: trace_context where
  "ex_trace = \<lparr>tc_traceId = None, tc_traceparent = None, tc_tracestate = None\<rparr>"

lemma ex_bill_created:
  "case create_bill (\<lambda>_. None) ex_bill_ids ex_trace 0 ex_bill_dto ''u1'' ''ann'' id empty_payments_db of
     (r, d) \<Rightarrow> is_ok r \<and> map ss_amountMinor (pd_shares d) = [334, 333, 333]"
  by code_simp

theorem bill_is_fully_shared_witness:
  "\<exists>d bill shares ms. snd (create_bill (\<lambda>_. None) ex_bill_ids ex_trace 0 ex_bill_dto ''u1'' ''ann'' id empty_payments_db) = d \<and>
     d = empty_payments_db\<lparr>pd_bills := [bill], pd_shares := shares, pd_outbox := ms\<rparr> \<and>
     sum_list (map ss_amountMinor shares) = sb_totalMinor bill \<and> length ms = 3"
proof -
  obtain r d where c: "create_bill (\<lambda>_. None) ex_bill_ids ex_trace 0 ex_bill_dto ''u1'' ''ann'' id empty_payments_db = (r, d)"
    by fastforce
  with ex_bill_created have "is_ok r" by simp
  moreover have "length (cb_participants ex_bill_dto) = 3" by (simp add: ex_bill_dto_def)
  ultimately show ?thesis using bill_is_fully_shared [OF c] c
    by (auto simp: empty_payments_db_def dest: map_eq_imp_length_eq)
qed

section \<open>Views\<close>

lemma length_filter_all: "length (filter P xs) = length xs \<longleftrightarrow> (\<forall>x \<in> set xs. P x)"
  by (metis filter_True length_filter_less nat_neq_iff)

lemma share_view_paid: "sv_paymentStatus (shareView d s) = Paid \<longleftrightarrow> share_paid d s"
  by (simp add: shareView_def share_paid_def Let_def split: option.splits)

lemma get_bill_ok:
  assumes "get_bill d i u = Inr v"
  obtains bill where "find_bill d i = Some bill"
    "v = bill_toView d bill (sort_key ss_position (shares_of_bill d (sb_id bill)))"
    "sb_creatorUserId bill = u \<or> (\<exists>s \<in> set (shares_of_bill d (sb_id bill)). ss_participantUserId s = u)"
  using assms by (auto simp: get_bill_def Let_def split: option.splits if_splits)

lemma settled_all_paid:
  assumes "v = bill_toView d bill (sort_key ss_position ss)" "bv_status v = BillSettled"
  shows "\<forall>s \<in> set ss. share_paid d s"
proof -
  have "length (filter (share_paid d) (sort_key ss_position ss)) = length (sort_key ss_position ss)"
    using assms by (simp add: bill_toView_def Let_def deriveSplitBillStatus_def filter_map o_def share_view_paid split: if_splits)
  then show ?thesis unfolding length_filter_all by simp
qed

text \<open>
  What a user sees of a bill: only its creator and its participants see it, its amounts are printed
  from its shares in their order, a share is shown as paid exactly if the transfer that pays it is
  completed, and the bill is settled exactly if it has shares and all of them are paid.
\<close>

theorem bill_view_is_true:
  "get_bill d i u = Inr v \<longleftrightarrow>
     (\<exists>bill. find_bill d i = Some bill \<and>
        (sb_creatorUserId bill = u \<or> u \<in> ss_participantUserId ` set (shares_of_bill d (sb_id bill))) \<and>
        v = bill_toView d bill (sort_key ss_position (shares_of_bill d (sb_id bill))) \<and>
        map sv_amount (bv_shares v) =
          map (formatMinor \<circ> ss_amountMinor) (sort_key ss_position (shares_of_bill d (sb_id bill))) \<and>
        map (\<lambda>s. sv_paymentStatus s = Paid) (bv_shares v) =
          map (share_paid d) (sort_key ss_position (shares_of_bill d (sb_id bill))) \<and>
        (bv_status v = BillSettled) = (shares_of_bill d (sb_id bill) \<noteq> [] \<and> list_all (share_paid d) (shares_of_bill d (sb_id bill))))"
    (is "?lhs = ?rhs")
proof
  assume ?lhs
  then obtain bill where b: "find_bill d i = Some bill"
      "v = bill_toView d bill (sort_key ss_position (shares_of_bill d (sb_id bill)))"
      "sb_creatorUserId bill = u \<or> (\<exists>s \<in> set (shares_of_bill d (sb_id bill)). ss_participantUserId s = u)"
    by (rule get_bill_ok)
  let ?ss = "sort_key ss_position (shares_of_bill d (sb_id bill))"
  have v: "bv_shares v = map (shareView d) ?ss" by (simp add: b(2) bill_toView_def Let_def)
  have "length (filter (\<lambda>v. sv_paymentStatus v = Paid) (map (shareView d) ?ss)) = length (filter (share_paid d) ?ss)"
    by (simp add: filter_map o_def share_view_paid)
  then have st: "bv_status v = deriveSplitBillStatus (length (filter (share_paid d) ?ss)) (length ?ss)"
    by (simp add: b(2) bill_toView_def Let_def)
  have "length (filter (share_paid d) ?ss) = length ?ss \<longleftrightarrow> list_all (share_paid d) (shares_of_bill d (sb_id bill))"
    by (simp only: length_filter_all set_sort list_all_iff)
  then have "(bv_status v = BillSettled) = (shares_of_bill d (sb_id bill) \<noteq> [] \<and> list_all (share_paid d) (shares_of_bill d (sb_id bill)))"
    unfolding st by (auto simp: deriveSplitBillStatus_def)
  moreover have "map sv_amount (bv_shares v) = map (formatMinor \<circ> ss_amountMinor) ?ss"
    unfolding v by (simp add: shareView_def Let_def)
  moreover have "map (\<lambda>s. sv_paymentStatus s = Paid) (bv_shares v) = map (share_paid d) ?ss"
    unfolding v by (simp add: share_view_paid)
  ultimately show ?rhs using b by (intro exI [of _ bill]) auto
next
  assume ?rhs
  then obtain bill where "find_bill d i = Some bill"
      "sb_creatorUserId bill = u \<or> u \<in> ss_participantUserId ` set (shares_of_bill d (sb_id bill))"
      "v = bill_toView d bill (sort_key ss_position (shares_of_bill d (sb_id bill)))"
    by blast
  then show ?lhs by (simp add: get_bill_def) blast
qed

section \<open>Reminders\<close>

lemma insert_reminder_ok:
  assumes "insert_reminder r d = Inr (d', inserted)"
  shows "d' = (if inserted then d\<lparr>pd_reminders := pd_reminders d @ [r]\<rparr> else d)"
    "inserted \<longleftrightarrow> (sr_shareId r, sr_kind r) \<notin> (\<lambda>q. (sr_shareId q, sr_kind q)) ` set (pd_reminders d)"
  using assms by (auto simp: insert_reminder_def image_iff eq_commute [of "sr_shareId r"] eq_commute [of "sr_kind r"]
      split: if_splits)

lemma enqueueOverdueReminder_ok:
  "enqueueOverdueReminder i bill share tc now d = Inr d' \<Longrightarrow>
    \<exists>m. d' = d\<lparr>pd_outbox := pd_outbox d @ [m]\<rparr> \<and> ob_routingKey m = ''payments.split-bill.share-overdue.v1'' \<and> ob_eventId m = i"
  unfolding enqueueOverdueReminder_def by (blast dest: enqueue_ok)

abbreviation reminder_key :: "split_bill_reminder \<Rightarrow> string \<times> string" where
  "reminder_key r \<equiv> (sr_shareId r, sr_kind r)"

text \<open>What a pass adds to the database \<open>d\<close>: reminders \<open>rs\<close> and messages \<open>ms\<close>, one for each.\<close>

definition reminders_added ::
  "payments_db \<Rightarrow> split_bill_reminder list \<Rightarrow> outbox_message list \<Rightarrow> payments_db \<Rightarrow> bool" where
  "reminders_added d rs ms d' =
     (d' = d\<lparr>pd_reminders := pd_reminders d @ rs, pd_outbox := pd_outbox d @ ms\<rparr> \<and>
      map sr_eventId rs = map ob_eventId ms \<and>
      (\<forall>m \<in> set ms. ob_routingKey m = ''payments.split-bill.share-overdue.v1'') \<and>
      distinct (map reminder_key rs) \<and> reminder_key ` set rs \<inter> reminder_key ` set (pd_reminders d) = {})"

lemma reminders_added_Nil: "reminders_added d [] [] d"
  by (simp add: reminders_added_def)

lemma reminders_added_Cons:
  assumes "reminders_added (d\<lparr>pd_reminders := pd_reminders d @ [r], pd_outbox := pd_outbox d @ [m]\<rparr>) rs ms d'"
    and "reminder_key r \<notin> reminder_key ` set (pd_reminders d)" "sr_eventId r = ob_eventId m"
    and "ob_routingKey m = ''payments.split-bill.share-overdue.v1''"
  shows "reminders_added d (r # rs) (m # ms) d'"
  using assms by (auto simp: reminders_added_def)

lemma remind_each_ok:
  assumes "remind_each ids tc clock k cs d = Inr (d', n)"
  shows "\<exists>rs ms. reminders_added d rs ms d' \<and> length rs = n \<and>
    (\<forall>c \<in> set cs. \<forall>s. find_share d c = Some s \<longrightarrow> (ss_id s, ''overdue'') \<in> reminder_key ` set (pd_reminders d'))"
  using assms
proof (induction cs arbitrary: k d n)
  case Nil
  then show ?case using reminders_added_Nil by auto
next
  case (Cons c cs)
  show ?case
  proof (cases "find_share d c")
    case None
    with Cons show ?thesis by fastforce
  next
    case (Some share)
    let ?r = "\<lparr>sr_id = fst (ids k), sr_shareId = ss_id share, sr_kind = ''overdue'', sr_eventId = snd (ids k),
      sr_createdAt = clock\<rparr>"
    obtain d1 inserted where i: "insert_reminder ?r d = Inr (d1, inserted)"
      using Cons.prems Some by (auto simp: result_simps)
    note ins = insert_reminder_ok [OF i]
    show ?thesis
    proof (cases inserted)
      case False
      then have "remind_each ids tc clock (Suc k) cs d = Inr (d', n)" using Cons.prems Some i ins(1) by simp
      with Cons.IH obtain rs ms where h: "reminders_added d rs ms d'" "length rs = n"
        "\<forall>c \<in> set cs. \<forall>s. find_share d c = Some s \<longrightarrow> (ss_id s, ''overdue'') \<in> reminder_key ` set (pd_reminders d')"
        by blast
      moreover have "set (pd_reminders d) \<subseteq> set (pd_reminders d')" using h(1) by (auto simp: reminders_added_def)
      moreover have "(ss_id share, ''overdue'') \<in> reminder_key ` set (pd_reminders d)" using ins(2) False by simp
      ultimately have "(ss_id share, ''overdue'') \<in> reminder_key ` set (pd_reminders d')" by blast
      with h Some show ?thesis by (intro exI [of _ rs] exI [of _ ms]) simp
    next
      case True
      then have d1: "d1 = d\<lparr>pd_reminders := pd_reminders d @ [?r]\<rparr>" using ins(1) by simp
      obtain bill d2 n' where e: "enqueueOverdueReminder (snd (ids k)) bill share tc clock d1 = Inr d2"
          "remind_each ids tc clock (Suc k) cs d2 = Inr (d', n')" "n = n' + 1"
        using Cons.prems Some i True by (auto simp: result_simps case_option_eq_Inr)
      obtain m where m: "d2 = d1\<lparr>pd_outbox := pd_outbox d1 @ [m]\<rparr>" "ob_eventId m = snd (ids k)"
          "ob_routingKey m = ''payments.split-bill.share-overdue.v1''"
        using enqueueOverdueReminder_ok [OF e(1)] by blast
      have d2: "d2 = d\<lparr>pd_reminders := pd_reminders d @ [?r], pd_outbox := pd_outbox d @ [m]\<rparr>" using m(1) d1 by simp
      have fs: "find_share d2 = find_share d" by (simp add: d2 find_share_def fun_eq_iff)
      obtain rs ms where h: "reminders_added d2 rs ms d'" "length rs = n'"
        "\<forall>c \<in> set cs. \<forall>s. find_share d c = Some s \<longrightarrow> (ss_id s, ''overdue'') \<in> reminder_key ` set (pd_reminders d')"
        using Cons.IH [OF e(2)] fs by auto
      have "reminders_added d (?r # rs) (m # ms) d'"
        using h(1) ins(2) True m by (intro reminders_added_Cons) (simp_all add: d2)
      moreover have "?r \<in> set (pd_reminders d')" using h(1) by (simp add: reminders_added_def d2)
      then have "(ss_id share, ''overdue'') \<in> reminder_key ` set (pd_reminders d')" by force
      ultimately show ?thesis using h e(3) Some by (intro exI [of _ "?r # rs"] exI [of _ "m # ms"]) auto
    qed
  qed
qed

text \<open>
  An overdue share is announced once. A pass of the reminder adds as many reminders as it counts,
  each with one message of the same event id, none for a share that already has one and no two for the
  same share, whatever other passes committed since the candidates were read; afterwards every candidate
  has its reminder, so no later pass selects it.
\<close>

theorem overdue_announced_once:
  assumes "detectAndEnqueue ids tc clock seen locked now limit d = Inr (d', n)"
  shows "(\<exists>rs ms. d' = d\<lparr>pd_reminders := pd_reminders d @ rs, pd_outbox := pd_outbox d @ ms\<rparr> \<and>
      length rs = n \<and> map sr_eventId rs = map ob_eventId ms \<and> distinct (map (\<lambda>r. (sr_shareId r, sr_kind r)) rs) \<and>
      (\<lambda>r. (sr_shareId r, sr_kind r)) ` set rs \<inter> (\<lambda>r. (sr_shareId r, sr_kind r)) ` set (pd_reminders d) = {}) \<and>
    (\<forall>c s later. c \<in> set (overdue_candidates seen locked now limit) \<and> find_share d c = Some s \<longrightarrow>
      \<not> overdue_share d' later s)"
proof -
  obtain rs ms where h: "reminders_added d rs ms d'" "length rs = n"
    "\<forall>c \<in> set (overdue_candidates seen locked now limit). \<forall>s. find_share d c = Some s \<longrightarrow>
      (ss_id s, ''overdue'') \<in> reminder_key ` set (pd_reminders d')"
    using remind_each_ok assms unfolding detectAndEnqueue_def by blast
  have after: "\<not> overdue_share d' later s"
    if "c \<in> set (overdue_candidates seen locked now limit)" "find_share d c = Some s" for c s later
    using h(3) that by (fastforce simp: overdue_share_def image_iff)
  show ?thesis
  proof (intro conjI exI allI impI)
    show "d' = d\<lparr>pd_reminders := pd_reminders d @ rs, pd_outbox := pd_outbox d @ ms\<rparr>"
      "length rs = n" "map sr_eventId rs = map ob_eventId ms" "distinct (map reminder_key rs)"
      "reminder_key ` set rs \<inter> reminder_key ` set (pd_reminders d) = {}"
      using h(1,2) by (simp_all add: reminders_added_def)
  qed (erule conjE, rule after)
qed

definition ex_overdue_db :: payments_db where
  "ex_overdue_db = empty_payments_db\<lparr>
     pd_bills := [\<lparr>sb_id = ''b1'', sb_creatorUserId = ''u1'', sb_creatorReference = ''ann'', sb_totalMinor = 1000,
       sb_currency = ''USD'', sb_deadline = Some 0, sb_createdAt = 0, sb_updatedAt = 0\<rparr>],
     pd_shares := [\<lparr>ss_id = ''s1'', ss_billId = ''b1'', ss_participantUserId = ''u2'', ss_amountMinor = 1000,
       ss_position = 0, ss_createdAt = 0\<rparr>]\<rparr>"

lemma ex_overdue:
  "map_sum id snd (detectAndEnqueue (\<lambda>k. (''r1'', ''e1'')) ex_trace 0 ex_overdue_db [] 0 100 ex_overdue_db) = Inr 1"
  "overdue_candidates ex_overdue_db [] 0 100 = [''s1'']"
  by code_simp+

theorem overdue_announced_once_witness:
  "\<exists>d s. detectAndEnqueue (\<lambda>k. (''r1'', ''e1'')) ex_trace 0 ex_overdue_db [] 0 100 ex_overdue_db = Inr (d, 1) \<and>
     find_share ex_overdue_db ''s1'' = Some s \<and> length (pd_reminders d) = 1 \<and> \<not> overdue_share d 0 s"
proof -
  obtain d where d: "detectAndEnqueue (\<lambda>k. (''r1'', ''e1'')) ex_trace 0 ex_overdue_db [] 0 100 ex_overdue_db = Inr (d, 1)"
    using ex_overdue(1) by (auto simp: map_sum_def split: sum.splits)
  obtain s where s: "find_share ex_overdue_db ''s1'' = Some s"
    by (simp add: find_share_def ex_overdue_db_def pg_uuid_def toLowerCase_def lower_char_def)
  have "pd_reminders ex_overdue_db = []" by (simp add: ex_overdue_db_def empty_payments_db_def)
  with conjunct1 [OF overdue_announced_once [OF d]] have "length (pd_reminders d) = 1" by (elim exE conjE) simp
  moreover have "\<not> overdue_share d 0 s" using conjunct2 [OF overdue_announced_once [OF d], rule_format, of "''s1''" s 0] s unfolding ex_overdue(2) by simp
  ultimately show ?thesis using d s by blast
qed

end
