(* ===== verification/Payments_Safety.thy ===== *)
theory Payments_Safety
  imports Saga_Progress Split_Bill_Properties
begin

text \<open>
  The payments service as a whole. One step is a request that creates a transfer, pays a share or
  creates a bill, a pass of the reminder, a claim or an outcome of the outbox publisher, or a run of the
  saga or of its recovery, itself interleaved with whatever keeps the invariant. Every step keeps the
  invariant, so a state reached by any sequence of steps satisfies it, and the steps of others are an
  admissible environment of a saga run.
\<close>

section \<open>Steps of the service\<close>

inductive payments_step :: "payments_db \<times> ledger_call list \<Rightarrow> payments_db \<times> ledger_call list \<Rightarrow> bool" where
  created: "create_transfer sha256 x newId dto key userId = Inr (d', v) \<Longrightarrow> cx_db x = d \<Longrightarrow> payments_step (d, c) (d', c)"
| share_payment_created: "share_payment seen billId shareId userId walletId = Inr input \<Longrightarrow>
    set (pd_shares seen) \<subseteq> set (pd_shares d) \<Longrightarrow>
    createSplitSharePayment sha256 x newId input key = Inr (d', v) \<Longrightarrow> cx_db x = d \<Longrightarrow> payments_step (d, c) (d', c)"
| bill_created: "create_bill js_date ids tc now dto creator reference later d = (r, d') \<Longrightarrow> payments_step (d, c) (d', c)"
| reminded: "detectAndEnqueue rids tc clock seen locked now limit d = Inr (d', n) \<Longrightarrow> payments_step (d, c) (d', c)"
| claimed: "claim_payments lockId now batch locked (pd_outbox d) = (ob, ms) \<Longrightarrow> payments_step (d, c) (d\<lparr>pd_outbox := ob\<rparr>, c)"
| published: "settle_payments_publication m lockId outcome publishedAt now (pd_outbox d) = Inr ob \<Longrightarrow>
    payments_step (d, c) (d\<lparr>pd_outbox := ob\<rparr>, c)"
| saga_run: "good_world w \<Longrightarrow> run_saga w i owner now s = (r', s') \<Longrightarrow> sg_db s = d \<Longrightarrow> sg_calls s = c \<Longrightarrow>
    payments_step (d, c) (sg_db s', sg_calls s')"
| recovery: "good_world w \<Longrightarrow> recoverDue w owners now limit s = (n', s') \<Longrightarrow> sg_db s = d \<Longrightarrow> sg_calls s = c \<Longrightarrow>
    payments_step (d, c) (sg_db s', sg_calls s')"

section \<open>New transfers\<close>

lemma db_le_mono: "set (pd_transfers d) \<subseteq> set (pd_transfers d') \<Longrightarrow> db_le d d'"
  unfolding db_le_def using row_le_refl by blast

lemma find_SomeD: "find P xs = Some x \<Longrightarrow> x \<in> set xs \<and> P x"
  by (auto simp: find_Some_iff)

lemma createCanonical_commits:
  assumes "createCanonical sha256 x newId r key = Inr (d', v)"
  shows "d' = cx_db x \<or> (\<exists>q fp. insert_transfer (new_transfer newId r q key fp (cx_now x)) (cx_db x) = Inr d')"
proof -
  have "insert_or_winner x t r key fp = Inr (d', v) \<Longrightarrow> d' = cx_db x \<or> insert_transfer t (cx_db x) = Inr d'" for t fp
    by (auto simp: insert_or_winner_def result_simps case_option_eq_Inr split: sum.splits if_splits)
  then show ?thesis using assms
    by (auto simp: createCanonical_def Let_def result_simps split: option.splits)
qed

lemma new_transfer_keeps:
  assumes inv: "saga_inv d c" and ins: "insert_transfer t d = Inr d'"
    and t: "canonical (tr_id t)" "tr_status t = Pending" "tr_leaseOwner t = None"
    and share: "\<And>i. tr_splitBillShareId t = Some i \<Longrightarrow> \<exists>s \<in> set (pd_shares d). ss_id s = i \<and> ss_amountMinor s = tr_amountMinor t"
  shows "saga_inv d' c \<and> db_le d d'"
proof
  have d': "d' = d\<lparr>pd_transfers := pd_transfers d @ [t]\<rparr>" "tr_id t \<notin> tr_id ` set (pd_transfers d)"
    using ins by (simp_all add: insert_transfer_ok)
  have "keys_unique d'" by (rule insert_transfer_keys [OF ins saga_inv_keys [OF inv] t(1)])
  moreover have "bills_inv d'" using saga_inv_bills [OF inv] share
    by (simp add: bills_inv_def d'(1) shares_of_bill_def)
  moreover have "call_transfer x \<noteq> tr_id t" if "x \<in> set c" for x
    using inv d'(2) that unfolding saga_inv_def by metis
  then have "HoldRequested (tr_id t) \<notin> set c" "SettleRequested (tr_id t) \<notin> set c"
    by (metis call_transfer.simps(1), metis call_transfer.simps(3))
  moreover have "row_history c t" using t(2) by (simp add: row_history_def)
  moreover have "completed_ids d' = completed_ids d" by (simp add: completed_ids_def d'(1))
  moreover have "{tr_id r | r. r \<in> set (pd_transfers d') \<and> tr_status r = Completed} =
      {tr_id r | r. r \<in> set (pd_transfers d) \<and> tr_status r = Completed}"
    using t(2) by (auto simp: d'(1))
  ultimately show "saga_inv d' c" using inv t by (auto simp: saga_inv_def d'(1))
  show "db_le d d'" by (rule db_le_mono) (auto simp: d'(1))
qed

lemma new_transfer_row:
  "canonical (tr_id (new_transfer i r q key fp now))" "tr_status (new_transfer i r q key fp now) = Pending"
  "tr_leaseOwner (new_transfer i r q key fp now) = None" "tr_amountMinor (new_transfer i r q key fp now) = cr_amountMinor r"
  "tr_splitBillShareId (new_transfer i r q key fp now) = map_option pg_uuid (cr_splitBillShareId r)"
  by (simp_all add: new_transfer_def)

lemma creation_keeps:
  assumes inv: "saga_inv (cx_db x) c" and run: "createCanonical sha256 x newId r key = Inr (d', v)"
    and share: "\<And>i. cr_splitBillShareId r = Some i \<Longrightarrow>
      \<exists>s \<in> set (pd_shares (cx_db x)). ss_id s = pg_uuid i \<and> ss_amountMinor s = cr_amountMinor r"
  shows "saga_inv d' c \<and> db_le (cx_db x) d'"
  using createCanonical_commits [OF run]
proof (elim disjE exE)
  assume "d' = cx_db x"
  with inv show ?thesis by simp
next
  fix q fp assume ins: "insert_transfer (new_transfer newId r q key fp (cx_now x)) (cx_db x) = Inr d'"
  show ?thesis by (rule new_transfer_keeps [OF inv ins]) (use share in \<open>auto simp: new_transfer_row\<close>)
qed

lemma share_payment_ok:
  assumes "share_payment d billId shareId userId walletId = Inr input"
  obtains s where "s \<in> set (pd_shares d)" "sp_shareId input = ss_id s" "sp_amountMinor input = ss_amountMinor s"
  using assms find_SomeD by (fastforce simp: share_payment_def find_bill_share_def split: option.splits if_splits)

section \<open>New bills\<close>

lemma completion_id_other: "ob_routingKey m \<noteq> ''payments.transfer.completed.v1'' \<Longrightarrow> completion_id m = None"
  by (simp add: completion_id_def)

lemma new_bill_keeps:
  assumes inv: "bills_inv d" and d': "pd_bills d' = pd_bills d @ [b]" "pd_shares d' = pd_shares d @ ss" "pd_transfers d' = pd_transfers d"
    and b: "sb_id b \<notin> sb_id ` set (pd_bills d)" "sum_list (map ss_amountMinor ss) = sb_totalMinor b"
    and ss: "distinct (map ss_id (pd_shares d'))" "\<forall>s \<in> set ss. canonical (ss_id s) \<and> ss_billId s = sb_id b"
  shows "bills_inv d'"
proof -
  have "filter (\<lambda>s. ss_billId s = sb_id b) ss = ss" using ss(2) by (simp add: filter_id_conv)
  moreover have "filter (\<lambda>s. ss_billId s = sb_id b) (pd_shares d) = []"
    using inv b(1) unfolding filter_empty_conv bills_inv_def by metis
  moreover have "filter (\<lambda>s. ss_billId s = sb_id x) ss = []" if "x \<in> set (pd_bills d)" for x
    using that b(1) ss(2) unfolding filter_empty_conv by (metis imageI)
  moreover have "\<exists>s \<in> set (pd_shares d'). ss_id s = i \<and> ss_amountMinor s = tr_amountMinor t"
    if "t \<in> set (pd_transfers d)" "tr_splitBillShareId t = Some i" for t i
    using inv that unfolding bills_inv_def d'(2) set_append by blast
  ultimately show ?thesis
    using inv b ss unfolding bills_inv_def shares_of_bill_def d'(1,3) by (simp add: d'(2) ball_Un)
qed

lemma bill_rows_keep:
  assumes inv: "saga_inv d c" and run: "create_bill_rows js_date ids tc now dto creator reference d = Inr d'"
  shows "saga_inv d' c \<and> db_le d d'"
proof -
  let ?us = "map (\<lambda>p. toLowerCase (pt_userId p)) (cb_participants dto)"
  obtain bill amounts ms where
    b: "parseMoneyToMinor (cb_total dto) ''total'' = Inr (sb_totalMinor bill)"
      "shareAmounts dto (sb_totalMinor bill) = Inr amounts"
      "\<forall>m \<in> set ms. ob_routingKey m = ''payments.split-bill.created.v1''"
      "sb_id (uuid_bill bill) \<notin> sb_id ` set (pd_bills d)"
      "distinct (map ss_id (pd_shares d)) \<Longrightarrow> distinct (map ss_id (pd_shares d'))"
      "d' = d\<lparr>pd_bills := pd_bills d @ [uuid_bill bill],
        pd_shares := pd_shares d @ share_rows ids bill now 0 (zip ?us amounts), pd_outbox := pd_outbox d @ ms\<rparr>"
    by (rule create_bill_rows_ok [OF run]) (rule that)
  let ?ss = "share_rows ids bill now 0 (zip ?us amounts)"
  have t: "0 < sb_totalMinor bill" using b(1) by (simp add: parseMoneyToMinor_iff)
  note a = shareAmounts_ok [OF b(2) t]
  have "bills_inv (d\<lparr>pd_bills := pd_bills d @ [uuid_bill bill], pd_shares := pd_shares d @ ?ss\<rparr>)"
    by (rule new_bill_keeps [OF saga_inv_bills [OF inv], of _ "uuid_bill bill" ?ss])
      (use b(4,5) saga_inv_bills [OF inv] a share_rows_sel share_rows_canonical in
        \<open>auto simp: b(6) uuid_bill_def bills_inv_def\<close>)
  then have "saga_inv (d\<lparr>pd_bills := pd_bills d @ [uuid_bill bill], pd_shares := pd_shares d @ ?ss\<rparr>) c"
    using inv by (simp add: saga_inv_def completed_ids_def keys_unique_def)
  from saga_inv_outbox [OF this, of ms] b(3) have "saga_inv d' c" by (simp add: b(6) completion_id_other)
  moreover have "db_le d d'" by (rule db_le_mono) (simp add: b(6))
  ultimately show ?thesis ..
qed

section \<open>Reminders and the publisher\<close>

lemma reminders_keep:
  assumes inv: "saga_inv d c" and run: "detectAndEnqueue ids tc clock seen locked now limit d = Inr (d', n)"
  shows "saga_inv d' c \<and> db_le d d'"
proof -
  obtain rs ms where r: "reminders_added d rs ms d'"
    using remind_each_ok [OF run [unfolded detectAndEnqueue_def]] by (elim exE conjE) (rule that)
  have "saga_inv (d\<lparr>pd_reminders := pd_reminders d @ rs\<rparr>) c"
    using inv bills_inv_cong [of d "d\<lparr>pd_reminders := pd_reminders d @ rs\<rparr>"]
    by (auto simp: saga_inv_def completed_ids_def keys_unique_def)
  from saga_inv_outbox [OF this, of ms] r have "saga_inv d' c"
    by (simp add: reminders_added_def completion_id_other)
  moreover have "db_le d d'" using r by (intro db_le_mono) (simp add: reminders_added_def)
  ultimately show ?thesis ..
qed

lemma map_filter_map_same:
  "(\<And>x. f (g x) = f x) \<Longrightarrow> List.map_filter f (map g xs) = List.map_filter f xs"
  by (simp add: List.map_filter_def filter_map o_def)

lemma update_outbox_keeps:
  assumes inv: "saga_inv d c" and upd: "\<And>m. ob_event (upd m) = ob_event m" "\<And>m. ob_routingKey (upd m) = ob_routingKey m"
  shows "saga_inv (d\<lparr>pd_outbox := update_outbox sel upd (pd_outbox d)\<rparr>) c"
proof -
  let ?d = "d\<lparr>pd_outbox := update_outbox sel upd (pd_outbox d)\<rparr>"
  have "completion_id (if sel m then upd m else m) = completion_id m" for m by (simp add: completion_id_def upd)
  then have "completed_ids ?d = completed_ids d"
    unfolding completed_ids_def update_outbox_def by (simp add: map_filter_map_same)
  moreover have "bills_inv ?d" using saga_inv_bills [OF inv] by (rule bills_inv_cong) auto
  ultimately show ?thesis using inv by (simp add: saga_inv_def keys_unique_def)
qed

lemma outbox_claim_keeps:
  assumes "saga_inv d c" "claim_payments lockId now batch locked (pd_outbox d) = (ob, ms)"
  shows "saga_inv (d\<lparr>pd_outbox := ob\<rparr>) c"
  using assms(2) by (auto simp: claim_payments_def Let_def intro!: update_outbox_keeps [OF assms(1)])

lemma outbox_settle_keeps:
  assumes "saga_inv d c" "settle_payments_publication m lockId outcome publishedAt now (pd_outbox d) = Inr ob"
  shows "saga_inv (d\<lparr>pd_outbox := ob\<rparr>) c"
  using assms(2) by (auto simp: settle_payments_publication_def Let_def split: option.splits if_splits
      intro!: update_outbox_keeps [OF assms(1)])

lemma db_le_outbox [simp]: "db_le d (d\<lparr>pd_outbox := ob\<rparr>)"
  by (rule db_le_mono) simp

section \<open>Every step keeps the invariant\<close>

lemma payments_step_keeps:
  assumes "payments_step (d, c) (d', c')" "saga_inv d c"
  shows "saga_inv d' c' \<and> db_le d d' \<and> set c \<subseteq> set c'"
  using assms(1)
proof cases
  case (created sha256 x newId dto key userId v)
  then obtain r k where r: "canonicalRequest dto userId None = Inr r" "createCanonical sha256 x newId r k = Inr (d', v)"
    by (auto simp: create_transfer_def result_simps)
  then have "cr_splitBillShareId r = None" by (auto simp: canonicalRequest_def result_simps)
  with creation_keeps [of x c, OF _ r(2)] created assms(2) show ?thesis by simp
next
  case (share_payment_created seen billId shareId userId walletId input sha256 x newId key v)
  then obtain k where k: "createCanonical sha256 x newId (share_request input) k = Inr (d', v)"
    by (auto simp: createSplitSharePayment_def result_simps)
  obtain s where "s \<in> set (pd_shares seen)" "sp_shareId input = ss_id s" "sp_amountMinor input = ss_amountMinor s"
    using share_payment_created by (elim share_payment_ok)
  then have s: "s \<in> set (pd_shares d)" "sp_shareId input = ss_id s" "sp_amountMinor input = ss_amountMinor s"
    using share_payment_created by auto
  have "canonical (ss_id s)" using s(1) saga_inv_bills [OF assms(2)] by (simp add: bills_inv_def)
  with s creation_keeps [of x c, OF _ k] share_payment_created assms(2) show ?thesis
    by (auto simp: share_request_def pg_uuid_canonical)
next
  case (bill_created js_date ids tc now dto creator reference later r)
  then show ?thesis using bill_rows_keep [OF assms(2)] assms(2)
    by (auto simp: create_bill_def split: sum.splits)
next
  case (reminded rids tc clock seen locked now limit n)
  then show ?thesis using reminders_keep [OF assms(2)] by simp
next
  case (claimed lockId now batch locked ob ms)
  then show ?thesis using outbox_claim_keeps [OF assms(2)] by simp
next
  case (published m lockId outcome publishedAt now ob)
  then show ?thesis using outbox_settle_keeps [OF assms(2)] by simp
next
  case (saga_run w i owner now s r' s')
  then show ?thesis using run_saga_keeps [of w s] assms(2) by (auto simp: books_def world_le_def)
next
  case (recovery w owners now limit s n' s')
  then show ?thesis using recoverDue_keeps [of w s] assms(2) by (auto simp: books_def world_le_def)
qed

lemma payments_steps_keep:
  assumes "payments_step\<^sup>*\<^sup>* (d, c) (d', c')" "saga_inv d c"
  shows "saga_inv d' c' \<and> db_le d d' \<and> set c \<subseteq> set c'"
  using assms
proof (induction "(d', c')" arbitrary: d' c' rule: rtranclp_induct)
  case base
  then show ?case by simp
next
  case (step y)
  obtain d1 c1 where y: "y = (d1, c1)" by fastforce
  then have 1: "saga_inv d1 c1" "db_le d d1" "set c \<subseteq> set c1" using step by auto
  then have "saga_inv d' c' \<and> db_le d1 d' \<and> set c1 \<subseteq> set c'" using payments_step_keeps step.hyps(2) y by blast
  with 1 db_le_trans show ?case by blast
qed

lemma empty_saga_inv: "saga_inv empty_payments_db []"
  by (simp add: saga_inv_def keys_unique_def empty_payments_db_def completed_ids_def List.map_filter_def bills_inv_def)

lemma count_list_distinct: "distinct xs \<Longrightarrow> count_list xs x = (if x \<in> set xs then 1 else 0)"
  by (induction xs) auto

lemma completed_once:
  assumes "saga_inv d c" "t \<in> set (pd_transfers d)"
  shows "length (filter (\<lambda>m. completion_id m = Some (tr_id t)) (pd_outbox d)) = (if tr_status t = Completed then 1 else 0)"
proof -
  have count: "length (filter (\<lambda>m. completion_id m = Some i) ms) = count_list (List.map_filter completion_id ms) i" for i ms
    by (induction ms) (auto simp: List.map_filter_def)
  have dist: "distinct (completed_ids d)" using assms(1) by (simp add: saga_inv_def)
  have "tr_id t \<in> set (completed_ids d) \<longleftrightarrow> tr_status t = Completed"
  proof -
    have "set (completed_ids d) = {tr_id r | r. r \<in> set (pd_transfers d) \<and> tr_status r = Completed}"
      using assms(1) unfolding saga_inv_def by (elim conjE)
    moreover have "(\<exists>r. tr_id t = tr_id r \<and> r \<in> set (pd_transfers d) \<and> tr_status r = Completed) = (tr_status t = Completed)"
      using assms(2) same_id_same_row [OF saga_inv_keys [OF assms(1)] assms(2)] by metis
    ultimately show ?thesis by simp
  qed
  then show ?thesis
    using dist unfolding count completed_ids_def [symmetric] by (simp add: count_list_distinct)
qed

text \<open>
  C20. The books of the payments service balance in every state that any sequence of requests, saga runs,
  recovery passes, reminders and publications reaches, whatever the ledger answers: a transfer is
  completed only after the ledger acknowledged its settlement, and then exactly one completion message
  is in the outbox, and none before; a failed transfer whose hold may exist has been released; a hold is
  requested only after the intent is persisted, and a settlement only after the hold was placed; a
  finished transfer has no lease.
\<close>

theorem payments_books_balance:
  assumes "payments_step\<^sup>*\<^sup>* (empty_payments_db, []) (d, c)" "t \<in> set (pd_transfers d)"
  shows "(tr_status t = Completed \<longrightarrow> SettleAcked (tr_id t) \<in> set c \<or> AlreadySettled (tr_id t) \<in> set c) \<and>
    length (filter (\<lambda>m. completion_id m = Some (tr_id t)) (pd_outbox d)) = (if tr_status t = Completed then 1 else 0) \<and>
    (tr_status t = Failed \<and> tr_holdMayExist t \<longrightarrow> ReleaseAcked (tr_id t) \<in> set c) \<and>
    (HoldRequested (tr_id t) \<in> set c \<longrightarrow> tr_holdMayExist t) \<and>
    (SettleRequested (tr_id t) \<in> set c \<longrightarrow> HoldPlaced (tr_id t) \<in> set c) \<and>
    (final_status (tr_status t) \<longrightarrow> tr_leaseOwner t = None)"
proof -
  have inv: "saga_inv d c" using payments_steps_keep [OF assms(1) empty_saga_inv] by simp
  then have "row_history c t \<and> (final_status (tr_status t) \<longrightarrow> tr_leaseOwner t = None) \<and>
      (HoldRequested (tr_id t) \<in> set c \<longrightarrow> tr_holdMayExist t) \<and>
      (SettleRequested (tr_id t) \<in> set c \<longrightarrow> HoldPlaced (tr_id t) \<in> set c)"
    using assms(2) by (simp add: saga_inv_def)
  with completed_once [OF inv assms(2)] show ?thesis by (auto simp: row_history_def)
qed

theorem payments_books_balance_witness:
  "\<exists>d t. payments_step\<^sup>*\<^sup>* (empty_payments_db, []) (d, []) \<and> t \<in> set (pd_transfers d) \<and>
     length (filter (\<lambda>m. completion_id m = Some (tr_id t)) (pd_outbox d)) = (if tr_status t = Completed then 1 else 0)"
proof -
  obtain d v where c: "create_transfer ex_sha (ex_create_tx empty_payments_db) ''t1'' ex_dto (Some '' k1 '') ''u1'' = Inr (d, v)"
      "tr_id ` set (pd_transfers d) = {''t1''}"
    using ex_first_creation by (elim exE conjE) (rule that)
  then obtain t where t: "t \<in> set (pd_transfers d)" by (metis image_is_empty insert_not_empty all_not_in_conv)
  have "cx_db (ex_create_tx empty_payments_db) = empty_payments_db" by (simp add: ex_create_tx_def)
  from payments_step.created [OF c(1) this] have "payments_step\<^sup>*\<^sup>* (empty_payments_db, []) (d, [])" by blast
  with t payments_books_balance [OF this t] show ?thesis by blast
qed


text \<open>
  C22. A settled bill has been paid in full: if a reachable state shows a bill as settled, then each of
  its shares is paid by a transfer that is completed, that the ledger acknowledged and that has the
  amount of the share, no two shares by the same one, and together they pay exactly the total.
\<close>

theorem settled_bill_is_paid:
  assumes "payments_step\<^sup>*\<^sup>* (empty_payments_db, []) (d, c)" "get_bill d i u = Inr v" "bv_status v = BillSettled"
  shows "\<exists>bill ts. find_bill d i = Some bill \<and> set ts \<subseteq> set (pd_transfers d) \<and> distinct ts \<and>
    map tr_splitBillShareId ts = map (Some \<circ> ss_id) (shares_of_bill d (sb_id bill)) \<and>
    list_all (\<lambda>t. tr_status t = Completed \<and> (SettleAcked (tr_id t) \<in> set c \<or> AlreadySettled (tr_id t) \<in> set c)) ts \<and>
    sum_list (map tr_amountMinor ts) = sb_totalMinor bill"
proof -
  have inv: "saga_inv d c" using payments_steps_keep [OF assms(1) empty_saga_inv] by simp
  note bi = saga_inv_bills [OF inv]
  obtain bill where b: "find_bill d i = Some bill"
      "v = bill_toView d bill (sort_key ss_position (shares_of_bill d (sb_id bill)))"
    using assms(2) by (rule get_bill_ok)
  let ?ss = "shares_of_bill d (sb_id bill)"
  have paid: "share_paid d s" if "s \<in> set ?ss" for s
    using settled_all_paid [OF b(2) assms(3)] that by simp
  define pay where "pay s = the (transfer_of_share d (ss_id s))" for s :: split_bill_share
  have pay: "pay s \<in> set (pd_transfers d)" "tr_splitBillShareId (pay s) = Some (ss_id s)" "tr_status (pay s) = Completed"
      "tr_amountMinor (pay s) = ss_amountMinor s" if s: "s \<in> set ?ss" for s
  proof -
    have sh: "s \<in> set (pd_shares d)" using s by (simp add: shares_of_bill_def)
    then have "canonical (ss_id s)" using bi by (simp add: bills_inv_def)
    obtain t where t: "transfer_of_share d (ss_id s) = Some t" "tr_status t = Completed"
      using paid [OF s] by (auto simp: share_paid_def split: option.splits)
    then have "t \<in> set (pd_transfers d)" "tr_splitBillShareId t = Some (ss_id s)"
      using find_SomeD [OF t(1) [unfolded transfer_of_share_def]] pg_uuid_canonical [OF \<open>canonical (ss_id s)\<close>] by simp_all
    moreover from this obtain s' where "s' \<in> set (pd_shares d)" "ss_id s' = ss_id s" "ss_amountMinor s' = tr_amountMinor t"
      using bi unfolding bills_inv_def by blast
    moreover from this sh have "s' = s" using bi by (simp add: bills_inv_def distinct_map inj_on_def)
    ultimately show "pay s \<in> set (pd_transfers d)" "tr_splitBillShareId (pay s) = Some (ss_id s)"
      "tr_status (pay s) = Completed" "tr_amountMinor (pay s) = ss_amountMinor s"
      using t by (simp_all add: pay_def)
  qed
  let ?ts = "map pay ?ss"
  have ids: "map tr_splitBillShareId ?ts = map (Some \<circ> ss_id) ?ss" using pay(2) by simp
  have "distinct (map ss_id ?ss)" using bi by (simp add: bills_inv_def shares_of_bill_def distinct_map_filter)
  then have "distinct (map (Some \<circ> ss_id) ?ss)" by (simp add: distinct_map comp_inj_on)
  then have "distinct ?ts" unfolding ids [symmetric] using distinct_map by blast
  moreover have "bill \<in> set (pd_bills d)" using b(1) find_SomeD unfolding find_bill_def by fastforce
  then have "sum_list (map ss_amountMinor ?ss) = sb_totalMinor bill" using bi by (simp add: bills_inv_def)
  then have "sum_list (map tr_amountMinor ?ts) = sb_totalMinor bill" using pay(4) by (simp add: o_def cong: map_cong)
  moreover have "SettleAcked (tr_id (pay s)) \<in> set c \<or> AlreadySettled (tr_id (pay s)) \<in> set c" if "s \<in> set ?ss" for s
    using inv pay(1,3) [OF that] unfolding saga_inv_def row_history_def by blast
  ultimately show ?thesis using b(1) ids pay(1,3)
    by (intro exI [of _ bill] exI [of _ ?ts]) (auto simp: list_all_iff)
qed

section \<open>An example\<close>

text \<open>A bill of one share that its participant pays, in a world in which the ledger accepts.\<close>

definition ex_world :: saga_world where
  "ex_world = \<lparr>sw_env = (\<lambda>k dc. dc), sw_validate = (\<lambda>k t. Inr (Some ''w9'')), sw_placeHold = (\<lambda>k t. Inr ()),
     sw_settle = (\<lambda>k t. Inr ()), sw_release = (\<lambda>k t. Inr (Some ''released'')), sw_time = (\<lambda>k. 0),
     sw_uuid = (\<lambda>k j. ''m'' @ show_nat k @ ''-'' @ show_nat j), sw_trace = ex_trace, sw_policy = None, sw_maxAttempts = 5,
     sw_retryBase = 100, sw_leaseMs = 30000, sw_rawLength = (\<lambda>n. n)\<rparr>"

definition ex_request :: canonical_request where
  "ex_request = \<lparr>cr_senderUserId = ''u1'', cr_senderWalletId = ''w1'', cr_receiverReference = ''bob'', cr_amountMinor = 1000,
     cr_currency = ''USD'', cr_destinationCurrency = ''USD'', cr_splitBillShareId = None\<rparr>"

definition ex_transfer :: transfer where
  "ex_transfer = new_transfer ''t1'' ex_request \<lparr>fx_destinationAmountMinor = 1000, fx_rateNumerator = 1,
     fx_rateDenominator = 1, fx_displayRate = ''1.00000000'', fx_quotedAt = 0, fx_expiresAt = 300000\<rparr> ''k1'' ''f1'' 0"

definition ex_one_bill :: create_split_bill_dto where
  "ex_one_bill = \<lparr>cb_total = ''10.00'', cb_currency = ''USD'', cb_mode = SplitEqual,
     cb_participants = [\<lparr>pt_userId = ''u2'', pt_share = None\<rparr>], cb_deadline = None\<rparr>"

definition ex_bill_db :: payments_db where
  "ex_bill_db = snd (create_bill (\<lambda>_. None) ex_bill_ids ex_trace 0 ex_one_bill ''u1'' ''ann'' id empty_payments_db)"

definition ex_seen :: "nat \<Rightarrow> payments_db \<Rightarrow> create_tx" where
  "ex_seen k d = \<lparr>cx_share = d, cx_existing = d, cx_db = d, cx_later = id, cx_now = 0\<rparr>"

definition ex_payment :: "(err, split_bill_view \<times> transfer_view) res \<times> saga_state" where
  "ex_payment = payShare ex_world ex_sha ex_seen ''t1'' ''o1'' 0 ''b1'' ''s0'' ''u2'' ''w1'' (Some ''k1'')
     \<lparr>sg_db = ex_bill_db, sg_calls = [], sg_clock = 0, sg_transfer = ex_transfer\<rparr>"

lemma ex_payment_ok: "map_sum id (\<lambda>(b, t). (bv_status b, tv_status t)) (fst ex_payment) = Inr (BillSettled, Completed)"
  by code_simp

lemma ex_world_quiet: "quiet ex_world"
  by (simp add: quiet_def ex_world_def)

lemma sbind_stmt:
  assumes "quiet w" "sbind (db_stmt w f) g s = (Inr y, s')"
  obtains d x where "f (sg_clock s) (sg_db s) = Inr (d, x)" "g x (s\<lparr>sg_db := d, sg_clock := Suc (sg_clock s)\<rparr>) = (Inr y, s')"
  using assms by (auto simp: sbind_def quiet_db_stmt split: sum.splits prod.splits)

lemma sbind_Inr:
  assumes "sbind m g s = (Inr y, s')"
  obtains x s1 where "m s = (Inr x, s1)" "g x s1 = (Inr y, s')"
  using assms by (auto simp: sbind_def split: sum.splits prod.splits)

lemma payShare_quiet:
  assumes w: "quiet w"
    and run: "payShare w sha256 seen newId owner now billId shareId userId walletId key s = (Inr (bill, status), s')"
  shows "payments_step\<^sup>*\<^sup>* (sg_db s, sg_calls s) (sg_db s', sg_calls s')" "get_bill (sg_db s') billId userId = Inr bill"
proof -
  let ?k = "Suc (sg_clock s)"
  obtain d1 input where 1: "rbind (share_payment (sg_db s) billId shareId userId walletId) (\<lambda>i. Inr (sg_db s, i)) = Inr (d1, input)"
    and r1: "sbind (db_stmt w (\<lambda>k d. createSplitSharePayment sha256 ((seen k d)\<lparr>cx_db := d\<rparr>) newId input key)) (\<lambda>tv.
       sbind (run_saga w (tv_id tv) owner now) (\<lambda>_.
       sbind (db_stmt w (\<lambda>k d. rbind (get_bill d billId userId) (\<lambda>v. Inr (d, v)))) (\<lambda>bill.
       sbind (db_stmt w (\<lambda>k d. rbind (getStatus d (tv_id tv) userId) (\<lambda>v. Inr (d, v)))) (\<lambda>status.
       sreturn (bill, status))))) (s\<lparr>sg_db := d1, sg_clock := ?k\<rparr>) = (Inr (bill, status), s')"
    by (rule sbind_stmt [OF w run [unfolded payShare_def]])
  have d1: "d1 = sg_db s" "share_payment (sg_db s) billId shareId userId walletId = Inr input"
    using 1 by (auto simp: result_simps)
  obtain d2 tv where 2: "createSplitSharePayment sha256 ((seen ?k (sg_db s))\<lparr>cx_db := sg_db s\<rparr>) newId input key = Inr (d2, tv)"
    and r2: "sbind (run_saga w (tv_id tv) owner now) (\<lambda>_.
       sbind (db_stmt w (\<lambda>k d. rbind (get_bill d billId userId) (\<lambda>v. Inr (d, v)))) (\<lambda>bill.
       sbind (db_stmt w (\<lambda>k d. rbind (getStatus d (tv_id tv) userId) (\<lambda>v. Inr (d, v)))) (\<lambda>status.
       sreturn (bill, status)))) (s\<lparr>sg_db := d2, sg_clock := Suc ?k\<rparr>) = (Inr (bill, status), s')"
    by (rule sbind_stmt [OF w r1 [unfolded d1(1)]]) (simp add: that)
  obtain u s3 where 3: "run_saga w (tv_id tv) owner now (s\<lparr>sg_db := d2, sg_clock := Suc ?k\<rparr>) = (Inr u, s3)"
    and r3: "sbind (db_stmt w (\<lambda>k d. rbind (get_bill d billId userId) (\<lambda>v. Inr (d, v)))) (\<lambda>bill.
       sbind (db_stmt w (\<lambda>k d. rbind (getStatus d (tv_id tv) userId) (\<lambda>v. Inr (d, v)))) (\<lambda>status.
       sreturn (bill, status))) s3 = (Inr (bill, status), s')"
    by (rule sbind_Inr [OF r2])
  have s': "get_bill (sg_db s3) billId userId = Inr bill" "sg_db s' = sg_db s3" "sg_calls s' = sg_calls s3"
    using r3 by (auto simp: sbind_def quiet_db_stmt [OF w] result_simps sreturn_def split: sum.splits prod.splits)
  then show "get_bill (sg_db s') billId userId = Inr bill" by simp
  have "payments_step (sg_db s, sg_calls s) (d2, sg_calls s)"
    by (rule payments_step.share_payment_created [OF d1(2) _ 2]) simp_all
  moreover have "payments_step (d2, sg_calls s) (sg_db s3, sg_calls s3)"
    by (rule payments_step.saga_run [OF quiet_good [OF w] 3]) simp_all
  ultimately show "payments_step\<^sup>*\<^sup>* (sg_db s, sg_calls s) (sg_db s', sg_calls s')"
    unfolding s'(2,3) by (rule converse_rtranclp_into_rtranclp [OF _ r_into_rtranclp])
qed

lemma ex_payment_reachable:
  "\<exists>bill status s'. ex_payment = (Inr (bill, status), s') \<and> bv_status bill = BillSettled \<and>
     payments_step\<^sup>*\<^sup>* (empty_payments_db, []) (sg_db s', sg_calls s') \<and> get_bill (sg_db s') ''b1'' ''u2'' = Inr bill"
proof -
  obtain bill status s' where p: "ex_payment = (Inr (bill, status), s')" "bv_status bill = BillSettled"
  proof -
    obtain x s' where e: "ex_payment = (x, s')" by fastforce
    with ex_payment_ok show ?thesis using that by (cases x) (auto simp: e)
  qed
  note q = payShare_quiet [OF ex_world_quiet p(1) [unfolded ex_payment_def]]
  have "payments_step (empty_payments_db, []) (ex_bill_db, [])"
    unfolding ex_bill_db_def by (rule payments_step.bill_created) (rule prod.collapse [symmetric])
  with q p show ?thesis by (auto intro: converse_rtranclp_into_rtranclp)
qed

theorem settled_bill_is_paid_witness:
  "\<exists>d c bill ts. payments_step\<^sup>*\<^sup>* (empty_payments_db, []) (d, c) \<and> find_bill d ''b1'' = Some bill \<and>
     set ts \<subseteq> set (pd_transfers d) \<and> sum_list (map tr_amountMinor ts) = sb_totalMinor bill"
proof -
  obtain bill and s' :: saga_state where st: "bv_status bill = BillSettled"
      and r: "payments_step\<^sup>*\<^sup>* (empty_payments_db, []) (sg_db s', sg_calls s')" "get_bill (sg_db s') ''b1'' ''u2'' = Inr bill"
    using ex_payment_reachable by (elim exE conjE) (rule that, assumption+)
  from settled_bill_is_paid [OF r(1,2) st] obtain b ts where
    b: "find_bill (sg_db s') ''b1'' = Some b" "set ts \<subseteq> set (pd_transfers (sg_db s'))"
      "sum_list (map tr_amountMinor ts) = sb_totalMinor b"
    by (elim exE conjE) (rule that, assumption+)
  show ?thesis by (intro exI conjI) (rule r(1), rule b(1), rule b(2), rule b(3))
qed


end
