(* ===== verification/Saga_Outcomes.thy ===== *)
theory Saga_Outcomes
  imports Payments_Safety
begin

text \<open>
  How a run of the saga ends: its step budget is never exhausted, an accepted transfer is completed in
  one run, a transfer that the ledger refuses before a hold exists fails with the ledger's reason and
  without a hold.
\<close>

section \<open>The step budget\<close>

text \<open>
  C23. The budget of eight turns in one run is never exhausted: whatever the ledger answers and others do,
  a run with six or more turns ends in the same state with the same result, so the branch that reports an
  exhausted budget is not reached.
\<close>

theorem step_budget_suffices:
  assumes "good_world w" "saga_inv (sg_db s) (sg_calls s)" "sg_transfer s \<in> set (pd_transfers (sg_db s))" "6 \<le> n"
  shows "run_loop w owner now n s = run_loop w owner now 6 s"
proof (rule run_loop_budget [OF assms(1)])
  have "row_history (sg_calls s) (sg_transfer s)" using assms(2,3) by (simp add: saga_inv_def)
  then show "state_inv s" using assms(2,3) new_row_known by (simp add: state_inv_def)
  show "local_rank s < 6" by (cases "tr_status (sg_transfer s)") simp_all
qed (rule assms(4))

lemma ex_transfer_fits: "transfer_fits ex_transfer = Inr ()"
  by code_simp

definition ex_pending :: saga_state where
  "ex_pending = \<lparr>sg_db = empty_payments_db\<lparr>pd_transfers := [ex_transfer]\<rparr>, sg_calls = [], sg_clock = 0,
     sg_transfer = ex_transfer\<rparr>"

lemma ex_pending_inv: "saga_inv (sg_db ex_pending) (sg_calls ex_pending)"
proof -
  have "insert_transfer ex_transfer empty_payments_db = Inr (empty_payments_db\<lparr>pd_transfers := [ex_transfer]\<rparr>)"
    unfolding insert_transfer_ok using ex_transfer_fits
    by (simp add: empty_payments_db_def ex_transfer_def new_transfer_row ex_request_def)
  from new_transfer_keeps [OF empty_saga_inv this] show ?thesis
    by (simp add: ex_pending_def ex_transfer_def new_transfer_row ex_request_def)
qed

lemma ex_pending_sel [simp]:
  "sg_transfer ex_pending = ex_transfer" "set (pd_transfers (sg_db ex_pending)) = {ex_transfer}"
  "pd_outbox (sg_db ex_pending) = []" "sg_calls ex_pending = []"
  by (simp_all add: ex_pending_def empty_payments_db_def)

theorem step_budget_suffices_witness:
  "run_loop ex_world ''o1'' 0 8 ex_pending = run_loop ex_world ''o1'' 0 6 ex_pending"
  by (rule step_budget_suffices [OF quiet_good [OF ex_world_quiet] ex_pending_inv]) simp_all

section \<open>Acceptance\<close>

text \<open>
  An accepted transfer is completed in one run: if nobody interferes, the policy allows the transfer
  and the ledger accepts every call, then the run of the saga for a due pending transfer returns
  normally, asks the ledger for one hold and one settlement in this order, leaves the transfer completed
  and adds exactly one message to the outbox, its completion.
\<close>

theorem accepted_transfer_completes:
  fixes owner :: string
  assumes "quiet w" "accepting w receiver" "receiver \<noteq> []" "saga_inv (sg_db s) (sg_calls s)"
    and "t \<in> set (pd_transfers (sg_db s))" "recoverable now t" "transfer_fits t = Inr ()"
      "pg_integer (tr_version t + 8)" "sw_rawLength w 1 \<noteq> 0" "policy_ok w t now"
    and "tr_status t = Pending" "tr_receiverWalletId t = None" "\<not> tr_holdMayExist t" "tr_splitBillShareId t = None"
    and "\<forall>k. sw_uuid w k 0 \<notin> ob_eventId ` set (pd_outbox (sg_db s))"
  shows "\<exists>s' t' m. run_saga w (tr_id t) owner now s = (Inr (), s') \<and> t' \<in> set (pd_transfers (sg_db s')) \<and>
    tr_id t' = tr_id t \<and> tr_status t' = Completed \<and> pd_outbox (sg_db s') = pd_outbox (sg_db s) @ [m] \<and>
    completion_id m = Some (tr_id t) \<and>
    sg_calls s' = sg_calls s @ [HoldRequested (tr_id t), HoldPlaced (tr_id t), SettleRequested (tr_id t), SettleAcked (tr_id t)]"
  by (rule pending_runs_to_completion [OF assms(1-3) saga_inv_keys [OF assms(4)] assms(5-14)])
    (use assms(15) in blast)

theorem accepted_transfer_completes_witness:
  "\<exists>s' t'. run_saga ex_world ''t1'' ''o1'' 0 ex_pending = (Inr (), s') \<and> t' \<in> set (pd_transfers (sg_db s')) \<and>
     tr_status t' = Completed \<and>
     sg_calls s' = [HoldRequested ''t1'', HoldPlaced ''t1'', SettleRequested ''t1'', SettleAcked ''t1'']"
proof -
  have id: "tr_id ex_transfer = ''t1''" by code_simp
  have t: "tr_status ex_transfer = Pending" "tr_receiverWalletId ex_transfer = None" "\<not> tr_holdMayExist ex_transfer"
    "tr_splitBillShareId ex_transfer = None" "tr_version ex_transfer = 1" "tr_nextRetryAt ex_transfer = None" "tr_leaseUntil ex_transfer = None"
    by (simp_all add: ex_transfer_def new_transfer_def ex_request_def)
  have "\<exists>s' t' m. run_saga ex_world (tr_id ex_transfer) ''o1'' 0 ex_pending = (Inr (), s') \<and> t' \<in> set (pd_transfers (sg_db s')) \<and>
    tr_id t' = tr_id ex_transfer \<and> tr_status t' = Completed \<and> pd_outbox (sg_db s') = pd_outbox (sg_db ex_pending) @ [m] \<and>
    completion_id m = Some (tr_id ex_transfer) \<and>
    sg_calls s' = sg_calls ex_pending @ [HoldRequested (tr_id ex_transfer), HoldPlaced (tr_id ex_transfer),
      SettleRequested (tr_id ex_transfer), SettleAcked (tr_id ex_transfer)]"
    by (rule accepted_transfer_completes [OF ex_world_quiet, of "''w9''"])
      (use ex_pending_inv ex_transfer_fits t in \<open>simp_all add: accepting_def ex_world_def policy_ok_def recoverable_def
        final_status_rank pg_integer_def\<close>)
  then show ?thesis unfolding id ex_pending_sel append_Nil by (elim exE conjE) (intro exI conjI)
qed

section \<open>Refusal\<close>

lemma stage_fail:
  assumes w: "quiet w" and s: "progressed owner t j d r s"
    and ok: "transfer_fits t = Inr ()" "pg_integer (tr_version t + 8)" "0 \<le> j" "j < 8" "length (le_code f) \<le> 100"
    and r: "Failed \<in> set (ALLOWED_TRANSITIONS (tr_status r))"
  shows "\<exists>r' s'. fail_transfer w r owner (Some f) s = (Inr (), s') \<and> tr_status r' = Failed \<and> tr_id r' = tr_id t \<and>
    tr_failureCode r' = Some (le_code f) \<and> tr_holdMayExist r' = tr_holdMayExist r \<and>
    r' \<in> set (pd_transfers (sg_db s')) \<and> pd_outbox (sg_db s') = pd_outbox d \<and> sg_calls s' = sg_calls s"
proof -
  let ?k = "sg_clock s"
  let ?patch = "\<lambda>x. x\<lparr>tr_nextRetryAt := None, tr_failureCode := Some (le_code f), tr_failureMessage := Some (le_message f),
    tr_leaseOwner := None, tr_leaseUntil := None, tr_lastAttemptAt := Some (sw_time w ?k)\<rparr>"
  let ?r = "moved r Failed (sw_time w ?k) (?patch r)"
  have wk: "keys_unique (sg_db s)" "r \<in> set (pd_transfers (sg_db s))" "tr_leaseOwner r = Some owner" "terms r = terms t"
    "sg_db s = replace_row r d" "tr_version r = tr_version t + j" "tr_retryCount r \<in> {0, tr_retryCount t}"
    using s by (auto simp: progressed_def working_def)
  have kp: "keeps_identity ?patch" by (simp add: keeps_identity_def same_request_def)
  have "terms (?patch r) = terms r" by (simp add: terms_def)
  then have tm: "terms ?r = terms t" using wk(4) by simp
  have fits: "transfer_fits ?r = Inr ()"
  proof (rule transfer_fits_terms [OF ok(1) tm])
    have "pg_integer (tr_version t)" "pg_integer (tr_retryCount t)" "0 \<le> tr_retryCount t"
      using ok(1) by (auto simp: transfer_fits_iff)
    then show "pg_integer (tr_version ?r)" "pg_integer (tr_retryCount ?r)" "0 \<le> tr_retryCount ?r"
      using wk(6,7) ok(2-4) by (auto simp: pg_integer_def)
    show "length c \<le> 100" if "tr_failureCode ?r = Some c" for c using that ok(5) by simp
  qed
  note tr = transition_succeeds [OF wk(1-3) kp r fits]
  have id: "tr_id ?r = tr_id r" "tr_id r = tr_id t" using terms_eqD(1) [OF wk(4)] by (simp_all add: moved_def)
  have "fail_transfer w r owner (Some f) s = (Inr (), s\<lparr>sg_db := replace_row ?r (sg_db s), sg_clock := Suc ?k\<rparr>)"
    using tr by (simp add: fail_transfer_def transitionClaimed_def sbind_def quiet_db_stmt [OF w] sreturn_def)
  moreover have "?r \<in> set (pd_transfers (replace_row ?r (sg_db s)))" using replace_row_mem [OF wk(1,2) id(1)] by simp
  moreover have "pd_outbox (replace_row ?r (sg_db s)) = pd_outbox d" unfolding wk(5) by (simp add: replace_row_def)
  ultimately show ?thesis using id
    by (intro exI [of _ ?r] exI [of _ "s\<lparr>sg_db := replace_row ?r (sg_db s), sg_clock := Suc ?k\<rparr>"]) simp
qed

text \<open>
  A transfer that the ledger refuses for good fails without a hold: if nobody interferes and the
  validation of a due pending transfer is answered with a terminal error, then the run returns normally
  and leaves the transfer failed with the code of the ledger, nothing was asked of the ledger that moves
  money, no hold can exist, and no message is added to the outbox.
\<close>

theorem refused_transfer_fails:
  fixes owner :: string
  assumes w: "quiet w" "\<forall>k t. sw_validate w k t = Inl (LedgerCommand m Terminal code amb)" "length code \<le> 100"
    and inv: "saga_inv (sg_db s) (sg_calls s)"
    and t: "t \<in> set (pd_transfers (sg_db s))" "recoverable now t" "transfer_fits t = Inr ()"
      "pg_integer (tr_version t + 8)" and raw: "sw_rawLength w 1 \<noteq> 0" and pol: "policy_ok w t now"
    and new: "tr_status t = Pending" "tr_receiverWalletId t = None" "\<not> tr_holdMayExist t"
  shows "\<exists>s' t'. run_saga w (tr_id t) owner now s = (Inr (), s') \<and> t' \<in> set (pd_transfers (sg_db s')) \<and>
    tr_id t' = tr_id t \<and> tr_status t' = Failed \<and> tr_failureCode t' = Some code \<and> \<not> tr_holdMayExist t' \<and>
    sg_calls s' = sg_calls s \<and> pd_outbox (sg_db s') = pd_outbox (sg_db s)"
proof -
  let ?d = "sg_db s" and ?np = "\<lambda>k r. r\<lparr>tr_retryCount := 0, tr_nextRetryAt := None\<rparr>"
  let ?e = "LedgerCommand m Terminal code amb"
  have kp: "keeps_identity (\<lambda>r. r\<lparr>tr_retryCount := 0, tr_nextRetryAt := None\<rparr>)"
    by (simp add: keeps_identity_def same_request_def)
  have tm: "terms (r\<lparr>tr_retryCount := 0, tr_nextRetryAt := None\<rparr>) = terms r" for r by (simp add: terms_def)
  obtain r1 s1 where 1: "run_saga w (tr_id t) owner now s = run_loop w owner now 8 s1" "progressed owner t 0 ?d r1 s1"
      "tr_status r1 = Pending" "\<not> tr_holdMayExist r1" "tr_receiverWalletId r1 = None" "sg_calls s1 = sg_calls s"
    using claimed_progressed [OF w(1) saga_inv_keys [OF inv] t(1,2,3) raw, of owner] new by auto
  obtain r2 s2 where 2: "advance w owner Validating ?np s1 = (Inr True, s2)" "progressed owner t 1 ?d r2 s2"
      "tr_status r2 = Validating" "\<not> tr_holdMayExist r2" "tr_receiverWalletId r2 = None" "sg_calls s2 = sg_calls s"
    using stage_advance [OF w(1) 1(2) t(3,4), of ?np Validating] 1 kp tm by auto
  have loc: "sg_transfer s1 = r1" "sg_transfer s2 = r2" "terms r2 = terms t"
    using 1(2) 2(2) by (auto simp: progressed_def working_def)
  let ?s3 = "s2\<lparr>sg_clock := Suc (sg_clock s2)\<rparr>"
  have pl: "(case sw_policy w of None \<Rightarrow> sreturn () | Some p \<Rightarrow> slift (policy_validate p (sg_transfer s2) now)) s2 = (Inr (), s2)"
    using pol policy_terms [OF loc(3)] by (simp add: loc(2) policy_ok_def sreturn_def slift_def split: option.splits)
  have "resolve_receiver w owner s2 = (Inl ?e, ?s3)"
    using w(2) 2(5) loc(2) by (simp add: resolve_receiver_def sbind_def get_transfer_def truthy_def ledger_request_def)
  then have "step_validating w owner now s2 = (Inl ?e, ?s3)"
    unfolding step_validating_def using pl by (simp add: sbind_def get_transfer_def)
  then have st: "saga_step w owner now s1 = (Inr True, s2)" "saga_step w owner now s2 = (Inl ?e, ?s3)"
    using 1(3) 2(1,3) by (simp_all add: saga_step_def sbind_def get_transfer_def loc)
  have 3: "progressed owner t 1 ?d r2 ?s3" using 2(2) by (auto simp: progressed_def working_def)
  obtain r4 s4 where 4: "fail_transfer w r2 owner (Some (asLedgerError ?e)) ?s3 = (Inr (), s4)" "tr_status r4 = Failed"
      "tr_id r4 = tr_id t" "tr_failureCode r4 = Some code" "\<not> tr_holdMayExist r4" "r4 \<in> set (pd_transfers (sg_db s4))"
      "pd_outbox (sg_db s4) = pd_outbox ?d" "sg_calls s4 = sg_calls s"
    using stage_fail [OF w(1) 3 t(3,4), of "asLedgerError ?e"] w(3) 2(3,4,6) by (auto simp: asLedgerError_def)
  have "recover_step w owner now ?e ?s3 = (Inr False, s4)"
    using 4(1) 2(3,4) loc(2)
    by (simp add: recover_step_def handleFailure_def sbind_def get_transfer_def Let_def asLedgerError_def sreturn_def)
  then have "run_loop w owner now (Suc n) s2 = (Inr (), s4)" for n
    using st(2) 2(3) by (simp add: sbind_def get_transfer_def scatch_def sreturn_def loc TERMINAL_STATUSES_def)
  from this [of 6] have "run_loop w owner now 8 s1 = (Inr (), s4)"
    using run_loop_turn [OF _ st(1), of 7] 1(3) by (simp add: numeral_eq_Suc loc final_status_rank del: run_loop.simps)
  with 1(1) 4 show ?thesis by (intro exI [of _ s4] exI [of _ r4]) simp
qed

definition ex_refusing :: saga_world where
  "ex_refusing = ex_world\<lparr>sw_validate := (\<lambda>k t. Inl (LedgerCommand ''Receiver not found'' Terminal ''LEDGER_HTTP_404'' False))\<rparr>"

theorem refused_transfer_fails_witness:
  "\<exists>s' t'. run_saga ex_refusing (tr_id ex_transfer) ''o1'' 0 ex_pending = (Inr (), s') \<and> t' \<in> set (pd_transfers (sg_db s')) \<and>
     tr_id t' = tr_id ex_transfer \<and> tr_status t' = Failed \<and> tr_failureCode t' = Some ''LEDGER_HTTP_404'' \<and> \<not> tr_holdMayExist t' \<and>
     sg_calls s' = sg_calls ex_pending \<and> pd_outbox (sg_db s') = pd_outbox (sg_db ex_pending)"
proof -
  have t: "tr_status ex_transfer = Pending" "tr_receiverWalletId ex_transfer = None" "\<not> tr_holdMayExist ex_transfer"
    "tr_version ex_transfer = 1" "tr_nextRetryAt ex_transfer = None" "tr_leaseUntil ex_transfer = None"
    by (simp_all add: ex_transfer_def new_transfer_def)
  show ?thesis
    by (rule refused_transfer_fails [of ex_refusing "''Receiver not found''" _ False])
      (use ex_pending_inv ex_transfer_fits t in \<open>simp_all add: ex_refusing_def quiet_def ex_world_def policy_ok_def
        recoverable_def final_status_rank pg_integer_def\<close>)
qed

end
