(* ===== verification/Payments_Findings.thy ===== *)
theory Payments_Findings
  imports Saga_Outcomes
begin

text \<open>
  Behaviours of the payments service that contradict what the rest of the program expects, each
  shown at a concrete input.
\<close>

lemma powi2_more:
  "(2::rat) powi (- 26) = 1 / 67108864" "(2::rat) powi (- 27) = 1 / 134217728"
  "(2::rat) powi (- 32) = 1 / 4294967296" "(2::rat) powi (- 78) = 1 / 302231454903657293676544"
  "(2::rat) powi (- 79) = 1 / 604462909807314587353088"
  "(2::rat) powi 20 = 1048576" "(2::rat) powi 21 = 2097152" "(2::rat) powi 26 = 67108864"
  "(2::rat) powi 27 = 134217728" "(2::rat) powi (- 25) = 1 / 33554432"
  by (simp_all add: power_int_def power_divide)

text \<open>
  The tolerance is too tight for larger amounts: the double nearest to 1272024.11 has two decimal
  places, and the ledger reads it as 127202411 minor units, but the creation of a transfer refuses it
  as an invalid amount.
\<close>

theorem large_amount_refused:
  "transferAmountToMinorUnits (js_div (js_of_int 127202411) (JsFin 100)) = Inl (BadRequest ''Invalid transfer amount'') \<and>
   amountToMinorUnits (js_div (js_of_int 127202411) (JsFin 100)) = Inr 127202411"
proof
  let ?a = "js_div (js_of_int 127202411) (JsFin 100)"
  let ?x = "5463301952173507 / 4294967296 :: rat" and ?y = "8536409300271105 / 67108864 :: rat"
  have i: "js_of_int 127202411 = JsFin 127202411"
    using double_round_int [of 127202411] by (simp add: js_of_int_def max_safe_integer_def)
  have "double_round (127202411 / 100) = JsFin (of_int 5463301952173507 * 2 powi (- 32))"
    by (rule double_round_eqI [of 20]) (simp_all add: powi2_more)
  then have a: "?a = JsFin ?x" by (simp add: i powi2_more)
  have "double_round (?x * 100) = JsFin (of_int 8536409300271105 * 2 powi (- 26))"
    by (rule double_round_eqI [of 26]) (simp_all add: powi2_more)
  then have y: "js_mul (JsFin ?x) (JsFin 100) = JsFin ?y" by (simp add: powi2_more)
  have r: "math_round (JsFin ?y) = JsFin 127202411"
    using floor_near_int [of ?y 127202411] by simp
  have "double_round (?y - 127202411) = JsFin (of_int 4503599627370496 * 2 powi (- 78))"
    by (rule double_round_eqI [of "- 26"]) (simp_all add: powi2_more)
  then have s: "js_abs (js_sub (JsFin ?y) (JsFin 127202411)) = JsFin (1 / 67108864)" by (simp add: powi2_more)
  have "double_round (1 / 100000000) = JsFin (of_int 6044629098073146 * 2 powi (- 79))"
    by (rule double_round_eqI [of "- 27"]) (simp_all add: powi2_more)
  then have tol: "js_less amount_tolerance (JsFin (1 / 67108864))" by (simp add: amount_tolerance_def powi2_more)
  show "transferAmountToMinorUnits ?a = Inl (BadRequest ''Invalid transfer amount'')"
    unfolding transferAmountToMinorUnits_def Let_def a y r s using tol by simp
  show "amountToMinorUnits ?a = Inr 127202411"
    unfolding amountToMinorUnits_def Let_def a y r by (simp add: max_safe_integer_def)
qed

section \<open>The lease of the saga\<close>

text \<open>
  TypeORM answers an \<^verbatim>\<open>UPDATE ... RETURNING\<close> with the pair of the rows and their number, an array of
  length two, as \<^verbatim>\<open>PaymentsOutboxService.claim\<close> takes into account and \<^verbatim>\<open>TransferSagaService.claim\<close> does not.
\<close>

definition ex_leased :: saga_state where
  "ex_leased = ex_pending\<lparr>sg_db := empty_payments_db\<lparr>pd_transfers := [ex_transfer\<lparr>tr_status := Processing,
     tr_receiverWalletId := Some ''w9'', tr_holdMayExist := True, tr_leaseOwner := Some ''o1'',
     tr_leaseUntil := Some 30000\<rparr>]\<rparr>\<rparr>"

definition ex_failing_world :: "(nat \<Rightarrow> nat) \<Rightarrow> saga_world" where
  "ex_failing_world rawLength = ex_world\<lparr>sw_rawLength := rawLength,
     sw_settle := (\<lambda>k t. Inl (LedgerCommand ''Ledger request timed out'' Retryable ''LEDGER_TIMEOUT'' True))\<rparr>"


section \<open>A failed share\<close>

text \<open>
  The payment of a share whose transfer has failed cannot be repeated: every further request to pay
  the share is answered with the failed transfer or refused, under whatever key and from whatever wallet,
  no new transfer is created, and the saga never claims the failed one. The reminder still asks for the
  payment of such a share.
\<close>

theorem failed_share_never_paid:
  assumes "transfer_of_share (cx_share x) (sp_shareId input) = Some t" "tr_status t = Failed" "sp_shareId input \<noteq> []"
    and "createSplitSharePayment sha256 x newId input key = Inr (d', v)"
  shows "d' = cx_db x \<and> tv_id v = tr_id t \<and> tv_status v = Failed \<and> \<not> claimable_transfer (tv_id v) now t"
proof -
  have "find_share_transfer (cx_share x) (share_request input) = Some t"
    using assms(1,3) by (simp add: find_share_transfer_def share_request_def truthy_def)
  with assms(4) show ?thesis using assms(2)
    by (auto simp: createSplitSharePayment_def createCanonical_def Let_def result_simps resolveExisting_def
        transfer_toView_def claimable_transfer_def final_status_rank split: if_splits)
qed

definition ex_share_input :: split_share_payment where
  "ex_share_input = \<lparr>sp_shareId = ''s1'', sp_participantUserId = ''u2'', sp_fromWalletId = ''w1'',
     sp_receiverReference = ''ann'', sp_amountMinor = 1000, sp_currency = ''USD''\<rparr>"

definition ex_failed_share :: payments_db where
  "ex_failed_share = ex_overdue_db\<lparr>pd_transfers := [ex_transfer\<lparr>tr_splitBillShareId := Some ''s1'', tr_status := Failed,
     tr_requestFingerprint := fingerprint ex_sha (share_request ex_share_input)\<rparr>]\<rparr>"

lemma ex_failed_share_facts:
  "transfer_of_share ex_failed_share ''s1'' = Some (ex_transfer\<lparr>tr_splitBillShareId := Some ''s1'', tr_status := Failed,
     tr_requestFingerprint := fingerprint ex_sha (share_request ex_share_input)\<rparr>)"
  "is_ok (createSplitSharePayment ex_sha (ex_seen 0 ex_failed_share) ''t2'' ex_share_input (Some ''k2''))"
  "overdue_candidates ex_failed_share [] 0 100 = [''s1'']"
    by (code_simp, code_simp, code_simp)

theorem failed_share_never_paid_witness:
  "\<exists>v. createSplitSharePayment ex_sha (ex_seen 0 ex_failed_share) ''t2'' ex_share_input (Some ''k2'') = Inr (ex_failed_share, v) \<and>
     tv_status v = Failed \<and> overdue_candidates ex_failed_share [] 0 100 = [''s1'']"
proof -
  obtain d v where c: "createSplitSharePayment ex_sha (ex_seen 0 ex_failed_share) ''t2'' ex_share_input (Some ''k2'') = Inr (d, v)"
    using ex_failed_share_facts(2)
    by (cases "createSplitSharePayment ex_sha (ex_seen 0 ex_failed_share) ''t2'' ex_share_input (Some ''k2'')") auto
  have "sp_shareId ex_share_input = ''s1''" by (simp add: ex_share_input_def)
  then have t: "transfer_of_share (cx_share (ex_seen 0 ex_failed_share)) (sp_shareId ex_share_input) =
      Some (ex_transfer\<lparr>tr_splitBillShareId := Some ''s1'', tr_status := Failed, tr_requestFingerprint := fingerprint ex_sha (share_request ex_share_input)\<rparr>)"
    "sp_shareId ex_share_input \<noteq> []" "cx_db (ex_seen 0 ex_failed_share) = ex_failed_share"
    using ex_failed_share_facts(1) by (simp_all add: ex_seen_def)
  from failed_share_never_paid [OF t(1) _ t(2) c] c t(3) ex_failed_share_facts(3) show ?thesis by auto
qed

end
