(* ===== verification/Ledger_Gateway.thy ===== *)
theory Ledger_Gateway
  imports Transfers_Service Wallets_Service
begin

text \<open>
  \<^verbatim>\<open>transfers/ledger.gateway.ts\<close>: the client of the payments service for the ledger, with its requests,
  the classification of answers, the attempts with backoff and the circuit breaker. The network and the
  ledger behind it are the parameter \<open>gw_send\<close>, the answer to the request with the given number; the
  times that \<^verbatim>\<open>Date.now()\<close> returns are \<open>gw_clock\<close>, read one after the other; \<open>gw_others\<close> is what other
  requests of the process do to the breaker while this one waits.
\<close>

section \<open>Requests and answers\<close>

record http_request =
  hr_url :: string
  hr_headers :: "(string \<times> string) list"
  hr_body :: json

text \<open>
  A response with its status and, if its body is JSON, the parsed payload; an aborted request; another
  failure of \<^verbatim>\<open>fetch\<close>, with the message of the error if it is an \<^verbatim>\<open>Error\<close>.
\<close>

datatype http_result =
    Responded int "json option"
  | Aborted
  | FetchFailed "string option"

record gateway_config =
  gw_serviceToken :: "string option"
  gw_serviceUrl :: "string option"
  gw_correlationId :: "string option"
  gw_traceHeaders :: "(string \<times> string) list"
  gw_maxAttempts :: int
  gw_threshold :: int
  gw_cooldownMs :: int
  gw_backoffMs :: int
  gw_send :: "nat \<Rightarrow> http_request \<Rightarrow> http_result"
  gw_clock :: "nat \<Rightarrow> int"
  gw_others :: "nat \<Rightarrow> int \<times> int \<Rightarrow> int \<times> int"

record gateway_state =
  gs_consecutiveFailures :: int
  gs_openUntil :: int
  gs_sent :: nat
  gs_reads :: nat
  gs_delays :: "int list"

definition baseUrl :: "string option \<Rightarrow> string" where
  "baseUrl url = (let u = (case url of None \<Rightarrow> ''http://ledger-service:3001'' | Some v \<Rightarrow> v)
     in if u \<noteq> [] \<and> last u = CHR ''/'' then butlast u else u)"

definition gateway_amount :: "int \<Rightarrow> jsnum" where
  "gateway_amount amountMinor = js_div (js_of_int amountMinor) (JsFin 100)"

section \<open>One attempt\<close>

definition not_configured :: err where
  "not_configured = LedgerCommand ''Payments service credential is not configured'' Terminal ''LEDGER_CLIENT_NOT_CONFIGURED'' False"

definition classify_response :: "http_result \<Rightarrow> (err, json) res" where
  "classify_response r =
     (case r of
        Responded status payload \<Rightarrow>
          let body = (case payload of None \<Rightarrow> JObj [] | Some j \<Rightarrow> j)
          in if 200 \<le> status \<and> status \<le> 299 then Inr body
             else if body = JNull
             then Inl (LedgerCommand ''Cannot read properties of null (reading message)'' Retryable ''LEDGER_UNAVAILABLE'' True)
             else let retryable = (status = 408 \<or> status = 429 \<or> 500 \<le> status)
                  in Inl (LedgerCommand
                       (case jstring (jget ''message'' body) of Some m \<Rightarrow> m
                        | None \<Rightarrow> ''Ledger returned HTTP '' @ show_int status)
                       (if retryable then Retryable else Terminal) (''LEDGER_HTTP_'' @ show_int status) retryable)
      | Aborted \<Rightarrow> Inl (LedgerCommand ''Ledger request timed out'' Retryable ''LEDGER_TIMEOUT'' True)
      | FetchFailed message \<Rightarrow>
          Inl (LedgerCommand (case message of Some m \<Rightarrow> m | None \<Rightarrow> ''Ledger request failed'')
            Retryable ''LEDGER_UNAVAILABLE'' True))"

definition gateway_request :: "gateway_config \<Rightarrow> string \<Rightarrow> string \<Rightarrow> json \<Rightarrow> http_request" where
  "gateway_request g token path body =
     \<lparr>hr_url = baseUrl (gw_serviceUrl g) @ path,
      hr_headers = [(''content-type'', ''application/json''), (''x-service-token'', token)] @
        (case truthy (gw_correlationId g) of None \<Rightarrow> [] | Some c \<Rightarrow> [(''x-correlation-id'', c)]) @ gw_traceHeaders g,
      hr_body = body\<rparr>"

definition awaited :: "gateway_config \<Rightarrow> gateway_state \<Rightarrow> gateway_state" where
  "awaited g s = (case gw_others g (gs_sent s) (gs_consecutiveFailures s, gs_openUntil s) of
     (f, u) \<Rightarrow> s\<lparr>gs_consecutiveFailures := f, gs_openUntil := u\<rparr>)"

definition fetchOnce :: "gateway_config \<Rightarrow> string \<Rightarrow> json \<Rightarrow> gateway_state \<Rightarrow> (err, json) res \<times> gateway_state" where
  "fetchOnce g path body s =
     (case truthy (gw_serviceToken g) of
        None \<Rightarrow> (Inl not_configured, s)
      | Some token \<Rightarrow>
          (classify_response (gw_send g (gs_sent s) (gateway_request g token path body)),
           awaited g (s\<lparr>gs_sent := Suc (gs_sent s)\<rparr>)))"

section \<open>Attempts and the breaker\<close>

definition date_now :: "gateway_config \<Rightarrow> gateway_state \<Rightarrow> int \<times> gateway_state" where
  "date_now g s = (gw_clock g (gs_reads s), s\<lparr>gs_reads := Suc (gs_reads s)\<rparr>)"

definition recordFailure :: "gateway_config \<Rightarrow> gateway_state \<Rightarrow> gateway_state" where
  "recordFailure g s =
     (let s1 = s\<lparr>gs_consecutiveFailures := gs_consecutiveFailures s + 1\<rparr>
      in if gw_threshold g \<le> gs_consecutiveFailures s1
         then (case date_now g s1 of (now, s2) \<Rightarrow> s2\<lparr>gs_openUntil := now + gw_cooldownMs g\<rparr>)
         else s1)"

definition gateway_backoff :: "gateway_config \<Rightarrow> int \<Rightarrow> int" where
  "gateway_backoff g attempt = min (gw_backoffMs g * 2 ^ nat (attempt - 1)) 1000"

definition delay :: "gateway_config \<Rightarrow> int \<Rightarrow> gateway_state \<Rightarrow> gateway_state" where
  "delay g ms s = awaited g (s\<lparr>gs_delays := gs_delays s @ [ms]\<rparr>)"

definition is_terminal :: "err \<Rightarrow> bool" where
  "is_terminal e = (case e of LedgerCommand _ k _ _ \<Rightarrow> k = Terminal | _ \<Rightarrow> False)"

text \<open>The loop over \<open>n\<close> further attempts, the next one being \<open>attempt\<close>.\<close>

fun request_attempts ::
  "gateway_config \<Rightarrow> string \<Rightarrow> json \<Rightarrow> nat \<Rightarrow> int \<Rightarrow> gateway_state \<Rightarrow> (err, json) res \<times> gateway_state" where
  "request_attempts g path body 0 attempt s =
     (Inl (LedgerCommand ''Ledger request failed'' Retryable ''LEDGER_UNAVAILABLE'' True), s)"
| "request_attempts g path body (Suc n) attempt s =
     (case fetchOnce g path body s of
        (Inr response, s1) \<Rightarrow> (Inr response, s1\<lparr>gs_consecutiveFailures := 0, gs_openUntil := 0\<rparr>)
      | (Inl classified, s1) \<Rightarrow>
          if is_terminal classified then (Inl classified, s1)
          else let s2 = recordFailure g s1
               in if attempt < gw_maxAttempts g
                  then (case date_now g s2 of (now, s3) \<Rightarrow>
                          if gs_openUntil s3 \<le> now
                          then request_attempts g path body n (attempt + 1) (delay g (gateway_backoff g attempt) s3)
                          else (Inl classified, s3))
                  else (Inl classified, s2))"

definition gateway_call :: "gateway_config \<Rightarrow> string \<Rightarrow> json \<Rightarrow> gateway_state \<Rightarrow> (err, json) res \<times> gateway_state" where
  "gateway_call g path body s =
     (case date_now g s of (now, s1) \<Rightarrow>
        if now < gs_openUntil s1
        then (Inl (LedgerCommand ''Ledger circuit breaker is open'' Retryable ''LEDGER_CIRCUIT_OPEN'' True), s1)
        else request_attempts g path body (nat (gw_maxAttempts g)) 1 s1)"

section \<open>The four commands\<close>

definition validate_body :: "transfer \<Rightarrow> json" where
  "validate_body t = JObj
     [(''transferId'', JStr (tr_id t)), (''senderUserId'', JStr (tr_senderUserId t)),
      (''senderWalletId'', JStr (tr_senderWalletId t)), (''receiverReference'', JStr (tr_receiverReference t)),
      (''amount'', JNum (gateway_amount (tr_amountMinor t))), (''currency'', JStr (tr_currency t)),
      (''destinationAmount'', JNum (gateway_amount (tr_destinationAmountMinor t))),
      (''targetCurrency'', JStr (tr_destinationCurrency t))]"

text \<open>The callers read one field of the payload; a payload \<^verbatim>\<open>null\<close> makes that a \<^verbatim>\<open>TypeError\<close>.\<close>

definition read_field :: "string \<Rightarrow> (err, json) res \<Rightarrow> (err, string option) res" where
  "read_field name r = rbind r (\<lambda>j.
     if j = JNull then Inl (TypeErr ''Cannot read properties of null'') else Inr (jstring (jget name j)))"

definition gateway_validate :: "gateway_config \<Rightarrow> transfer \<Rightarrow> gateway_state \<Rightarrow> (err, string option) res \<times> gateway_state" where
  "gateway_validate g t s =
     apfst (read_field ''receiverWalletId'')
       (gateway_call g ''/internal/transfers/validate'' (validate_body t) s)"

definition hold_body :: "transfer \<Rightarrow> json" where
  "hold_body t = JObj
     [(''senderUserId'', JStr (tr_senderUserId t)), (''senderWalletId'', JStr (tr_senderWalletId t)),
      (''amount'', JNum (gateway_amount (tr_amountMinor t)))]"

definition gateway_placeHold :: "gateway_config \<Rightarrow> transfer \<Rightarrow> gateway_state \<Rightarrow> (err, unit) res \<times> gateway_state" where
  "gateway_placeHold g t s =
     apfst (map_sum id (\<lambda>_. ())) (gateway_call g (''/internal/transfers/'' @ tr_id t @ ''/hold'') (hold_body t) s)"

definition settle_body :: "transfer \<Rightarrow> string \<Rightarrow> json" where
  "settle_body t receiverWalletId = JObj
     [(''senderUserId'', JStr (tr_senderUserId t)), (''senderWalletId'', JStr (tr_senderWalletId t)),
      (''receiverWalletId'', JStr receiverWalletId), (''amount'', JNum (gateway_amount (tr_amountMinor t))),
      (''currency'', JStr (tr_currency t)),
      (''destinationAmount'', JNum (gateway_amount (tr_destinationAmountMinor t))),
      (''targetCurrency'', JStr (tr_destinationCurrency t))]"

definition gateway_settle :: "gateway_config \<Rightarrow> transfer \<Rightarrow> gateway_state \<Rightarrow> (err, unit) res \<times> gateway_state" where
  "gateway_settle g t s =
     (case truthy (tr_receiverWalletId t) of
        None \<Rightarrow> (Inl (LedgerCommand ''Receiver wallet was not resolved'' Terminal ''RECEIVER_NOT_RESOLVED'' False), s)
      | Some receiver \<Rightarrow>
          apfst (map_sum id (\<lambda>_. ()))
            (gateway_call g (''/internal/transfers/'' @ tr_id t @ ''/settle'') (settle_body t receiver) s))"

definition release_body :: "transfer \<Rightarrow> json" where
  "release_body t = JObj
     [(''senderUserId'', JStr (tr_senderUserId t)), (''senderWalletId'', JStr (tr_senderWalletId t))]"

definition gateway_release :: "gateway_config \<Rightarrow> transfer \<Rightarrow> gateway_state \<Rightarrow> (err, string option) res \<times> gateway_state" where
  "gateway_release g t s =
     apfst (read_field ''outcome'')
       (gateway_call g (''/internal/transfers/'' @ tr_id t @ ''/release'') (release_body t) s)"

section \<open>Properties\<close>

lemma awaited_sel [simp]:
  "gs_sent (awaited g s) = gs_sent s" "gs_reads (awaited g s) = gs_reads s" "gs_delays (awaited g s) = gs_delays s"
  by (simp_all add: awaited_def split: prod.splits)

lemma recordFailure_sel [simp]:
  "gs_sent (recordFailure g s) = gs_sent s" "gs_delays (recordFailure g s) = gs_delays s"
  by (simp_all add: recordFailure_def Let_def date_now_def)

lemma date_now_sel: "date_now g s = (now, s') \<Longrightarrow> gs_sent s' = gs_sent s \<and> gs_delays s' = gs_delays s \<and> gs_openUntil s' = gs_openUntil s"
  by (auto simp: date_now_def)

lemma delay_sel [simp]: "gs_sent (delay g ms s) = gs_sent s" "gs_delays (delay g ms s) = gs_delays s @ [ms]"
  by (simp_all add: delay_def)

text \<open>The answers to the requests numbered from \<open>k\<close> up to \<open>k'\<close>.\<close>

definition answers :: "gateway_config \<Rightarrow> http_request \<Rightarrow> nat \<Rightarrow> nat \<Rightarrow> (err, json) res list" where
  "answers g req k k' = map (\<lambda>i. classify_response (gw_send g i req)) [k..<k']"

lemma answers_Cons: "k < k' \<Longrightarrow> answers g req k k' = classify_response (gw_send g k req) # answers g req (Suc k) k'"
  by (simp add: answers_def upt_conv_Cons)

definition transient :: "(err, json) res \<Rightarrow> bool" where
  "transient r = (case r of Inl e \<Rightarrow> \<not> is_terminal e | Inr _ \<Rightarrow> False)"

text \<open>What the loop answers, sends and waits for.\<close>

definition attempted ::
  "gateway_config \<Rightarrow> http_request \<Rightarrow> nat \<Rightarrow> gateway_state \<Rightarrow> (err, json) res \<Rightarrow> gateway_state \<Rightarrow> bool" where
  "attempted g req n s r s' =
     (gs_sent s < gs_sent s' \<and> gs_sent s' \<le> gs_sent s + n \<and>
      r = last (answers g req (gs_sent s) (gs_sent s')) \<and>
      list_all transient (butlast (answers g req (gs_sent s) (gs_sent s'))) \<and>
      (\<exists>ds. gs_delays s' = gs_delays s @ ds \<and> length ds = gs_sent s' - gs_sent s - 1 \<and> list_all (\<lambda>d. d \<le> 1000) ds) \<and>
      ((\<exists>j. r = Inr j) \<longrightarrow> gs_consecutiveFailures s' = 0 \<and> gs_openUntil s' = 0))"

lemma attempted_once:
  assumes "gs_sent s' = Suc (gs_sent s)" "r = classify_response (gw_send g (gs_sent s) req)" "gs_delays s' = gs_delays s"
    and "\<And>j. r = Inr j \<Longrightarrow> gs_consecutiveFailures s' = 0 \<and> gs_openUntil s' = 0"
  shows "attempted g req (Suc n) s r s'"
  using assms by (auto simp: attempted_def answers_def)

lemma attempted_again:
  assumes "transient (classify_response (gw_send g (gs_sent s) req))" "gs_sent s1 = Suc (gs_sent s)"
    and "gs_delays s1 = gs_delays s @ [d]" "d \<le> 1000" "attempted g req n s1 r s'"
  shows "attempted g req (Suc n) s r s'"
proof -
  have lt: "gs_sent s < gs_sent s'" "Suc (gs_sent s) < gs_sent s'" using assms(2,5) by (simp_all add: attempted_def)
  have ne: "answers g req (Suc (gs_sent s)) (gs_sent s') \<noteq> []" using lt by (simp add: answers_def)
  obtain ds where "gs_delays s' = gs_delays s1 @ ds" "length ds = gs_sent s' - gs_sent s1 - 1" "list_all (\<lambda>d. d \<le> 1000) ds"
    using assms(5) by (auto simp: attempted_def)
  then have "\<exists>ds. gs_delays s' = gs_delays s @ ds \<and> length ds = gs_sent s' - gs_sent s - 1 \<and> list_all (\<lambda>d. d \<le> 1000) ds"
    using assms(2-4) lt by (intro exI [of _ "d # ds"]) auto
  then show ?thesis using assms ne lt by (auto simp: attempted_def answers_Cons)
qed

lemma request_attempts_attempted:
  assumes "truthy (gw_serviceToken g) = Some token" "request_attempts g path body (Suc n) attempt s = (r, s')"
    and "attempt + int n \<le> gw_maxAttempts g" "gw_maxAttempts g \<le> attempt + int n"
  shows "attempted g (gateway_request g token path body) (Suc n) s r s'"
  using assms(2-)
proof (induction n arbitrary: attempt s)
  case 0
  then have "\<not> attempt < gw_maxAttempts g" by simp
  with 0 assms(1) show ?case
    by (intro attempted_once) (auto simp: fetchOnce_def Let_def split: sum.splits if_splits)
next
  case (Suc n)
  let ?req = "gateway_request g token path body"
  let ?a = "classify_response (gw_send g (gs_sent s) ?req)"
  let ?s1 = "awaited g (s\<lparr>gs_sent := Suc (gs_sent s)\<rparr>)"
  obtain now s3 where dn: "date_now g (recordFailure g ?s1) = (now, s3)" by fastforce
  have s3: "gs_sent s3 = Suc (gs_sent s)" "gs_delays s3 = gs_delays s" using date_now_sel [OF dn] by simp_all
  have f: "fetchOnce g path body s = (?a, ?s1)" using assms(1) by (simp add: fetchOnce_def)
  show ?case
  proof (cases "transient ?a \<and> gs_openUntil s3 \<le> now")
    case False
    with Suc.prems f dn s3 show ?thesis
      by (intro attempted_once) (auto simp: transient_def Let_def split: sum.splits if_splits prod.splits)
  next
    case True
    then obtain e where e: "?a = Inl e" "\<not> is_terminal e" by (auto simp: transient_def split: sum.splits)
    let ?s4 = "delay g (gateway_backoff g attempt) s3"
    have "request_attempts g path body (Suc n) (attempt + 1) ?s4 = (r, s')"
      using Suc.prems f dn e True by (simp add: Let_def split: if_splits)
    then have "attempted g ?req (Suc n) ?s4 r s'" by (rule Suc.IH) (use Suc.prems in simp_all)
    then show ?thesis
      by (rule attempted_again [of g s ?req ?s4 "gateway_backoff g attempt", rotated -1])
        (use True s3 in \<open>simp_all add: gateway_backoff_def\<close>)
  qed
qed

text \<open>
  C39. A command to the ledger is sent at most as often as configured and gives the answer of its last
  attempt. While the circuit breaker is open nothing is sent. Otherwise there is at least one attempt,
  every attempt but the last was answered by a failure that may pass (a timeout, an unreachable ledger,
  status 408, 429 or at least 500), there is one pause of at most a second before each further attempt,
  and a success closes the breaker; a refusal by the ledger is never retried.
\<close>

theorem command_attempts:
  assumes "truthy (gw_serviceToken g) = Some token" "0 < gw_maxAttempts g" "gateway_call g path body s = (r, s')"
  shows "(gw_clock g (gs_reads s) < gs_openUntil s \<longrightarrow>
      r = Inl (LedgerCommand ''Ledger circuit breaker is open'' Retryable ''LEDGER_CIRCUIT_OPEN'' True) \<and> gs_sent s' = gs_sent s) \<and>
    (gs_openUntil s \<le> gw_clock g (gs_reads s) \<longrightarrow>
      gs_sent s < gs_sent s' \<and> gs_sent s' \<le> gs_sent s + nat (gw_maxAttempts g) \<and>
      r = last (answers g (gateway_request g token path body) (gs_sent s) (gs_sent s')) \<and>
      list_all transient (butlast (answers g (gateway_request g token path body) (gs_sent s) (gs_sent s'))) \<and>
      (\<exists>ds. gs_delays s' = gs_delays s @ ds \<and> length ds = gs_sent s' - gs_sent s - 1 \<and> list_all (\<lambda>d. d \<le> 1000) ds) \<and>
      ((\<exists>j. r = Inr j) \<longrightarrow> gs_consecutiveFailures s' = 0 \<and> gs_openUntil s' = 0))"
proof (cases "gs_openUntil s \<le> gw_clock g (gs_reads s)")
  case True
  obtain n where n: "nat (gw_maxAttempts g) = Suc n" using assms(2) by (metis zero_less_nat_eq gr0_implies_Suc)
  then have "request_attempts g path body (Suc n) 1 (s\<lparr>gs_reads := Suc (gs_reads s)\<rparr>) = (r, s')"
    using assms(3) True by (simp add: gateway_call_def date_now_def)
  from request_attempts_attempted [OF assms(1) this] n True show ?thesis by (simp add: attempted_def)
next
  case False
  with assms(3) show ?thesis by (auto simp: gateway_call_def date_now_def)
qed

definition ex_gateway :: gateway_config where
  "ex_gateway = \<lparr>gw_serviceToken = Some ''token'', gw_serviceUrl = None, gw_correlationId = None, gw_traceHeaders = [],
     gw_maxAttempts = 3, gw_threshold = 5, gw_cooldownMs = 5000, gw_backoffMs = 100,
     gw_send = (\<lambda>k req. if k = 0 then Aborted else Responded 201 (Some (JObj []))), gw_clock = (\<lambda>k. 0), gw_others = (\<lambda>k b. b)\<rparr>"

definition ex_breaker :: gateway_state where
  "ex_breaker = \<lparr>gs_consecutiveFailures = 0, gs_openUntil = 0, gs_sent = 0, gs_reads = 0, gs_delays = []\<rparr>"

lemma ex_gateway_run:
  "case gateway_call ex_gateway ''/internal/transfers/validate'' (JObj []) ex_breaker of
     (r, s') \<Rightarrow> r = Inr (JObj []) \<and> gs_sent s' = 2"
  by code_simp

theorem command_attempts_witness:
  "\<exists>s'. gateway_call ex_gateway ''/internal/transfers/validate'' (JObj []) ex_breaker = (Inr (JObj []), s') \<and>
     gs_sent s' = 2 \<and> gs_sent s' \<le> 3 \<and> gs_consecutiveFailures s' = 0"
proof -
  obtain r s' where c: "gateway_call ex_gateway ''/internal/transfers/validate'' (JObj []) ex_breaker = (r, s')" by fastforce
  have "truthy (gw_serviceToken ex_gateway) = Some ''token''" "0 < gw_maxAttempts ex_gateway"
    by (simp_all add: ex_gateway_def truthy_def)
  note a = command_attempts [OF this c]
  have "gs_openUntil ex_breaker \<le> gw_clock ex_gateway (gs_reads ex_breaker)" "gs_sent ex_breaker + nat (gw_maxAttempts ex_gateway) = 3"
    by (simp_all add: ex_gateway_def ex_breaker_def)
  with a ex_gateway_run c show ?thesis by auto
qed

text \<open>
  Money crosses the wire exactly: the number that the payments service sends for an amount of minor
  units is read back by the ledger as the same amount, for every positive amount below 2 to the power of
  50, which is more than ten million millions.
\<close>

theorem wire_amount_exact:
  assumes "0 < k" "k < 2 ^ 50"
  shows "toPositiveMinorUnits (gateway_amount k) = Inr k"
proof -
  obtain x where x: "gateway_amount k = JsFin x" "near_decimal k x"
    using div_100_near_decimal [OF assms] by (auto simp: gateway_amount_def)
  with amountToMinorUnits_decimal [OF assms x(2)] assms(1) show ?thesis by (simp add: toPositiveMinorUnits_def)
qed

theorem wire_amount_exact_witness: "toPositiveMinorUnits (gateway_amount 127202411) = Inr 127202411"
  by (rule wire_amount_exact) simp_all

end
