(* ===== verification/Rate_Limit.thy ===== *)
theory Rate_Limit
  imports Errors Js_Number
begin

text \<open>
  The rate limits of transfers and of logins, \<^verbatim>\<open>transfers/transfer-rate-limit.guard.ts\<close> of the payments
  service, \<^verbatim>\<open>login-rate-limit.guard.ts\<close> of the gateway and \<^verbatim>\<open>auth/login-rate-limit.guard.ts\<close> of the ledger. A JavaScript \<^verbatim>\<open>Map\<close> is an association list with
  distinct keys, in the order of insertion. What both promise is proved once, in a locale, and all three are
  instances of it. The numbers that \<^verbatim>\<open>Number\<close> makes of the environment variables are arguments.
\<close>

section \<open>The guards\<close>

record window_state =
  ws_count :: int
  ws_resetAt :: int

type_synonym windows = "(string \<times> window_state) list"

definition positiveInteger :: "jsnum \<Rightarrow> int \<Rightarrow> int" where
  "positiveInteger parsed fallback =
     (if is_safe_integer parsed \<and> js_less (JsFin 0) parsed then bigint_of parsed else fallback)"

definition prune :: "int \<Rightarrow> windows \<Rightarrow> windows" where
  "prune now m = (if length m < 10000 then m else filter (\<lambda>(k, v). \<not> ws_resetAt v \<le> now) m)"

definition visit_transfer :: "int \<Rightarrow> int \<Rightarrow> int \<Rightarrow> string \<Rightarrow> windows \<Rightarrow> (err, bool) res \<times> windows" where
  "visit_transfer limit windowMs now userId m =
     (case map_of m userId of
        None \<Rightarrow> (Inr True, prune now (AList.update userId \<lparr>ws_count = 1, ws_resetAt = now + windowMs\<rparr> m))
      | Some current \<Rightarrow>
          if ws_resetAt current \<le> now
          then (Inr True, prune now (AList.update userId \<lparr>ws_count = 1, ws_resetAt = now + windowMs\<rparr> m))
          else let m' = AList.update userId (current\<lparr>ws_count := ws_count current + 1\<rparr>) m
               in if limit < ws_count current + 1 then (Inl (TooManyRequests ''Too many transfer requests''), m')
                  else (Inr True, m'))"

text \<open>A request without a user is let through.\<close>

definition canActivate_transfer :: "jsnum \<Rightarrow> jsnum \<Rightarrow> int \<Rightarrow> string option \<Rightarrow> windows \<Rightarrow> (err, bool) res \<times> windows" where
  "canActivate_transfer max_env window_env now userId m =
     (case userId of
        None \<Rightarrow> (Inr True, m)
      | Some u \<Rightarrow> if u = [] then (Inr True, m)
                  else visit_transfer (positiveInteger max_env 30) (positiveInteger window_env 60000) now u m)"

definition visit_login :: "int \<Rightarrow> int \<Rightarrow> int \<Rightarrow> string \<Rightarrow> windows \<Rightarrow> (err, bool) res \<times> windows" where
  "visit_login limit windowMs now key m =
     (case map_of m key of
        None \<Rightarrow> (Inr True, prune now (AList.update key \<lparr>ws_count = 1, ws_resetAt = now + windowMs\<rparr> m))
      | Some current \<Rightarrow>
          if ws_resetAt current \<le> now
          then (Inr True, prune now (AList.update key \<lparr>ws_count = 1, ws_resetAt = now + windowMs\<rparr> m))
          else let m' = AList.update key (current\<lparr>ws_count := ws_count current + 1\<rparr>) m
               in if limit < ws_count current + 1 then (Inl (TooManyRequests ''Too many login attempts''), m')
                  else (Inr True, m'))"

text \<open>The key of a login: the address that Express knows, else that of the socket.\<close>

definition login_key :: "string option \<Rightarrow> string option \<Rightarrow> string" where
  "login_key ip remoteAddress =
     (case ip of Some (c # cs) \<Rightarrow> c # cs
      | _ \<Rightarrow> (case remoteAddress of Some (c # cs) \<Rightarrow> c # cs | _ \<Rightarrow> ''unknown''))"

definition canActivate_login ::
  "jsnum \<Rightarrow> jsnum \<Rightarrow> int \<Rightarrow> string option \<Rightarrow> string option \<Rightarrow> windows \<Rightarrow> (err, bool) res \<times> windows" where
  "canActivate_login max_env window_env now ip remoteAddress m =
     visit_login (positiveInteger max_env 10) (positiveInteger window_env 60000) now (login_key ip remoteAddress) m"

text \<open>The guard of the ledger service, whose \<^verbatim>\<open>consume\<close> returns nothing.\<close>

definition consume_login :: "int \<Rightarrow> int \<Rightarrow> int \<Rightarrow> string \<Rightarrow> windows \<Rightarrow> (err, unit) res \<times> windows" where
  "consume_login limit windowMs now key m =
     (case map_of m key of
        None \<Rightarrow> (Inr (), prune now (AList.update key \<lparr>ws_count = 1, ws_resetAt = now + windowMs\<rparr> m))
      | Some current \<Rightarrow>
          if ws_resetAt current \<le> now
          then (Inr (), prune now (AList.update key \<lparr>ws_count = 1, ws_resetAt = now + windowMs\<rparr> m))
          else let m' = AList.update key (current\<lparr>ws_count := ws_count current + 1\<rparr>) m
               in if limit < ws_count current + 1 then (Inl (TooManyRequests ''Too many login attempts''), m')
                  else (Inr (), m'))"

definition visit_ledger_login :: "int \<Rightarrow> int \<Rightarrow> int \<Rightarrow> string \<Rightarrow> windows \<Rightarrow> (err, bool) res \<times> windows" where
  "visit_ledger_login limit windowMs now key m = apfst (map_sum id (\<lambda>_. True)) (consume_login limit windowMs now key m)"

definition canActivate_ledger_login ::
  "jsnum \<Rightarrow> jsnum \<Rightarrow> int \<Rightarrow> string option \<Rightarrow> string option \<Rightarrow> windows \<Rightarrow> (err, bool) res \<times> windows" where
  "canActivate_ledger_login max_env window_env now ip remoteAddress m =
     visit_ledger_login (positiveInteger max_env 10) (positiveInteger window_env 60000) now (login_key ip remoteAddress) m"

section \<open>What a window limiter promises\<close>

text \<open>The outcomes for one key in a sequence of requests of any keys, with the times at which they arrive.\<close>

fun outcomes :: "(int \<Rightarrow> string \<Rightarrow> 's \<Rightarrow> (err, bool) res \<times> 's) \<Rightarrow> string \<Rightarrow> (int \<times> string) list \<Rightarrow> 's \<Rightarrow> bool list" where
  "outcomes visit k [] s = []"
| "outcomes visit k ((now, k') # rs) s =
     (case visit now k' s of (r, s') \<Rightarrow> (if k' = k then [is_ok r] else []) @ outcomes visit k rs s')"

definition in_window :: "int \<Rightarrow> int \<Rightarrow> (int \<times> string) list \<Rightarrow> bool" where
  "in_window from until rs = list_all (\<lambda>(now, _). from \<le> now \<and> now < until) rs"

text \<open>
  The state of a limiter satisfies an invariant; \<open>window\<close> is the number of requests of a key and the end of its window. A window that is
  missing or over is opened anew, a live one counts, and the live windows of other keys stay.
\<close>

locale window_limiter =
  fixes visit :: "int \<Rightarrow> string \<Rightarrow> 's \<Rightarrow> (err, bool) res \<times> 's"
    and window :: "'s \<Rightarrow> string \<Rightarrow> (int \<times> int) option"
    and ok :: "'s \<Rightarrow> bool"
    and limit :: int
    and windowMs :: int
  assumes keeps_ok: "ok s \<Longrightarrow> ok (snd (visit now k s))"
    and opens: "ok s \<Longrightarrow> (\<And>n r. window s k = Some (n, r) \<Longrightarrow> r \<le> now) \<Longrightarrow> 0 < windowMs \<Longrightarrow>
      fst (visit now k s) = Inr True \<and> window (snd (visit now k s)) k = Some (1, now + windowMs)"
    and counts: "ok s \<Longrightarrow> window s k = Some (n, r) \<Longrightarrow> now < r \<Longrightarrow>
      is_ok (fst (visit now k s)) = (n + 1 \<le> limit) \<and> window (snd (visit now k s)) k = Some (n + 1, r)"
    and others: "ok s \<Longrightarrow> k' \<noteq> k \<Longrightarrow> window s k' = Some (n, r) \<Longrightarrow> now < r \<Longrightarrow>
      window (snd (visit now k s)) k' = Some (n, r)"
begin

lemma outcomes_live:
  assumes "ok s" "window s k = Some (n, r)" "in_window from r rs"
  shows "outcomes visit k rs s = map (\<lambda>i. n + int i + 1 \<le> limit) [0..<length (filter (\<lambda>x. snd x = k) rs)]"
  using assms
proof (induction rs arbitrary: s n)
  case (Cons x rs)
  obtain now k' where x: "x = (now, k')" by fastforce
  have live: "now < r" "in_window from r rs" using Cons.prems(3) by (simp_all add: in_window_def x)
  obtain out s' where v: "visit now k' s = (out, s')" by fastforce
  have ok': "ok s'" using keeps_ok [OF Cons.prems(1), of now k'] v by simp
  show ?case
  proof (cases "k' = k")
    case True
    with counts [OF Cons.prems(1,2) live(1)] v have c: "is_ok out = (n + 1 \<le> limit)" "window s' k = Some (n + 1, r)" by simp_all
    let ?m = "length (filter (\<lambda>x. snd x = k) rs)"
    have "outcomes visit k rs s' = map (\<lambda>i. n + 1 + int i + 1 \<le> limit) [0..<?m]"
      by (rule Cons.IH [OF ok' c(2) live(2)])
    then show ?thesis using c(1) v True
      by (simp add: x map_upt_Suc algebra_simps del: upt_Suc)
  next
    case False
    with others [OF Cons.prems(1) _ Cons.prems(2) live(1), of k'] v have "window s' k = Some (n, r)" by simp
    from Cons.IH [OF ok' this live(2)] False v show ?thesis by (simp add: x)
  qed
qed simp

lemma first_limit_admitted:
  assumes s: "ok s" "\<And>n r. window s k = Some (n, r) \<Longrightarrow> r \<le> now" and w: "0 < windowMs"
    and rs: "in_window now (now + windowMs) rs" and l: "1 \<le> limit"
  shows "outcomes visit k ((now, k) # rs) s =
    map (\<lambda>i. int i < limit) [0..<Suc (length (filter (\<lambda>x. snd x = k) rs))]"
proof -
  obtain out s' where v: "visit now k s = (out, s')" by fastforce
  have "fst (visit now k s) = Inr True \<and> window (snd (visit now k s)) k = Some (1, now + windowMs)"
    using s w by (intro opens)
  then have 1: "is_ok out" "window s' k = Some (1, now + windowMs)" "ok s'"
    using keeps_ok [OF s(1), of now k] v by simp_all
  from outcomes_live [OF 1(3,2) rs] 1(1) v l show ?thesis
    by (auto simp: map_upt_Suc simp del: upt_Suc)
qed

end

section \<open>The guards are window limiters\<close>

definition window_of :: "windows \<Rightarrow> string \<Rightarrow> (int \<times> int) option" where
  "window_of m k = map_option (\<lambda>v. (ws_count v, ws_resetAt v)) (map_of m k)"

definition keys_distinct :: "windows \<Rightarrow> bool" where
  "keys_distinct m = distinct (map fst m)"

lemma map_of_prune:
  assumes "distinct (map fst m)" "map_of m k = Some v" "now < ws_resetAt v"
  shows "map_of (prune now m) k = Some v"
  using assms by (auto simp: prune_def map_of_filter_in)

lemma distinct_prune: "distinct (map fst m) \<Longrightarrow> distinct (map fst (prune now m))"
  by (auto simp: prune_def distinct_map_filter)

lemma distinct_update: "distinct (map fst m) \<Longrightarrow> distinct (map fst (AList.update k v m))"
  by simp

lemmas limiter_simps = window_of_def keys_distinct_def Let_def distinct_prune

interpretation transfer_limiter: window_limiter "visit_transfer limit windowMs" window_of keys_distinct limit windowMs for limit windowMs
  by unfold_locales (auto simp: limiter_simps visit_transfer_def map_of_prune simp del: map_of_eq_Some_iff split: option.splits if_splits)

interpretation login_limiter: window_limiter "visit_login limit windowMs" window_of keys_distinct limit windowMs for limit windowMs
  by unfold_locales (auto simp: limiter_simps visit_login_def map_of_prune simp del: map_of_eq_Some_iff split: option.splits if_splits)

lemma visit_ledger_login_eq: "visit_ledger_login = visit_login"
  by (intro ext) (simp add: visit_ledger_login_def consume_login_def visit_login_def Let_def split: option.split)

interpretation ledger_login_limiter: window_limiter "visit_ledger_login limit windowMs" window_of keys_distinct limit windowMs for limit windowMs
  unfolding visit_ledger_login_eq by unfold_locales

lemma window_over:
  "(\<forall>v. map_of m k = Some v \<longrightarrow> ws_resetAt v \<le> now) \<Longrightarrow> window_of m k = Some (n, r) \<Longrightarrow> r \<le> now"
  by (auto simp: window_of_def)

text \<open>
  C40. A rate limit admits exactly the configured number of requests in a window: if the window of a key
  is not open when one of its requests arrives, then of this request and the others of the key that
  arrive within the length of the window, the first ones up to the limit are admitted and all later ones
  are refused, whatever other keys do in between and however many entries are pruned. This holds for the
  transfers of a user and for the logins from an address, at the gateway and at the ledger.
\<close>

theorem rate_limit_exact:
  assumes "distinct (map fst m)" "\<forall>v. map_of m k = Some v \<longrightarrow> ws_resetAt v \<le> now"
    and "0 < windowMs" "1 \<le> limit" "in_window now (now + windowMs) rs"
  shows "outcomes (visit_transfer limit windowMs) k ((now, k) # rs) m =
      map (\<lambda>i. int i < limit) [0..<Suc (length (filter (\<lambda>x. snd x = k) rs))] \<and>
    outcomes (visit_login limit windowMs) k ((now, k) # rs) m =
      map (\<lambda>i. int i < limit) [0..<Suc (length (filter (\<lambda>x. snd x = k) rs))] \<and>
    outcomes (visit_ledger_login limit windowMs) k ((now, k) # rs) m =
      map (\<lambda>i. int i < limit) [0..<Suc (length (filter (\<lambda>x. snd x = k) rs))]"
proof (intro conjI)
  have m: "keys_distinct m" using assms(1) by (simp add: keys_distinct_def)
  show "outcomes (visit_transfer limit windowMs) k ((now, k) # rs) m =
      map (\<lambda>i. int i < limit) [0..<Suc (length (filter (\<lambda>x. snd x = k) rs))]"
    by (rule transfer_limiter.first_limit_admitted [OF m window_over [OF assms(2)] assms(3,5,4)])
  show "outcomes (visit_login limit windowMs) k ((now, k) # rs) m =
      map (\<lambda>i. int i < limit) [0..<Suc (length (filter (\<lambda>x. snd x = k) rs))]"
    by (rule login_limiter.first_limit_admitted [OF m window_over [OF assms(2)] assms(3,5,4)])
  show "outcomes (visit_ledger_login limit windowMs) k ((now, k) # rs) m =
      map (\<lambda>i. int i < limit) [0..<Suc (length (filter (\<lambda>x. snd x = k) rs))]"
    by (rule ledger_login_limiter.first_limit_admitted [OF m window_over [OF assms(2)] assms(3,5,4)])
qed

theorem rate_limit_exact_witness:
  "outcomes (visit_transfer 2 60000) ''u1'' [(0, ''u1''), (5, ''u2''), (10, ''u1''), (20, ''u1'')] [] = [True, True, False]"
proof -
  have "in_window 0 (0 + 60000) [(5, ''u2''), (10, ''u1''), (20, ''u1'')]" by (simp add: in_window_def)
  from rate_limit_exact [of "[]" "''u1''" 0 60000 2, OF _ _ _ _ this] show ?thesis by (simp add: upt_rec)
qed

end
