(* ===== verification/Notifications.thy ===== *)
theory Notifications
  imports Payments_Outbox "HOL-Library.List_Lexorder" "HOL-Library.Product_Lexorder"
begin

text \<open>
  The notifications service: \<^verbatim>\<open>messaging/integration-event.ts\<close> (what the consumer accepts),
  \<^verbatim>\<open>messaging/inbox.service.ts\<close> (the transactional inbox), \<^verbatim>\<open>activity/activity-feed.service.ts\<close>,
  \<^verbatim>\<open>realtime/activity-realtime.gateway.ts\<close> (the emission to the room of a user) and the handler
  \<^verbatim>\<open>consume\<close> of \<^verbatim>\<open>messaging/rabbitmq-consumer.service.ts\<close>.

  The content of a message is the value that \<^verbatim>\<open>JSON.parse\<close> makes of it, nothing if it is not JSON; a
  cursor is the value that its text decodes to, in the same way. \<open>js_date\<close> is the time value of
  \<^verbatim>\<open>new Date(text)\<close> and of \<^verbatim>\<open>Date.parse\<close>, nothing for \<^verbatim>\<open>NaN\<close>. The row ids and times that PostgreSQL generates are
  part of a delivery, and so is what goes wrong outside of the service while it is handled. Times of
  rows are microseconds, as PostgreSQL keeps them.
\<close>

section \<open>The database\<close>

record processed_message =
  pm_eventId :: string
  pm_consumer :: string
  pm_processedAt :: int

record activity_item =
  ai_id :: string
  ai_eventId :: string
  ai_userId :: "string option"
  ai_eventType :: string
  ai_aggregateId :: string
  ai_payload :: json
  ai_createdAt :: int

record notifications_db =
  nd_processed :: "processed_message list"
  nd_activity :: "activity_item list"

definition empty_notifications :: notifications_db where
  "empty_notifications = \<lparr>nd_processed = [], nd_activity = []\<rparr>"

text \<open>
  How PostgreSQL reads a \<^verbatim>\<open>uuid\<close>: sixteen bytes in hexadecimal, a hyphen allowed after every second byte,
  the whole optionally in braces.
\<close>

fun uuid_bytes :: "nat \<Rightarrow> string \<Rightarrow> string option" where
  "uuid_bytes 0 s = (if s = [] then Some [] else None)"
| "uuid_bytes (Suc k) (a # b # s) =
     (if is_hex a \<and> is_hex b
      then map_option (\<lambda>r. lower_char a # lower_char b # r)
        (uuid_bytes k (case s of [] \<Rightarrow> [] | c # s' \<Rightarrow> if c = CHR ''-'' \<and> even k \<and> 0 < k then s' else s))
      else None)"
| "uuid_bytes (Suc k) s = None"

definition uuid_text :: "string \<Rightarrow> string" where
  "uuid_text h = take 8 h @ ''-'' @ take 4 (drop 8 h) @ ''-'' @ take 4 (drop 12 h) @ ''-'' @
     take 4 (drop 16 h) @ ''-'' @ drop 20 h"

definition uuid_in :: "string \<Rightarrow> (err, string) res" where
  "uuid_in s =
     (let inner = (if s \<noteq> [] \<and> hd s = CHR ''{''
                   then (if last s = CHR ''}'' then butlast (tl s) else []) else s)
      in case uuid_bytes 16 inner of None \<Rightarrow> Inl (QueryFailed ''22P02'' '''') | Some h \<Rightarrow> Inr (uuid_text h))"

definition nullable_uuid :: "string option \<Rightarrow> (err, string option) res" where
  "nullable_uuid u = (case u of None \<Rightarrow> Inr None | Some s \<Rightarrow> map_sum id Some (uuid_in s))"

text \<open>\<^verbatim>\<open>ON CONFLICT (event_id) DO NOTHING RETURNING event_id\<close>: the inserted rows.\<close>

definition insert_processed ::
  "string \<Rightarrow> string \<Rightarrow> int \<Rightarrow> notifications_db \<Rightarrow> (err, string list \<times> notifications_db) res" where
  "insert_processed eventId consumer now d =
     (if 150 < length consumer then Inl (QueryFailed ''22001'' '''')
      else if \<exists>m \<in> set (nd_processed d). pm_eventId m = pg_uuid eventId then Inr ([], d)
      else Inr ([pg_uuid eventId], d\<lparr>nd_processed := nd_processed d @
             [\<lparr>pm_eventId = pg_uuid eventId, pm_consumer = consumer, pm_processedAt = now\<rparr>]\<rparr>))"

definition insert_activity :: "activity_item \<Rightarrow> notifications_db \<Rightarrow> (err, notifications_db) res" where
  "insert_activity a d =
     rbind (nullable_uuid (ai_userId a)) (\<lambda>userId.
     if 200 < length (ai_eventType a) \<or> 100 < length (ai_aggregateId a) then Inl (QueryFailed ''22001'' '''')
     else if \<exists>r \<in> set (nd_activity d). ai_id r = pg_uuid (ai_id a)
     then Inl (unique_violation ''activity_feed_pkey'')
     else if \<exists>r \<in> set (nd_activity d). ai_eventId r = pg_uuid (ai_eventId a)
     then Inl (unique_violation ''activity_feed_event_id_key'')
     else Inr (d\<lparr>nd_activity := nd_activity d @
       [a\<lparr>ai_id := pg_uuid (ai_id a), ai_eventId := pg_uuid (ai_eventId a), ai_userId := userId\<rparr>]\<rparr>))"

section \<open>What the consumer accepts\<close>

text \<open>\<^verbatim>\<open>typeof value === 'object' && value !== null\<close>.\<close>

definition is_object :: "json option \<Rightarrow> bool" where
  "is_object v = (case v of Some (JObj _) \<Rightarrow> True | Some (JArr _) \<Rightarrow> True | _ \<Rightarrow> False)"

definition positive_integer :: "json option \<Rightarrow> bool" where
  "positive_integer v = (case v of Some (JNum x) \<Rightarrow> is_integer x \<and> \<not> js_less x (JsFin 1) | _ \<Rightarrow> False)"

definition is_text :: "json option \<Rightarrow> bool" where
  "is_text v = (jstring v \<noteq> None)"

definition sub :: "string \<Rightarrow> json option \<Rightarrow> json option" where
  "sub k v = (case v of None \<Rightarrow> None | Some j \<Rightarrow> jget k j)"

definition parseIntegrationEvent :: "(string \<Rightarrow> int option) \<Rightarrow> json \<Rightarrow> (err, json) res" where
  "parseIntegrationEvent js_date event =
     (if \<not> is_object (Some event) then Inl (Err ''Invalid event envelope'')
      else if \<not> (case jstring (jget ''eventId'' event) of None \<Rightarrow> False | Some i \<Rightarrow> uuid_pattern i) \<or>
        \<not> is_text (jget ''eventType'' event) \<or>
        \<not> positive_integer (jget ''schemaVersion'' event) \<or>
        \<not> (case jstring (jget ''occurredAt'' event) of None \<Rightarrow> False | Some t \<Rightarrow> js_date t \<noteq> None) \<or>
        \<not> is_text (jget ''producer'' event) \<or>
        \<not> is_object (jget ''aggregate'' event) \<or>
        \<not> is_text (sub ''type'' (jget ''aggregate'' event)) \<or>
        \<not> is_text (sub ''id'' (jget ''aggregate'' event)) \<or>
        \<not> positive_integer (sub ''version'' (jget ''aggregate'' event)) \<or>
        \<not> is_object (jget ''payload'' event)
      then Inl (Err ''Invalid event envelope'')
      else Inr event)"

text \<open>A text field of an event that has passed \<^verbatim>\<open>parseIntegrationEvent\<close>.\<close>

definition text_field :: "string \<Rightarrow> json \<Rightarrow> string" where
  "text_field k event = (case jstring (jget k event) of None \<Rightarrow> [] | Some s \<Rightarrow> s)"

definition event_aggregate_id :: "json \<Rightarrow> string" where
  "event_aggregate_id event = (case jstring (sub ''id'' (jget ''aggregate'' event)) of None \<Rightarrow> [] | Some s \<Rightarrow> s)"

definition assertTrustedIntegrationEvent :: "json \<Rightarrow> string \<Rightarrow> (err, unit) res" where
  "assertTrustedIntegrationEvent event routingKey =
     (let ledger = (text_field ''producer'' event = ''ledger-service'' \<and>
            startsWith (text_field ''eventType'' event) ''ledger.wallet.'' \<and> startsWith routingKey ''ledger.'');
          payments = (text_field ''producer'' event = ''payments-service'' \<and>
            startsWith (text_field ''eventType'' event) ''payments.'' \<and> startsWith routingKey ''payments.'')
      in check (ledger \<or> payments) (Err ''Untrusted producer, event type or routing key combination''))"

section \<open>Activity feed and inbox\<close>

text \<open>\<^verbatim>\<open>a ?? b\<close>.\<close>

definition nullish :: "json option \<Rightarrow> json option \<Rightarrow> json option" where
  "nullish a b = (if a = None \<or> a = Some JNull then b else a)"

definition userIdFor :: "json \<Rightarrow> string option" where
  "userIdFor event =
     jstring (nullish (sub ''ownerId'' (jget ''payload'' event)) (sub ''senderUserId'' (jget ''payload'' event)))"

definition record_activity :: "string \<Rightarrow> int \<Rightarrow> json \<Rightarrow> notifications_db \<Rightarrow> (err, notifications_db) res" where
  "record_activity newId now event d =
     insert_activity \<lparr>ai_id = newId, ai_eventId = text_field ''eventId'' event, ai_userId = userIdFor event,
       ai_eventType = text_field ''eventType'' event, ai_aggregateId = event_aggregate_id event,
       ai_payload = event, ai_createdAt = now\<rparr> d"

text \<open>
  One transaction: its changes are the database of the result, and there are none if it fails. Two
  transactions on the same event wait for each other at the insertion, so each is one step.
\<close>

definition process ::
  "string \<Rightarrow> int \<Rightarrow> json \<Rightarrow> (json \<Rightarrow> notifications_db \<Rightarrow> (err, notifications_db) res) \<Rightarrow>
     notifications_db \<Rightarrow> (err, bool \<times> notifications_db) res" where
  "process consumer now event handler d =
     rbind (insert_processed (text_field ''eventId'' event) consumer now d) (\<lambda>(inserted, d1).
     if length inserted = 0 then Inr (False, d1)
     else rbind (handler event d1) (\<lambda>d2. Inr (True, d2)))"

section \<open>The consumer\<close>

text \<open>
  What can go wrong outside: the transaction is rolled back, it is committed but its answer lost, or the
  emission throws.
\<close>

datatype fault = NoFault | RollsBack | CommitLost | EmitFails

record delivery =
  dl_content :: "json option"
  dl_routingKey :: string
  dl_rowId :: string
  dl_at :: int
  dl_fault :: fault

datatype settlement = Ack | Nack bool

record emission =
  em_room :: string
  em_body :: json

definition room :: "string \<Rightarrow> string" where
  "room userId = ''user:'' @ userId"

definition field :: "string \<Rightarrow> json \<Rightarrow> (string \<times> json) list" where
  "field k event = (case jget k event of None \<Rightarrow> [] | Some v \<Rightarrow> [(k, v)])"

definition emitToUser :: "string \<Rightarrow> json \<Rightarrow> emission" where
  "emitToUser userId event =
     \<lparr>em_room = room userId,
      em_body = JObj (field ''eventId'' event @ field ''eventType'' event @ field ''occurredAt'' event @
        field ''aggregate'' event @ field ''payload'' event)\<rparr>"

definition receive :: "(string \<Rightarrow> int option) \<Rightarrow> delivery \<Rightarrow> (err, json) res" where
  "receive js_date m =
     (case dl_content m of
        None \<Rightarrow> Inl (Err ''SyntaxError'')
      | Some value \<Rightarrow>
          rbind (parseIntegrationEvent js_date value) (\<lambda>event.
          rbind (assertTrustedIntegrationEvent event (dl_routingKey m)) (\<lambda>_. Inr event)))"

definition handle :: "delivery \<Rightarrow> json \<Rightarrow> notifications_db \<Rightarrow> settlement \<times> emission list \<times> notifications_db" where
  "handle m event d =
     (case process ''notifications.activity-feed.v1'' (dl_at m) event (record_activity (dl_rowId m) (dl_at m)) d of
        Inl e \<Rightarrow> (Nack True, [], d)
      | Inr (processed, d') \<Rightarrow>
          if dl_fault m = RollsBack then (Nack True, [], d)
          else if dl_fault m = CommitLost then (Nack True, [], d')
          else if processed
          then (case truthy (userIdFor event) of
                  None \<Rightarrow> (Ack, [], d')
                | Some userId \<Rightarrow>
                    if dl_fault m = EmitFails then (Nack True, [], d')
                    else (Ack, [emitToUser userId event], d'))
          else (Ack, [], d'))"

text \<open>Nothing happens to a cancelled consumer's null message or without a channel.\<close>

definition consume ::
  "(string \<Rightarrow> int option) \<Rightarrow> bool \<Rightarrow> delivery option \<Rightarrow> notifications_db \<Rightarrow>
     settlement option \<times> emission list \<times> notifications_db" where
  "consume js_date channel message d =
     (case message of
        None \<Rightarrow> (None, [], d)
      | Some m \<Rightarrow>
          if \<not> channel then (None, [], d)
          else (case receive js_date m of
                  Inl e \<Rightarrow> (Some (Nack False), [], d)
                | Inr event \<Rightarrow> (case handle m event d of (s, es, d') \<Rightarrow> (Some s, es, d'))))"

text \<open>Any sequence of deliveries, repeated ones included, with the answer to each.\<close>

fun deliver ::
  "(string \<Rightarrow> int option) \<Rightarrow> delivery list \<Rightarrow> notifications_db \<Rightarrow>
     (settlement option \<times> emission list) list \<times> notifications_db" where
  "deliver js_date [] d = ([], d)"
| "deliver js_date (m # ms) d =
     (case consume js_date True (Some m) d of (s, es, d1) \<Rightarrow>
        (case deliver js_date ms d1 of (answers, d2) \<Rightarrow> ((s, es) # answers, d2)))"

section \<open>Pages of the feed\<close>

text \<open>The cursor of a query is missing or empty, or its text decodes to a value or not.\<close>

record feed_query =
  fq_limit :: "int option"
  fq_cursor :: "json option option"
  fq_eventType :: "string option"

record feed_page =
  fp_items :: "activity_item list"
  fp_nextCursor :: "json option"

text \<open>The order of rows, by time and the bytes of the id, and the \<^verbatim>\<open>Date\<close> of a time, in milliseconds.\<close>

definition feed_key :: "int \<Rightarrow> string \<Rightarrow> int \<times> nat list" where
  "feed_key createdAt i = (createdAt, map of_char i)"

definition item_key :: "activity_item \<Rightarrow> int \<times> nat list" where
  "item_key a = feed_key (ai_createdAt a) (ai_id a)"

definition js_createdAt :: "activity_item \<Rightarrow> int" where
  "js_createdAt a = ai_createdAt a div 1000"

definition encodeCursor :: "int \<Rightarrow> string \<Rightarrow> json" where
  "encodeCursor createdAt i = JObj [(''createdAt'', JStr (toISOString createdAt)), (''id'', JStr i)]"

definition decodeCursor :: "(string \<Rightarrow> int option) \<Rightarrow> json option \<Rightarrow> (err, int \<times> string) res" where
  "decodeCursor js_date value =
     (case value of
        None \<Rightarrow> Inl (BadRequest ''Invalid activity cursor'')
      | Some parsed \<Rightarrow>
          (case (jstring (jget ''createdAt'' parsed), jstring (jget ''id'' parsed)) of
             (Some t, Some i) \<Rightarrow>
               (case js_date t of
                  None \<Rightarrow> Inl (BadRequest ''Invalid activity cursor'')
                | Some createdAt \<Rightarrow> if uuid_pattern i then Inr (createdAt, i) else Inl (BadRequest ''Invalid activity cursor''))
           | _ \<Rightarrow> Inl (BadRequest ''Invalid activity cursor'')))"

text \<open>
  The rows of the query, in its order; \<^verbatim>\<open>if (query.eventType)\<close> skips an empty text. PostgreSQL compares
  the user id as a \<^verbatim>\<open>uuid\<close>.
\<close>

definition feed_rows ::
  "notifications_db \<Rightarrow> string \<Rightarrow> string option \<Rightarrow> (int \<times> nat list) option \<Rightarrow> activity_item list" where
  "feed_rows d userId eventType below =
     rev (sort_key item_key (filter (\<lambda>a. ai_userId a = Some userId \<and>
       (case eventType of None \<Rightarrow> True | Some t \<Rightarrow> ai_eventType a = t) \<and>
       (case below of None \<Rightarrow> True | Some k \<Rightarrow> item_key a < k)) (nd_activity d)))"

definition feed_page_of :: "int \<Rightarrow> activity_item list \<Rightarrow> feed_page" where
  "feed_page_of limit rows =
     (let hasMore = limit < int (length rows);
          items = (if hasMore then take (nat limit) rows else rows)
      in \<lparr>fp_items = items,
          fp_nextCursor = (if hasMore \<and> items \<noteq> []
            then Some (encodeCursor (js_createdAt (last items)) (ai_id (last items))) else None)\<rparr>)"

definition listForUser_feed ::
  "(string \<Rightarrow> int option) \<Rightarrow> string \<Rightarrow> feed_query \<Rightarrow> notifications_db \<Rightarrow> (err, feed_page) res" where
  "listForUser_feed js_date userId query d =
     rbind (case fq_cursor query of
              None \<Rightarrow> Inr None
            | Some c \<Rightarrow> map_sum id Some (decodeCursor js_date c)) (\<lambda>cursor.
     rbind (uuid_in userId) (\<lambda>user.
     let limit = (case fq_limit query of None \<Rightarrow> 20 | Some l \<Rightarrow> l)
     in Inr (feed_page_of limit (take (nat (limit + 1))
       (feed_rows d user (truthy (fq_eventType query))
          (map_option (\<lambda>(createdAt, i). feed_key (1000 * createdAt) (pg_uuid i)) cursor))))))"

text \<open>A client that follows the cursors, for at most \<open>n\<close> pages.\<close>

fun follow_feed ::
  "(string \<Rightarrow> int option) \<Rightarrow> nat \<Rightarrow> string \<Rightarrow> feed_query \<Rightarrow> notifications_db \<Rightarrow> (err, activity_item list) res" where
  "follow_feed js_date 0 userId query d = Inr []"
| "follow_feed js_date (Suc n) userId query d =
     rbind (listForUser_feed js_date userId query d) (\<lambda>page.
     case fp_nextCursor page of
       None \<Rightarrow> Inr (fp_items page)
     | Some c \<Rightarrow> rbind (follow_feed js_date n userId (query\<lparr>fq_cursor := Some (Some c)\<rparr>) d) (\<lambda>rest.
                  Inr (fp_items page @ rest)))"

end
