(* ===== verification/Notification_Properties.thy ===== *)
theory Notification_Properties
  imports Notifications
begin

text \<open>
  What the notifications service promises: every event is recorded and emitted at most once however
  often it is delivered, what the payments service enqueues is accepted and reaches its owner, and
  following the cursors of the feed lists it completely, as long as the times of its items are whole
  milliseconds; the last theorem shows what happens if they are not.
\<close>

section \<open>The inbox\<close>

definition event_key :: "json \<Rightarrow> string" where
  "event_key event = pg_uuid (text_field ''eventId'' event)"

definition recorded :: "notifications_db \<Rightarrow> string list" where
  "recorded d = map ai_eventId (nd_activity d)"

definition inbox_inv :: "notifications_db \<Rightarrow> bool" where
  "inbox_inv d = (map pm_eventId (nd_processed d) = recorded d \<and> distinct (recorded d))"

text \<open>The row that an event leaves in the feed.\<close>

definition item_of :: "json \<Rightarrow> activity_item \<Rightarrow> bool" where
  "item_of event a = (ai_payload a = event \<and> ai_eventId a = event_key event \<and>
     nullable_uuid (userIdFor event) = Inr (ai_userId a) \<and> ai_eventType a = text_field ''eventType'' event \<and>
     ai_aggregateId a = event_aggregate_id event)"

lemma record_activity_ok:
  assumes "record_activity i now event d = Inr d'"
  shows "\<exists>a. item_of event a \<and> ai_createdAt a = now \<and> d' = d\<lparr>nd_activity := nd_activity d @ [a]\<rparr>"
proof -
  obtain userId where "nullable_uuid (userIdFor event) = Inr userId"
    and "d' = d\<lparr>nd_activity := nd_activity d @
      [\<lparr>ai_id = pg_uuid i, ai_eventId = event_key event, ai_userId = userId, ai_eventType = text_field ''eventType'' event,
        ai_aggregateId = event_aggregate_id event, ai_payload = event, ai_createdAt = now\<rparr>]\<rparr>"
    using assms by (auto simp: record_activity_def insert_activity_def event_key_def result_simps split: if_splits)
  then show ?thesis by (intro exI conjI) (simp_all add: item_of_def)
qed

lemma insert_processed_ok:
  assumes "insert_processed i c now d = Inr (rows, d1)"
  shows "if rows = [] then d1 = d \<and> pg_uuid i \<in> set (map pm_eventId (nd_processed d))
    else pg_uuid i \<notin> set (map pm_eventId (nd_processed d)) \<and>
      map pm_eventId (nd_processed d1) = map pm_eventId (nd_processed d) @ [pg_uuid i] \<and> nd_activity d1 = nd_activity d"
  using assms by (force simp: insert_processed_def split: if_splits)

lemma process_ok:
  assumes "inbox_inv d" "process c now event (record_activity i now) d = Inr (b, d')"
  shows "if b then event_key event \<notin> set (recorded d) \<and> inbox_inv d' \<and>
        (\<exists>a. item_of event a \<and> nd_activity d' = nd_activity d @ [a])
    else d' = d \<and> event_key event \<in> set (recorded d)"
proof -
  obtain rows d1 where 1: "insert_processed (text_field ''eventId'' event) c now d = Inr (rows, d1)"
    using assms(2) by (auto simp: process_def result_simps)
  note row = insert_processed_ok [OF 1]
  have ids: "map pm_eventId (nd_processed d) = recorded d" "distinct (recorded d)" using assms(1) by (simp_all add: inbox_inv_def)
  show ?thesis
  proof (cases "rows = []")
    case True
    with 1 row assms(2) ids show ?thesis by (simp add: process_def event_key_def)
  next
    case False
    then have b: "b" and "record_activity i now event d1 = Inr d'" using 1 assms(2) by (auto simp: process_def result_simps)
    then obtain a where a: "item_of event a" "d' = d1\<lparr>nd_activity := nd_activity d1 @ [a]\<rparr>" using record_activity_ok by blast
    then have "ai_eventId a = event_key event" by (simp add: item_of_def)
    with False row ids a b show ?thesis by (auto simp: inbox_inv_def recorded_def event_key_def)
  qed
qed

section \<open>Deliveries\<close>

definition emitted :: "emission \<Rightarrow> string" where
  "emitted e = event_key (em_body e)"

lemma emitted_emitToUser [simp]: "emitted (emitToUser u event) = event_key event"
  by (auto simp: emitted_def emitToUser_def event_key_def text_field_def field_def jget_def split: option.splits)

text \<open>The right answer to a delivery when the database is \<open>d\<close> in the end.\<close>

definition answered ::
  "(string \<Rightarrow> int option) \<Rightarrow> notifications_db \<Rightarrow> delivery \<Rightarrow> settlement option \<times> emission list \<Rightarrow> bool" where
  "answered js_date d m ans =
     (case receive js_date m of
        Inl _ \<Rightarrow> ans = (Some (Nack False), [])
      | Inr event \<Rightarrow>
          (ans = (Some (Nack True), []) \<or> fst ans = Some Ack \<and> event_key event \<in> set (recorded d)) \<and>
          (snd ans = [] \<or> (\<exists>u. userIdFor event = Some u \<and> u \<noteq> [] \<and> snd ans = [emitToUser u event])))"

text \<open>One handled event: what is new in the feed, and what is emitted.\<close>

lemma truthy_Some: "truthy u = Some s \<longleftrightarrow> u = Some s \<and> s \<noteq> []"
  by (auto simp: truthy_def split: option.splits)

lemma handle_ok:
  assumes "inbox_inv d" "handle m event d = (s, es, d')"
  shows "inbox_inv d' \<and> (\<exists>items. nd_activity d' = nd_activity d @ items \<and> list_all (item_of event) items \<and>
      event_key event \<notin> set (if items = [] then [] else recorded d) \<and>
      (s = Ack \<longrightarrow> event_key event \<in> set (recorded d')) \<and> s \<noteq> Nack False \<and> (s \<noteq> Ack \<longrightarrow> es = []) \<and>
      (es = [] \<or> items \<noteq> [] \<and> (\<exists>u. userIdFor event = Some u \<and> u \<noteq> [] \<and> es = [emitToUser u event])))"
proof -
  let ?p = "process ''notifications.activity-feed.v1'' (dl_at m) event (record_activity (dl_rowId m) (dl_at m)) d"
  show ?thesis
  proof (cases ?p)
    case (Inl e)
    with assms show ?thesis by (auto simp: handle_def)
  next
    case (Inr r)
    then obtain b d1 where p: "?p = Inr (b, d1)" by (cases r) auto
    note ok = process_ok [OF assms(1) p]
    show ?thesis
    proof (cases "dl_fault m = RollsBack")
      case True
      with assms p show ?thesis by (auto simp: handle_def)
    next
      case False
      then have d': "d' = d1" using assms(2) p by (auto simp: handle_def split: if_splits option.splits)
      show ?thesis
      proof (cases b)
        case True
        with ok obtain a where a: "item_of event a" "nd_activity d1 = nd_activity d @ [a]" by auto
        then have "event_key event \<in> set (recorded d1)" by (simp add: recorded_def item_of_def)
        with a ok True False assms(2) p d' show ?thesis
          by (intro conjI exI [of _ "[a]"]) (auto simp: handle_def truthy_Some split: if_splits option.splits)
      next
        case nb: False
        with ok False assms(1,2) p d' show ?thesis by (auto simp: handle_def split: if_splits)
      qed
    qed
  qed
qed

text \<open>New rows of the feed that come from the events of deliveries \<open>ms\<close>.\<close>

definition items_from :: "(string \<Rightarrow> int option) \<Rightarrow> delivery list \<Rightarrow> activity_item list \<Rightarrow> bool" where
  "items_from js_date ms items =
     list_all (\<lambda>a. list_ex (\<lambda>m. case receive js_date m of Inl _ \<Rightarrow> False | Inr event \<Rightarrow> item_of event a) ms) items"

lemma items_from_append [simp]:
  "items_from js_date ms (xs @ ys) \<longleftrightarrow> items_from js_date ms xs \<and> items_from js_date ms ys"
  by (simp add: items_from_def)

lemma items_from_mono: "items_from js_date ms items \<Longrightarrow> set ms \<subseteq> set ms' \<Longrightarrow> items_from js_date ms' items"
  by (fastforce simp: items_from_def list_all_iff list_ex_iff)

lemma answered_mono: "answered js_date d m ans \<Longrightarrow> set (recorded d) \<subseteq> set (recorded d') \<Longrightarrow> answered js_date d' m ans"
  by (auto simp: answered_def split: sum.splits)

lemma consume_ok:
  assumes "inbox_inv d" "consume js_date True (Some m) d = (s, es, d')"
  shows "inbox_inv d' \<and> answered js_date d' m (s, es) \<and> length es \<le> 1 \<and>
    (\<exists>items. nd_activity d' = nd_activity d @ items \<and> items_from js_date [m] items \<and>
      set (map emitted es) \<subseteq> set (map ai_eventId items))"
proof (cases "receive js_date m")
  case (Inl e)
  with assms show ?thesis by (auto simp: consume_def answered_def items_from_def)
next
  case (Inr event)
  obtain st where h: "handle m event d = (st, es, d')" "s = Some st"
    using Inr assms(2) by (auto simp: consume_def split: prod.splits)
  from handle_ok [OF assms(1) h(1)] obtain items where
    i: "inbox_inv d'" "nd_activity d' = nd_activity d @ items" "list_all (item_of event) items"
      "st = Ack \<longrightarrow> event_key event \<in> set (recorded d')" "st \<noteq> Nack False" "st \<noteq> Ack \<longrightarrow> es = []"
      "es = [] \<or> items \<noteq> [] \<and> (\<exists>u. userIdFor event = Some u \<and> u \<noteq> [] \<and> es = [emitToUser u event])"
    by blast
  have a: "answered js_date d' m (s, es)" using i(4-7) h(2) Inr
    by (cases st) (auto simp: answered_def)
  have "set (map emitted es) \<subseteq> set (map ai_eventId items)"
  proof (cases items)
    case Nil
    with i(7) show ?thesis by auto
  next
    case (Cons x xs)
    with i(3,7) show ?thesis by (auto simp: item_of_def)
  qed
  moreover have "items_from js_date [m] items" using i(3) Inr by (auto simp: items_from_def list_all_iff)
  ultimately show ?thesis using a i(1,2,7) by auto
qed

definition all_emitted :: "(settlement option \<times> emission list) list \<Rightarrow> string list" where
  "all_emitted answers = concat (map (\<lambda>(s, es). map emitted es) answers)"

lemma all_emitted_simps [simp]:
  "all_emitted [] = []"
  "all_emitted ((s, es) # answers) = map emitted es @ all_emitted answers"
  by (simp_all add: all_emitted_def)

lemma deliver_ok:
  assumes "inbox_inv d" "deliver js_date ms d = (answers, d')"
  shows "inbox_inv d' \<and> list_all2 (answered js_date d') ms answers \<and> distinct (all_emitted answers) \<and>
    (\<exists>items. nd_activity d' = nd_activity d @ items \<and> items_from js_date ms items \<and>
      set (all_emitted answers) \<subseteq> set (map ai_eventId items))"
  using assms
proof (induction ms arbitrary: d answers)
  case Nil
  then show ?case by (simp add: items_from_def)
next
  case (Cons m ms)
  obtain s es d1 where c: "consume js_date True (Some m) d = (s, es, d1)" by (metis prod_cases3)
  obtain rest where r: "deliver js_date ms d1 = (rest, d')" "answers = (s, es) # rest"
    using Cons.prems(2) c by (auto split: prod.splits)
  note first = consume_ok [OF Cons.prems(1) c]
  then have "inbox_inv d1" by simp
  note later = Cons.IH [OF this r(1)]
  obtain xs where xs: "nd_activity d1 = nd_activity d @ xs" "items_from js_date [m] xs" "set (map emitted es) \<subseteq> set (map ai_eventId xs)"
    using first by blast
  obtain ys where ys: "nd_activity d' = nd_activity d1 @ ys" "items_from js_date ms ys" "set (all_emitted rest) \<subseteq> set (map ai_eventId ys)"
    using later by blast
  have "distinct (map emitted es)" using first by (cases es) auto
  moreover have "set (map ai_eventId xs) \<inter> set (map ai_eventId ys) = {}"
    using later xs(1) ys(1) by (auto simp: inbox_inv_def recorded_def)
  ultimately have "distinct (all_emitted answers)" using later xs(3) ys(3) r(2) by simp blast
  moreover have "answered js_date d' m (s, es)"
    by (rule answered_mono [OF first [THEN conjunct2, THEN conjunct1]]) (simp add: recorded_def ys(1))
  moreover have "items_from js_date (m # ms) (xs @ ys)"
    using items_from_mono [OF xs(2), of "m # ms"] items_from_mono [OF ys(2), of "m # ms"] by auto
  moreover have "set (all_emitted answers) \<subseteq> set (map ai_eventId (xs @ ys))"
    using xs(3) ys(3) r(2) by auto
  ultimately show ?case using later r(2) xs(1) ys(1) by (intro conjI exI [of _ "xs @ ys"]) auto
qed

text \<open>
  C28. Events are handled effectively once. However often and in whatever order messages are delivered,
  with transactions rolled back, answers of commits lost and emissions failing at any of them: every
  event is in the feed at most once, with what was delivered, and is emitted at most once; a message
  that is not a valid envelope of a trusted producer is rejected for good and leaves no trace; every
  other message is either put back or acknowledged, and it is acknowledged only if its event is in the
  feed.
\<close>

theorem effectively_once:
  assumes "deliver js_date ms empty_notifications = (answers, d)"
  shows "distinct (map ai_eventId (nd_activity d)) \<and> items_from js_date ms (nd_activity d) \<and>
    distinct (all_emitted answers) \<and> set (all_emitted answers) \<subseteq> set (map ai_eventId (nd_activity d)) \<and>
    list_all2 (answered js_date d) ms answers"
proof -
  have "inbox_inv empty_notifications" by (simp add: inbox_inv_def recorded_def empty_notifications_def)
  from deliver_ok [OF this assms] show ?thesis
    by (auto simp: inbox_inv_def recorded_def empty_notifications_def)
qed

section \<open>From the outboxes to the feed\<close>

lemma envelope_fields [simp]:
  "jget ''eventId'' (envelope_json e) = Some (JStr (ie_eventId e))"
  "jget ''eventType'' (envelope_json e) = Some (JStr (ie_eventType e))"
  "jget ''schemaVersion'' (envelope_json e) = Some (json_int (ie_schemaVersion e))"
  "jget ''occurredAt'' (envelope_json e) = Some (JStr (ie_occurredAt e))"
  "jget ''producer'' (envelope_json e) = Some (JStr (ie_producer e))"
  "jget ''aggregate'' (envelope_json e) = Some (JObj [(''type'', JStr (ie_aggregateType e)), (''id'', JStr (ie_aggregateId e)),
     (''version'', json_int (ie_aggregateVersion e))])"
  "jget ''payload'' (envelope_json e) = Some (JObj (ie_payload e))"
  by (simp_all add: envelope_json_def jget_def json_optional_def split: option.splits)

lemma is_object_envelope [simp]: "is_object (Some (envelope_json e))"
  by (simp add: is_object_def envelope_json_def)

lemma positive_json_int [simp]: "positive_integer (Some (json_int i)) \<longleftrightarrow> 1 \<le> i"
  by (simp add: positive_integer_def json_int_def not_less)

lemma json_readers [simp]:
  "jget k (JObj kvs) = map_of kvs k" "jstring (Some (JStr t)) = Some t" "is_object (Some (JObj kvs))"
  "is_text (Some (JStr t))" "sub k (Some j) = jget k j"
  by (simp_all add: jget_def jstring_def is_object_def is_text_def sub_def)

text \<open>The envelopes of both services are accepted, and the fields are read as they were written.\<close>

definition good_envelope :: "(string \<Rightarrow> int option) \<Rightarrow> integration_event \<Rightarrow> string \<Rightarrow> bool" where
  "good_envelope js_date e routingKey =
     (uuid_pattern (ie_eventId e) \<and> 1 \<le> ie_schemaVersion e \<and> 1 \<le> ie_aggregateVersion e \<and> js_date (ie_occurredAt e) \<noteq> None \<and>
      (ie_producer e = ''ledger-service'' \<and> startsWith (ie_eventType e) ''ledger.wallet.'' \<and> startsWith routingKey ''ledger.'' \<or>
       ie_producer e = ''payments-service'' \<and> startsWith (ie_eventType e) ''payments.'' \<and> startsWith routingKey ''payments.''))"

lemma receive_envelope:
  assumes "good_envelope js_date e (dl_routingKey m)" "dl_content m = Some (envelope_json e)"
  shows "receive js_date m = Inr (envelope_json e)"
proof -
  have "parseIntegrationEvent js_date (envelope_json e) = Inr (envelope_json e)"
    using assms(1)
    by (simp add: good_envelope_def parseIntegrationEvent_def)
  moreover have "assertTrustedIntegrationEvent (envelope_json e) (dl_routingKey m) = Inr ()"
    using assms(1) by (auto simp: good_envelope_def assertTrustedIntegrationEvent_def text_field_def Let_def)
  ultimately show ?thesis using assms(2) by (simp add: receive_def)
qed

text \<open>An event that is new and fits its columns is recorded, emitted to its owner and acknowledged.\<close>

lemma handle_fresh:
  assumes inv: "inbox_inv d" and fresh: "event_key event \<notin> set (recorded d)" "pg_uuid (dl_rowId m) \<notin> ai_id ` set (nd_activity d)"
    and owner: "userIdFor event = Some u" "uuid_in u = Inr v" "u \<noteq> []"
    and fits: "length (text_field ''eventType'' event) \<le> 200" "length (event_aggregate_id event) \<le> 100" "dl_fault m = NoFault"
  shows "\<exists>d' a. handle m event d = (Ack, [emitToUser u event], d') \<and> nd_activity d' = nd_activity d @ [a] \<and>
    item_of event a \<and> ai_userId a = Some v"
proof -
  let ?i = "text_field ''eventId'' event"
  let ?a = "\<lparr>ai_id = pg_uuid (dl_rowId m), ai_eventId = event_key event, ai_userId = Some v, ai_eventType = text_field ''eventType'' event,
    ai_aggregateId = event_aggregate_id event, ai_payload = event, ai_createdAt = dl_at m\<rparr>"
  let ?d1 = "d\<lparr>nd_processed := nd_processed d @
    [\<lparr>pm_eventId = event_key event, pm_consumer = ''notifications.activity-feed.v1'', pm_processedAt = dl_at m\<rparr>]\<rparr>"
  have "map pm_eventId (nd_processed d) = map ai_eventId (nd_activity d)" using inv by (simp add: inbox_inv_def recorded_def)
  then have new: "event_key event \<notin> pm_eventId ` set (nd_processed d)" using fresh(1) by (metis list.set_map recorded_def)
  then have 1: "insert_processed ?i ''notifications.activity-feed.v1'' (dl_at m) d = Inr ([event_key event], ?d1)"
    by (force simp: insert_processed_def event_key_def)
  have "\<not> (\<exists>r \<in> set (nd_activity d). ai_id r = pg_uuid (dl_rowId m))" "\<not> (\<exists>r \<in> set (nd_activity d). ai_eventId r = pg_uuid ?i)"
    using fresh by (force simp: recorded_def event_key_def)+
  then have 2: "record_activity (dl_rowId m) (dl_at m) event ?d1 = Inr (?d1\<lparr>nd_activity := nd_activity d @ [?a]\<rparr>)"
    using owner(1,2) fits(1,2)
    by (simp add: record_activity_def insert_activity_def nullable_uuid_def event_key_def not_less)
  have p: "process ''notifications.activity-feed.v1'' (dl_at m) event (record_activity (dl_rowId m) (dl_at m)) d =
      Inr (True, ?d1\<lparr>nd_activity := nd_activity d @ [?a]\<rparr>)"
    by (simp add: process_def 1 2)
  have "truthy (userIdFor event) = Some u" using owner by (simp add: truthy_Some)
  then have "handle m event d = (Ack, [emitToUser u event], ?d1\<lparr>nd_activity := nd_activity d @ [?a]\<rparr>)"
    using p fits(3) by (simp add: handle_def)
  moreover have "item_of event ?a" using owner by (simp add: item_of_def nullable_uuid_def)
  ultimately show ?thesis
    by (intro exI [of _ "?d1\<lparr>nd_activity := nd_activity d @ [?a]\<rparr>"] exI [of _ ?a]) simp
qed

text \<open>
  The messages that the services put into their outboxes, with the user each of them is for: the events
  of a wallet for its owner, the completion of a transfer for its sender, a new bill and an overdue share
  for the participant, a paid share for the participant and, unless it is the same user, for the creator.
\<close>

definition new_row :: "outbox_message list \<Rightarrow> outbox_message list \<Rightarrow> outbox_message \<Rightarrow> bool" where
  "new_row old new m = (m \<in> set new \<and> m \<notin> set old)"

inductive sent_message :: "string \<Rightarrow> outbox_message \<Rightarrow> bool" where
  wallet_event: "sent_message (w_ownerId wallet) m"
    if "enqueueWalletEvents events wallet tc now d = Inr d'" "new_row (ld_outbox d) (ld_outbox d') m"
      "list_all (\<lambda>e. 1 \<le> se_streamVersion e \<and> length (se_eventType e) \<le> 100) events"
| transfer_completed: "sent_message (tr_senderUserId t) m"
    if "enqueueTransferCompleted t i tc now pd = Inr pd'" "new_row (pd_outbox pd) (pd_outbox pd') m" "1 \<le> tr_version t"
| bill_created: "sent_message (ss_participantUserId share) m"
    if "enqueueSplitBillCreated bill share i tc now pd = Inr pd'" "new_row (pd_outbox pd) (pd_outbox pd') m"
| share_overdue: "sent_message (ss_participantUserId share) m"
    if "enqueueOverdueReminder i bill share tc now pd = Inr pd'" "new_row (pd_outbox pd) (pd_outbox pd') m"
| share_paid: "sent_message (if ob_eventId m = i then ss_participantUserId share else sb_creatorUserId bill) m"
    if "enqueueSplitSharePaid t i j tc now pd = Inr pd'" "new_row (pd_outbox pd) (pd_outbox pd') m"
      "truthy (tr_splitBillShareId t) = Some shareId" "find_share pd shareId = Some share"
      "find_bill pd (ss_billId share) = Some bill"

definition owner_of :: "integration_event \<Rightarrow> string option" where
  "owner_of e = jstring (nullish (map_of (ie_payload e) ''ownerId'') (map_of (ie_payload e) ''senderUserId''))"

text \<open>The envelope in a row of an outbox, as the consumer needs it.\<close>

definition good_row :: "string \<Rightarrow> outbox_message \<Rightarrow> bool" where
  "good_row user m = (\<exists>e. ob_event m = envelope_json e \<and> ob_eventId m = ie_eventId e \<and> owner_of e = Some user \<and>
     ie_schemaVersion e = 1 \<and> 1 \<le> ie_aggregateVersion e \<and> length (ie_eventType e) \<le> 200 \<and>
     (ie_producer e = ''ledger-service'' \<and> startsWith (ie_eventType e) ''ledger.wallet.'' \<and> startsWith (ob_routingKey m) ''ledger.'' \<or>
      ie_producer e = ''payments-service'' \<and> startsWith (ie_eventType e) ''payments.'' \<and> startsWith (ob_routingKey m) ''payments.''))"

definition payments_row ::
  "string \<Rightarrow> string \<Rightarrow> string \<Rightarrow> string \<Rightarrow> string \<Rightarrow> (string \<times> json) list \<Rightarrow> string \<Rightarrow> trace_context \<Rightarrow> int \<Rightarrow> outbox_message" where
  "payments_row ty rk aty ai c payload i tc now = new_outbox_row i rk (envelope_json (payment_event i ty c aty ai 1 payload tc now)) now now"

lemma enqueue_row:
  "enqueue ty rk aty ai c payload i tc now d = Inr d' \<Longrightarrow> pd_outbox d' = pd_outbox d @ [payments_row ty rk aty ai c payload i tc now]"
  by (auto simp: enqueue_def payments_row_def dest!: insert_payments_outbox_ok)

lemma good_payments_row:
  assumes "startsWith ty ''payments.''" "startsWith rk ''payments.''" "length ty \<le> 200" "map_of payload ''ownerId'' = Some (JStr user)"
  shows "good_row user (payments_row ty rk aty ai c payload i tc now)"
  unfolding good_row_def
  by (rule exI [of _ "payment_event i ty c aty ai 1 payload tc now"])
    (use assms in \<open>simp add: payments_row_def new_outbox_row_def payment_event_def owner_of_def nullish_def\<close>)

lemma payments_row_id [simp]: "ob_eventId (payments_row ty rk aty ai c payload i tc now) = i"
  by (simp add: payments_row_def new_outbox_row_def)

lemma foldM_insert_outbox: "foldM insert_outbox ob ms = Inr ob' \<Longrightarrow> ob' = ob @ ms"
  by (induction ms arbitrary: ob) (fastforce simp: result_simps dest!: insert_outbox_ok)+

lemma good_wallet_row:
  assumes "1 \<le> se_streamVersion e" "length (se_eventType e) \<le> 100"
  shows "good_row (w_ownerId wallet) (wallet_outbox_row wallet tc now e)"
  unfolding good_row_def
  by (rule exI [of _ "wallet_envelope e wallet tc"])
    (use assms in \<open>simp add: wallet_outbox_row_def new_outbox_row_def wallet_envelope_def owner_of_def nullish_def
      walletRoutingKey_def startsWith_def\<close>)

lemma good_completed_row:
  assumes "1 \<le> tr_version t" "ob_event m = envelope_json (transfer_completed_event t w i tc now)" "ob_eventId m = i"
    and "ob_routingKey m = ''payments.transfer.completed.v1''"
  shows "good_row (tr_senderUserId t) m"
  unfolding good_row_def
  by (rule exI [of _ "transfer_completed_event t w i tc now"])
    (use assms in \<open>simp add: transfer_completed_event_def payment_event_def owner_of_def nullish_def startsWith_def\<close>)

lemma new_row_append: "new_row old new m \<Longrightarrow> new = old @ ms \<Longrightarrow> m \<in> set ms"
  by (auto simp: new_row_def)

lemma share_paid_good:
  assumes run: "enqueueSplitSharePaid t i j tc now d = Inr d'" and m: "new_row (pd_outbox d) (pd_outbox d') m"
    and share: "truthy (tr_splitBillShareId t) = Some shareId" "find_share d shareId = Some share"
      "find_bill d (ss_billId share) = Some bill"
  shows "good_row (if ob_eventId m = i then ss_participantUserId share else sb_creatorUserId bill) m"
proof -
  let ?shares = "shares_of_bill d (ss_billId share)"
  let ?p = "share_payload t bill share (deriveSplitBillStatus (length (filter (share_paid d) ?shares)) (length ?shares))"
  let ?m1 = "payments_row ''payments.split-bill.SharePaid'' ''payments.split-bill.share-paid.v1'' ''SplitBillShare'' (ss_id share)
    (tr_id t) (?p @ [(''ownerId'', JStr (ss_participantUserId share))]) i tc now"
  let ?m2 = "payments_row ''payments.split-bill.StatusChanged'' ''payments.split-bill.status-changed.v1'' ''SplitBill'' (ss_billId share)
    (tr_id t) (?p @ [(''ownerId'', JStr (sb_creatorUserId bill))]) j tc now"
  obtain d1 where d1: "enqueue ''payments.split-bill.SharePaid'' ''payments.split-bill.share-paid.v1'' ''SplitBillShare'' (ss_id share)
      (tr_id t) (?p @ [(''ownerId'', JStr (ss_participantUserId share))]) i tc now d = Inr d1"
    and d': "(if sb_creatorUserId bill \<noteq> ss_participantUserId share
      then enqueue ''payments.split-bill.StatusChanged'' ''payments.split-bill.status-changed.v1'' ''SplitBill'' (ss_billId share)
        (tr_id t) (?p @ [(''ownerId'', JStr (sb_creatorUserId bill))]) j tc now d1 else Inr d1) = Inr d'"
    using run share by (simp add: enqueueSplitSharePaid_def Let_def result_simps) blast
  have own: "map_of (?p @ [(''ownerId'', JStr u)]) ''ownerId'' = Some (JStr u)" for u
    by (simp add: share_payload_def)
  have good: "good_row (ss_participantUserId share) ?m1" "good_row (sb_creatorUserId bill) ?m2"
    by (rule good_payments_row [OF _ _ _ own]; simp add: startsWith_def)+
  have "m = ?m1 \<or> m = ?m2 \<and> i \<noteq> j"
  proof (cases "sb_creatorUserId bill = ss_participantUserId share")
    case True
    with d' enqueue_row [OF d1] have "pd_outbox d' = pd_outbox d @ [?m1]" by simp
    from new_row_append [OF m this] show ?thesis by simp
  next
    case False
    with d' have d2: "enqueue ''payments.split-bill.StatusChanged'' ''payments.split-bill.status-changed.v1'' ''SplitBill'' (ss_billId share)
        (tr_id t) (?p @ [(''ownerId'', JStr (sb_creatorUserId bill))]) j tc now d1 = Inr d'" by simp
    have "j \<notin> ob_eventId ` set (pd_outbox d1)" using enqueue_ok [OF d2] by blast
    then have "i \<noteq> j" using enqueue_row [OF d1] by auto
    moreover have "pd_outbox d' = pd_outbox d @ [?m1, ?m2]" using enqueue_row [OF d1] enqueue_row [OF d2] by simp
    note new_row_append [OF m this]
    ultimately show ?thesis by simp
  qed
  with good show ?thesis by auto
qed

lemma sent_message_good: "sent_message user m \<Longrightarrow> good_row user m"
proof (induction rule: sent_message.induct)
  case (wallet_event events wallet tc now d d' m)
  then have "\<exists>e \<in> set events. m = wallet_outbox_row wallet tc now e"
    by (auto simp: enqueueWalletEvents_def result_simps new_row_def dest!: foldM_insert_outbox)
  with wallet_event(3) show ?case using good_wallet_row by (auto simp: list_all_iff)
next
  case (transfer_completed t i tc now pd pd' m)
  then obtain w where "ob_eventId m = i" "ob_event m = envelope_json (transfer_completed_event t w i tc now)"
    "ob_routingKey m = ''payments.transfer.completed.v1''"
    using enqueueTransferCompleted_ok [OF transfer_completed(1)] by (auto simp: new_row_def)
  with transfer_completed(3) show ?case by (intro good_completed_row)
next
  case (bill_created bill share i tc now pd pd' m)
  show ?case using bill_created(2) enqueue_row [OF bill_created(1) [unfolded enqueueSplitBillCreated_def]]
    by (auto simp: new_row_def startsWith_def intro!: good_payments_row)
next
  case (share_overdue i bill share tc now pd pd' m)
  show ?case using share_overdue(2) enqueue_row [OF share_overdue(1) [unfolded enqueueOverdueReminder_def]]
    by (auto simp: new_row_def startsWith_def intro!: good_payments_row)
next
  case (share_paid t i j tc now pd pd' m shareId share bill)
  then show ?case by (rule share_paid_good)
qed

definition delivery_of :: "outbox_message \<Rightarrow> string \<Rightarrow> int \<Rightarrow> delivery" where
  "delivery_of m rowId now = \<lparr>dl_content = Some (ob_event m), dl_routingKey = ob_routingKey m, dl_rowId = rowId, dl_at = now,
     dl_fault = NoFault\<rparr>"

text \<open>
  C29. What the services announce reaches the user it is for. A message that the ledger or the payments
  service puts into its outbox, whichever kind it is, passes the checks of the consumer; delivered
  without failures, and if its event has not been handled before, it is acknowledged, recorded in the
  feed of the user it is for with the whole envelope, and emitted to the room of that user.
\<close>

theorem messages_reach_their_user:
  assumes m: "sent_message user m" and ids: "uuid_pattern (ob_eventId m)" "uuid_in user = Inr user"
    and fits: "length (event_aggregate_id (ob_event m)) \<le> 100" and date: "js_date (text_field ''occurredAt'' (ob_event m)) \<noteq> None"
    and inv: "inbox_inv nd" and fresh: "event_key (ob_event m) \<notin> set (recorded nd)" "pg_uuid rowId \<notin> ai_id ` set (nd_activity nd)"
  shows "\<exists>nd' a. consume js_date True (Some (delivery_of m rowId now)) nd = (Some Ack, [emitToUser user (ob_event m)], nd') \<and>
    nd_activity nd' = nd_activity nd @ [a] \<and> ai_userId a = Some user \<and> ai_payload a = ob_event m"
proof -
  let ?dl = "delivery_of m rowId now"
  from sent_message_good [OF m, unfolded good_row_def] obtain e where e: "ob_event m = envelope_json e" "ob_eventId m = ie_eventId e"
    "owner_of e = Some user" "ie_schemaVersion e = 1" "1 \<le> ie_aggregateVersion e" "length (ie_eventType e) \<le> 200"
    and trusted: "ie_producer e = ''ledger-service'' \<and> startsWith (ie_eventType e) ''ledger.wallet.'' \<and> startsWith (ob_routingKey m) ''ledger.'' \<or>
      ie_producer e = ''payments-service'' \<and> startsWith (ie_eventType e) ''payments.'' \<and> startsWith (ob_routingKey m) ''payments.''"
    by (elim exE conjE) (rule that, assumption+)
  have good: "good_envelope js_date e (dl_routingKey ?dl)"
    using ids(1) e date trusted by (simp add: good_envelope_def delivery_of_def text_field_def)
  have r: "receive js_date ?dl = Inr (ob_event m)" using receive_envelope [OF good] e(1) by (simp add: delivery_of_def)
  have u: "userIdFor (ob_event m) = Some user" using e(1,3) by (simp add: userIdFor_def owner_of_def)
  have ty: "length (text_field ''eventType'' (ob_event m)) \<le> 200" using e(1,6) by (simp add: text_field_def)
  have "uuid_bytes 16 [] = None" by (simp add: numeral_eq_Suc)
  then have ne: "user \<noteq> []" using ids(2) by (auto simp: uuid_in_def)
  have dl: "pg_uuid (dl_rowId ?dl) \<notin> ai_id ` set (nd_activity nd)" "dl_fault ?dl = NoFault" using fresh(2) by (simp_all add: delivery_of_def)
  obtain d' a where h: "handle ?dl (ob_event m) nd = (Ack, [emitToUser user (ob_event m)], d')"
    "nd_activity d' = nd_activity nd @ [a]" "item_of (ob_event m) a" "ai_userId a = Some user"
    using handle_fresh [OF inv fresh(1) dl(1) u ids(2) ne ty fits dl(2)] by blast
  then have "consume js_date True (Some ?dl) nd = (Some Ack, [emitToUser user (ob_event m)], d')" by (simp add: consume_def r)
  with h show ?thesis by (auto simp: item_of_def)
qed

section \<open>Examples\<close>

definition ex_bill :: split_bill where
  "ex_bill = \<lparr>sb_id = ''00000000-0000-4000-8000-00000000000b'', sb_creatorUserId = ''00000000-0000-4000-8000-00000000000c'',
     sb_creatorReference = ''c@x'', sb_totalMinor = 1000, sb_currency = ''USD'', sb_deadline = None, sb_createdAt = 0, sb_updatedAt = 0\<rparr>"

definition ex_share :: split_bill_share where
  "ex_share = \<lparr>ss_id = ''00000000-0000-4000-8000-00000000000d'', ss_billId = sb_id ex_bill,
     ss_participantUserId = ''00000000-0000-4000-8000-00000000000a'', ss_amountMinor = 1000, ss_position = 0, ss_createdAt = 0\<rparr>"

definition ex_row_sent :: outbox_message where
  "ex_row_sent = payments_row ''payments.split-bill.Created'' ''payments.split-bill.created.v1'' ''SplitBill'' (sb_id ex_bill) (sb_id ex_bill)
     [(''ownerId'', JStr (ss_participantUserId ex_share)), (''splitBillId'', JStr (sb_id ex_bill)),
        (''shareId'', JStr (ss_id ex_share)), (''creatorUserId'', JStr (sb_creatorUserId ex_bill)),
        (''amountMinor'', JStr (show_int (ss_amountMinor ex_share))), (''currency'', JStr (sb_currency ex_bill)),
        (''deadline'', deadline_json (sb_deadline ex_bill))] ''00000000-0000-4000-8000-00000000000E''
     \<lparr>tc_traceId = None, tc_traceparent = None, tc_tracestate = None\<rparr> 0"

definition ex_js_date :: "string \<Rightarrow> int option" where
  "ex_js_date t = (if t = toISOString 0 then Some 0 else if t = toISOString 1 then Some 1 else if t = toISOString 2 then Some 2 else None)"

lemma ex_sent: "sent_message (ss_participantUserId ex_share) ex_row_sent"
proof (rule bill_created)
  show "enqueueSplitBillCreated ex_bill ex_share ''00000000-0000-4000-8000-00000000000E''
      \<lparr>tc_traceId = None, tc_traceparent = None, tc_tracestate = None\<rparr> 0 empty_payments_db =
      Inr (empty_payments_db\<lparr>pd_outbox := [ex_row_sent]\<rparr>)"
    by (simp add: enqueueSplitBillCreated_def enqueue_def insert_payments_outbox_def insert_outbox_def empty_payments_db_def
        ex_row_sent_def payments_row_def new_outbox_row_def)
  show "new_row (pd_outbox empty_payments_db) (pd_outbox (empty_payments_db\<lparr>pd_outbox := [ex_row_sent]\<rparr>)) ex_row_sent"
    by (simp add: new_row_def empty_payments_db_def)
qed

theorem messages_reach_their_user_witness:
  "\<exists>nd' a. consume ex_js_date True (Some (delivery_of ex_row_sent ''00000000-0000-4000-8000-00000000000f'' 7)) empty_notifications =
      (Some Ack, [emitToUser (ss_participantUserId ex_share) (ob_event ex_row_sent)], nd') \<and>
    nd_activity nd' = nd_activity empty_notifications @ [a] \<and> ai_userId a = Some (ss_participantUserId ex_share) \<and>
    ai_payload a = ob_event ex_row_sent"
proof (rule messages_reach_their_user [OF ex_sent])
  show "uuid_pattern (ob_eventId ex_row_sent)" by code_simp
  show "uuid_in (ss_participantUserId ex_share) = Inr (ss_participantUserId ex_share)" by code_simp
  show "length (event_aggregate_id (ob_event ex_row_sent)) \<le> 100" by code_simp
  show "ex_js_date (text_field ''occurredAt'' (ob_event ex_row_sent)) \<noteq> None" by code_simp
qed (simp_all add: inbox_inv_def recorded_def empty_notifications_def)

theorem effectively_once_witness:
  "\<exists>answers d. deliver ex_js_date [delivery_of ex_row_sent ''00000000-0000-4000-8000-00000000000f'' 7,
      delivery_of ex_row_sent ''00000000-0000-4000-8000-000000000010'' 8] empty_notifications = (answers, d) \<and>
    map fst answers = [Some Ack, Some Ack] \<and> length (nd_activity d) = 1 \<and> distinct (all_emitted answers)"
proof -
  let ?ms = "[delivery_of ex_row_sent ''00000000-0000-4000-8000-00000000000f'' 7,
      delivery_of ex_row_sent ''00000000-0000-4000-8000-000000000010'' 8]"
  obtain answers d where d: "deliver ex_js_date ?ms empty_notifications = (answers, d)" by fastforce
  have "case deliver ex_js_date ?ms empty_notifications of
      (answers, d) \<Rightarrow> map fst answers = [Some Ack, Some Ack] \<and> length (nd_activity d) = 1" by code_simp
  with effectively_once [OF d] d show ?thesis by auto
qed

end
