(* ===== verification/Feed_Pages.thy ===== *)
theory Feed_Pages
  imports Notification_Properties
begin

text \<open>
  The pages of the activity feed: the rows of a query are strictly descending, a cursor selects the rows
  after the one it was made from, and so following the cursors lists the feed exactly. The \<^verbatim>\<open>Date\<close> of a
  row has only milliseconds; the last theorem shows that rows of the same millisecond are lost.
\<close>

section \<open>Rows and cursors\<close>

lemma feed_rows_below: "feed_rows d u et (Some k) = filter (\<lambda>a. item_key a < k) (feed_rows d u et None)"
  by (simp add: feed_rows_def filter_sort conj_ac rev_filter [symmetric])

lemma item_key_eq: "item_key a = item_key b \<longleftrightarrow> ai_createdAt a = ai_createdAt b \<and> ai_id a = ai_id b"
proof -
  have "inj (of_char :: char \<Rightarrow> nat)" by (simp add: inj_def of_char_eq_iff)
  then show ?thesis by (simp add: item_key_def feed_key_def inj_map_eq_map)
qed

lemma feed_rows_descending:
  assumes "distinct (map ai_id (nd_activity d))"
  shows "sorted_wrt (\<lambda>a b. item_key b < item_key a) (feed_rows d u et None)"
proof -
  have "distinct (map item_key (nd_activity d))"
    using assms by (auto simp: distinct_map inj_on_def item_key_eq)
  then have "distinct (map item_key (sort_key item_key (filter P (nd_activity d))))" for P
    by (auto simp: distinct_map intro: inj_on_subset)
  then have "sorted_wrt (<) (map item_key (sort_key item_key (filter P (nd_activity d))))" for P
    by (simp add: strict_sorted_iff)
  then show ?thesis by (simp add: feed_rows_def sorted_wrt_rev sorted_wrt_map)
qed

lemma rows_after:
  assumes "sorted_wrt (\<lambda>a b. item_key b < item_key a) (xs @ a # ys)"
  shows "filter (\<lambda>b. item_key b < item_key a) (xs @ a # ys) = ys"
proof -
  have "filter (\<lambda>b. item_key b < item_key a) xs = []" "filter (\<lambda>b. item_key b < item_key a) ys = ys"
    using assms by (auto simp: sorted_wrt_append filter_empty_conv filter_id_conv)
  then show ?thesis by simp
qed

lemma decode_encode:
  assumes "js_date (toISOString t) = Some t" "uuid_pattern i"
  shows "decodeCursor js_date (Some (encodeCursor t i)) = Inr (t, i)"
  using assms by (simp add: decodeCursor_def encodeCursor_def)

section \<open>Following the cursors\<close>

text \<open>Rows whose cursor is exact: a UUID in lower case, a whole millisecond, and a date that JavaScript reads back.\<close>

definition exact_item :: "(string \<Rightarrow> int option) \<Rightarrow> activity_item \<Rightarrow> bool" where
  "exact_item js_date a = (uuid_pattern (ai_id a) \<and> canonical (ai_id a) \<and> 1000 * js_createdAt a = ai_createdAt a \<and>
     js_date (toISOString (js_createdAt a)) = Some (js_createdAt a))"

definition exact_feed :: "(string \<Rightarrow> int option) \<Rightarrow> notifications_db \<Rightarrow> bool" where
  "exact_feed js_date d = (distinct (map ai_id (nd_activity d)) \<and> list_all (exact_item js_date) (nd_activity d))"

definition query_rows :: "string \<Rightarrow> feed_query \<Rightarrow> notifications_db \<Rightarrow> activity_item list" where
  "query_rows user q d = feed_rows d user (truthy (fq_eventType q)) None"

definition page_limit :: "feed_query \<Rightarrow> int" where
  "page_limit q = (case fq_limit q of None \<Rightarrow> 20 | Some l \<Rightarrow> l)"

lemma listForUser_first:
  assumes "uuid_in u = Inr user" "fq_cursor q = None"
  shows "listForUser_feed js_date u q d = Inr (feed_page_of (page_limit q) (take (nat (page_limit q + 1)) (query_rows user q d)))"
  using assms by (simp add: listForUser_feed_def query_rows_def page_limit_def Let_def)

lemma listForUser_next:
  assumes feed: "exact_feed js_date d" and u: "uuid_in u = Inr user" and rows: "query_rows user q d = xs @ a # ys"
    and c: "fq_cursor q = Some (Some (encodeCursor (js_createdAt a) (ai_id a)))"
  shows "listForUser_feed js_date u q d = Inr (feed_page_of (page_limit q) (take (nat (page_limit q + 1)) ys))"
proof -
  have "a \<in> set (query_rows user q d)" using rows by simp
  then have "a \<in> set (nd_activity d)" by (auto simp: query_rows_def feed_rows_def)
  then have a: "exact_item js_date a" using feed by (simp add: exact_feed_def list_all_iff)
  then have dec: "decodeCursor js_date (Some (encodeCursor (js_createdAt a) (ai_id a))) = Inr (js_createdAt a, ai_id a)"
    by (intro decode_encode) (simp_all add: exact_item_def)
  have key: "feed_key (1000 * js_createdAt a) (pg_uuid (ai_id a)) = item_key a"
    using a by (simp add: item_key_def exact_item_def pg_uuid_canonical)
  have "feed_rows d user (truthy (fq_eventType q)) (Some (item_key a)) = ys"
    using rows_after [of xs a ys] feed_rows_descending [of d user "truthy (fq_eventType q)"] feed rows
    by (simp add: feed_rows_below exact_feed_def query_rows_def)
  then show ?thesis by (simp add: listForUser_feed_def c dec u key page_limit_def Let_def)
qed

lemma feed_page_cases:
  assumes "1 \<le> limit"
  shows "feed_page_of limit (take (nat (limit + 1)) rows) =
    (if limit < int (length rows)
     then \<lparr>fp_items = take (nat limit) rows, fp_nextCursor = Some (encodeCursor (js_createdAt (rows ! (nat limit - 1))) (ai_id (rows ! (nat limit - 1))))\<rparr>
     else \<lparr>fp_items = rows, fp_nextCursor = None\<rparr>)"
proof -
  have n: "nat (limit + 1) = Suc (nat limit)" "0 < nat limit" using assms by simp_all
  show ?thesis
  proof (cases "limit < int (length rows)")
    case True
    then have ne: "take (nat limit) rows \<noteq> []" and le: "Suc (nat limit) \<le> length rows" using n by auto
    have "last (take (nat limit) rows) = rows ! (nat limit - 1)" using le n by (simp add: last_conv_nth [OF ne] min_def)
    with ne le True n assms show ?thesis by (simp add: feed_page_of_def Let_def min_def)
  next
    case False
    with n show ?thesis by (simp add: feed_page_of_def Let_def)
  qed
qed

lemma follow_suffix:
  assumes feed: "exact_feed js_date d" and u: "uuid_in u = Inr user" and l: "1 \<le> page_limit q" and n: "length ys < n"
    and q: "fq_cursor q = None \<and> query_rows user q d = ys \<or>
      (\<exists>xs a. fq_cursor q = Some (Some (encodeCursor (js_createdAt a) (ai_id a))) \<and> query_rows user q d = xs @ a # ys)"
  shows "follow_feed js_date n u q d = Inr ys"
  using l n q
proof (induction n arbitrary: q ys)
  case (Suc n)
  let ?l = "nat (page_limit q)"
  have "listForUser_feed js_date u q d = Inr (feed_page_of (page_limit q) (take (nat (page_limit q + 1)) ys))"
    using Suc.prems(3) listForUser_first [OF u] listForUser_next [OF feed u] by blast
  note page = this [unfolded feed_page_cases [OF Suc.prems(1)]]
  show ?case
  proof (cases "page_limit q < int (length ys)")
    case True
    let ?a = "ys ! (?l - 1)"
    let ?q = "q\<lparr>fq_cursor := Some (Some (encodeCursor (js_createdAt ?a) (ai_id ?a)))\<rparr>"
    have l: "0 < ?l" "?l < length ys" using Suc.prems(1) True by auto
    then have ys: "ys = take (?l - 1) ys @ ?a # drop ?l ys" using id_take_nth_drop [of "?l - 1" ys] by simp
    have same: "query_rows user ?q d = query_rows user q d" "page_limit ?q = page_limit q" by (simp_all add: query_rows_def page_limit_def)
    have "\<exists>zs. query_rows user q d = zs @ ys" using Suc.prems(3) by (metis append.assoc append_Cons append_Nil)
    then obtain zs where "query_rows user q d = zs @ take (?l - 1) ys @ ?a # drop ?l ys" using ys by metis
    then have "follow_feed js_date n u ?q d = Inr (drop ?l ys)"
      using Suc.prems(1,2) l same by (intro Suc.IH disjI2 exI [of _ "zs @ take (?l - 1) ys"] exI [of _ ?a]) auto
    then show ?thesis using page True by simp
  next
    case False
    then show ?thesis using page by simp
  qed
qed simp

text \<open>
  C30. Following the cursors lists the whole feed. If the times of the items are whole milliseconds, a
  client that asks for the first page and then follows the cursors gets every item of the user, of the
  asked type if one is given, exactly once and from the newest to the oldest, whatever the size of the
  pages, in at most one page more than there are items.
\<close>

theorem feed_is_listed_completely:
  assumes "exact_feed js_date d" "uuid_in u = Inr user" "fq_cursor q = None" "1 \<le> page_limit q"
    and "length (query_rows user q d) < n"
  shows "follow_feed js_date n u q d = Inr (query_rows user q d)"
  using assms by (intro follow_suffix) auto

definition ex_item :: "string \<Rightarrow> int \<Rightarrow> activity_item" where
  "ex_item i t = \<lparr>ai_id = i, ai_eventId = i, ai_userId = Some ''00000000-0000-4000-8000-00000000000a'', ai_eventType = ''e'',
     ai_aggregateId = ''x'', ai_payload = JNull, ai_createdAt = t\<rparr>"

definition ex_feed :: "int list \<Rightarrow> notifications_db" where
  "ex_feed ts = \<lparr>nd_processed = [], nd_activity = map2 ex_item
     [''00000000-0000-4000-8000-000000000001'', ''00000000-0000-4000-8000-000000000002'', ''00000000-0000-4000-8000-000000000003''] ts\<rparr>"

definition ex_query :: feed_query where
  "ex_query = \<lparr>fq_limit = Some 1, fq_cursor = None, fq_eventType = None\<rparr>"

theorem feed_is_listed_completely_witness:
  "\<exists>items. follow_feed ex_js_date 4 ''00000000-0000-4000-8000-00000000000a'' ex_query (ex_feed [0, 1000, 1000]) = Inr items \<and>
    map ai_id items = [''00000000-0000-4000-8000-000000000003'', ''00000000-0000-4000-8000-000000000002'',
      ''00000000-0000-4000-8000-000000000001'']"
proof -
  let ?u = "''00000000-0000-4000-8000-00000000000a''" let ?d = "ex_feed [0, 1000, 1000]"
  have "exact_feed ex_js_date ?d" by code_simp
  moreover have "uuid_in ?u = Inr ?u" by code_simp
  moreover have rows: "map ai_id (query_rows ?u ex_query ?d) = [''00000000-0000-4000-8000-000000000003'',
      ''00000000-0000-4000-8000-000000000002'', ''00000000-0000-4000-8000-000000000001'']" by code_simp
  moreover have "length (query_rows ?u ex_query ?d) < 4" using arg_cong [OF rows, of length] by simp
  moreover have "fq_cursor ex_query = None" "1 \<le> page_limit ex_query" by (simp_all add: ex_query_def page_limit_def)
  ultimately show ?thesis using feed_is_listed_completely [of ex_js_date ?d ?u ?u ex_query 4] by auto
qed

text \<open>
  The cursor keeps the time of the last item of a page only to the millisecond, while PostgreSQL compares
  microseconds: an item created in the same millisecond as the last one of a page, but before it, is not on any
  later page.
\<close>

theorem feed_skips_items:
  "map_sum id (map ai_createdAt) (follow_feed ex_js_date 4 ''00000000-0000-4000-8000-00000000000a'' ex_query (ex_feed [500, 1200, 1700])) = Inr [1700, 500]"
  by code_simp

end
