(* ===== verification/Ledger_Refinement.thy ===== *)
theory Ledger_Refinement
  imports Ledger_Safety
begin

text \<open>
  The abstract specification of the ledger: a bank with accounts, whose operations are atomic and total
  functions on a map, without events, versions, projections, outbox or concurrency. The ledger
  refines it: every transaction of any interleaving does one operation of the bank or leaves it alone.
\<close>

section \<open>The bank\<close>

record account =
  ac_balance :: int
  ac_reserved :: int
  ac_holds :: "string \<Rightarrow> hold_state option"

type_synonym bank = "string \<Rightarrow> account option"

datatype account_op = Move int | Reserve string int | Free string | Spend string

datatype bank_op = Open string | On string account_op | Transfer string string string int | Idle

definition new_account :: account where
  "new_account = \<lparr>ac_balance = 0, ac_reserved = 0, ac_holds = (\<lambda>_. None)\<rparr>"

text \<open>Money that is reserved stays: an operation that needs more than is free is refused.\<close>

fun account_exec :: "account_op \<Rightarrow> account \<Rightarrow> account option" where
  "account_exec (Move v) a =
     (if ac_reserved a \<le> ac_balance a + v then Some (a\<lparr>ac_balance := ac_balance a + v\<rparr>) else None)"
| "account_exec (Reserve k n) a =
     (if ac_holds a k = None \<and> 0 < n \<and> n \<le> ac_balance a - ac_reserved a
      then Some (a\<lparr>ac_reserved := ac_reserved a + n, ac_holds := (ac_holds a)(k \<mapsto> \<lparr>hs_amountMinor = n, hs_status = Active\<rparr>)\<rparr>)
      else None)"
| "account_exec (Free k) a =
     (case ac_holds a k of
        None \<Rightarrow> None
      | Some h \<Rightarrow> if hs_status h = Active
          then Some (a\<lparr>ac_reserved := ac_reserved a - hs_amountMinor h, ac_holds := (ac_holds a)(k \<mapsto> h\<lparr>hs_status := Released\<rparr>)\<rparr>)
          else None)"
| "account_exec (Spend k) a =
     (case ac_holds a k of
        None \<Rightarrow> None
      | Some h \<Rightarrow> if hs_status h = Active
          then Some (a\<lparr>ac_balance := ac_balance a - hs_amountMinor h, ac_reserved := ac_reserved a - hs_amountMinor h,
                 ac_holds := (ac_holds a)(k \<mapsto> h\<lparr>hs_status := Consumed\<rparr>)\<rparr>)
          else None)"

definition on_account :: "string \<Rightarrow> account_op \<Rightarrow> bank \<Rightarrow> bank option" where
  "on_account w p b = (case b w of None \<Rightarrow> None | Some a \<Rightarrow> map_option (\<lambda>a'. b(w \<mapsto> a')) (account_exec p a))"

fun bank_exec :: "bank_op \<Rightarrow> bank \<Rightarrow> bank option" where
  "bank_exec (Open w) b = (if b w = None then Some (b(w \<mapsto> new_account)) else None)"
| "bank_exec (On w p) b = on_account w p b"
| "bank_exec (Transfer s r k n) b =
     (if s = r \<or> n \<le> 0 then None else Option.bind (on_account s (Spend k) b) (on_account r (Move n)))"
| "bank_exec Idle b = Some b"

fun bank_run :: "bank_op list \<Rightarrow> bank \<Rightarrow> bank option" where
  "bank_run [] b = Some b"
| "bank_run (p # ps) b = Option.bind (bank_exec p b) (bank_run ps)"

section \<open>The bank that a ledger stands for\<close>

definition account_of :: "wallet_aggregate \<Rightarrow> account" where
  "account_of a = \<lparr>ac_balance = wa_balanceMinor a, ac_reserved = heldMinor a, ac_holds = map_of (wa_holds a)\<rparr>"

definition bank_of :: "ledger_db \<Rightarrow> bank" where
  "bank_of d w =
     (if w \<in> w_id ` set (ld_wallets d)
      then (case rehydrate w (stream (ld_events d) w) of Inl _ \<Rightarrow> None | Inr a \<Rightarrow> Some (account_of a)) else None)"

lemma bank_of_cong: "ld_wallets d' = ld_wallets d \<Longrightarrow> ld_events d' = ld_events d \<Longrightarrow> bank_of d' = bank_of d"
  by (rule ext) (simp add: bank_of_def)

lemma bank_of_wallet:
  assumes "w \<in> set (ld_wallets d)" "rehydrate (w_id w) (stream (ld_events d) (w_id w)) = Inr a"
  shows "bank_of d (w_id w) = Some (account_of a)"
  using assms by (simp add: bank_of_def)

text \<open>An event is an operation on the account.\<close>

lemma account_of_sel [simp]:
  "ac_balance (account_of a) = wa_balanceMinor a" "ac_reserved (account_of a) = heldMinor a" "ac_holds (account_of a) = map_of (wa_holds a)"
  by (simp_all add: account_of_def)

lemma same_holds_same_held: "wa_holds a = wa_holds b \<Longrightarrow> heldMinor a = heldMinor b"
  by (simp add: heldMinor_def)

lemma account_of_withHold:
  assumes "wallet_inv a"
  shows "account_of (withHold a v k h) =
    \<lparr>ac_balance = wa_balanceMinor a,
     ac_reserved = heldMinor a - (case map_of (wa_holds a) k of None \<Rightarrow> 0 | Some h0 \<Rightarrow> hold_weight h0) + hold_weight h,
     ac_holds = (map_of (wa_holds a))(k \<mapsto> h)\<rparr>"
  using heldMinor_withHold [OF assms] by (simp add: account_of_def withHold_def)

lemma spend_refines:
  assumes "wallet_inv a" "map_of (wa_holds a) k = Some h" "hs_status h = Active"
    and "a' = (withHold a v k (h\<lparr>hs_status := Consumed\<rparr>))\<lparr>wa_balanceMinor := wa_balanceMinor a - hs_amountMinor h\<rparr>"
  shows "account_exec (Spend k) (account_of a) = Some (account_of a')"
proof -
  let ?b = "withHold a v k (h\<lparr>hs_status := Consumed\<rparr>)"
  have "account_of a' = (account_of ?b)\<lparr>ac_balance := wa_balanceMinor a - hs_amountMinor h\<rparr>"
    using assms(4) same_holds_same_held [of a' ?b] by (simp add: account_of_def)
  with assms(2,3) show ?thesis
    by (simp add: account_of_withHold [OF assms(1)] account_of_def [of a] hold_weight_def del: map_of_eq_Some_iff)
qed

lemma apply_event_refines:
  assumes ok: "apply_event a e = Inr a'" and inv: "wallet_inv a" and v: "wa_version a \<noteq> 0"
  shows "\<exists>p. account_exec p (account_of a) = Some (account_of a')"
  using ok
proof (cases rule: apply_event_cases)
  case created
  then show ?thesis using v apply_created_ok by blast
next
  case money
  then obtain b where b: "a' = a\<lparr>wa_version := se_streamVersion e, wa_balanceMinor := b\<rparr>" "heldMinor a \<le> b" using apply_money_ok by blast
  have "heldMinor a' = heldMinor a" using b(1) by (intro same_holds_same_held) simp
  with b show ?thesis by (intro exI [of _ "Move (b - wa_balanceMinor a)"]) (simp add: account_of_def)
next
  case held
  from apply_held_ok [OF held(2)] obtain k m where h: "a' = withHold a (se_streamVersion e) k \<lparr>hs_amountMinor = m, hs_status = Active\<rparr>"
    "map_of (wa_holds a) k = None" "0 < m" "m \<le> availableMinor a" by blast
  then show ?thesis
    by (intro exI [of _ "Reserve k m"]) (simp add: account_of_withHold [OF inv] account_of_def [of a] hold_weight_def availableMinor_def)
next
  case released
  from apply_released_ok [OF released(2)] obtain k h where h: "a' = withHold a (se_streamVersion e) k (h\<lparr>hs_status := Released\<rparr>)"
    "map_of (wa_holds a) k = Some h" "hs_status h = Active" by blast
  then show ?thesis
    by (intro exI [of _ "Free k"]) (simp add: account_of_withHold [OF inv] account_of_def [of a] hold_weight_def del: map_of_eq_Some_iff)
next
  case consumed
  from apply_consumed_ok [OF consumed(2)] obtain k h where "map_of (wa_holds a) k = Some h" "hs_status h = Active"
    "a' = (withHold a (se_streamVersion e) k (h\<lparr>hs_status := Consumed\<rparr>))\<lparr>wa_balanceMinor := wa_balanceMinor a - hs_amountMinor h\<rparr>" by blast
  then show ?thesis using spend_refines [OF inv] by blast
qed

section \<open>Every transaction is an operation of the bank\<close>

definition simulated :: "ledger_db \<Rightarrow> ledger_db \<Rightarrow> bool" where
  "simulated d d' = (\<exists>p. bank_exec p (bank_of d) = Some (bank_of d'))"

lemma simulated_idle: "ld_wallets d' = ld_wallets d \<Longrightarrow> ld_events d' = ld_events d \<Longrightarrow> simulated d d'"
  unfolding simulated_def using bank_of_cong [of d' d] by (intro exI [of _ Idle]) simp

lemma bank_of_record:
  assumes "w \<in> set (ld_wallets d)" "se_streamId e = w_id w" "rehydrate (w_id w) (stream (ld_events d) (w_id w)) = Inr a" "apply_event a e = Inr a'"
  shows "bank_of (record_event e m p d) = (bank_of d)(w_id w \<mapsto> account_of a')"
proof
  fix v
  have "stream [e] v = (if v = w_id w then [e] else [])" using assms(2) by (simp add: stream_def)
  then show "bank_of (record_event e m p d) v = ((bank_of d)(w_id w \<mapsto> account_of a')) v"
    using assms by (simp add: bank_of_def rehydrate_snoc)
qed

lemma rehydrated_version:
  assumes "ledger_inv d" "w \<in> set (ld_wallets d)" "rehydrate (w_id w) (stream (ld_events d) (w_id w)) = Inr a"
  shows "wa_version a \<noteq> 0"
  using ledger_inv_stream_ne [OF assms(1,2)] rehydrate_version [OF assms(3)] by simp

lemma simulated_record:
  assumes inv: "ledger_inv d" and w: "w \<in> set (ld_wallets d)" "se_streamId e = w_id w"
    and a: "rehydrate (w_id w) (stream (ld_events d) (w_id w)) = Inr a" "apply_event a e = Inr a'"
  shows "simulated d (record_event e m p d)"
proof -
  obtain q where "account_exec q (account_of a) = Some (account_of a')"
    using apply_event_refines [OF a(2) rehydrate_inv [OF a(1)] rehydrated_version [OF inv w(1) a(1)]] by blast
  then have "bank_exec (On (w_id w) q) (bank_of d) = Some (bank_of (record_event e m p d))"
    using bank_of_wallet [OF w(1) a(1)] bank_of_record [OF w a] by (simp add: on_account_def)
  then show ?thesis unfolding simulated_def by blast
qed

lemma simulated_store:
  assumes "ledger_inv (tx_db t)" "valid_tx t" "w \<in> set (ld_wallets (tx_db t))" "loadAggregate (w_id w) (tx_read t) = Inr a"
    and "store_domain_event t w (w_id w) a ed = Inr (d', view)"
  shows "simulated (tx_db t) d'"
  using store_domain_event_ok [OF assms(1-3) refl assms(4,5)] simulated_record [OF assms(1,3)] by (elim exE conjE) simp

lemma simulated_created:
  assumes "ledger_inv (tx_db t)" "valid_tx t" "walletId \<noteq> []" "canonical walletId" "canonical userId"
    and "create_wallet t userId currency walletId eventId = Inr (d', view)"
  shows "simulated (tx_db t) d'"
proof (cases "find_by_owner (tx_check t) userId currency")
  case None
  note c = create_wallet_ok [OF assms(1-5) None assms(6)]
  from c(5) obtain e a where e: "ld_events d' = ld_events (tx_db t) @ [e]" "se_streamId e = walletId" "rehydrate walletId [e] = Inr a"
    "wa_balanceMinor a = 0" "wa_holds a = []" "stream (ld_events (tx_db t)) walletId = []" "walletId \<notin> w_id ` set (ld_wallets (tx_db t))"
    by blast
  have "account_of a = new_account" using e(4,5) by (simp add: account_of_def new_account_def heldMinor_def fun_eq_iff)
  moreover have "stream [e] v = (if v = walletId then [e] else [])" for v using e(2) by (simp add: stream_def)
  ultimately have "bank_of d' = (bank_of (tx_db t))(walletId \<mapsto> new_account)"
    using e c(3) by (intro ext) (simp add: bank_of_def)
  moreover have "bank_of (tx_db t) walletId = None" using e(7) by (simp add: bank_of_def)
  ultimately show ?thesis unfolding simulated_def by (intro exI [of _ "Open walletId"]) simp
next
  case (Some raced)
  with assms(6) have "d' = tx_db t" by (auto simp: create_wallet_def split: option.splits)
  then show ?thesis by (simp add: simulated_idle)
qed

lemma simulated_getOrCreate:
  assumes "ledger_inv (tx_db t)" "valid_tx t" "walletId \<noteq> []" "canonical walletId" "canonical userId"
    and "getOrCreateForUser t userId currency walletId eventId = Inr (d', view)"
  shows "simulated (tx_db t) d'"
  using assms(6) simulated_created [OF assms(1-5)] simulated_idle
  by (auto simp: getOrCreateForUser_def result_simps split: option.splits sum.splits if_splits)

lemma simulated_settle:
  assumes inv: "ledger_inv (tx_db t)" and t: "valid_tx t" and n: "0 < n"
    and ok: "settleTransferAttempt t tid cmd m n cur did cid = Inr (d', views)"
  shows "simulated (tx_db t) d'"
proof (cases "find_settlement (tx_read t) tid")
  case (Some raced)
  with settle_attempt_ok [OF ok] have "d' = tx_db t" by auto
  then show ?thesis by (simp add: simulated_idle)
next
  case None
  let ?d = "tx_db t"
  have sub: "set (ld_wallets (tx_read t)) \<subseteq> set (ld_wallets ?d)" using valid_txD(2) [OF t] by (auto simp: ledger_le_def elim!: prefixE)
  from settle_attempt_ok [OF ok] None sub obtain s r sa ra h debit credit where s: "s \<in> set (ld_wallets ?d)" and r: "r \<in> set (ld_wallets ?d)"
    and ne: "w_id s \<noteq> w_id r" and l: "loadAggregate (w_id s) (tx_read t) = Inr sa" "loadAggregate (w_id r) (tx_read t) = Inr ra"
    and h: "map_of (wa_holds sa) tid = Some h" and c: "consumeHold sa tid did tid = Inr (Some debit)" and dep: "deposit ra n cid tid = Inr credit"
    and wr: "settle_writes t tid cmd m n cur s r sa ra debit credit = Inr (d', views)"
    by (elim disjE exE conjE) (simp, rule that, auto)
  from settle_writes_ok [OF inv t s r ne l wr] obtain e1 m1 sa' e2 m2 ra' d6 where
    rs: "rehydrate (w_id s) (stream (ld_events ?d) (w_id s)) = Inr sa" and rr: "rehydrate (w_id r) (stream (ld_events ?d) (w_id r)) = Inr ra"
    and car: "carries debit e1 sa" "carries credit e2 ra" and sid: "se_streamId e1 = w_id s" "se_streamId e2 = w_id r"
    and u: "apply_event sa e1 = Inr sa'" "apply_event ra e2 = Inr ra'"
    and d6: "d6 = record_event e2 m2 (projectionFromAggregate ra') (record_event e1 m1 (projectionFromAggregate sa') ?d)"
    and ins: "insert_settlement \<lparr>ts_transferId = tid, ts_senderWalletId = w_id s, ts_receiverWalletId = w_id r, ts_amountMinor = m,
      ts_currency = st_currency cmd, ts_destinationAmountMinor = n, ts_destinationCurrency = cur\<rparr> d6 = Inr d'" by blast
  let ?d1 = "record_event e1 m1 (projectionFromAggregate sa') ?d"
  have b1: "bank_of ?d1 = (bank_of ?d)(w_id s \<mapsto> account_of sa')" by (rule bank_of_record [OF s sid(1) rs u(1)])
  have "stream [e1] (w_id r) = []" using sid(1) ne by (simp add: stream_def)
  then have rr1: "rehydrate (w_id r) (stream (ld_events ?d1) (w_id r)) = Inr ra" using rr by simp
  have b2: "bank_of d6 = (bank_of ?d1)(w_id r \<mapsto> account_of ra')"
    unfolding d6 by (rule bank_of_record [OF _ sid(2) rr1 u(2)]) (simp add: r)
  have b': "bank_of d' = bank_of d6" using insert_settlement_ok(1) [OF ins] by (intro bank_of_cong) simp_all
  from consumeHold_applies [OF c rehydrate_inv [OF rs] car(1)] h u(1) have
    "hs_status h = Active" "sa' = (withHold sa (wa_version sa + 1) tid (h\<lparr>hs_status := Consumed\<rparr>))\<lparr>wa_balanceMinor := wa_balanceMinor sa - hs_amountMinor h\<rparr>"
    by auto
  then have spend: "account_exec (Spend tid) (account_of sa) = Some (account_of sa')"
    using spend_refines [OF rehydrate_inv [OF rs] h] by blast
  have ra': "ra' = ra\<lparr>wa_version := wa_version ra + 1, wa_balanceMinor := wa_balanceMinor ra + n\<rparr>"
    using deposit_applies [OF rehydrate_inv [OF rr] n dep car(2)] u(2) by simp
  have "heldMinor ra' = heldMinor ra" using ra' by (intro same_holds_same_held) simp
  moreover have "heldMinor ra \<le> wa_balanceMinor ra" using rehydrate_inv [OF rr] by (simp add: wallet_inv_def)
  ultimately have move: "account_exec (Move n) (account_of ra) = Some (account_of ra')" using n ra' by (simp add: account_of_def)
  have "bank_exec (Transfer (w_id s) (w_id r) tid n) (bank_of ?d) = Some (bank_of d')"
    using ne n spend move bank_of_wallet [OF s rs] bank_of_wallet [OF r rr] b1 b2 b'
    by (simp add: on_account_def del: account_exec.simps)
  then show ?thesis unfolding simulated_def by blast
qed

lemma step_simulated: "ledger_step d d' \<Longrightarrow> ledger_inv d \<Longrightarrow> simulated d d'"
proof (induction rule: ledger_step.induct)
  case create
  then show ?case using simulated_getOrCreate by blast
next
  case (validate t walletId command eventId d' receiver)
  have canon: "canonical (u_id x)" if "find P (ld_users (tx_db t)) = Some x" for P x
    using that validate.prems by (auto simp: find_Some_iff ledger_inv_def)
  show ?case
    using validate.hyps(5) canon simulated_getOrCreate [OF validate.prems validate.hyps(1,3,4)] simulated_idle [of "tx_db t" "tx_db t"]
    by (auto simp: validateTransfer_def Let_def result_simps case_option_eq_Inr validate.hyps(2) split: option.splits if_splits) blast+
next
  case (money t walletId ownerId amountMinor operation eventId transactionId d' view)
  from money_attempt_ok [OF money.hyps(3)] obtain w a ed where w: "find_owned (tx_read t) walletId ownerId = Some w"
    "loadAggregate walletId (tx_read t) = Inr a" "store_domain_event t w (w_id w) a ed = Inr (d', view)" by blast
  note w' = find_owned_ok [OF w(1) valid_txD(2) [OF money.hyps(1)]]
  have "walletId = w_id w" using w'(2) money.hyps(2) by (simp add: pg_uuid_canonical)
  with w simulated_store [OF money.prems money.hyps(1) w'(1)] show ?case by blast
next
  case (hold t walletId ownerId holdId op amount allow eventId transactionId d' view)
  from hold_attempt_ok [OF hold.hyps(3)] obtain w a ed where w: "find_owned (tx_read t) walletId ownerId = Some w"
    "loadAggregate walletId (tx_read t) = Inr a"
    "(case ed of None \<Rightarrow> Inr (tx_db t, toView w (projectionFromAggregate a)) | Some e \<Rightarrow> store_domain_event t w walletId a e) = Inr (d', view)" by blast
  note w' = find_owned_ok [OF w(1) valid_txD(2) [OF hold.hyps(1)]]
  have "walletId = w_id w" using w'(2) hold.hyps(2) by (simp add: pg_uuid_canonical)
  with w simulated_store [OF hold.prems hold.hyps(1) w'(1)] show ?case by (cases ed) (auto simp: simulated_idle)
next
  case settle
  then show ?case using simulated_settle by blast
next
  case rebuild
  then show ?case using rebuild_inv simulated_idle by blast
qed (simp_all add: simulated_idle)

lemma bank_run_snoc: "bank_run (ps @ [p]) b = Option.bind (bank_run ps b) (bank_exec p)"
proof (induction ps arbitrary: b)
  case Nil
  show ?case by (cases "bank_exec p b") simp_all
next
  case (Cons q ps)
  then show ?case by (cases "bank_exec q b") simp_all
qed

lemma reachable_run: "ledger_reachable d \<Longrightarrow> \<exists>ps. bank_run ps (\<lambda>_. None) = Some (bank_of d)"
proof (induction rule: ledger_reachable.induct)
  case start
  have "bank_of empty_ledger = (\<lambda>_. None)" by (rule ext) (simp add: bank_of_def empty_ledger_def)
  then show ?case by (intro exI [of _ "[]"]) simp
next
  case (step d d')
  then obtain ps where "bank_run ps (\<lambda>_. None) = Some (bank_of d)" by blast
  moreover obtain p where "bank_exec p (bank_of d) = Some (bank_of d')"
    using step_simulated [OF step(2) ledger_reachable_inv [OF step(1)]] by (auto simp: simulated_def)
  ultimately show ?case by (intro exI [of _ "ps @ [p]"]) (simp add: bank_run_snoc)
qed



end
