(* ===== verification/Ledger_Maintenance.thy ===== *)
theory Ledger_Maintenance
  imports Ledger_Safety "HOL-Library.List_Lexorder" "HOL-Library.Product_Lexorder"
begin

text \<open>
  \<^verbatim>\<open>admin/ledger-maintenance.service.ts\<close> of the ledger service: the event log of a wallet, the reconciliation
  of a wallet and of the whole ledger, and the rebuild of all projections. The reads of a reconciliation
  are separate statements outside of a transaction, so each has a state of its own; the rebuild is one
  SERIALIZABLE transaction and has one. \<open>js_date\<close> is the time value of \<^verbatim>\<open>new Date(text)\<close>.
\<close>

section \<open>Model\<close>

record maintenance_state =
  ms_total :: string
  ms_held :: string
  ms_available :: string
  ms_streamVersion :: int

record wallet_reconciliation =
  wr_walletId :: string
  wr_consistent :: bool
  wr_eventDerived :: maintenance_state
  wr_projection :: "maintenance_state option"

record global_reconciliation =
  gr_from :: string
  gr_to :: string
  gr_transactionCount :: int
  gr_creditsMinor :: string
  gr_debitsMinor :: string
  gr_invalidTransactionEventIds :: "string list"
  gr_balanced :: bool

definition POSTING_EVENTS :: "string list" where
  "POSTING_EVENTS = [MONEY_DEPOSITED, WITHDRAWAL_COMPLETED, HOLD_CONSUMED]"

definition getWallet :: "ledger_db \<Rightarrow> string \<Rightarrow> (err, wallet) res" where
  "getWallet d walletId =
     (case find_wallet d walletId of None \<Rightarrow> Inl (NotFound ''Wallet not found'') | Some wallet \<Rightarrow> Inr wallet)"

definition assertWalletIdentity :: "wallet \<Rightarrow> wallet_aggregate \<Rightarrow> (err, unit) res" where
  "assertWalletIdentity wallet aggregate =
     (if wa_ownerId aggregate \<noteq> Some (w_ownerId wallet) \<or> wa_currency aggregate \<noteq> Some (w_currency wallet)
      then Inl (Err (''Wallet stream identity mismatch for '' @ w_id wallet)) else Inr ())"

definition walletEventLog :: "ledger_db \<Rightarrow> ledger_db \<Rightarrow> string \<Rightarrow> (err, stored_event list) res" where
  "walletEventLog d1 d2 walletId = rbind (getWallet d1 walletId) (\<lambda>_. loadStream (ld_events d2) walletId 1)"

definition aggregate_state :: "wallet_aggregate \<Rightarrow> maintenance_state" where
  "aggregate_state aggregate =
     \<lparr>ms_total = formatMinorUnits (wa_balanceMinor aggregate), ms_held = formatMinorUnits (heldMinor aggregate),
      ms_available = formatMinorUnits (availableMinor aggregate), ms_streamVersion = wa_version aggregate\<rparr>"

definition projection_state :: "wallet_balance_projection \<Rightarrow> maintenance_state" where
  "projection_state projection =
     \<lparr>ms_total = formatMinorUnits (bp_balanceMinor projection), ms_held = formatMinorUnits (bp_heldMinor projection),
      ms_available = formatMinorUnits (bp_availableMinor projection), ms_streamVersion = bp_streamVersion projection\<rparr>"

text \<open>The texts of \<^verbatim>\<open>JSON.stringify\<close> are equal iff the four fields are.\<close>

definition reconcileWallet :: "ledger_db \<Rightarrow> ledger_db \<Rightarrow> ledger_db \<Rightarrow> string \<Rightarrow> (err, wallet_reconciliation) res" where
  "reconcileWallet d1 d2 d3 walletId =
     rbind (getWallet d1 walletId) (\<lambda>wallet.
     rbind (loadAggregate walletId d2) (\<lambda>aggregate.
     rbind (assertWalletIdentity wallet aggregate) (\<lambda>_.
     let derived = aggregate_state aggregate;
         materialized = map_option projection_state (map_of (ld_balances d3) (pg_uuid walletId))
     in Inr \<lparr>wr_walletId = walletId, wr_consistent = (materialized = Some derived),
          wr_eventDerived = derived, wr_projection = materialized\<rparr>)))"

text \<open>Nothing if a posting is not as it should be; a payload \<^verbatim>\<open>null\<close> has no properties to read.\<close>

definition posting_amount :: "json \<Rightarrow> (err, int) res" where
  "posting_amount posting =
     (case (jstring (jget ''accountId'' posting), jstring (jget ''amountMinor'' posting)) of
        (Some _, Some amountMinor) \<Rightarrow> parseMinorUnits amountMinor
      | _ \<Rightarrow> Inl (Err ''Invalid posting''))"

definition postingAmounts :: "stored_event \<Rightarrow> (err, int list option) res" where
  "postingAmounts event =
     (if se_payload event = JNull then Inl (TypeErr ''Cannot read properties of null (reading postings)'')
      else case jget ''postings'' (se_payload event) of
        Some (JArr postings) \<Rightarrow>
          if length postings < 2 then Inr None
          else (case mapM posting_amount postings of Inl _ \<Rightarrow> Inr None | Inr amounts \<Rightarrow> Inr (Some amounts))
      | _ \<Rightarrow> Inr None)"

record global_totals =
  gt_credits :: int
  gt_debits :: int
  gt_transactionCount :: int
  gt_invalid :: "string list"

definition count_amount :: "global_totals \<Rightarrow> int \<Rightarrow> global_totals" where
  "count_amount g amount =
     (if 0 \<le> amount then g\<lparr>gt_credits := gt_credits g + amount\<rparr> else g\<lparr>gt_debits := gt_debits g + (- amount)\<rparr>)"

definition count_event :: "global_totals \<Rightarrow> stored_event \<Rightarrow> (err, global_totals) res" where
  "count_event g event =
     (if se_eventType event \<notin> set POSTING_EVENTS then Inr g
      else let g1 = g\<lparr>gt_transactionCount := gt_transactionCount g + 1\<rparr> in
        rbind (postingAmounts event) (\<lambda>amounts.
        case amounts of
          None \<Rightarrow> Inr (g1\<lparr>gt_invalid := gt_invalid g1 @ [se_eventId event]\<rparr>)
        | Some as \<Rightarrow>
            let g2 = (if sum_list as \<noteq> 0 then g1\<lparr>gt_invalid := gt_invalid g1 @ [se_eventId event]\<rparr> else g1)
            in Inr (foldl count_amount g2 as)))"

definition date_or :: "(string \<Rightarrow> int option) \<Rightarrow> string option \<Rightarrow> int \<Rightarrow> (err, int) res" where
  "date_or js_date text fallback =
     (case text of
        None \<Rightarrow> Inr fallback
      | Some t \<Rightarrow> if t = [] then Inr fallback
                  else (case js_date t of None \<Rightarrow> Inl (QueryFailed ''22007'' '''') | Some v \<Rightarrow> Inr v))"

definition reconcileGlobal ::
  "(string \<Rightarrow> int option) \<Rightarrow> string option \<Rightarrow> string option \<Rightarrow> ledger_db \<Rightarrow> (err, global_reconciliation) res" where
  "reconcileGlobal js_date from to d =
     rbind (date_or js_date from 0) (\<lambda>start.
     rbind (date_or js_date to 253402300799999) (\<lambda>stop.
     let events = sort_key (\<lambda>e. (se_createdAt e, se_streamVersion e))
           (filter (\<lambda>e. start \<le> se_createdAt e \<and> se_createdAt e \<le> stop) (ld_events d))
     in rbind (foldM count_event \<lparr>gt_credits = 0, gt_debits = 0, gt_transactionCount = 0, gt_invalid = []\<rparr> events) (\<lambda>g.
        Inr \<lparr>gr_from = toISOString start, gr_to = toISOString stop, gr_transactionCount = gt_transactionCount g,
          gr_creditsMinor = show_int (gt_credits g), gr_debitsMinor = show_int (gt_debits g),
          gr_invalidTransactionEventIds = gt_invalid g,
          gr_balanced = (gt_invalid g = [] \<and> gt_credits g = gt_debits g)\<rparr>)))"

definition rebuild_one :: "ledger_db \<Rightarrow> wallet \<Rightarrow> (err, ledger_db) res" where
  "rebuild_one d wallet =
     rbind (loadAggregate (w_id wallet) d) (\<lambda>aggregate.
     rbind (assertWalletIdentity wallet aggregate) (\<lambda>_.
     save_projection \<lparr>bp_walletId = w_id wallet, bp_balanceMinor = wa_balanceMinor aggregate,
       bp_heldMinor = heldMinor aggregate, bp_availableMinor = availableMinor aggregate,
       bp_streamVersion = wa_version aggregate\<rparr> d))"

definition rebuildAllBalanceProjections :: "ledger_db \<Rightarrow> (err, ledger_db \<times> int) res" where
  "rebuildAllBalanceProjections d =
     (let wallets = sort_key (\<lambda>w. map of_char (w_id w) :: nat list) (ld_wallets d)
      in rbind (foldM rebuild_one d wallets) (\<lambda>d'. Inr (d', int (length wallets))))"

section \<open>Rows of the projection satisfy their checks\<close>

definition row_checked :: "wallet_balance_projection \<Rightarrow> bool" where
  "row_checked p = (pg_bigint (bp_balanceMinor p) \<and> pg_bigint (bp_heldMinor p) \<and> pg_bigint (bp_availableMinor p) \<and>
     pg_integer (bp_streamVersion p) \<and> 0 \<le> bp_balanceMinor p \<and> 0 < bp_streamVersion p \<and> 0 \<le> bp_heldMinor p \<and>
     0 \<le> bp_availableMinor p \<and> bp_availableMinor p = bp_balanceMinor p - bp_heldMinor p)"

lemma save_projection_iff:
  "save_projection p d = Inr d' \<longleftrightarrow> row_checked p \<and> find_wallet d (bp_walletId p) \<noteq> None \<and>
    d' = d\<lparr>ld_balances := AList.update (pg_uuid (bp_walletId p)) (p\<lparr>bp_walletId := pg_uuid (bp_walletId p)\<rparr>) (ld_balances d)\<rparr>"
  by (auto simp: save_projection_def row_checked_def)

definition rows_checked :: "ledger_db \<Rightarrow> bool" where
  "rows_checked d = (\<forall>p \<in> snd ` set (ld_balances d). row_checked p)"

lemma rows_checked_cong [simp]:
  "rows_checked (d\<lparr>ld_users := us\<rparr>) = rows_checked d" "rows_checked (d\<lparr>ld_wallets := ws\<rparr>) = rows_checked d"
  "rows_checked (d\<lparr>ld_events := es\<rparr>) = rows_checked d" "rows_checked (d\<lparr>ld_outbox := ob\<rparr>) = rows_checked d"
  "rows_checked (d\<lparr>ld_settlements := ss\<rparr>) = rows_checked d"
  by (simp_all add: rows_checked_def)

lemma row_checked_walletId [simp]: "row_checked (p\<lparr>bp_walletId := i\<rparr>) = row_checked p"
  by (simp add: row_checked_def)

lemma rows_checked_save: "save_projection p d = Inr d' \<Longrightarrow> rows_checked d \<Longrightarrow> rows_checked d'"
proof -
  assume s: "save_projection p d = Inr d'" and d: "rows_checked d"
  let ?q = "p\<lparr>bp_walletId := pg_uuid (bp_walletId p)\<rparr>"
  have "row_checked ?q" using s by (simp add: save_projection_iff)
  moreover have "snd ` set (AList.update k ?q al) \<subseteq> insert ?q (snd ` set al)" for k and al :: "(string \<times> wallet_balance_projection) list"
    by (induction al) auto
  ultimately show ?thesis using s d by (fastforce simp: save_projection_iff rows_checked_def)
qed

lemma rows_checked_project: "project a d = Inr (d', p) \<Longrightarrow> rows_checked d \<Longrightarrow> rows_checked d'"
  by (auto simp: project_def Let_def result_simps dest: rows_checked_save)

lemma rows_checked_append: "append_one req seen now d = Inr (d', e) \<Longrightarrow> rows_checked d' = rows_checked d"
  by (auto simp: append_one_def append_event_def result_simps case_cons_eq_Inr)

lemma rows_checked_enqueue: "enqueueWalletEvents es w tc now d = Inr d' \<Longrightarrow> rows_checked d' = rows_checked d"
  by (auto simp: enqueueWalletEvents_def result_simps)

lemma rows_checked_insert_wallet: "insert_wallet w d = Inr d' \<Longrightarrow> rows_checked d' = rows_checked d"
  by (drule insert_wallet_ok(1)) simp

lemma rows_checked_insert_settlement: "insert_settlement s d = Inr d' \<Longrightarrow> rows_checked d' = rows_checked d"
  by (auto simp: insert_settlement_def Let_def split: if_splits)

lemmas rows_checked_rules = rows_checked_project rows_checked_append rows_checked_enqueue rows_checked_insert_wallet rows_checked_insert_settlement rows_checked_save

lemma rows_checked_store: "store_domain_event t w i a e = Inr (d', v) \<Longrightarrow> rows_checked (tx_db t) \<Longrightarrow> rows_checked d'"
  by (auto simp: store_domain_event_def result_simps dest!: rows_checked_append rows_checked_enqueue rows_checked_project)

lemma rows_checked_create: "create_wallet t u c i e = Inr (d', v) \<Longrightarrow> rows_checked (tx_db t) \<Longrightarrow> rows_checked d'"
  by (auto simp: create_wallet_def Let_def result_simps split: option.splits
      dest!: rows_checked_append rows_checked_enqueue rows_checked_insert_wallet rows_checked_save)

lemma rows_checked_getOrCreate: "getOrCreateForUser t u c i e = Inr (d', v) \<Longrightarrow> rows_checked (tx_db t) \<Longrightarrow> rows_checked d'"
  by (auto simp: getOrCreateForUser_def result_simps split: option.splits sum.splits if_splits dest: rows_checked_create)

lemma rows_checked_step: "ledger_step d d' \<Longrightarrow> rows_checked d \<Longrightarrow> rows_checked d'"
proof (induction rule: ledger_step.induct)
  case (create t walletId userId currency eventId d' view)
  then show ?case by (auto dest: rows_checked_getOrCreate)
next
  case (validate t walletId command eventId d' receiver)
  then show ?case
    by (auto simp: validateTransfer_def Let_def result_simps case_option_eq_Inr split: option.splits if_splits dest: rows_checked_getOrCreate)
next
  case (money t walletId ownerId amountMinor operation eventId transactionId d' view)
  then show ?case by (auto simp: executeMoneyCommandAttempt_def result_simps split: option.splits dest: rows_checked_store)
next
  case (hold t walletId ownerId holdId op amount allow eventId transactionId d' view)
  then show ?case by (auto simp: executeHoldCommandAttempt_def result_simps split: option.splits dest: rows_checked_store)
next
  case (settle t transferId n settlement m currency debitId creditId d' views)
  have w: "settle_writes t transferId settlement m n currency s r sa ra debit credit = Inr (d', views) \<Longrightarrow> rows_checked d'" for s r sa ra debit credit
    using settle.prems
    by (auto simp: settle_writes_def result_simps dest!: rows_checked_append rows_checked_enqueue rows_checked_project rows_checked_insert_settlement)
  show ?case using settle.hyps(4) settle.prems
    by (auto simp: settleTransferAttempt_def result_simps split: option.splits if_splits dest: w)
next
  case (rebuild t walletId d' p)
  then show ?case by (auto simp: rebuildBalanceProjection_def result_simps split: option.splits dest: rows_checked_project)
qed simp_all

lemma reachable_rows_checked: "ledger_reachable d \<Longrightarrow> rows_checked d"
proof (induction rule: ledger_reachable.induct)
  case start
  show ?case by (simp add: rows_checked_def empty_ledger_def)
next
  case (step d d')
  then show ?case by (blast intro: rows_checked_step)
qed

section \<open>Reconciliation\<close>

lemma projection_state_eq:
  "projection_state p = aggregate_state a \<longleftrightarrow> bp_balanceMinor p = wa_balanceMinor a \<and> bp_heldMinor p = heldMinor a \<and>
    bp_availableMinor p = availableMinor a \<and> bp_streamVersion p = wa_version a"
  by (auto simp: projection_state_def aggregate_state_def formatMinorUnits_inj)

lemma reachable_wallet:
  assumes "ledger_reachable d" "w \<in> set (ld_wallets d)"
  shows "\<exists>a. loadAggregate (w_id w) d = Inr a \<and> assertWalletIdentity w a = Inr () \<and> find_wallet d (w_id w) = Some w \<and>
    pg_uuid (w_id w) = w_id w \<and> map_of (ld_balances d) (w_id w) = Some (projectionFromAggregate a) \<and>
    row_checked (projectionFromAggregate a) \<and> wa_id a = w_id w"
proof -
  have inv: "ledger_inv d" by (rule ledger_reachable_inv [OF assms(1)])
  have i: "w_id w \<noteq> []" "canonical (w_id w)" using ledger_inv_id [OF inv assms(2)] by simp_all
  obtain a where a: "rehydrate (w_id w) (stream (ld_events d) (w_id w)) = Inr a" "wa_ownerId a = Some (w_ownerId w)"
    "wa_currency a = Some (w_currency w)" "map_of (ld_balances d) (w_id w) = Some (projectionFromAggregate a)"
    using ledger_inv_wallet [OF inv assms(2)] by blast
  have "store_wf (ld_events d)" using inv by (simp add: ledger_inv_def)
  then have "loadAggregate (w_id w) d = Inr a" using loadStream_wf [OF _ i(1)] pg_uuid_canonical [OF i(2)] a(1) by (simp add: loadAggregate_def)
  moreover have "find_wallet d (w_id w) = Some w" by (rule find_wallet_member [OF inv assms(2)])
  moreover have "row_checked (projectionFromAggregate a)"
    using reachable_rows_checked [OF assms(1)] map_of_SomeD [OF a(4)] by (force simp: rows_checked_def)
  moreover have "wa_id a = w_id w" using rehydrate_id [OF a(1)] by simp
  ultimately show ?thesis using a i pg_uuid_canonical by (auto simp: assertWalletIdentity_def)
qed

text \<open>The amounts that the reconciliation reads are those that the aggregate checks.\<close>

lemma sum_postings_amounts:
  assumes "foldM (\<lambda>s p. rbind (parseMinorUnits (p_amountMinor p)) (\<lambda>v. Inr (s + v))) s ps = Inr r"
  shows "\<exists>as. mapM (\<lambda>p. parseMinorUnits (p_amountMinor p)) ps = Inr as \<and> r = s + sum_list as"
  using assms
proof (induction ps arbitrary: s)
  case (Cons p ps)
  then obtain v where v: "parseMinorUnits (p_amountMinor p) = Inr v" by (auto simp: result_simps)
  with Cons.prems have "foldM (\<lambda>s p. rbind (parseMinorUnits (p_amountMinor p)) (\<lambda>v. Inr (s + v))) (s + v) ps = Inr r" by simp
  from Cons.IH [OF this] v show ?case by auto
qed simp

lemma mapM_posting_amount:
  "mapM read_posting js = Inr ps \<Longrightarrow> mapM posting_amount js = mapM (\<lambda>p. parseMinorUnits (p_amountMinor p)) ps"
proof (induction js arbitrary: ps)
  case (Cons j js)
  then show ?case
    by (auto simp: result_simps read_posting_def posting_amount_def split: option.splits)
qed simp

definition balanced_event :: "stored_event \<Rightarrow> bool" where
  "balanced_event e = (\<exists>as. postingAmounts e = Inr (Some as) \<and> sum_list as = 0)"

lemma readPostings_balanced_event:
  assumes "readPostings (se_payload e) = Inr ps" "2 \<le> length ps" "sum_postings ps = Inr 0"
  shows "balanced_event e"
proof -
  obtain js where js: "jget ''postings'' (se_payload e) = Some (JArr js)" "mapM read_posting js = Inr ps"
    using assms(1) by (auto simp: readPostings_def result_simps split: option.splits json.splits)
  obtain as where as: "mapM (\<lambda>p. parseMinorUnits (p_amountMinor p)) ps = Inr as" "sum_list as = 0"
    using sum_postings_amounts [of 0 ps 0] assms(3) by (auto simp: sum_postings_def)
  have "se_payload e \<noteq> JNull" using js(1) by (auto simp: jget_def)
  then show ?thesis using js as mapM_posting_amount [OF js(2)] mapM_length [OF js(2)] assms(2)
    by (simp add: balanced_event_def postingAmounts_def)
qed

lemma reachable_balanced_event:
  assumes "ledger_reachable d" "e \<in> set (ld_events d)" "se_eventType e \<in> set POSTING_EVENTS"
  shows "balanced_event e"
proof -
  have inv: "ledger_inv d" by (rule ledger_reachable_inv [OF assms(1)])
  obtain w where w: "w \<in> set (ld_wallets d)" "se_streamId e = w_id w" using inv assms(2) by (auto simp: ledger_inv_def)
  obtain a where "rehydrate (w_id w) (stream (ld_events d) (w_id w)) = Inr a" using ledger_inv_wallet [OF inv w(1)] by blast
  moreover have "e \<in> set (stream (ld_events d) (w_id w))" using assms(2) w(2) by (simp add: stream_def)
  ultimately obtain b b' where "apply_event b e = Inr b'" using rehydrate_applied by blast
  from money_event_balanced [OF this] assms(3) show ?thesis
    using readPostings_balanced_event by (auto simp: POSTING_EVENTS_def)
qed

lemma count_amounts: "gt_credits (foldl count_amount g as) - gt_debits (foldl count_amount g as) = gt_credits g - gt_debits g + sum_list as"
  by (induction as arbitrary: g) (auto simp: count_amount_def)

lemma count_amounts_invalid [simp]: "gt_invalid (foldl count_amount g as) = gt_invalid g"
  by (induction as arbitrary: g) (auto simp: count_amount_def)

definition even_totals :: "global_totals \<Rightarrow> bool" where
  "even_totals g = (gt_invalid g = [] \<and> gt_credits g = gt_debits g)"

lemma count_events_even:
  assumes "\<forall>e \<in> set es. se_eventType e \<in> set POSTING_EVENTS \<longrightarrow> balanced_event e" "even_totals g"
  shows "\<exists>g'. foldM count_event g es = Inr g' \<and> even_totals g'"
  using assms
proof (induction es arbitrary: g)
  case (Cons e es)
  have "\<exists>g1. count_event g e = Inr g1 \<and> even_totals g1"
  proof (cases "se_eventType e \<in> set POSTING_EVENTS")
    case True
    then obtain as where as: "postingAmounts e = Inr (Some as)" "sum_list as = 0" using Cons.prems(1) by (auto simp: balanced_event_def)
    show ?thesis using True as Cons.prems(2) count_amounts [of "g\<lparr>gt_transactionCount := gt_transactionCount g + 1\<rparr>" as]
      by (simp add: count_event_def even_totals_def Let_def)
  next
    case False
    then show ?thesis using Cons.prems(2) by (simp add: count_event_def)
  qed
  then obtain g1 where "count_event g e = Inr g1" "even_totals g1" by blast
  with Cons.IH [of g1] Cons.prems(1) show ?case by simp
qed simp

lemma rebuild_one_same:
  assumes "ledger_reachable d" "w \<in> set (ld_wallets d)"
  shows "rebuild_one d w = Inr d"
proof -
  obtain a where a: "loadAggregate (w_id w) d = Inr a" "assertWalletIdentity w a = Inr ()" "find_wallet d (w_id w) = Some w"
    "pg_uuid (w_id w) = w_id w" "map_of (ld_balances d) (w_id w) = Some (projectionFromAggregate a)"
    "row_checked (projectionFromAggregate a)" "wa_id a = w_id w" using reachable_wallet [OF assms] by blast
  have p: "\<lparr>bp_walletId = w_id w, bp_balanceMinor = wa_balanceMinor a, bp_heldMinor = heldMinor a,
      bp_availableMinor = availableMinor a, bp_streamVersion = wa_version a\<rparr> = projectionFromAggregate a"
    using a(7) by (simp add: projectionFromAggregate_def)
  have "save_projection (projectionFromAggregate a) d = Inr d"
    using a by (simp add: save_projection_iff update_triv projectionFromAggregate_def del: map_of_eq_Some_iff)
  then show ?thesis by (simp add: rebuild_one_def a p)
qed

lemma foldM_const: "(\<And>x. x \<in> set xs \<Longrightarrow> f s x = Inr s) \<Longrightarrow> foldM f s xs = Inr s"
  by (induction xs) auto



text \<open>
  Reconciliation of a wallet detects every drift, in any database: it reports consistency exactly
  if the projection row exists and its balance, held and available money and version are those of the
  aggregate that the events give.
\<close>

theorem drift_is_detected:
  assumes "reconcileWallet d1 d2 d3 walletId = Inr r" "loadAggregate walletId d2 = Inr a"
  shows "wr_consistent r \<longleftrightarrow> (\<exists>p. map_of (ld_balances d3) (pg_uuid walletId) = Some p \<and> bp_balanceMinor p = wa_balanceMinor a \<and>
    bp_heldMinor p = heldMinor a \<and> bp_availableMinor p = availableMinor a \<and> bp_streamVersion p = wa_version a)"
  using assms projection_state_eq [of _ a]
  by (auto simp: reconcileWallet_def result_simps Let_def simp del: map_of_eq_Some_iff)

theorem drift_is_detected_witness:
  "\<exists>r r'. reconcileWallet ex_db4 ex_db4 ex_db4 ''wa'' = Inr r \<and> wr_consistent r \<and>
     reconcileWallet ex_db4 ex_db4 (ex_db4\<lparr>ld_balances := []\<rparr>) ''wa'' = Inr r' \<and> \<not> wr_consistent r'"
proof -
  have "ex_wa \<in> set (ld_wallets ex_db4)" by simp
  from reachable_wallet [OF ex_reach4 this] obtain a where a: "loadAggregate ''wa'' ex_db4 = Inr a" "assertWalletIdentity ex_wa a = Inr ()"
    "find_wallet ex_db4 ''wa'' = Some ex_wa" "pg_uuid ''wa'' = ''wa''" "map_of (ld_balances ex_db4) ''wa'' = Some (projectionFromAggregate a)" by auto
  obtain r where r: "reconcileWallet ex_db4 ex_db4 ex_db4 ''wa'' = Inr r" using a by (simp add: reconcileWallet_def getWallet_def Let_def)
  obtain r' where r': "reconcileWallet ex_db4 ex_db4 (ex_db4\<lparr>ld_balances := []\<rparr>) ''wa'' = Inr r'"
    using a by (simp add: reconcileWallet_def getWallet_def Let_def)
  show ?thesis using drift_is_detected [OF r a(1)] drift_is_detected [OF r' a(1)] r r' a(4,5)
    by (simp add: projectionFromAggregate_def del: map_of_eq_Some_iff)
qed

end
