(* ===== verification/Legacy_Migration.thy ===== *)
theory Legacy_Migration
  imports Ledger_Db
begin

text \<open>
  The migrations of the ledger service that turn stored balances into event streams:
  \<^verbatim>\<open>EventSourceWalletBalances1725000002000\<close>, both directions, and \<^verbatim>\<open>AddHeldBalanceProjection1725000003000\<close>.
  A migration is one transaction, so an error leaves the database as it was. The column
  \<^verbatim>\<open>balance numeric(18,2)\<close> is the integer number of hundredths; a dropped column reads as 0.

  What PostgreSQL computes is a parameter: the values of \<^verbatim>\<open>gen_random_uuid()\<close> (three for each wallet, by
  the position of its row), the cast of a text to \<^verbatim>\<open>bigint\<close>, and the text that \<^verbatim>\<open>->>\<close> makes of a JSON
  value that is not a string.
\<close>

section \<open>The database of that time\<close>

record legacy_wallet =
  lw_id :: string
  lw_ownerId :: string
  lw_currency :: string
  lw_balance :: int

record legacy_projection =
  lp_balanceMinor :: int
  lp_streamVersion :: int

record legacy_db =
  lg_wallets :: "legacy_wallet list"
  lg_hasBalance :: bool
  lg_events :: event_table
  lg_projections :: "(string \<times> legacy_projection) list option"

record pg_functions =
  gen_random_uuid :: "nat \<Rightarrow> string"
  read_bigint :: "string \<Rightarrow> (err, int) res"
  json_text :: "json \<Rightarrow> string"

definition raise_exception :: "string \<Rightarrow> err" where
  "raise_exception message = QueryFailed ''P0001'' message"

definition LEGACY_SOURCE :: string where
  "LEGACY_SOURCE = ''legacy-balance-migration''"

section \<open>The migration\<close>

definition legacy_created :: "string \<Rightarrow> int \<Rightarrow> legacy_wallet \<Rightarrow> stored_event" where
  "legacy_created eventId now w =
    \<lparr>se_eventId = eventId, se_streamId = lw_id w, se_aggregateType = ''Wallet'', se_eventType = WALLET_CREATED,
     se_schemaVersion = 1, se_streamVersion = 1,
     se_payload = JObj [(''ownerId'', JStr (lw_ownerId w)), (''currency'', JStr (lw_currency w))],
     se_metadata = JObj [(''source'', JStr LEGACY_SOURCE)],
     se_correlationId = None, se_traceId = None, se_createdAt = now\<rparr>"

definition legacy_deposit :: "string \<Rightarrow> string \<Rightarrow> int \<Rightarrow> legacy_wallet \<Rightarrow> stored_event" where
  "legacy_deposit eventId transactionId now w =
    \<lparr>se_eventId = eventId, se_streamId = lw_id w, se_aggregateType = ''Wallet'', se_eventType = MONEY_DEPOSITED,
     se_schemaVersion = 1, se_streamVersion = 2,
     se_payload = JObj [(''transactionId'', JStr transactionId),
       (''postings'', JArr
         [JObj [(''accountId'', JStr (''wallet:'' @ lw_id w)), (''amountMinor'', JStr (show_int (lw_balance w)))],
          JObj [(''accountId'', JStr ''system:external''), (''amountMinor'', JStr (show_int (- lw_balance w)))]])],
     se_metadata = JObj [(''source'', JStr LEGACY_SOURCE)],
     se_correlationId = None, se_traceId = None, se_createdAt = now\<rparr>"

definition check_legacy_balances :: "legacy_db \<Rightarrow> (err, unit) res" where
  "check_legacy_balances d =
    (if \<exists>w \<in> set (lg_wallets d). lw_balance w < 0
     then Inl (raise_exception ''Cannot migrate a wallet with negative legacy balance'') else Inr ())"

definition created_rows :: "pg_functions \<Rightarrow> int \<Rightarrow> legacy_db \<Rightarrow> stored_event list" where
  "created_rows pg now d =
    map (\<lambda>(i, w). legacy_created (gen_random_uuid pg (3 * i)) now w)
      (filter (\<lambda>(i, w). stream (lg_events d) (lw_id w) = []) (enumerate 0 (lg_wallets d)))"

text \<open>The value of \<^verbatim>\<open>x->>'key'\<close>; \<^verbatim>\<open>NULL\<close> if the key is missing, null, or \<^verbatim>\<open>x\<close> is not an object.\<close>

definition json_field_text :: "pg_functions \<Rightarrow> string \<Rightarrow> json \<Rightarrow> string option" where
  "json_field_text pg key j =
    (case jget key j of
       None \<Rightarrow> None | Some JNull \<Rightarrow> None | Some (JStr s) \<Rightarrow> Some s | Some v \<Rightarrow> Some (json_text pg v))"

definition deposit_rows :: "pg_functions \<Rightarrow> int \<Rightarrow> legacy_db \<Rightarrow> stored_event list" where
  "deposit_rows pg now d =
    map (\<lambda>(i, w). legacy_deposit (gen_random_uuid pg (3 * i + 1)) (gen_random_uuid pg (3 * i + 2)) now w)
      (filter (\<lambda>(i, w).
         0 < lw_balance w \<and> length (stream (lg_events d) (lw_id w)) = 1 \<and>
         list_ex (\<lambda>e. se_eventType e = WALLET_CREATED \<and> json_field_text pg ''source'' (se_metadata e) = Some LEGACY_SOURCE)
           (stream (lg_events d) (lw_id w)))
       (enumerate 0 (lg_wallets d)))"

text \<open>The events of wallets, the rows of the joins.\<close>

definition wallet_events :: "legacy_db \<Rightarrow> stored_event list" where
  "wallet_events d = filter (\<lambda>e. se_streamId e \<in> set (map lw_id (lg_wallets d))) (lg_events d)"

definition check_supported :: "legacy_db \<Rightarrow> (err, unit) res" where
  "check_supported d =
    (if \<exists>e \<in> set (wallet_events d). se_aggregateType e \<noteq> ''Wallet'' \<or>
          se_eventType e \<notin> {WALLET_CREATED, MONEY_DEPOSITED, WITHDRAWAL_COMPLETED}
     then Inl (raise_exception ''Unsupported existing event in a wallet stream'') else Inr ())"

definition is_money_event :: "stored_event \<Rightarrow> bool" where
  "is_money_event e \<longleftrightarrow> se_eventType e \<in> {MONEY_DEPOSITED, WITHDRAWAL_COMPLETED}"

text \<open>\<^verbatim>\<open>jsonb_array_elements(e.payload->'postings')\<close>: no rows for \<^verbatim>\<open>NULL\<close>, an error for what is not an array.\<close>

definition posting_elements :: "stored_event \<Rightarrow> (err, json list) res" where
  "posting_elements e =
    (case jget ''postings'' (se_payload e) of
       None \<Rightarrow> Inr []
     | Some (JArr js) \<Rightarrow> Inr js
     | Some _ \<Rightarrow> Inl (QueryFailed ''22023'' ''''))"

text \<open>The sum of \<^verbatim>\<open>(posting->>'amountMinor')::bigint\<close>, in which \<^verbatim>\<open>NULL\<close>s do not count; \<^verbatim>\<open>NULL\<close> if there is no number.\<close>

definition posting_bigint :: "pg_functions \<Rightarrow> json \<Rightarrow> (err, int option) res" where
  "posting_bigint pg j =
    (case json_field_text pg ''amountMinor'' j of
       None \<Rightarrow> Inr None
     | Some t \<Rightarrow> rbind (read_bigint pg t) (\<lambda>v. Inr (Some v)))"

fun sql_sum :: "int option list \<Rightarrow> int option" where
  "sql_sum [] = None"
| "sql_sum (None # vs) = sql_sum vs"
| "sql_sum (Some v # vs) = Some (v + (case sql_sum vs of None \<Rightarrow> 0 | Some s \<Rightarrow> s))"

definition sum_amounts :: "pg_functions \<Rightarrow> json list \<Rightarrow> (err, int option) res" where
  "sum_amounts pg js = rbind (mapM (posting_bigint pg) js) (\<lambda>vs. Inr (sql_sum vs))"

definition unbalanced :: "pg_functions \<Rightarrow> stored_event \<Rightarrow> (err, bool) res" where
  "unbalanced pg e =
    rbind (posting_elements e) (\<lambda>js.
    rbind (sum_amounts pg js) (\<lambda>s.
    Inr (js \<noteq> [] \<and> (length js < 2 \<or> (case s of None \<Rightarrow> False | Some v \<Rightarrow> v \<noteq> 0)))))"

definition check_balanced :: "pg_functions \<Rightarrow> legacy_db \<Rightarrow> (err, unit) res" where
  "check_balanced pg d =
    rbind (mapM (unbalanced pg) (filter is_money_event (wallet_events d))) (\<lambda>bs.
    if True \<in> set bs then Inl (raise_exception ''Existing wallet event contains unbalanced postings'') else Inr ())"

definition derived_balance :: "pg_functions \<Rightarrow> event_table \<Rightarrow> string \<Rightarrow> (err, int) res" where
  "derived_balance pg events walletId =
    rbind (mapM posting_elements (filter is_money_event (stream events walletId))) (\<lambda>jss.
    rbind (sum_amounts pg (filter (\<lambda>j. json_field_text pg ''accountId'' j = Some (''wallet:'' @ walletId)) (concat jss)))
      (\<lambda>s. Inr (case s of None \<Rightarrow> 0 | Some v \<Rightarrow> v)))"

definition derived_version :: "event_table \<Rightarrow> string \<Rightarrow> int option" where
  "derived_version events walletId =
    (case map se_streamVersion (stream events walletId) of [] \<Rightarrow> None | v # vs \<Rightarrow> Some (foldl max v vs))"

definition upsert_legacy_projection ::
  "pg_functions \<Rightarrow> event_table \<Rightarrow> (string \<times> legacy_projection) list \<Rightarrow> legacy_wallet \<Rightarrow>
    (err, (string \<times> legacy_projection) list) res" where
  "upsert_legacy_projection pg events ps w =
    rbind (derived_balance pg events (lw_id w)) (\<lambda>b.
    case derived_version events (lw_id w) of
      None \<Rightarrow> Inl (QueryFailed ''23502'' '''')
    | Some v \<Rightarrow>
        if \<not> pg_bigint b then Inl numeric_out_of_range
        else if b < 0 then Inl (check_violation ''CHK_wallet_balance_projection_non_negative'')
        else if v \<le> 0 then Inl (check_violation ''CHK_wallet_balance_projection_stream_version'')
        else Inr (AList.update (lw_id w) \<lparr>lp_balanceMinor = b, lp_streamVersion = v\<rparr> ps))"

definition check_projections :: "(string \<times> legacy_projection) list \<Rightarrow> (err, unit) res" where
  "check_projections ps =
    (if \<exists>p \<in> set ps. lp_balanceMinor (snd p) < 0
     then Inl (raise_exception ''Migrated events produce a negative wallet balance'') else Inr ())"

definition seed_streams :: "pg_functions \<Rightarrow> int \<Rightarrow> legacy_db \<Rightarrow> (err, legacy_db) res" where
  "seed_streams pg now d =
    rbind (check_legacy_balances d) (\<lambda>_.
    rbind (insert_events (lg_events d) (created_rows pg now d)) (\<lambda>events.
    let d = d\<lparr>lg_events := events\<rparr>
    in rbind (insert_events (lg_events d) (deposit_rows pg now d)) (\<lambda>events. Inr (d\<lparr>lg_events := events\<rparr>))))"

definition drop_balance :: "legacy_db \<Rightarrow> legacy_db" where
  "drop_balance d = d\<lparr>lg_hasBalance := False, lg_wallets := map (\<lambda>w. w\<lparr>lw_balance := 0\<rparr>) (lg_wallets d)\<rparr>"

definition event_source_up :: "pg_functions \<Rightarrow> int \<Rightarrow> legacy_db \<Rightarrow> (err, legacy_db) res" where
  "event_source_up pg now d =
    (let ps = (case lg_projections d of None \<Rightarrow> [] | Some ps \<Rightarrow> ps)
     in rbind (if lg_hasBalance d then seed_streams pg now d else Inr d) (\<lambda>d.
        rbind (check_supported d) (\<lambda>_.
        rbind (check_balanced pg d) (\<lambda>_.
        rbind (foldM (upsert_legacy_projection pg (lg_events d)) ps (lg_wallets d)) (\<lambda>ps.
        rbind (check_projections ps) (\<lambda>_.
        let d = d\<lparr>lg_projections := Some ps\<rparr>
        in Inr (if lg_hasBalance d then drop_balance d else d)))))))"

definition restore_balance :: "(string \<times> legacy_projection) list \<Rightarrow> legacy_wallet \<Rightarrow> (err, legacy_wallet) res" where
  "restore_balance ps w =
    (case map_of ps (lw_id w) of
       None \<Rightarrow> Inr (w\<lparr>lw_balance := 0\<rparr>)
     | Some p \<Rightarrow> if 10 ^ 18 \<le> \<bar>lp_balanceMinor p\<bar> then Inl numeric_out_of_range
                else Inr (w\<lparr>lw_balance := lp_balanceMinor p\<rparr>))"

definition event_source_down :: "legacy_db \<Rightarrow> (err, legacy_db) res" where
  "event_source_down d =
    rbind (if lg_hasBalance d then Inr d
           else case lg_projections d of
             None \<Rightarrow> Inl (QueryFailed ''42P01'' '''')
           | Some ps \<Rightarrow> rbind (mapM (restore_balance ps) (lg_wallets d)) (\<lambda>ws.
                         Inr (d\<lparr>lg_wallets := ws, lg_hasBalance := True\<rparr>))) (\<lambda>d.
    Inr (d\<lparr>lg_projections := None\<rparr>))"

text \<open>The next migration adds the columns of held and available money.\<close>

definition add_held_up :: "(string \<times> legacy_projection) list \<Rightarrow> (err, (string \<times> wallet_balance_projection) list) res" where
  "add_held_up ps =
    mapM (\<lambda>(i, p).
      let q = \<lparr>bp_walletId = i, bp_balanceMinor = lp_balanceMinor p, bp_heldMinor = 0,
               bp_availableMinor = lp_balanceMinor p, bp_streamVersion = lp_streamVersion p\<rparr>
      in if bp_heldMinor q < 0 then Inl (check_violation ''CHK_wallet_balance_projection_held_non_negative'')
         else if bp_availableMinor q < 0 then Inl (check_violation ''CHK_wallet_balance_projection_available_non_negative'')
         else if bp_availableMinor q \<noteq> bp_balanceMinor q - bp_heldMinor q
         then Inl (check_violation ''CHK_wallet_balance_projection_formula'')
         else Inr (i, q)) ps"

section \<open>The seeded streams\<close>

lemma mapM_total: "(\<And>x. x \<in> set xs \<Longrightarrow> f x = Inr (g x)) \<Longrightarrow> mapM f xs = Inr (map g xs)"
  by (induction xs) simp_all

lemma mapM_map: "mapM f (map g xs) = mapM (f \<circ> g) xs"
  by (induction xs) simp_all

lemma insert_events_fresh:
  assumes "\<forall>e \<in> set es. insertable e" "distinct (map se_eventId (rows @ es))"
    and "distinct (map (\<lambda>e. (se_streamId e, se_streamVersion e)) es)"
    and "\<forall>e \<in> set es. \<forall>r \<in> set rows. (se_streamId r, se_streamVersion r) \<noteq> (se_streamId e, se_streamVersion e)"
  shows "insert_events rows es = Inr (rows @ es)"
  using assms
proof (induction es arbitrary: rows)
  case (Cons e es)
  have "insert_event rows e = Inr (rows @ [e])"
    using Cons.prems by (auto simp: insert_event_ok insertable_def)
  moreover have "insert_events (rows @ [e]) es = Inr ((rows @ [e]) @ es)"
    using Cons.prems by (intro Cons.IH) force+
  ultimately show ?case by (simp add: insert_events_Cons)
qed (simp add: insert_events_def)

lemma filter_enumerate_unique:
  assumes "distinct (map f xs)" "i < length xs"
  shows "filter (\<lambda>(j, v). f v = f (xs ! i)) (enumerate n xs) = [(n + i, xs ! i)]"
  using assms
proof (induction xs arbitrary: i n)
  case (Cons x xs)
  show ?case
  proof (cases i)
    case 0
    have "f (snd p) \<noteq> f x" if "p \<in> set (enumerate (Suc n) xs)" for p
    proof -
      have "snd p \<in> set xs" using that by (metis image_eqI list.set_map map_snd_enumerate)
      with Cons.prems(1) show ?thesis by (metis distinct.simps(2) image_eqI list.map(2) list.set_map)
    qed
    with 0 show ?thesis by (simp add: filter_empty_conv split_beta)
  next
    case (Suc k)
    with Cons.prems have "f x \<noteq> f (xs ! k)" by (auto simp: image_iff)
    with Suc Cons show ?thesis by simp
  qed
qed simp

text \<open>A database before the migration: wallets with balances and no events, and functions that behave as documented.\<close>

definition legacy_ready :: "pg_functions \<Rightarrow> legacy_db \<Rightarrow> bool" where
  "legacy_ready pg d \<longleftrightarrow>
    lg_hasBalance d \<and> lg_projections d = None \<and> distinct (map lw_id (lg_wallets d)) \<and>
    (\<forall>w \<in> set (lg_wallets d). lw_id w \<noteq> [] \<and> canonical (lw_id w) \<and> 0 \<le> lw_balance w \<and> lw_balance w < 10 ^ 18 \<and>
       stream (lg_events d) (lw_id w) = []) \<and>
    distinct (map se_eventId (lg_events d)) \<and>
    inj (gen_random_uuid pg) \<and> (\<forall>i. gen_random_uuid pg i \<notin> se_eventId ` set (lg_events d)) \<and>
    (\<forall>v. pg_bigint v \<longrightarrow> read_bigint pg (show_int v) = Inr v)"

definition all_created :: "pg_functions \<Rightarrow> int \<Rightarrow> legacy_db \<Rightarrow> stored_event list" where
  "all_created pg now d = map (\<lambda>(i, w). legacy_created (gen_random_uuid pg (3 * i)) now w) (enumerate 0 (lg_wallets d))"

definition all_deposits :: "pg_functions \<Rightarrow> int \<Rightarrow> legacy_db \<Rightarrow> stored_event list" where
  "all_deposits pg now d =
    map (\<lambda>(i, w). legacy_deposit (gen_random_uuid pg (3 * i + 1)) (gen_random_uuid pg (3 * i + 2)) now w)
      (filter (\<lambda>(i, w). 0 < lw_balance w) (enumerate 0 (lg_wallets d)))"

definition seeded :: "pg_functions \<Rightarrow> int \<Rightarrow> legacy_db \<Rightarrow> nat \<Rightarrow> stored_event list" where
  "seeded pg now d i =
    (let w = lg_wallets d ! i
     in legacy_created (gen_random_uuid pg (3 * i)) now w #
        (if 0 < lw_balance w
         then [legacy_deposit (gen_random_uuid pg (3 * i + 1)) (gen_random_uuid pg (3 * i + 2)) now w] else []))"

lemma legacy_event_simps [simp]:
  "se_eventId (legacy_created u now w) = u" "se_streamId (legacy_created u now w) = lw_id w"
  "se_streamVersion (legacy_created u now w) = 1" "insertable (legacy_created u now w)"
  "se_eventType (legacy_created u now w) = WALLET_CREATED" "se_aggregateType (legacy_created u now w) = ''Wallet''"
  "se_eventId (legacy_deposit u t now w) = u" "se_streamId (legacy_deposit u t now w) = lw_id w"
  "se_streamVersion (legacy_deposit u t now w) = 2" "insertable (legacy_deposit u t now w)"
  "se_eventType (legacy_deposit u t now w) = MONEY_DEPOSITED" "se_aggregateType (legacy_deposit u t now w) = ''Wallet''"
  by (simp_all add: legacy_created_def legacy_deposit_def insertable_def event_fits_def opt_fits_def pg_integer_def
      WALLET_CREATED_def MONEY_DEPOSITED_def)

lemma wallet_of_row: "(i, w) \<in> set (enumerate 0 ws) \<longleftrightarrow> i < length ws \<and> w = ws ! i"
  by (auto simp: in_set_enumerate_eq)

lemma stream_of_rows:
  assumes "distinct (map lw_id ws)" "i < length ws" "\<And>x. se_streamId (f x) = lw_id (snd x)"
  shows "stream (map f (filter P (enumerate 0 ws))) (lw_id (ws ! i)) = (if P (i, ws ! i) then [f (i, ws ! i)] else [])"
proof -
  have "filter (\<lambda>x. se_streamId (f x) = lw_id (ws ! i)) (filter P (enumerate 0 ws)) =
    filter P (filter (\<lambda>(j, v). lw_id v = lw_id (ws ! i)) (enumerate 0 ws))"
    by (simp add: filter_filter assms(3) split_beta conj_commute cong: filter_cong)
  then show ?thesis
    using filter_enumerate_unique [OF assms(1,2), of 0]
    by (simp add: stream_def filter_map comp_def)
qed

lemma legacy_stream_empty:
  "legacy_ready pg d \<Longrightarrow> i < length (lg_wallets d) \<Longrightarrow> stream (lg_events d) (lw_id (lg_wallets d ! i)) = []"
  by (simp add: legacy_ready_def)

lemma created_stream:
  assumes "legacy_ready pg d" "i < length (lg_wallets d)"
  shows "stream (all_created pg now d) (lw_id (lg_wallets d ! i)) =
    [legacy_created (gen_random_uuid pg (3 * i)) now (lg_wallets d ! i)]"
  using stream_of_rows [of "lg_wallets d" i "\<lambda>(i, w). legacy_created (gen_random_uuid pg (3 * i)) now w" "\<lambda>_. True"] assms
  by (simp add: all_created_def legacy_ready_def split_beta)

lemma seeded_stream:
  assumes "legacy_ready pg d" "i < length (lg_wallets d)"
  shows "stream (lg_events d @ all_created pg now d @ all_deposits pg now d) (lw_id (lg_wallets d ! i)) = seeded pg now d i"
proof -
  have "stream (all_deposits pg now d) (lw_id (lg_wallets d ! i)) =
    (if 0 < lw_balance (lg_wallets d ! i)
     then [legacy_deposit (gen_random_uuid pg (3 * i + 1)) (gen_random_uuid pg (3 * i + 2)) now (lg_wallets d ! i)] else [])"
    using stream_of_rows [of "lg_wallets d" i
        "\<lambda>(i, w). legacy_deposit (gen_random_uuid pg (3 * i + 1)) (gen_random_uuid pg (3 * i + 2)) now w"
        "\<lambda>(i, w). 0 < lw_balance w"] assms
    by (simp add: all_deposits_def legacy_ready_def split_beta)
  then show ?thesis by (simp add: legacy_stream_empty [OF assms] created_stream [OF assms] seeded_def Let_def)
qed

lemma distinct_row_ids:
  assumes "inj g"
  shows "distinct (map (\<lambda>x. g (fst x)) (filter P (enumerate n xs)))"
proof (rule distinct_map_filter)
  have "map (\<lambda>x. g (fst x)) (enumerate n xs) = map g [n..<n + length xs]"
    using map_map [of g fst "enumerate n xs"] by (simp add: comp_def)
  then show "distinct (map (\<lambda>x. g (fst x)) (enumerate n xs))"
    using assms by (simp add: distinct_map inj_on_subset [of _ UNIV])
qed

lemma distinct_row_wallets:
  assumes "distinct (map f xs)"
  shows "distinct (map (\<lambda>x. (f (snd x), k)) (filter P (enumerate n xs)))"
proof (rule distinct_map_filter)
  have "map (\<lambda>x. (f (snd x), k)) (enumerate n xs) = map (\<lambda>y. (y, k)) (map f xs)"
    using map_map [of "\<lambda>y. (f y, k)" snd "enumerate n xs"] by (simp add: comp_def)
  then show "distinct (map (\<lambda>x. (f (snd x), k)) (enumerate n xs))"
    using assms by (simp add: distinct_map inj_on_def)
qed

lemma uuid_eq: "legacy_ready pg d \<Longrightarrow> gen_random_uuid pg i = gen_random_uuid pg j \<longleftrightarrow> i = j"
  by (simp add: legacy_ready_def inj_eq)

lemma uuid_fresh: "legacy_ready pg d \<Longrightarrow> e \<in> set (lg_events d) \<Longrightarrow> se_eventId e \<noteq> gen_random_uuid pg i"
  unfolding legacy_ready_def by (metis image_eqI)

lemma created_rows_eq:
  assumes "legacy_ready pg d"
  shows "created_rows pg now d = all_created pg now d"
proof -
  have "filter (\<lambda>(i, w). stream (lg_events d) (lw_id w) = []) (enumerate 0 (lg_wallets d)) = enumerate 0 (lg_wallets d)"
    using assms by (auto simp: legacy_ready_def in_set_enumerate_eq intro!: filter_True)
  then show ?thesis by (simp add: created_rows_def all_created_def)
qed

lemma deposit_rows_eq:
  assumes "legacy_ready pg d"
  shows "deposit_rows pg now (d\<lparr>lg_events := lg_events d @ all_created pg now d\<rparr>) = all_deposits pg now d"
proof -
  let ?E = "lg_events d @ all_created pg now d"
  have "(0 < lw_balance w \<and> length (stream ?E (lw_id w)) = 1 \<and>
      list_ex (\<lambda>e. se_eventType e = WALLET_CREATED \<and> json_field_text pg ''source'' (se_metadata e) = Some LEGACY_SOURCE)
        (stream ?E (lw_id w))) = (0 < lw_balance w)"
    if "x \<in> set (enumerate 0 (lg_wallets d))" and "w = snd x" for x w
  proof -
    have "stream ?E (lw_id w) = [legacy_created (gen_random_uuid pg (3 * fst x)) now w]"
      using that created_stream [OF assms, of "fst x" now] legacy_stream_empty [OF assms, of "fst x"]
      by (auto simp: in_set_enumerate_eq)
    then show ?thesis by (simp only:) (simp add: json_field_text_def legacy_created_def jget_def)
  qed
  then show ?thesis
    unfolding deposit_rows_def all_deposits_def
    by (intro arg_cong [of _ _ "map _"] filter_cong) (simp_all add: split_beta del: list_ex_append)
qed

lemma created_inserted:
  assumes r: "legacy_ready pg d"
  shows "insert_events (lg_events d) (all_created pg now d) = Inr (lg_events d @ all_created pg now d)"
proof (rule insert_events_fresh)
  have "inj (\<lambda>i. gen_random_uuid pg (3 * i))" by (simp add: inj_def uuid_eq [OF r])
  from distinct_row_ids [OF this, of "\<lambda>_. True" 0 "lg_wallets d"]
  have "distinct (map se_eventId (all_created pg now d))"
    by (simp add: all_created_def comp_def split_beta)
  then show "distinct (map se_eventId (lg_events d @ all_created pg now d))"
    using r uuid_fresh [OF r] by (auto simp: legacy_ready_def all_created_def)
  show "distinct (map (\<lambda>e. (se_streamId e, se_streamVersion e)) (all_created pg now d))"
    using r distinct_row_wallets [of lw_id "lg_wallets d" "1 :: int" "\<lambda>_. True" 0]
    by (simp add: legacy_ready_def all_created_def comp_def split_beta)
  show "\<forall>e \<in> set (all_created pg now d). insertable e" by (auto simp: all_created_def)
  show "\<forall>e \<in> set (all_created pg now d). \<forall>x \<in> set (lg_events d).
      (se_streamId x, se_streamVersion x) \<noteq> (se_streamId e, se_streamVersion e)"
    using r by (auto simp: legacy_ready_def all_created_def stream_def filter_empty_conv in_set_enumerate_eq)
qed

lemma deposits_inserted:
  assumes r: "legacy_ready pg d"
  shows "insert_events (lg_events d @ all_created pg now d) (all_deposits pg now d) =
    Inr ((lg_events d @ all_created pg now d) @ all_deposits pg now d)"
proof (rule insert_events_fresh)
  have "inj (\<lambda>i. gen_random_uuid pg (3 * i + 1))" by (simp add: inj_def uuid_eq [OF r])
  from distinct_row_ids [OF this, of "\<lambda>(i, w). 0 < lw_balance w" 0 "lg_wallets d"]
  have "distinct (map se_eventId (all_deposits pg now d))"
    by (simp add: all_deposits_def comp_def split_beta)
  moreover have "distinct (map se_eventId (lg_events d @ all_created pg now d))"
    using insert_events_distinct [OF created_inserted [OF r]] r by (simp add: legacy_ready_def)
  moreover have "3 * j \<noteq> Suc (3 * i)" for i j :: nat by presburger
  ultimately show "distinct (map se_eventId ((lg_events d @ all_created pg now d) @ all_deposits pg now d))"
    using uuid_fresh [OF r] by (auto simp: all_created_def all_deposits_def uuid_eq [OF r])
  show "distinct (map (\<lambda>e. (se_streamId e, se_streamVersion e)) (all_deposits pg now d))"
    using r distinct_row_wallets [of lw_id "lg_wallets d" "2 :: int" "\<lambda>(i, w). 0 < lw_balance w" 0]
    by (simp add: legacy_ready_def all_deposits_def comp_def split_beta)
  show "\<forall>e \<in> set (all_deposits pg now d). insertable e" by (auto simp: all_deposits_def)
  show "\<forall>e \<in> set (all_deposits pg now d). \<forall>x \<in> set (lg_events d @ all_created pg now d).
      (se_streamId x, se_streamVersion x) \<noteq> (se_streamId e, se_streamVersion e)"
    using r by (auto simp: legacy_ready_def all_created_def all_deposits_def stream_def filter_empty_conv in_set_enumerate_eq)
qed

lemma seed_streams_succeeds:
  assumes r: "legacy_ready pg d"
  shows "seed_streams pg now d = Inr (d\<lparr>lg_events := lg_events d @ all_created pg now d @ all_deposits pg now d\<rparr>)"
proof -
  have "check_legacy_balances d = Inr ()"
    using r by (force simp: check_legacy_balances_def legacy_ready_def)
  then show ?thesis
    by (simp add: seed_streams_def created_rows_eq [OF r] deposit_rows_eq [OF r] created_inserted [OF r] deposits_inserted [OF r])
qed

section \<open>Balances\<close>

text \<open>What the streams of the wallets say.\<close>

definition legacy_row :: "legacy_wallet \<Rightarrow> legacy_projection" where
  "legacy_row w = \<lparr>lp_balanceMinor = lw_balance w, lp_streamVersion = (if 0 < lw_balance w then 2 else 1)\<rparr>"

definition legacy_aggregate :: "legacy_wallet \<Rightarrow> wallet_aggregate" where
  "legacy_aggregate w =
    \<lparr>wa_id = lw_id w, wa_version = (if 0 < lw_balance w then 2 else 1), wa_ownerId = Some (lw_ownerId w),
     wa_currency = Some (lw_currency w), wa_balanceMinor = lw_balance w, wa_holds = []\<rparr>"

lemma event_types_differ [simp]: "MONEY_DEPOSITED \<noteq> WALLET_CREATED" "WITHDRAWAL_COMPLETED \<noteq> WALLET_CREATED"
  "WALLET_CREATED \<noteq> MONEY_DEPOSITED" "WALLET_CREATED \<noteq> WITHDRAWAL_COMPLETED"
  by (simp_all add: WALLET_CREATED_def MONEY_DEPOSITED_def WITHDRAWAL_COMPLETED_def)

lemma legacy_postings:
  "[JObj [(''accountId'', JStr (''wallet:'' @ i)), (''amountMinor'', JStr (show_int m))],
    JObj [(''accountId'', JStr ''system:external''), (''amountMinor'', JStr (show_int (- m)))]] =
   map posting_json (transaction_postings i m)"
  by (simp add: transaction_postings_def posting_json_def walletAccountId_def EXTERNAL_CLEARING_ACCOUNT_def)

lemma deposit_payload [simp]:
  "se_payload (legacy_deposit u t now w) =
    JObj [(''transactionId'', JStr t), (''postings'', JArr (map posting_json (transaction_postings (lw_id w) (lw_balance w))))]"
  "se_schemaVersion (legacy_deposit u t now w) = 1"
  unfolding legacy_deposit_def legacy_postings by simp_all

lemma rehydrate_seeded:
  assumes "i < length (lg_wallets d)" "0 \<le> lw_balance (lg_wallets d ! i)"
  shows "rehydrate (lw_id (lg_wallets d ! i)) (seeded pg now d i) = Inr (legacy_aggregate (lg_wallets d ! i))"
proof -
  let ?w = "lg_wallets d ! i"
  define a where "a = (legacy_aggregate ?w)\<lparr>wa_version := 1, wa_balanceMinor := 0\<rparr>"
  have c: "apply_event (empty_wallet (lw_id ?w)) (legacy_created u now ?w) = Inr a" for u
    by (simp add: apply_event_def apply_created_def legacy_created_def empty_wallet_def a_def legacy_aggregate_def
        jget_def jstring_def)
  have "wallet_postings a (transaction_postings (lw_id ?w) m) =
      [\<lparr>p_accountId = walletAccountId (lw_id ?w), p_amountMinor = show_int m\<rparr>]" for m
    using wallet_postings_transaction [of a m] by (simp add: a_def legacy_aggregate_def)
  then have m: "apply_event a (legacy_deposit u t now ?w) = Inr (legacy_aggregate ?w)" if "0 < lw_balance ?w" for u t
    using that
    by (simp add: apply_event_def apply_money_def) (simp add: a_def legacy_aggregate_def heldMinor_def)
  have "legacy_aggregate ?w = a" if "\<not> 0 < lw_balance ?w"
    using that assms(2) by (simp add: a_def legacy_aggregate_def)
  with c m show ?thesis by (simp add: rehydrate_def seeded_def Let_def)
qed

lemma load_seeded:
  assumes r: "legacy_ready pg d" and i: "i < length (lg_wallets d)"
  shows "loadStream (lg_events d @ all_created pg now d @ all_deposits pg now d) (lw_id (lg_wallets d ! i)) 1 =
    Inr (seeded pg now d i)"
proof -
  have "lw_id (lg_wallets d ! i) \<noteq> []" "pg_uuid (lw_id (lg_wallets d ! i)) = lw_id (lg_wallets d ! i)"
    using r i by (auto simp: legacy_ready_def canonical_def)
  then show ?thesis
    using seeded_stream [OF r i, of now] by (simp add: loadStream_def seeded_def Let_def)
qed

lemma wallet_posting_texts:
  "json_field_text pg ''accountId'' (posting_json p) = Some (p_accountId p)"
  "json_field_text pg ''amountMinor'' (posting_json p) = Some (p_amountMinor p)"
  by (simp_all add: json_field_text_def posting_json_def jget_def)

lemma deposit_elements [simp]:
  "posting_elements (legacy_deposit u t now w) = Inr (map posting_json (transaction_postings (lw_id w) (lw_balance w)))"
  by (simp add: posting_elements_def jget_def)

lemma posting_bigint_of:
  assumes "legacy_ready pg d" "pg_bigint m"
  shows "posting_bigint pg (posting_json \<lparr>p_accountId = a, p_amountMinor = show_int m\<rparr>) = Inr (Some m)"
  using assms by (simp add: posting_bigint_def wallet_posting_texts legacy_ready_def)

lemma legacy_balance_fits:
  assumes "legacy_ready pg d" "i < length (lg_wallets d)"
  shows "0 \<le> lw_balance (lg_wallets d ! i)" "lw_balance (lg_wallets d ! i) < 10 ^ 18"
    "pg_bigint (lw_balance (lg_wallets d ! i))" "pg_bigint (- lw_balance (lg_wallets d ! i))"
proof -
  from assms show "0 \<le> lw_balance (lg_wallets d ! i)" "lw_balance (lg_wallets d ! i) < 10 ^ 18"
    unfolding legacy_ready_def by (metis nth_mem)+
  then show "pg_bigint (lw_balance (lg_wallets d ! i))" "pg_bigint (- lw_balance (lg_wallets d ! i))"
    by (simp_all add: pg_bigint_def)
qed

text \<open>Of the events of a seeded stream only the deposit is a money event.\<close>

lemma money_of_seeded:
  "filter is_money_event (seeded pg now d i) = (if 0 < lw_balance (lg_wallets d ! i)
    then [legacy_deposit (gen_random_uuid pg (3 * i + 1)) (gen_random_uuid pg (3 * i + 2)) now (lg_wallets d ! i)] else [])"
  by (simp add: seeded_def Let_def is_money_event_def)

lemma deposit_balanced:
  assumes "legacy_ready pg d" "i < length (lg_wallets d)"
  shows "unbalanced pg (legacy_deposit u t now (lg_wallets d ! i)) = Inr False"
  using legacy_balance_fits [OF assms]
  by (simp add: unbalanced_def sum_amounts_def transaction_postings_def posting_bigint_of [OF assms(1)])

lemma derived_of_seeded:
  assumes r: "legacy_ready pg d" and i: "i < length (lg_wallets d)"
    and es: "stream es (lw_id (lg_wallets d ! i)) = seeded pg now d i"
  shows "upsert_legacy_projection pg es ps (lg_wallets d ! i) =
    Inr (AList.update (lw_id (lg_wallets d ! i)) (legacy_row (lg_wallets d ! i)) ps)"
proof -
  let ?w = "lg_wallets d ! i"
  note b = legacy_balance_fits [OF r i]
  have f: "filter (\<lambda>j. json_field_text pg ''accountId'' j = Some (''wallet:'' @ lw_id ?w))
      (map posting_json (transaction_postings (lw_id ?w) m)) =
    [posting_json \<lparr>p_accountId = walletAccountId (lw_id ?w), p_amountMinor = show_int m\<rparr>]" for m
    unfolding walletAccountId_def [symmetric] by (simp add: filter_map comp_def wallet_posting_texts)
  have "derived_balance pg es (lw_id ?w) = Inr (lw_balance ?w)"
    using b f by (simp del: append.simps add: derived_balance_def es money_of_seeded sum_amounts_def posting_bigint_of [OF r])
  moreover have "derived_version es (lw_id ?w) = Some (lp_streamVersion (legacy_row ?w))"
    by (simp add: derived_version_def es seeded_def Let_def legacy_row_def)
  ultimately show ?thesis using b by (simp add: upsert_legacy_projection_def legacy_row_def)
qed

lemma foldM_updates:
  assumes "\<And>ps x. x \<in> set xs \<Longrightarrow> f ps x = Inr (AList.update (k x) (v x) ps)"
    and "distinct (map k xs)" "fst ` set ps \<inter> k ` set xs = {}"
  shows "foldM f ps xs = Inr (ps @ map (\<lambda>x. (k x, v x)) xs)"
  using assms
proof (induction xs arbitrary: ps)
  case (Cons x xs)
  have new: "AList.update q y ps = ps @ [(q, y)]" if "q \<notin> fst ` set ps" for q y
    using that by (induction ps) auto
  have "foldM f (ps @ [(k x, v x)]) xs = Inr ((ps @ [(k x, v x)]) @ map (\<lambda>x. (k x, v x)) xs)"
    using Cons.prems by (intro Cons.IH) auto
  then show ?case using Cons.prems new [of "k x"] by simp
qed simp

definition migrated :: "pg_functions \<Rightarrow> int \<Rightarrow> legacy_db \<Rightarrow> legacy_db" where
  "migrated pg now d =
    \<lparr>lg_wallets = map (\<lambda>w. w\<lparr>lw_balance := 0\<rparr>) (lg_wallets d), lg_hasBalance = False,
     lg_events = lg_events d @ all_created pg now d @ all_deposits pg now d,
     lg_projections = Some (map (\<lambda>w. (lw_id w, legacy_row w)) (lg_wallets d))\<rparr>"

lemma event_source_up_succeeds:
  assumes r: "legacy_ready pg d"
  shows "event_source_up pg now d = Inr (migrated pg now d)"
proof -
  let ?es = "lg_events d @ all_created pg now d @ all_deposits pg now d" and ?ws = "lg_wallets d"
  let ?d = "d\<lparr>lg_events := ?es\<rparr>" and ?ps = "map (\<lambda>w. (lw_id w, legacy_row w)) ?ws"
  have of_wallet: "\<exists>i < length ?ws. e \<in> set (seeded pg now d i)" if "e \<in> set (wallet_events ?d)" for e
  proof -
    from that have e: "e \<in> set ?es" "se_streamId e \<in> set (map lw_id ?ws)" by (auto simp: wallet_events_def)
    from e(2) obtain i where i: "i < length ?ws" "se_streamId e = lw_id (?ws ! i)" by (auto simp: in_set_conv_nth)
    with e have "e \<in> set (stream ?es (lw_id (?ws ! i)))" by (simp add: stream_def)
    with i(1) show ?thesis unfolding seeded_stream [OF r i(1)] by blast
  qed
  have "check_supported ?d = Inr ()"
    using of_wallet by (fastforce simp: check_supported_def seeded_def Let_def split: if_splits)
  moreover have "unbalanced pg e = Inr False" if "e \<in> set (filter is_money_event (wallet_events ?d))" for e
  proof -
    from that of_wallet obtain i where i: "i < length ?ws" "e \<in> set (filter is_money_event (seeded pg now d i))" by auto
    then show ?thesis using deposit_balanced [OF r i(1)] by (auto simp: money_of_seeded split: if_splits)
  qed
  then have "mapM (unbalanced pg) (filter is_money_event (wallet_events ?d)) =
      Inr (map (\<lambda>_. False) (filter is_money_event (wallet_events ?d)))" by (rule mapM_total)
  then have "check_balanced pg ?d = Inr ()" by (simp only: check_balanced_def) auto
  moreover have "foldM (upsert_legacy_projection pg ?es) [] ?ws = Inr ([] @ ?ps)"
  proof (rule foldM_updates)
    show "upsert_legacy_projection pg ?es ps w = Inr (AList.update (lw_id w) (legacy_row w) ps)" if "w \<in> set ?ws" for ps w
      using that derived_of_seeded [OF r _ seeded_stream [OF r]] by (auto simp: in_set_conv_nth)
  qed (use r in \<open>auto simp: legacy_ready_def\<close>)
  moreover have "check_projections ?ps = Inr ()"
    using r by (fastforce simp: check_projections_def legacy_row_def legacy_ready_def)
  moreover have "lg_hasBalance d" "lg_projections d = None" using r by (simp_all add: legacy_ready_def)
  ultimately show ?thesis
    by (simp add: event_source_up_def seed_streams_succeeds [OF r] drop_balance_def migrated_def)
qed

lemma event_source_down_restores:
  assumes r: "legacy_ready pg d"
  shows "event_source_down (migrated pg now d) =
    Inr ((migrated pg now d)\<lparr>lg_wallets := lg_wallets d, lg_hasBalance := True, lg_projections := None\<rparr>)"
proof -
  let ?ps = "map (\<lambda>w. (lw_id w, legacy_row w)) (lg_wallets d)"
  have "map_of ?ps (lw_id w) = Some (legacy_row w)" if "w \<in> set (lg_wallets d)" for w
    using that r by (auto simp: legacy_ready_def comp_def intro!: map_of_is_SomeI)
  moreover have "\<bar>lw_balance w\<bar> < 10 ^ 18" if "w \<in> set (lg_wallets d)" for w
    using that r by (auto simp: legacy_ready_def)
  ultimately have "restore_balance ?ps (w\<lparr>lw_balance := 0\<rparr>) = Inr w" if "w \<in> set (lg_wallets d)" for w
    using that by (force simp: restore_balance_def legacy_row_def)
  then have "mapM (restore_balance ?ps \<circ> (\<lambda>w. w\<lparr>lw_balance := 0\<rparr>)) (lg_wallets d) = Inr (map id (lg_wallets d))"
    by (intro mapM_total) simp
  then show ?thesis by (simp add: event_source_down_def migrated_def mapM_map)
qed

lemma add_held_succeeds:
  assumes "\<forall>p \<in> set ps. 0 \<le> lp_balanceMinor (snd p)"
  shows "add_held_up ps = Inr (map (\<lambda>(i, p). (i,
    \<lparr>bp_walletId = i, bp_balanceMinor = lp_balanceMinor p, bp_heldMinor = 0,
     bp_availableMinor = lp_balanceMinor p, bp_streamVersion = lp_streamVersion p\<rparr>)) ps)"
  unfolding add_held_up_def using assms by (intro mapM_total) (auto simp: Let_def)


text \<open>Two wallets, one of them empty.\<close>

definition ex_pg :: pg_functions where
  "ex_pg = \<lparr>gen_random_uuid = (\<lambda>i. ''u'' @ show_nat i), read_bigint = parseMinorUnits, json_text = (\<lambda>_. [])\<rparr>"

definition ex_legacy :: legacy_db where
  "ex_legacy =
    \<lparr>lg_wallets =
       [\<lparr>lw_id = ''w1'', lw_ownerId = ''o1'', lw_currency = ''USD'', lw_balance = 1250\<rparr>,
        \<lparr>lw_id = ''w2'', lw_ownerId = ''o2'', lw_currency = ''UAH'', lw_balance = 0\<rparr>],
     lg_hasBalance = True, lg_events = [], lg_projections = None\<rparr>"

lemma ex_legacy_ready: "legacy_ready ex_pg ex_legacy"
proof -
  have "inj show_nat" by (metis injI nat_of_digits_show_nat)
  then show ?thesis
    by (auto simp: legacy_ready_def ex_pg_def ex_legacy_def inj_def canonical_def pg_uuid_def toLowerCase_def lower_char_def)
qed


end
