(* ===== verification/Authentication.thy ===== *)
theory Authentication
  imports Ledger_Db Payments_Outbox
begin

text \<open>
  Accounts and tokens: \<^verbatim>\<open>auth/auth.service.ts\<close> and \<^verbatim>\<open>auth/strategies/jwt.strategy.ts\<close> of the ledger service, the guards that check
  its access tokens (\<^verbatim>\<open>auth/jwt-auth.guard.ts\<close> and the handshake of \<^verbatim>\<open>realtime/activity-realtime.gateway.ts\<close> of the notifications service,
  \<^verbatim>\<open>jwt-principal.guard.ts\<close> and \<^verbatim>\<open>admin.guard.ts\<close> of the gateway) and the guard of the internal endpoints,
  \<^verbatim>\<open>wallets/service-auth.guard.ts\<close>.

  The packages bcrypt and jsonwebtoken are parameters: \<open>ae_hash\<close> takes a salt and a text, \<open>ae_sign\<close> a
  secret, the claims, the time to live and the time, and \<open>ae_verify\<close> a secret, a token and the time. An operation
  of the service is several statements outside of a transaction; \<open>later\<close> is what others do to the table
  between two of them.
\<close>

section \<open>Parameters\<close>

record token_payload =
  tp_sub :: string
  tp_email :: string
  tp_role :: string

record auth_env =
  ae_accessSecret :: "string option"
  ae_refreshSecret :: "string option"
  ae_accessTtl :: "string option"
  ae_refreshTtl :: "string option"
  ae_hash :: "string \<Rightarrow> string \<Rightarrow> string"
  ae_compare :: "string \<Rightarrow> string \<Rightarrow> bool"
  ae_sign :: "string \<Rightarrow> token_payload \<Rightarrow> string \<Rightarrow> int \<Rightarrow> string"
  ae_verify :: "string \<Rightarrow> string \<Rightarrow> int \<Rightarrow> json option"

record token_pair =
  accessToken :: string
  refreshToken :: string

definition role_text :: "user_role \<Rightarrow> string" where
  "role_text r = (case r of RoleUser \<Rightarrow> ''user'' | RoleAdmin \<Rightarrow> ''admin'')"

section \<open>The table of users\<close>

definition find_email :: "user list \<Rightarrow> string \<Rightarrow> user option" where
  "find_email us email = find (\<lambda>u. u_email u = email) us"

definition find_user :: "user list \<Rightarrow> string \<Rightarrow> user option" where
  "find_user us i = find (\<lambda>u. u_id u = pg_uuid i) us"

definition insert_user :: "user \<Rightarrow> user list \<Rightarrow> (err, user list) res" where
  "insert_user u us =
     (if \<exists>v \<in> set us. u_id v = u_id u then Inl (unique_violation ''PK_users'')
      else if \<exists>v \<in> set us. u_email v = u_email u then Inl (unique_violation ''UQ_users_email'')
      else Inr (us @ [u]))"

text \<open>\<^verbatim>\<open>save\<close> of a loaded user: an update of its row, or an insertion if the row is gone.\<close>

definition save_user :: "user \<Rightarrow> user list \<Rightarrow> (err, user list) res" where
  "save_user u us =
     (if \<exists>v \<in> set us. u_id v = u_id u
      then (if \<exists>v \<in> set us. u_id v \<noteq> u_id u \<and> u_email v = u_email u then Inl (unique_violation ''UQ_users_email'')
            else Inr (map (\<lambda>v. if u_id v = u_id u then u else v) us))
      else insert_user u us)"

section \<open>The service\<close>

definition auth_secret :: "string \<Rightarrow> string option \<Rightarrow> (err, string) res" where
  "auth_secret name setting = (case truthy setting of None \<Rightarrow> Inl (ServiceUnavailable (name @ '' is not configured'')) | Some s \<Rightarrow> Inr s)"

definition or_default :: "string option \<Rightarrow> string \<Rightarrow> string" where
  "or_default setting fallback = (case setting of None \<Rightarrow> fallback | Some s \<Rightarrow> s)"

definition token_claims :: "user \<Rightarrow> token_payload" where
  "token_claims u = \<lparr>tp_sub = u_id u, tp_email = u_email u, tp_role = role_text (u_role u)\<rparr>"

definition issueTokens :: "auth_env \<Rightarrow> string \<Rightarrow> int \<Rightarrow> user \<Rightarrow> user list \<Rightarrow> (err, token_pair) res \<times> user list" where
  "issueTokens env salt now user us =
     (case rbind (auth_secret ''JWT_ACCESS_SECRET'' (ae_accessSecret env)) (\<lambda>s1.
           rbind (auth_secret ''JWT_REFRESH_SECRET'' (ae_refreshSecret env)) (\<lambda>s2.
           let access = ae_sign env s1 (token_claims user) (or_default (ae_accessTtl env) ''15m'') now;
               refresh = ae_sign env s2 (token_claims user) (or_default (ae_refreshTtl env) ''7d'') now
           in rbind (save_user (user\<lparr>u_refreshTokenHash := Some (ae_hash env salt refresh)\<rparr>) us) (\<lambda>us'.
              Inr (\<lparr>accessToken = access, refreshToken = refresh\<rparr>, us')))) of
        Inl e \<Rightarrow> (Inl e, us)
      | Inr (tokens, us') \<Rightarrow> (Inr tokens, us'))"

definition register ::
  "auth_env \<Rightarrow> (user list \<Rightarrow> user list) \<Rightarrow> string \<Rightarrow> string \<Rightarrow> string \<Rightarrow> int \<Rightarrow> string \<Rightarrow> string \<Rightarrow> user list \<Rightarrow>
     (err, token_pair) res \<times> user list" where
  "register env later newId salt1 salt2 now email password us =
     (case find_email us email of
        Some _ \<Rightarrow> (Inl (Conflict ''Email is already registered''), us)
      | None \<Rightarrow>
          let user = \<lparr>u_id = pg_uuid newId, u_email = email, u_passwordHash = ae_hash env salt1 password,
                u_refreshTokenHash = None, u_role = RoleUser\<rparr>
          in case insert_user user (later us) of
               Inl e \<Rightarrow> (Inl e, later us)
             | Inr us' \<Rightarrow> issueTokens env salt2 now user us')"

definition login ::
  "auth_env \<Rightarrow> (user list \<Rightarrow> user list) \<Rightarrow> string \<Rightarrow> int \<Rightarrow> string \<Rightarrow> string \<Rightarrow> user list \<Rightarrow> (err, token_pair) res \<times> user list" where
  "login env later salt now email password us =
     (case find_email us email of
        None \<Rightarrow> (Inl (Unauthorized ''Wrong email or password''), us)
      | Some user \<Rightarrow>
          if \<not> ae_compare env password (u_passwordHash user) then (Inl (Unauthorized ''Wrong email or password''), us)
          else issueTokens env salt now user (later us))"

text \<open>
  The refusal of a missing secret is caught with that of an invalid token. A token without a subject makes
  TypeORM's query one without a condition, which finds the first user.
\<close>

definition refresh_user :: "auth_env \<Rightarrow> int \<Rightarrow> string \<Rightarrow> user list \<Rightarrow> (err, user option) res" where
  "refresh_user env now token us =
     (case auth_secret ''JWT_REFRESH_SECRET'' (ae_refreshSecret env) of
        Inl _ \<Rightarrow> Inl (Unauthorized ''Invalid refresh token'')
      | Inr s \<Rightarrow>
          (case ae_verify env s token now of
             None \<Rightarrow> Inl (Unauthorized ''Invalid refresh token'')
           | Some payload \<Rightarrow>
               (case jget ''sub'' payload of
                  Some (JStr i) \<Rightarrow> Inr (find_user us i)
                | None \<Rightarrow> Inr (case us of [] \<Rightarrow> None | u # _ \<Rightarrow> Some u)
                | Some JNull \<Rightarrow> Inr (case us of [] \<Rightarrow> None | u # _ \<Rightarrow> Some u)
                | Some _ \<Rightarrow> Inl (QueryFailed ''22P02'' ''''))))"

definition refresh ::
  "auth_env \<Rightarrow> (user list \<Rightarrow> user list) \<Rightarrow> string \<Rightarrow> int \<Rightarrow> string \<Rightarrow> user list \<Rightarrow> (err, token_pair) res \<times> user list" where
  "refresh env later salt now token us =
     (case refresh_user env now token us of
        Inl e \<Rightarrow> (Inl e, us)
      | Inr None \<Rightarrow> (Inl (Unauthorized ''Refresh token is revoked''), us)
      | Inr (Some user) \<Rightarrow>
          (case truthy (u_refreshTokenHash user) of
             None \<Rightarrow> (Inl (Unauthorized ''Refresh token is revoked''), us)
           | Some stored \<Rightarrow>
               if \<not> ae_compare env token stored then (Inl (Unauthorized ''Refresh token is revoked''), us)
               else issueTokens env salt now user (later us)))"

section \<open>The guards\<close>

record principal =
  pr_userId :: string
  pr_email :: string
  pr_role :: string

text \<open>\<^verbatim>\<open>match(/^Bearer\s+(.+)$/i)?.[1]\<close>; if there is only space after the word, the last one is the group.\<close>

definition line_end :: "char \<Rightarrow> bool" where
  "line_end c = (c = CHR 0x0A \<or> c = CHR 0x0D)"

definition bearer_token :: "string \<Rightarrow> string option" where
  "bearer_token header =
     (if toLowerCase (take 6 header) \<noteq> ''bearer'' then None
      else let rest = drop 6 header; space = takeWhile is_space rest; body = dropWhile is_space rest
           in if space = [] then None
              else if body \<noteq> [] then (if list_ex line_end body then None else Some body)
              else if length space < 2 \<or> line_end (last space) then None else Some [last space])"

definition read_principal :: "json \<Rightarrow> principal option" where
  "read_principal payload =
     (case (jstring (jget ''sub'' payload), jstring (jget ''email'' payload), jstring (jget ''role'' payload)) of
        (Some s, Some m, Some r) \<Rightarrow> Some \<lparr>pr_userId = s, pr_email = m, pr_role = r\<rparr>
      | _ \<Rightarrow> None)"

definition check_token :: "auth_env \<Rightarrow> string \<Rightarrow> string \<Rightarrow> int \<Rightarrow> (err, principal) res" where
  "check_token env secret token now =
     (case ae_verify env secret token now of
        None \<Rightarrow> Inl (Unauthorized ''Invalid or expired access token'')
      | Some payload \<Rightarrow>
          (case read_principal payload of
             None \<Rightarrow> Inl (Unauthorized ''Invalid or expired access token'')
           | Some p \<Rightarrow> Inr p))"

definition notifications_guard :: "auth_env \<Rightarrow> string option \<Rightarrow> int \<Rightarrow> (err, principal) res" where
  "notifications_guard env authorization now =
     (case truthy (ae_accessSecret env) of
        None \<Rightarrow> Inl (ServiceUnavailable ''JWT verification is not configured'')
      | Some secret \<Rightarrow>
          (case truthy (Option.bind authorization bearer_token) of
             None \<Rightarrow> Inl (Unauthorized ''Bearer token is required'')
           | Some token \<Rightarrow> check_token env secret token now))"

definition principal_guard :: "auth_env \<Rightarrow> string option \<Rightarrow> int \<Rightarrow> (err, principal) res" where
  "principal_guard env authorization now =
     (case truthy (ae_accessSecret env) of
        None \<Rightarrow> Inl (ServiceUnavailable ''JWT is not configured'')
      | Some secret \<Rightarrow>
          (case truthy (Option.bind authorization bearer_token) of
             None \<Rightarrow> Inl (Unauthorized ''Bearer token is required'')
           | Some token \<Rightarrow> check_token env secret token now))"

definition admin_guard :: "principal option \<Rightarrow> (err, bool) res" where
  "admin_guard user = (if map_option pr_role user \<noteq> Some ''admin'' then Inl (Forbidden ''Admin access required'') else Inr True)"

definition service_guard :: "string option \<Rightarrow> string option \<Rightarrow> (err, bool) res" where
  "service_guard header setting =
     (let supplied = or_default header [] in
      case truthy setting of
        None \<Rightarrow> Inl (ServiceUnavailable ''Payments service credential is not configured'')
      | Some expected \<Rightarrow>
          if length supplied \<noteq> length expected \<or> supplied \<noteq> expected then Inl (Unauthorized ''Invalid service credential'') else Inr True)"

text \<open>
  The handshake of a socket: the token of the header or else that of the cookie. \<open>uri_decode\<close> is
  \<^verbatim>\<open>decodeURIComponent\<close>, nothing if it throws.
\<close>

fun read_parts :: "string \<Rightarrow> string list \<Rightarrow> string option" where
  "read_parts name [] = None"
| "read_parts name (part # parts) =
     (case split_on (CHR ''='') (trim part) of
        key # v # vs \<Rightarrow> if key = name then Some (concat (v # map (\<lambda>x. ''='' @ x) vs)) else read_parts name parts
      | _ \<Rightarrow> read_parts name parts)"

definition readCookie :: "(string \<Rightarrow> string option) \<Rightarrow> string option \<Rightarrow> string \<Rightarrow> (err, string option) res" where
  "readCookie uri_decode header name =
     (case truthy header of
        None \<Rightarrow> Inr None
      | Some h \<Rightarrow>
          (case read_parts name (split_on (CHR '';'') h) of
             None \<Rightarrow> Inr None
           | Some v \<Rightarrow> (case uri_decode v of None \<Rightarrow> Inl (Err ''URI malformed'') | Some t \<Rightarrow> Inr (Some t))))"

definition authenticate_socket ::
  "auth_env \<Rightarrow> (string \<Rightarrow> string option) \<Rightarrow> string option \<Rightarrow> string option \<Rightarrow> int \<Rightarrow> (err, string) res" where
  "authenticate_socket env uri_decode authorization cookie now =
     (case truthy (ae_accessSecret env) of
        None \<Rightarrow> Inl (Err ''JWT verification is not configured'')
      | Some secret \<Rightarrow>
          rbind (readCookie uri_decode cookie ''accessToken'') (\<lambda>cookieToken.
          let token = (case Option.bind authorization bearer_token of None \<Rightarrow> cookieToken | Some t \<Rightarrow> Some t)
          in case truthy token of
               None \<Rightarrow> Inl (Err ''Access token is required'')
             | Some t \<Rightarrow>
                 (case ae_verify env secret t now of
                    None \<Rightarrow> Inl (Err ''JsonWebTokenError'')
                  | Some payload \<Rightarrow>
                      (case jstring (jget ''sub'' payload) of None \<Rightarrow> Inl (Err ''Invalid principal'') | Some s \<Rightarrow> Inr s))))"

section \<open>What the tokens are good for\<close>

lemma issueTokens_ok:
  assumes "issueTokens env salt now user us = (Inr tk, us')"
  shows "\<exists>s1 s2. truthy (ae_accessSecret env) = Some s1 \<and> truthy (ae_refreshSecret env) = Some s2 \<and>
    accessToken tk = ae_sign env s1 (token_claims user) (or_default (ae_accessTtl env) ''15m'') now \<and>
    refreshToken tk = ae_sign env s2 (token_claims user) (or_default (ae_refreshTtl env) ''7d'') now \<and>
    save_user (user\<lparr>u_refreshTokenHash := Some (ae_hash env salt (refreshToken tk))\<rparr>) us = Inr us'"
  using assms by (auto simp: issueTokens_def auth_secret_def Let_def result_simps split: sum.splits option.splits)

lemma saved_user:
  assumes "save_user u us = Inr us'"
  shows "u \<in> set us'" and "\<And>v. v \<in> set us' \<Longrightarrow> u_id v = u_id u \<or> u_email v = u_email u \<Longrightarrow> v = u"
  using assms by (auto simp: save_user_def insert_user_def split: if_splits)

lemma find_unique:
  assumes "u \<in> set us" "P u" "\<And>v. v \<in> set us \<Longrightarrow> P v \<Longrightarrow> v = u"
  shows "find P us = Some u"
proof -
  have "find P us \<noteq> None" using assms(1,2) by (auto simp: find_None_iff)
  then obtain v where v: "find P us = Some v" by blast
  then have "v \<in> set us" "P v" by (auto simp: find_Some_iff)
  with assms(3) v show ?thesis by metis
qed

lemma find_saved_user:
  assumes "save_user u us = Inr us'" "canonical (u_id u)"
  shows "find_user us' (u_id u) = Some u" and "find_email us' (u_email u) = Some u"
  unfolding find_user_def find_email_def
  by (rule find_unique; use saved_user [OF assms(1)] assms(2) in \<open>auto simp: pg_uuid_canonical\<close>)+

lemma issueTokens_succeeds:
  assumes "truthy (ae_accessSecret env) = Some s1" "truthy (ae_refreshSecret env) = Some s2"
    and "u \<in> set us" "\<And>v. v \<in> set us \<Longrightarrow> u_email v = u_email u \<Longrightarrow> u_id v = u_id u"
  shows "\<exists>tk us'. issueTokens env salt now u us = (Inr tk, us')"
proof -
  let ?r = "ae_sign env s2 (token_claims u) (or_default (ae_refreshTtl env) ''7d'') now"
  have "\<not> (\<exists>v \<in> set us. u_id v \<noteq> u_id u \<and> u_email v = u_email u)" using assms(4) by blast
  with assms(3) have "\<exists>us'. save_user (u\<lparr>u_refreshTokenHash := Some (ae_hash env salt ?r)\<rparr>) us = Inr us'"
    by (auto simp: save_user_def)
  then obtain us' where "save_user (u\<lparr>u_refreshTokenHash := Some (ae_hash env salt ?r)\<rparr>) us = Inr us'" by blast
  then show ?thesis using assms(1,2) by (simp add: issueTokens_def auth_secret_def Let_def)
qed

text \<open>The characters of a token are no space and end no line.\<close>

definition token_text :: "string \<Rightarrow> bool" where
  "token_text t = (t \<noteq> [] \<and> list_all (\<lambda>c. \<not> is_space c \<and> \<not> line_end c) t)"

lemma bearer_token_text: "token_text t \<Longrightarrow> bearer_token (''Bearer '' @ t) = Some t"
proof -
  assume t: "token_text t"
  then have "takeWhile is_space t = []" "dropWhile is_space t = t" "\<not> list_ex line_end t" "t \<noteq> []"
    by (cases t; auto simp: token_text_def list_all_iff list_ex_iff)+
  moreover have "toLowerCase ''Bearer'' = ''bearer''" "is_space (CHR '' '')" by code_simp+
  ultimately show ?thesis by (simp add: bearer_token_def Let_def)
qed

text \<open>
  What the packages promise for tokens with given claims that are issued at one time and checked at another: a text
  matches its hash, a token is a non-empty text without spaces, and until it expires it is read with its
  claims under the secret it was signed with.
\<close>

definition claims_read :: "json \<Rightarrow> token_payload \<Rightarrow> bool" where
  "claims_read j c = (jget ''sub'' j = Some (JStr (tp_sub c)) \<and> jget ''email'' j = Some (JStr (tp_email c)) \<and> jget ''role'' j = Some (JStr (tp_role c)))"

definition packages_ok :: "auth_env \<Rightarrow> int \<Rightarrow> int \<Rightarrow> token_payload \<Rightarrow> bool" where
  "packages_ok env issued checked c =
     ((\<forall>salt p. ae_compare env p (ae_hash env salt p) \<and> ae_hash env salt p \<noteq> []) \<and>
      (\<forall>secret. \<forall>ttl \<in> {or_default (ae_accessTtl env) ''15m'', or_default (ae_refreshTtl env) ''7d''}.
         token_text (ae_sign env secret c ttl issued) \<and>
         (\<exists>j. ae_verify env secret (ae_sign env secret c ttl issued) checked = Some j \<and> claims_read j c)))"

lemma packages_okD:
  assumes "packages_ok env issued checked c"
  shows "ae_compare env p (ae_hash env salt p)" and "ae_hash env salt p \<noteq> []"
    and "token_text (ae_sign env secret c (or_default (ae_accessTtl env) ''15m'') issued)"
    and "\<exists>j. ae_verify env secret (ae_sign env secret c (or_default (ae_accessTtl env) ''15m'') issued) checked = Some j \<and> claims_read j c"
    and "\<exists>j. ae_verify env secret (ae_sign env secret c (or_default (ae_refreshTtl env) ''7d'') issued) checked = Some j \<and> claims_read j c"
  using assms unfolding packages_ok_def by blast+

lemma check_issued:
  assumes "packages_ok env issued checked c" "ttl = or_default (ae_accessTtl env) ''15m''"
  shows "check_token env secret (ae_sign env secret c ttl issued) checked =
    Inr \<lparr>pr_userId = tp_sub c, pr_email = tp_email c, pr_role = tp_role c\<rparr>"
proof -
  obtain j where "ae_verify env secret (ae_sign env secret c ttl issued) checked = Some j" "claims_read j c"
    using packages_okD(4) [OF assms(1)] assms(2) by blast
  then show ?thesis by (simp add: check_token_def read_principal_def claims_read_def jstring_def)
qed

lemma login_after_save:
  assumes ok: "packages_ok env issued checked c" and saved: "save_user u us = Inr us'" "canonical (u_id u)" "u_passwordHash u = ae_hash env salt0 password"
    and secrets: "truthy (ae_accessSecret env) = Some s1" "truthy (ae_refreshSecret env) = Some s2"
  shows "\<exists>tk us2. login env (\<lambda>us. us) salt checked (u_email u) password us' = (Inr tk, us2)"
proof -
  have "ae_compare env password (u_passwordHash u)" using packages_okD(1) [OF ok] saved(3) by simp
  moreover have "\<exists>tk us2. issueTokens env salt checked u us' = (Inr tk, us2)"
    using saved_user [OF saved(1)] by (intro issueTokens_succeeds [OF secrets]) auto
  ultimately show ?thesis using find_saved_user(2) [OF saved(1,2)] by (simp add: login_def)
qed

lemma refresh_after_save:
  assumes saved: "save_user u us = Inr us'" "canonical (u_id u)" "u_refreshTokenHash u = Some h" "h \<noteq> []" "ae_compare env token h"
    and token: "ae_verify env s2 token checked = Some j" "jget ''sub'' j = Some (JStr (u_id u))"
    and secrets: "truthy (ae_accessSecret env) = Some s1" "truthy (ae_refreshSecret env) = Some s2"
  shows "\<exists>tk us2. issueTokens env salt checked u us' = (Inr tk, us2) \<and> refresh env (\<lambda>us. us) salt checked token us' = (Inr tk, us2)"
proof -
  have "refresh_user env checked token us' = Inr (Some u)"
    using secrets token find_saved_user(1) [OF saved(1,2)] by (simp add: refresh_user_def auth_secret_def)
  moreover have "\<exists>tk us2. issueTokens env salt checked u us' = (Inr tk, us2)"
    using saved_user [OF saved(1)] by (intro issueTokens_succeeds [OF secrets]) auto
  moreover have "truthy (u_refreshTokenHash u) = Some h" using saved(3,4) by (simp add: truthy_def)
  ultimately show ?thesis using saved(5) by (auto simp: refresh_def)
qed

text \<open>
  C18. A registered user is recognised by every service: whatever else happens to the table during the
  registration, the user can log in with the password and refresh with the token of the registration, and the
  access token is accepted by the guards of the gateway and of the notifications service and by its
  sockets, which all read the identity that was registered, with the role of an ordinary user.
\<close>

theorem registered_user_is_recognised:
  assumes ok: "packages_ok env now checked \<lparr>tp_sub = pg_uuid newId, tp_email = email, tp_role = ''user''\<rparr>" and reg: "register env later newId salt1 salt2 now email password us = (Inr tk, us')"
  shows "(\<exists>tk2 us2. login env (\<lambda>us. us) salt checked email password us' = (Inr tk2, us2)) \<and>
    (\<exists>tk3 us3. refresh env (\<lambda>us. us) salt checked (refreshToken tk) us' = (Inr tk3, us3)) \<and>
    principal_guard env (Some (''Bearer '' @ accessToken tk)) checked = Inr \<lparr>pr_userId = pg_uuid newId, pr_email = email, pr_role = ''user''\<rparr> \<and>
    notifications_guard env (Some (''Bearer '' @ accessToken tk)) checked = Inr \<lparr>pr_userId = pg_uuid newId, pr_email = email, pr_role = ''user''\<rparr> \<and>
    authenticate_socket env uri_decode (Some (''Bearer '' @ accessToken tk)) None checked = Inr (pg_uuid newId)"
proof -
  let ?u = "\<lparr>u_id = pg_uuid newId, u_email = email, u_passwordHash = ae_hash env salt1 password, u_refreshTokenHash = None, u_role = RoleUser\<rparr>"
  obtain us1 where "issueTokens env salt2 now ?u us1 = (Inr tk, us')"
    using reg by (auto simp: register_def Let_def split: option.splits sum.splits)
  from issueTokens_ok [OF this] obtain s1 s2 where s: "truthy (ae_accessSecret env) = Some s1" "truthy (ae_refreshSecret env) = Some s2"
    and at: "accessToken tk = ae_sign env s1 (token_claims ?u) (or_default (ae_accessTtl env) ''15m'') now"
    and rt: "refreshToken tk = ae_sign env s2 (token_claims ?u) (or_default (ae_refreshTtl env) ''7d'') now"
    and sv: "save_user (?u\<lparr>u_refreshTokenHash := Some (ae_hash env salt2 (refreshToken tk))\<rparr>) us1 = Inr us'" by blast
  have cl: "token_claims ?u = \<lparr>tp_sub = pg_uuid newId, tp_email = email, tp_role = ''user''\<rparr>" by (simp add: token_claims_def role_text_def)
  note ok = ok [folded cl]
  let ?v = "?u\<lparr>u_refreshTokenHash := Some (ae_hash env salt2 (refreshToken tk))\<rparr>"
  have v: "canonical (u_id ?v)" by simp
  have "\<exists>tk2 us2. login env (\<lambda>us. us) salt checked (u_email ?v) password us' = (Inr tk2, us2)"
    by (rule login_after_save [OF ok sv v _ s]) simp
  moreover obtain j where j: "ae_verify env s2 (refreshToken tk) checked = Some j" "claims_read j (token_claims ?u)"
    using packages_okD(5) [OF ok, of s2] unfolding rt [symmetric] by blast
  have "\<exists>tk3 us3. issueTokens env salt checked ?v us' = (Inr tk3, us3) \<and> refresh env (\<lambda>us. us) salt checked (refreshToken tk) us' = (Inr tk3, us3)"
    by (rule refresh_after_save [OF sv v _ _ _ j(1) _ s]) (use j packages_okD(1,2) [OF ok] in \<open>simp_all add: claims_read_def token_claims_def\<close>)
  moreover have tt: "token_text (accessToken tk)" using packages_okD(3) [OF ok, of s1] unfolding at [symmetric] .
  then have b: "truthy (Option.bind (Some (''Bearer '' @ accessToken tk)) bearer_token) = Some (accessToken tk)"
    using bearer_token_text by (simp add: truthy_def token_text_def)
  have c: "check_token env s1 (accessToken tk) checked = Inr \<lparr>pr_userId = pg_uuid newId, pr_email = email, pr_role = ''user''\<rparr>"
    unfolding at using check_issued [OF ok refl] by (simp add: cl)
  moreover obtain j' where "ae_verify env s1 (accessToken tk) checked = Some j'" "claims_read j' (token_claims ?u)"
    using packages_okD(4) [OF ok, of s1] unfolding at [symmetric] by blast
  then have "authenticate_socket env uri_decode (Some (''Bearer '' @ accessToken tk)) None checked = Inr (pg_uuid newId)"
    using s bearer_token_text [OF tt] tt
    by (simp add: authenticate_socket_def readCookie_def truthy_def token_text_def claims_read_def jstring_def token_claims_def)
  ultimately show ?thesis using s b c by (auto simp: principal_guard_def notifications_guard_def)
qed

definition ex_claims :: json where
  "ex_claims = JObj [(''sub'', JStr ''u7''), (''email'', JStr ''a@x''), (''role'', JStr ''user'')]"

definition ex_auth :: auth_env where
  "ex_auth = \<lparr>ae_accessSecret = Some ''s1'', ae_refreshSecret = Some ''s2'', ae_accessTtl = None, ae_refreshTtl = None,
     ae_hash = (\<lambda>salt p. CHR ''h'' # p), ae_compare = (\<lambda>p h. h = CHR ''h'' # p),
     ae_sign = (\<lambda>secret c ttl t. ''tk-'' @ ttl), ae_verify = (\<lambda>secret token t. if token \<in> {''tk-15m'', ''tk-7d''} then Some ex_claims else None)\<rparr>"

theorem registered_user_is_recognised_witness:
  "\<exists>tk us'. register ex_auth (\<lambda>us. us) ''U7'' ''x'' ''y'' 0 ''a@x'' ''password'' [] = (Inr tk, us') \<and>
     principal_guard ex_auth (Some (''Bearer '' @ accessToken tk)) 5 = Inr \<lparr>pr_userId = ''u7'', pr_email = ''a@x'', pr_role = ''user''\<rparr>"
proof -
  have u: "pg_uuid ''U7'' = ''u7''" by code_simp
  have "token_text ''tk-15m''" "token_text ''tk-7d''" by code_simp+
  then have ok: "packages_ok ex_auth 0 5 \<lparr>tp_sub = pg_uuid ''U7'', tp_email = ''a@x'', tp_role = ''user''\<rparr>"
    by (simp add: packages_ok_def ex_auth_def or_default_def claims_read_def ex_claims_def jget_def u)
  obtain tk us' where r: "register ex_auth (\<lambda>us. us) ''U7'' ''x'' ''y'' 0 ''a@x'' ''password'' [] = (Inr tk, us')"
    by (simp add: register_def find_email_def insert_user_def issueTokens_def ex_auth_def auth_secret_def truthy_def save_user_def Let_def)
  from registered_user_is_recognised [OF ok r] r show ?thesis by (auto simp: u)
qed

section \<open>Rotation of refresh tokens\<close>

text \<open>Base64url without padding (RFC 4648), and the form of a JSON Web Token up to its subject (RFC 7519).\<close>

definition base64_char :: "nat \<Rightarrow> char" where
  "base64_char n = (''ABCDEFGHIJKLMNOPQRSTUVWXYZabcdefghijklmnopqrstuvwxyz0123456789-_'' ! n)"

fun base64url :: "string \<Rightarrow> string" where
  "base64url (x # y # z # s) =
     (let a = of_char x; b = of_char y; c = of_char z
      in [base64_char (a div 4), base64_char ((a mod 4) * 16 + b div 16), base64_char ((b mod 16) * 4 + c div 64), base64_char (c mod 64)] @ base64url s)"
| "base64url [x, y] =
     (let a = of_char x; b = of_char y
      in [base64_char (a div 4), base64_char ((a mod 4) * 16 + b div 16), base64_char ((b mod 16) * 4)])"
| "base64url [x] = (let a = of_char x in [base64_char (a div 4), base64_char ((a mod 4) * 16)])"
| "base64url [] = []"

definition quote :: string where "quote = [CHR 0x22]"

definition jwt_header :: string where
  "jwt_header = base64url (''{'' @ quote @ ''alg'' @ quote @ '':'' @ quote @ ''HS256'' @ quote @ '','' @ quote @ ''typ'' @ quote @ '':'' @ quote @ ''JWT'' @ quote @ ''}'')"

definition claims_text :: "string \<Rightarrow> string \<Rightarrow> string" where
  "claims_text subject rest = ''{'' @ quote @ ''sub'' @ quote @ '':'' @ quote @ subject @ rest"

definition jwt_form :: "string \<Rightarrow> string \<Rightarrow> bool" where
  "jwt_form subject token = (\<exists>rest signature. token = jwt_header @ ''.'' @ base64url (claims_text subject rest) @ ''.'' @ signature)"

lemma three_chars:
  fixes s :: string
  assumes "3 \<le> length s"
  obtains x y z s' where "s = x # y # z # s'"
  using assms by (cases s rule: base64url.cases) auto

lemma base64url_take: "3 * n \<le> length s \<Longrightarrow> take (4 * n) (base64url s) = base64url (take (3 * n) s)"
proof (induction n arbitrary: s)
  case (Suc n)
  then have l: "3 \<le> length s" by simp
  obtain x y z s' where s: "s = x # y # z # s'" by (rule three_chars [OF l])
  have n: "4 * Suc n = Suc (Suc (Suc (Suc (4 * n))))" "3 * Suc n = Suc (Suc (Suc (3 * n)))" by simp_all
  have "take (4 * n) (base64url s') = base64url (take (3 * n) s')" using Suc.prems by (intro Suc.IH) (simp add: s)
  then show ?case unfolding n s by (simp add: Let_def)
qed simp

lemma base64url_length: "3 * n \<le> length s \<Longrightarrow> 4 * n \<le> length (base64url s)"
proof (induction n arbitrary: s)
  case (Suc n)
  then have l: "3 \<le> length s" by simp
  obtain x y z s' where "s = x # y # z # s'" by (rule three_chars [OF l])
  with Suc show ?case by (simp add: Let_def)
qed simp

lemma jwt_header_length: "length jwt_header = 36"
  by code_simp

lemma jwt_prefix:
  assumes "jwt_form subject token" "19 \<le> length subject"
  shows "take 72 token = jwt_header @ ''.'' @ take 35 (base64url (take 27 (claims_text subject [])))"
proof -
  obtain rest signature where t: "token = jwt_header @ ''.'' @ base64url (claims_text subject rest) @ ''.'' @ signature"
    using assms(1) by (auto simp: jwt_form_def)
  let ?c = "claims_text subject rest"
  have l: "3 * 9 \<le> length ?c" using assms(2) by (simp add: claims_text_def quote_def)
  have "take 27 ?c = take 27 (claims_text subject [])" using assms(2) by (simp add: claims_text_def quote_def)
  then have "take 36 (base64url ?c) = base64url (take 27 (claims_text subject []))" using base64url_take [OF l] by simp
  moreover have "take 35 (base64url ?c) = take 35 (take 36 (base64url ?c))" by simp
  moreover have "36 \<le> length (base64url ?c)" using base64url_length [OF l] by simp
  ultimately show ?thesis by (simp add: t jwt_header_length)
qed

text \<open>bcrypt reads only the first 72 bytes of a text, as its documentation says.\<close>

definition bcrypt_72 :: "auth_env \<Rightarrow> bool" where
  "bcrypt_72 env = (\<forall>p q h. take 72 p = take 72 q \<longrightarrow> ae_compare env p h = ae_compare env q h)"

definition signs_jwt :: "auth_env \<Rightarrow> bool" where
  "signs_jwt env = (\<forall>secret c ttl t. jwt_form (tp_sub c) (ae_sign env secret c ttl t))"

text \<open>
  C19. Refresh tokens are not revoked by rotation. The service keeps only the hash of the newest refresh token of a
  user and means to refuse all others as revoked. But the first 72 characters of every JSON Web Token of
  a user are the same, and bcrypt reads no more: a refresh token that has been used and replaced is accepted again, and
  gives new tokens, until it expires.
\<close>

theorem rotated_token_still_accepted:
  assumes lib: "bcrypt_72 env" "signs_jwt env" "\<And>salt p. ae_compare env p (ae_hash env salt p)" "\<And>salt p. ae_hash env salt p \<noteq> []"
    and token: "jwt_form subject token" "19 \<le> length subject" "canonical subject"
    and secret: "truthy (ae_refreshSecret env) = Some s2"
    and valid: "ae_verify env s2 token now1 = Some j" "ae_verify env s2 token now2 = Some j" "jget ''sub'' j = Some (JStr subject)"
    and used: "refresh env (\<lambda>us. us) salt1 now1 token us = (Inr tk1, us1)"
  shows "\<exists>tk2 us2. refresh env (\<lambda>us. us) salt2 now2 token us1 = (Inr tk2, us2)"
proof -
  have "refresh_user env now1 token us = Inr (find_user us subject)" using secret valid by (simp add: refresh_user_def auth_secret_def)
  with used obtain u where u: "find_user us subject = Some u" "issueTokens env salt1 now1 u us = (Inr tk1, us1)"
    by (auto simp: refresh_def split: option.splits if_splits)
  have uid: "u_id u = subject" using u(1) token(3) by (auto simp: find_user_def find_Some_iff pg_uuid_canonical)
  from issueTokens_ok [OF u(2)] obtain s1 s2' where s: "truthy (ae_accessSecret env) = Some s1"
    and rt: "refreshToken tk1 = ae_sign env s2' (token_claims u) (or_default (ae_refreshTtl env) ''7d'') now1"
    and sv: "save_user (u\<lparr>u_refreshTokenHash := Some (ae_hash env salt1 (refreshToken tk1))\<rparr>) us = Inr us1" by blast
  have "tp_sub (token_claims u) = subject" by (simp add: token_claims_def uid)
  then have "jwt_form subject (refreshToken tk1)" using lib(2) unfolding rt signs_jwt_def by fastforce
  then have same: "take 72 token = take 72 (refreshToken tk1)"
    using jwt_prefix [OF token(1,2)] jwt_prefix [OF _ token(2), of "refreshToken tk1"] by (simp only:)
  let ?v = "u\<lparr>u_refreshTokenHash := Some (ae_hash env salt1 (refreshToken tk1))\<rparr>"
  have "ae_compare env (refreshToken tk1) (ae_hash env salt1 (refreshToken tk1))" by (rule lib(3))
  then have "ae_compare env token (ae_hash env salt1 (refreshToken tk1))" using lib(1) [unfolded bcrypt_72_def, rule_format, OF same] by blast
  then have "\<exists>tk us2. issueTokens env salt2 now2 ?v us1 = (Inr tk, us2) \<and> refresh env (\<lambda>us. us) salt2 now2 token us1 = (Inr tk, us2)"
    by (intro refresh_after_save [OF sv _ _ lib(4) _ valid(2) _ s secret]) (simp_all add: uid valid(3) token(3))
  then show ?thesis by blast
qed

definition ex_subject :: string where "ex_subject = ''00000000-0000-4000-8000-00000000000a''"

definition ex_bcrypt :: auth_env where
  "ex_bcrypt = \<lparr>ae_accessSecret = Some ''s1'', ae_refreshSecret = Some ''s2'', ae_accessTtl = None, ae_refreshTtl = None,
     ae_hash = (\<lambda>salt p. CHR ''h'' # take 72 p), ae_compare = (\<lambda>p h. h = CHR ''h'' # take 72 p),
     ae_sign = (\<lambda>secret c ttl t. jwt_header @ ''.'' @ base64url (claims_text (tp_sub c) []) @ ''.'' @ show_int t),
     ae_verify = (\<lambda>secret token t. Some (JObj [(''sub'', JStr ex_subject)]))\<rparr>"

definition ex_token :: "int \<Rightarrow> string" where
  "ex_token t = ae_sign ex_bcrypt ''s2'' \<lparr>tp_sub = ex_subject, tp_email = ''a@x'', tp_role = ''user''\<rparr> ''7d'' t"

theorem rotated_token_still_accepted_witness:
  "\<exists>us tk1 us1 tk2 us2. refresh ex_bcrypt (\<lambda>us. us) ''x'' 5 (ex_token 0) us = (Inr tk1, us1) \<and> refreshToken tk1 \<noteq> ex_token 0 \<and>
     refresh ex_bcrypt (\<lambda>us. us) ''y'' 6 (ex_token 0) us1 = (Inr tk2, us2)"
proof -
  let ?us = "[\<lparr>u_id = ex_subject, u_email = ''a@x'', u_passwordHash = ''p'', u_refreshTokenHash = Some (ae_hash ex_bcrypt ''z'' (ex_token 0)), u_role = RoleUser\<rparr>]"
  have run: "case refresh ex_bcrypt (\<lambda>us. us) ''x'' 5 (ex_token 0) ?us of (Inr tk, us1) \<Rightarrow> refreshToken tk \<noteq> ex_token 0 | _ \<Rightarrow> False"
    by code_simp
  then obtain tk1 us1 where r: "refresh ex_bcrypt (\<lambda>us. us) ''x'' 5 (ex_token 0) ?us = (Inr tk1, us1)" "refreshToken tk1 \<noteq> ex_token 0"
    by (auto split: prod.splits sum.splits)
  have f: "jwt_form (tp_sub c) (ae_sign ex_bcrypt secret c ttl t)" for secret c ttl t by (auto simp: jwt_form_def ex_bcrypt_def)
  have "\<exists>tk2 us2. refresh ex_bcrypt (\<lambda>us. us) ''y'' 6 (ex_token 0) us1 = (Inr tk2, us2)"
  proof (rule rotated_token_still_accepted [where j = "JObj [(''sub'', JStr ex_subject)]", OF _ _ _ _ _ _ _ _ _ _ _ r(1)])
    show "jget ''sub'' (JObj [(''sub'', JStr ex_subject)]) = Some (JStr ex_subject)" by (simp add: jget_def)
    show "jwt_form ex_subject (ex_token 0)" using f [of "\<lparr>tp_sub = ex_subject, tp_email = ''a@x'', tp_role = ''user''\<rparr>"] by (simp add: ex_token_def)
    show "canonical ex_subject" by code_simp
    show "signs_jwt ex_bcrypt" using f by (simp add: signs_jwt_def)
    show "truthy (ae_refreshSecret ex_bcrypt) = Some ''s2''" by (simp add: ex_bcrypt_def truthy_def)
  qed (simp_all add: ex_bcrypt_def bcrypt_72_def ex_subject_def)
  with r show ?thesis by blast
qed

end
