(* ===== verification/Gateway_Service.thy ===== *)
theory Gateway_Service
  imports Authentication Rate_Limit
begin

text \<open>
  The gateway in front of the services: \<^verbatim>\<open>upstream.service.ts\<close> (one request to a service and what becomes
  of its answer), and the routes of \<^verbatim>\<open>bff.controller.ts\<close>, \<^verbatim>\<open>admin-bff.controller.ts\<close> and
  \<^verbatim>\<open>auth.controller.ts\<close> with the guards in front of them.

  Parameters are the network (\<open>ge_fetch\<close>, the answer to a request), \<^verbatim>\<open>JSON.parse\<close> (nothing if it throws),
  the text of a number, the UUID pattern of NestJS, \<^verbatim>\<open>URLSearchParams.toString()\<close>, and the order in which
  the three answers of the dashboard arrive. The route \<^verbatim>\<open>traces\<close>, which asks the tracing backend, is not
  modelled.
\<close>

section \<open>Requests to the services\<close>

datatype upstream_name = UpLedger | UpPayments | UpNotifications

record upstream_options =
  uo_method :: "string option"
  uo_authorization :: "string option"
  uo_body :: "json option"
  uo_idempotencyKey :: "string option"

record upstream_request =
  ur_url :: string
  ur_method :: string
  ur_headers :: "(string \<times> string) list"
  ur_body :: "json option"

datatype fetch_result = FetchAnswered int string | FetchTimedOut | FetchBroke

datatype gateway_error =
    HttpException json int
  | GatewayTimeout string
  | GuardRefused err
  | NotUuid
  | InternalError string

record gateway_env =
  ge_auth :: auth_env
  ge_urls :: "upstream_name \<Rightarrow> string option"
  ge_correlationId :: "string option"
  ge_traceHeaders :: "(string \<times> string) list"
  ge_fetch :: "upstream_request \<Rightarrow> fetch_result"
  ge_json_parse :: "string \<Rightarrow> json option"
  ge_number_text :: "jsnum \<Rightarrow> string"
  ge_is_uuid :: "string \<Rightarrow> bool"
  ge_query_text :: "(string \<times> string) list \<Rightarrow> string"
  ge_arrival :: "nat list"
  ge_loginMax :: jsnum
  ge_loginWindow :: jsnum

definition upstream_text :: "upstream_name \<Rightarrow> string" where
  "upstream_text s = (case s of UpLedger \<Rightarrow> ''ledger'' | UpPayments \<Rightarrow> ''payments'' | UpNotifications \<Rightarrow> ''notifications'')"

definition upstream_baseUrl :: "gateway_env \<Rightarrow> upstream_name \<Rightarrow> string" where
  "upstream_baseUrl env s =
    (let u = (case ge_urls env s of
                Some v \<Rightarrow> v
              | None \<Rightarrow> (case s of UpLedger \<Rightarrow> ''http://ledger-service:3001''
                                | UpPayments \<Rightarrow> ''http://payments-service:3002''
                                | UpNotifications \<Rightarrow> ''http://notifications-service:3003''))
     in if u \<noteq> [] \<and> last u = CHR ''/'' then butlast u else u)"

definition parse_text :: "gateway_env \<Rightarrow> string \<Rightarrow> json" where
  "parse_text env text = (case ge_json_parse env text of Some j \<Rightarrow> j | None \<Rightarrow> JObj [(''message'', JStr text)])"

definition exceptionBody :: "gateway_env \<Rightarrow> json \<Rightarrow> json" where
  "exceptionBody env v =
    (case v of
       JStr s \<Rightarrow> JStr s
     | JObj kvs \<Rightarrow> JObj kvs
     | JArr js \<Rightarrow> JArr js
     | JNull \<Rightarrow> JObj [(''message'', JStr ''null'')]
     | JBool b \<Rightarrow> JObj [(''message'', JStr (if b then ''true'' else ''false''))]
     | JNum n \<Rightarrow> JObj [(''message'', JStr (ge_number_text env n))])"

definition upstream_headers :: "gateway_env \<Rightarrow> upstream_options \<Rightarrow> (string \<times> string) list" where
  "upstream_headers env opts =
    [(''content-type'', ''application/json'')] @
    (case truthy (uo_authorization opts) of None \<Rightarrow> [] | Some a \<Rightarrow> [(''authorization'', a)]) @
    (case truthy (uo_idempotencyKey opts) of None \<Rightarrow> [] | Some k \<Rightarrow> [(''idempotency-key'', k)]) @
    (case truthy (ge_correlationId env) of None \<Rightarrow> [] | Some c \<Rightarrow> [(''x-correlation-id'', c)]) @
    ge_traceHeaders env"

definition upstream_call :: "gateway_env \<Rightarrow> upstream_name \<Rightarrow> string \<Rightarrow> upstream_options \<Rightarrow> upstream_request" where
  "upstream_call env service path opts =
    \<lparr>ur_url = upstream_baseUrl env service @ path,
     ur_method = (case uo_method opts of None \<Rightarrow> ''GET'' | Some m \<Rightarrow> m),
     ur_headers = upstream_headers env opts, ur_body = uo_body opts\<rparr>"

definition upstream_outcome :: "gateway_env \<Rightarrow> upstream_name \<Rightarrow> fetch_result \<Rightarrow> (gateway_error, json) res" where
  "upstream_outcome env service r =
    (case r of
       FetchAnswered status text \<Rightarrow>
         let payload = (if text \<noteq> [] then parse_text env text else JNull)
         in if 200 \<le> status \<and> status \<le> 299 then Inr payload else Inl (HttpException (exceptionBody env payload) status)
     | FetchTimedOut \<Rightarrow> Inl (GatewayTimeout (upstream_text service @ '' timed out''))
     | FetchBroke \<Rightarrow> Inl (HttpException (JStr (upstream_text service @ '' unavailable'')) 502))"

section \<open>The routes\<close>

datatype route =
    Dashboard
  | Me
  | WalletsRoute
  | CreateTransferRoute "json option" "string option"
  | TransferRoute string
  | ActivityRoute "string \<Rightarrow> json option"
  | SplitBillsRoute
  | CreateSplitBillRoute "json option"
  | SplitBillRoute string
  | PayShareRoute string string "json option" "string option"
  | AdminAccess
  | AdminEvents string
  | AdminReconciliation string
  | AdminGlobal "string option" "string option"
  | LoginRoute "json option"
  | RegisterRoute "json option"
  | RefreshRoute "json option"

type_synonym call = "upstream_name \<times> string \<times> upstream_options"

definition get_with :: "string \<Rightarrow> upstream_options" where
  "get_with authorization =
    \<lparr>uo_method = None, uo_authorization = Some authorization, uo_body = None, uo_idempotencyKey = None\<rparr>"

definition post_with :: "string \<Rightarrow> json option \<Rightarrow> string option \<Rightarrow> upstream_options" where
  "post_with authorization body key =
    \<lparr>uo_method = Some ''POST'', uo_authorization = Some authorization, uo_body = body, uo_idempotencyKey = key\<rparr>"

definition post_anonymous :: "json option \<Rightarrow> upstream_options" where
  "post_anonymous body =
    \<lparr>uo_method = Some ''POST'', uo_authorization = None, uo_body = body, uo_idempotencyKey = None\<rparr>"

definition query_suffix :: "gateway_env \<Rightarrow> (string \<times> string) list \<Rightarrow> string" where
  "query_suffix env kvs = (if kvs = [] then [] else ''?'' @ ge_query_text env kvs)"

definition allowed_query :: "(string \<Rightarrow> json option) \<Rightarrow> (string \<times> string) list" where
  "allowed_query query =
    concat (map (\<lambda>name. case jstring (query name) of None \<Rightarrow> [] | Some v \<Rightarrow> [(name, v)]) [''limit'', ''cursor'', ''eventType''])"

definition period_query :: "string option \<Rightarrow> string option \<Rightarrow> (string \<times> string) list" where
  "period_query since until =
    (case truthy since of None \<Rightarrow> [] | Some v \<Rightarrow> [(''from'', v)]) @ (case truthy until of None \<Rightarrow> [] | Some v \<Rightarrow> [(''to'', v)])"

text \<open>The parameters that the pipes check, and the requests of a handler.\<close>

definition uuid_params :: "route \<Rightarrow> string list" where
  "uuid_params r =
    (case r of TransferRoute i \<Rightarrow> [i] | SplitBillRoute i \<Rightarrow> [i] | PayShareRoute b s _ _ \<Rightarrow> [b, s]
             | AdminEvents i \<Rightarrow> [i] | AdminReconciliation i \<Rightarrow> [i] | _ \<Rightarrow> [])"

definition bff_calls :: "gateway_env \<Rightarrow> string \<Rightarrow> route \<Rightarrow> call list" where
  "bff_calls env authorization r =
    (case r of
       Dashboard \<Rightarrow>
         [(UpLedger, ''/wallets'', get_with authorization),
          (UpNotifications, ''/activity?limit=20'', get_with authorization),
          (UpPayments, ''/split-bills'', get_with authorization)]
     | WalletsRoute \<Rightarrow> [(UpLedger, ''/wallets'', get_with authorization)]
     | CreateTransferRoute body key \<Rightarrow> [(UpPayments, ''/transfers'', post_with authorization body key)]
     | TransferRoute i \<Rightarrow> [(UpPayments, ''/transfers/'' @ i, get_with authorization)]
     | ActivityRoute query \<Rightarrow>
         [(UpNotifications, ''/activity'' @ query_suffix env (allowed_query query), get_with authorization)]
     | SplitBillsRoute \<Rightarrow> [(UpPayments, ''/split-bills'', get_with authorization)]
     | CreateSplitBillRoute body \<Rightarrow> [(UpPayments, ''/split-bills'', post_with authorization body None)]
     | SplitBillRoute i \<Rightarrow> [(UpPayments, ''/split-bills/'' @ i, get_with authorization)]
     | PayShareRoute b s body key \<Rightarrow>
         [(UpPayments, ''/split-bills/'' @ b @ ''/shares/'' @ s @ ''/pay'', post_with authorization body key)]
     | _ \<Rightarrow> [])"

definition admin_calls :: "gateway_env \<Rightarrow> string \<Rightarrow> route \<Rightarrow> call list" where
  "admin_calls env authorization r =
    (case r of
       AdminEvents i \<Rightarrow> [(UpLedger, ''/admin/ledger/wallets/'' @ i @ ''/events'', get_with authorization)]
     | AdminReconciliation i \<Rightarrow> [(UpLedger, ''/admin/ledger/reconciliation/wallets/'' @ i, get_with authorization)]
     | AdminGlobal since until \<Rightarrow>
         [(UpLedger, ''/admin/ledger/reconciliation/global'' @ query_suffix env (period_query since until), get_with authorization)]
     | _ \<Rightarrow> [])"

definition auth_calls :: "route \<Rightarrow> call list" where
  "auth_calls r =
    (case r of
       LoginRoute body \<Rightarrow> [(UpLedger, ''/auth/login'', post_anonymous body)]
     | RegisterRoute body \<Rightarrow> [(UpLedger, ''/auth/register'', post_anonymous body)]
     | RefreshRoute body \<Rightarrow> [(UpLedger, ''/auth/refresh'', post_anonymous body)]
     | _ \<Rightarrow> [])"

definition route_calls :: "gateway_env \<Rightarrow> string \<Rightarrow> route \<Rightarrow> call list" where
  "route_calls env authorization r = bff_calls env authorization r @ admin_calls env authorization r @ auth_calls r"

lemmas route_calls_simps = route_calls_def bff_calls_def admin_calls_def auth_calls_def

definition principal_json :: "principal \<Rightarrow> json" where
  "principal_json p =
    JObj [(''userId'', JStr (pr_userId p)), (''email'', JStr (pr_email p)), (''role'', JStr (pr_role p))]"

definition answer_of :: "gateway_env \<Rightarrow> call \<Rightarrow> (gateway_error, json) res" where
  "answer_of env c = (case c of (service, path, opts) \<Rightarrow>
     upstream_outcome env service (ge_fetch env (upstream_call env service path opts)))"

text \<open>\<^verbatim>\<open>Promise.all\<close>: the values in the order of the promises, or the rejection that arrives first.\<close>

definition promise_all :: "nat list \<Rightarrow> (gateway_error, json) res list \<Rightarrow> (gateway_error, json list) res" where
  "promise_all arrival rs =
    (case find (\<lambda>i. \<not> is_ok (rs ! i)) arrival of
       Some i \<Rightarrow> (case rs ! i of Inl e \<Rightarrow> Inl e | Inr _ \<Rightarrow> Inr [])
     | None \<Rightarrow> mapM id rs)"

definition route_answer :: "gateway_env \<Rightarrow> principal option \<Rightarrow> string \<Rightarrow> route \<Rightarrow> (gateway_error, json) res" where
  "route_answer env user authorization r =
    (let me = (case user of None \<Rightarrow> JNull | Some p \<Rightarrow> principal_json p) in
     case r of
       Dashboard \<Rightarrow>
         rbind (promise_all (ge_arrival env) (map (answer_of env) (route_calls env authorization r))) (\<lambda>js.
         Inr (JObj (zip [''me'', ''wallets'', ''activity'', ''splitBills''] (me # js))))
     | Me \<Rightarrow> Inr me
     | AdminAccess \<Rightarrow> Inr (JObj [(''allowed'', JBool True)])
     | _ \<Rightarrow> answer_of env (hd (route_calls env authorization r)))"

section \<open>The gateway\<close>

definition is_public :: "route \<Rightarrow> bool" where
  "is_public r = (case r of LoginRoute _ \<Rightarrow> True | RegisterRoute _ \<Rightarrow> True | RefreshRoute _ \<Rightarrow> True | _ \<Rightarrow> False)"

definition is_admin :: "route \<Rightarrow> bool" where
  "is_admin r = (case r of AdminAccess \<Rightarrow> True | AdminEvents _ \<Rightarrow> True | AdminReconciliation _ \<Rightarrow> True | AdminGlobal _ _ \<Rightarrow> True | _ \<Rightarrow> False)"

record bff_request =
  gq_route :: route
  gq_authorization :: "string option"
  gq_ip :: "string option"
  gq_remoteAddress :: "string option"

text \<open>The guards of a route; the limit of logins keeps its windows.\<close>

definition route_guards ::
  "gateway_env \<Rightarrow> int \<Rightarrow> bff_request \<Rightarrow> windows \<Rightarrow> (err, principal option) res \<times> windows" where
  "route_guards env now q m =
    (case gq_route q of
       LoginRoute _ \<Rightarrow>
         apfst (map_sum id (\<lambda>_. None)) (canActivate_login (ge_loginMax env) (ge_loginWindow env) now (gq_ip q) (gq_remoteAddress q) m)
     | RegisterRoute _ \<Rightarrow> (Inr None, m)
     | RefreshRoute _ \<Rightarrow> (Inr None, m)
     | r \<Rightarrow>
         (rbind (principal_guard (ge_auth env) (gq_authorization q) now) (\<lambda>p.
          if is_admin r then rbind (admin_guard (Some p)) (\<lambda>_. Inr (Some p)) else Inr (Some p)), m))"

definition bearer :: "string option \<Rightarrow> (gateway_error, string) res" where
  "bearer authorization =
    (case truthy authorization of
       None \<Rightarrow> Inl (InternalError ''Authenticated request has no Authorization header'')
     | Some v \<Rightarrow> Inr v)"

definition route_bearer :: "bff_request \<Rightarrow> (gateway_error, string) res" where
  "route_bearer q = (if is_public (gq_route q) \<or> gq_route q = Me \<or> gq_route q = AdminAccess then Inr [] else bearer (gq_authorization q))"

text \<open>The requests that are sent, the answer, and the windows of the login limit.\<close>

definition serve ::
  "gateway_env \<Rightarrow> int \<Rightarrow> bff_request \<Rightarrow> windows \<Rightarrow>
    upstream_request list \<times> (gateway_error, json) res \<times> windows" where
  "serve env now q m =
    (case route_guards env now q m of
       (Inl e, m') \<Rightarrow> ([], Inl (GuardRefused e), m')
     | (Inr user, m') \<Rightarrow>
         if \<not> list_all (ge_is_uuid env) (uuid_params (gq_route q)) then ([], Inl NotUuid, m')
         else case route_bearer q of
                Inl e \<Rightarrow> ([], Inl e, m')
              | Inr authorization \<Rightarrow>
                  (map (\<lambda>(s, path, opts). upstream_call env s path opts) (route_calls env authorization (gq_route q)),
                   route_answer env user authorization (gq_route q), m'))"

section \<open>What the gateway lets through\<close>

lemma guards_accept:
  assumes "route_guards env now q m = (Inr user, m')" "\<not> is_public (gq_route q)"
  shows "\<exists>h p. gq_authorization q = Some h \<and> h \<noteq> [] \<and> user = Some p \<and> principal_guard (ge_auth env) (Some h) now = Inr p \<and>
    (is_admin (gq_route q) \<longrightarrow> pr_role p = ''admin'')"
proof -
  from assms obtain p where p: "principal_guard (ge_auth env) (gq_authorization q) now = Inr p" "user = Some p"
    "is_admin (gq_route q) \<longrightarrow> admin_guard (Some p) = Inr True"
    by (cases "gq_route q") (auto simp: route_guards_def is_public_def admin_guard_def result_simps split: if_splits)
  then obtain h where h: "gq_authorization q = Some h"
    by (cases "gq_authorization q") (auto simp: principal_guard_def truthy_def split: option.splits)
  have "h \<noteq> []"
  proof
    assume "h = []"
    with h p(1) show False by (auto simp: principal_guard_def truthy_def bearer_token_def toLowerCase_def split: option.splits)
  qed
  with h p show ?thesis by (auto simp: admin_guard_def split: if_splits)
qed

lemma calls_carry_bearer:
  "(s, path, opts) \<in> set (route_calls env h r) \<Longrightarrow>
    uo_authorization opts = (if is_public r then None else Some h)"
  by (cases r) (auto simp: route_calls_simps is_public_def get_with_def post_with_def post_anonymous_def)

lemma calls_number: "length (route_calls env h r) \<le> (if r = Dashboard then 3 else 1)"
  by (cases r) (simp_all add: route_calls_simps)

definition tracing_headers :: "gateway_env \<Rightarrow> bool" where
  "tracing_headers env = list_all (\<lambda>h. fst h \<in> {''traceparent'', ''tracestate'', ''baggage''}) (ge_traceHeaders env)"

lemma tracing_header_absent:
  assumes "tracing_headers env" "k \<notin> {''traceparent'', ''tracestate'', ''baggage''}"
  shows "map_of (ge_traceHeaders env) k = None"
proof -
  have "k \<notin> fst ` set (ge_traceHeaders env)" using assms by (auto simp: tracing_headers_def list_all_iff)
  then show ?thesis by (simp add: map_of_eq_None_iff)
qed

lemma authorization_header:
  assumes "tracing_headers env"
  shows "map_of (upstream_headers env opts) ''authorization'' = truthy (uo_authorization opts)"
    "map_of (upstream_headers env opts) ''idempotency-key'' = truthy (uo_idempotencyKey opts)"
  using tracing_header_absent [OF assms, of "''authorization''"] tracing_header_absent [OF assms, of "''idempotency-key''"]
  by (auto simp: upstream_headers_def split: option.splits)

text \<open>A request that was sent, and the call that it comes from.\<close>

lemma serve_sends:
  assumes "serve env now q m = (sent, r, m')" "u \<in> set sent"
  shows "\<exists>user h s path opts. route_guards env now q m = (Inr user, m') \<and> list_all (ge_is_uuid env) (uuid_params (gq_route q)) \<and>
    route_bearer q = Inr h \<and> (s, path, opts) \<in> set (route_calls env h (gq_route q)) \<and> u = upstream_call env s path opts \<and>
    sent = map (\<lambda>(s, path, opts). upstream_call env s path opts) (route_calls env h (gq_route q)) \<and>
    r = route_answer env user h (gq_route q)"
  using assms by (fastforce simp: serve_def split: prod.splits sum.splits if_splits)

lemma single_answer:
  assumes "(s, path, opts) \<in> set (route_calls env h r)" "r \<noteq> Dashboard"
  shows "route_answer env user h r = upstream_outcome env s (ge_fetch env (upstream_call env s path opts))"
  using assms by (cases r) (auto simp: route_calls_simps route_answer_def answer_of_def)

lemma guards_agree:
  "principal_guard env (Some h) now = Inr p \<Longrightarrow> notifications_guard env (Some h) now = Inr p"
  by (auto simp: principal_guard_def notifications_guard_def split: option.splits)

text \<open>
  C33. What the gateway sends to the services. A request of the dashboard sends at most three, any other at
  most one, and only with parameters that are UUIDs. A request that needs a user is sent only if the access
  token is valid, to the administration only for an administrator, and carries the caller's own header, for
  which the notifications service finds the same user; a public one carries no credentials, and a login
  passes the limit first. The answer is that of the service, with its status if it is an error, and a
  transfer keeps its body and its idempotency key.
\<close>

theorem gateway_lets_through:
  assumes "serve env now q m = (sent, r, m')" "u \<in> set sent" "tracing_headers env"
  shows "length sent \<le> (if gq_route q = Dashboard then 3 else 1) \<and>
    list_all (ge_is_uuid env) (uuid_params (gq_route q)) \<and>
    (if is_public (gq_route q) then map_of (ur_headers u) ''authorization'' = None
     else \<exists>h p. gq_authorization q = Some h \<and> principal_guard (ge_auth env) (Some h) now = Inr p \<and>
       notifications_guard (ge_auth env) (Some h) now = Inr p \<and> (is_admin (gq_route q) \<longrightarrow> pr_role p = ''admin'') \<and>
       map_of (ur_headers u) ''authorization'' = Some h) \<and>
    (gq_route q \<noteq> Dashboard \<longrightarrow> (\<exists>s. r = upstream_outcome env s (ge_fetch env u))) \<and>
    (\<forall>body. gq_route q = LoginRoute body \<longrightarrow>
       is_ok (fst (canActivate_login (ge_loginMax env) (ge_loginWindow env) now (gq_ip q) (gq_remoteAddress q) m))) \<and>
    (\<forall>body key. gq_route q = CreateTransferRoute body (Some key) \<and> key \<noteq> [] \<longrightarrow>
       ur_method u = ''POST'' \<and> ur_body u = body \<and> map_of (ur_headers u) ''idempotency-key'' = Some key)"
proof -
  from serve_sends [OF assms(1,2)] obtain user h s path opts where
    g: "route_guards env now q m = (Inr user, m')" and ids: "list_all (ge_is_uuid env) (uuid_params (gq_route q))" and
    h: "route_bearer q = Inr h" and c: "(s, path, opts) \<in> set (route_calls env h (gq_route q))" and
    u: "u = upstream_call env s path opts" and
    sent: "sent = map (\<lambda>(s, path, opts). upstream_call env s path opts) (route_calls env h (gq_route q))" and
    r: "r = route_answer env user h (gq_route q)" by blast
  have headers: "map_of (ur_headers u) ''authorization'' = truthy (uo_authorization opts)"
    "map_of (ur_headers u) ''idempotency-key'' = truthy (uo_idempotencyKey opts)"
    by (simp_all add: u upstream_call_def authorization_header [OF assms(3)])
  have "length sent \<le> (if gq_route q = Dashboard then 3 else 1)"
    using calls_number [of env h "gq_route q"] by (simp add: sent)
  moreover have "map_of (ur_headers u) ''authorization'' = None" if "is_public (gq_route q)"
    using that calls_carry_bearer [OF c] by (simp add: headers truthy_def)
  moreover have "\<exists>h p. gq_authorization q = Some h \<and> principal_guard (ge_auth env) (Some h) now = Inr p \<and>
      notifications_guard (ge_auth env) (Some h) now = Inr p \<and> (is_admin (gq_route q) \<longrightarrow> pr_role p = ''admin'') \<and>
      map_of (ur_headers u) ''authorization'' = Some h" if priv: "\<not> is_public (gq_route q)"
  proof -
    from guards_accept [OF g priv] obtain h' p where p: "gq_authorization q = Some h'" "h' \<noteq> []"
      "principal_guard (ge_auth env) (Some h') now = Inr p" "is_admin (gq_route q) \<longrightarrow> pr_role p = ''admin''" by blast
    have "gq_route q \<noteq> Me" "gq_route q \<noteq> AdminAccess" using c by (auto simp: route_calls_simps)
    then have "h = h'" using h p priv by (simp add: route_bearer_def bearer_def truthy_def)
    with p calls_carry_bearer [OF c] priv guards_agree [OF p(3)] show ?thesis by (simp add: headers truthy_def)
  qed
  moreover have "\<exists>s. r = upstream_outcome env s (ge_fetch env u)" if "gq_route q \<noteq> Dashboard"
    using single_answer [OF c that] by (auto simp: r u)
  moreover have "is_ok (fst (canActivate_login (ge_loginMax env) (ge_loginWindow env) now (gq_ip q) (gq_remoteAddress q) m))"
    if "gq_route q = LoginRoute body" for body
    using g that
    by (cases "canActivate_login (ge_loginMax env) (ge_loginWindow env) now (gq_ip q) (gq_remoteAddress q) m")
      (auto simp: route_guards_def is_ok_def split: sum.splits)
  moreover have "ur_method u = ''POST'' \<and> ur_body u = body \<and> map_of (ur_headers u) ''idempotency-key'' = Some key"
    if "gq_route q = CreateTransferRoute body (Some key)" "key \<noteq> []" for body key
    using c that by (auto simp: route_calls_simps post_with_def truthy_def u upstream_call_def authorization_header [OF assms(3)])
  ultimately show ?thesis using ids by simp
qed

text \<open>A transfer whose caller has a valid token, before a payments service that refuses it.\<close>

definition ex_gateway_env :: gateway_env where
  "ex_gateway_env =
    \<lparr>ge_auth = \<lparr>ae_accessSecret = Some ''s'', ae_refreshSecret = None, ae_accessTtl = None, ae_refreshTtl = None,
       ae_hash = (\<lambda>_ t. t), ae_compare = (=), ae_sign = (\<lambda>_ _ _ _. ''t''),
       ae_verify = (\<lambda>s t _. if s = ''s'' \<and> t = ''t''
         then Some (JObj [(''sub'', JStr ''u1''), (''email'', JStr ''a@x''), (''role'', JStr ''user'')]) else None)\<rparr>,
     ge_urls = (\<lambda>_. None), ge_correlationId = Some ''c1'', ge_traceHeaders = [(''traceparent'', ''00-1'')],
     ge_fetch = (\<lambda>_. FetchAnswered 409 []), ge_json_parse = (\<lambda>_. None), ge_number_text = (\<lambda>_. []),
     ge_is_uuid = (\<lambda>_. False), ge_query_text = (\<lambda>_. []), ge_arrival = [0, 1, 2],
     ge_loginMax = JsFin 10, ge_loginWindow = JsFin 60000\<rparr>"

definition ex_transfer_request :: bff_request where
  "ex_transfer_request =
    \<lparr>gq_route = CreateTransferRoute (Some (JObj [])) (Some ''k1''), gq_authorization = Some ''Bearer t'',
     gq_ip = None, gq_remoteAddress = None\<rparr>"

definition ex_forwarded :: upstream_request where
  "ex_forwarded = upstream_call ex_gateway_env UpPayments ''/transfers'' (post_with ''Bearer t'' (Some (JObj [])) (Some ''k1''))"

lemma ex_served:
  "serve ex_gateway_env 0 ex_transfer_request [] =
    ([ex_forwarded], Inl (HttpException (JObj [(''message'', JStr ''null'')]) 409), [])"
proof -
  have "bearer_token ''Bearer t'' = Some ''t''"
    by code_simp
  then have "principal_guard (ge_auth ex_gateway_env) (Some ''Bearer t'') 0 =
      Inr \<lparr>pr_userId = ''u1'', pr_email = ''a@x'', pr_role = ''user''\<rparr>"
    by (simp add: principal_guard_def ex_gateway_env_def truthy_def check_token_def read_principal_def jget_def jstring_def)
  then have "route_guards ex_gateway_env 0 ex_transfer_request [] =
      (Inr (Some \<lparr>pr_userId = ''u1'', pr_email = ''a@x'', pr_role = ''user''\<rparr>), [])"
    by (simp add: route_guards_def ex_transfer_request_def is_admin_def)
  then show ?thesis
    by (simp add: serve_def)
      (simp add: ex_transfer_request_def uuid_params_def route_bearer_def is_public_def bearer_def truthy_def route_calls_simps
        ex_forwarded_def route_answer_def answer_of_def upstream_outcome_def ex_gateway_env_def exceptionBody_def)
qed

theorem gateway_lets_through_witness:
  "serve ex_gateway_env 0 ex_transfer_request [] =
     ([ex_forwarded], Inl (HttpException (JObj [(''message'', JStr ''null'')]) 409), []) \<and>
   map_of (ur_headers ex_forwarded) ''authorization'' = Some ''Bearer t'' \<and>
   map_of (ur_headers ex_forwarded) ''idempotency-key'' = Some ''k1'' \<and> ur_method ex_forwarded = ''POST''"
proof -
  have "tracing_headers ex_gateway_env" by (simp add: tracing_headers_def ex_gateway_env_def)
  note t = gateway_lets_through [OF ex_served _ this, of ex_forwarded]
  have "gq_route ex_transfer_request = CreateTransferRoute (Some (JObj [])) (Some ''k1'')"
    "gq_authorization ex_transfer_request = Some ''Bearer t''" "\<not> is_public (gq_route ex_transfer_request)"
    by (simp_all add: ex_transfer_request_def is_public_def)
  with t show ?thesis by (simp add: ex_served) (elim exE conjE, assumption)
qed

end
