(* ===== verification/Broker_Connection.thy ===== *)
theory Broker_Connection
  imports Prelude
begin

text \<open>
  The connection of the notifications consumer to the broker: bootstrap, shutdown,
  \<^verbatim>\<open>connectOrSchedule\<close>, \<^verbatim>\<open>configure\<close>, \<^verbatim>\<open>handleDisconnect\<close> and \<^verbatim>\<open>scheduleReconnect\<close> of
  \<^verbatim>\<open>messaging/rabbitmq-consumer.service.ts\<close>, as a state machine.

  \<^verbatim>\<open>connectOrSchedule\<close> is cut at its awaits: \<open>rc_task\<close> says where the one running call is suspended, and
  one definition models each continuation, up to the next await. The fields of the service are the first
  record; the second adds the suspended call and what the broker and the client library keep: the open
  connections, those with a \<^verbatim>\<open>close\<close> listener, those whose \<^verbatim>\<open>close()\<close> has been called, those whose
  consumer the broker has cancelled, and the requests accepted on the channel.

  Of the client library and the event loop the step relation takes this: a request is answered only on an
  open connection; the \<^verbatim>\<open>close\<close> event is emitted once, when the connection ends, and \<^verbatim>\<open>close()\<close> settles
  only afterwards; continuations run before the next timer, but a connection can end in the same turn in
  which an answer arrives, and then the listener runs before the continuation.
\<close>

section \<open>The state\<close>

record conn_config =
  cf_exchange :: string
  cf_queue :: string
  cf_prefetch :: nat
  cf_base :: nat
  cf_maximum :: nat

datatype broker_op =
    AssertExchange string
  | AssertQueue string "string option"
  | BindQueue string string string
  | Prefetch nat
  | ConsumeFrom string

datatype connect_task =
    NotRunning
  | AwaitsConnection
  | AwaitsRefusal nat
  | AwaitsChannel nat
  | AwaitsAnswer nat "broker_op list"
  | AwaitsCleanup nat

record rabbit_consumer =
  rc_connection :: "nat option"
  rc_channel :: "nat option"
  rc_reconnectTimer :: "nat option"
  rc_reconnectAttempt :: nat
  rc_connecting :: bool
  rc_stopped :: bool

record consumer_world = rabbit_consumer +
  rc_task :: connect_task
  br_open :: "nat list"
  br_listening :: "nat list"
  br_closing :: "nat list"
  br_cancelled :: "nat list"
  br_accepted :: "broker_op list"
  br_next :: nat

definition new_consumer :: consumer_world where
  "new_consumer =
    \<lparr>rc_connection = None, rc_channel = None, rc_reconnectTimer = None, rc_reconnectAttempt = 0,
     rc_connecting = False, rc_stopped = False, rc_task = NotRunning, br_open = [], br_listening = [],
     br_closing = [], br_cancelled = [], br_accepted = [], br_next = 0\<rparr>"

section \<open>The code\<close>

definition reconnect_delay :: "conn_config \<Rightarrow> nat \<Rightarrow> nat" where
  "reconnect_delay cfg attempt = min (cf_base cfg * 2 ^ (attempt - 1)) (cf_maximum cfg)"

definition scheduleReconnect :: "conn_config \<Rightarrow> consumer_world \<Rightarrow> consumer_world" where
  "scheduleReconnect cfg w =
    (if rc_stopped w \<or> rc_reconnectTimer w \<noteq> None then w
     else let attempt = rc_reconnectAttempt w + 1
          in w\<lparr>rc_reconnectAttempt := attempt, rc_reconnectTimer := Some (reconnect_delay cfg attempt)\<rparr>)"

definition handleDisconnect :: "conn_config \<Rightarrow> consumer_world \<Rightarrow> consumer_world" where
  "handleDisconnect cfg w =
    (let w = w\<lparr>rc_connection := None, rc_channel := None\<rparr>
     in if \<not> rc_stopped w then scheduleReconnect cfg w else w)"

definition configure_ops :: "conn_config \<Rightarrow> broker_op list" where
  "configure_ops cfg =
    (let exchange = cf_exchange cfg; queue = cf_queue cfg;
         deadLetterExchange = exchange @ ''.dead-letter'';
         deadLetterQueue = queue @ ''.dead-letter''
     in [AssertExchange exchange,
         AssertExchange deadLetterExchange,
         AssertQueue deadLetterQueue None,
         BindQueue deadLetterQueue deadLetterExchange ''#'',
         AssertQueue queue (Some deadLetterExchange),
         BindQueue queue exchange ''ledger.#'',
         BindQueue queue exchange ''payments.#'',
         Prefetch (cf_prefetch cfg),
         ConsumeFrom queue])"

text \<open>The beginning of \<^verbatim>\<open>connectOrSchedule\<close>, up to the call of the connector.\<close>

definition connectOrSchedule :: "consumer_world \<Rightarrow> consumer_world" where
  "connectOrSchedule w =
    (if rc_stopped w \<or> rc_connecting w \<or> rc_connection w \<noteq> None then w
     else w\<lparr>rc_connecting := True, rc_task := AwaitsConnection\<rparr>)"

text \<open>The continuation of \<^verbatim>\<open>connector.connect\<close>, with the connection \<open>c\<close>.\<close>

definition after_connect :: "nat \<Rightarrow> consumer_world \<Rightarrow> consumer_world" where
  "after_connect c w =
    (if rc_stopped w then w\<lparr>br_closing := c # br_closing w, rc_task := AwaitsRefusal c\<rparr>
     else w\<lparr>rc_connection := Some c, br_listening := c # br_listening w, rc_task := AwaitsChannel c\<rparr>)"

text \<open>The \<^verbatim>\<open>finally\<close> block.\<close>

definition leave_connect :: "consumer_world \<Rightarrow> consumer_world" where
  "leave_connect w = w\<lparr>rc_connecting := False, rc_task := NotRunning\<rparr>"

definition after_channel :: "conn_config \<Rightarrow> nat \<Rightarrow> consumer_world \<Rightarrow> consumer_world" where
  "after_channel cfg c w =
    w\<lparr>rc_channel := Some c, br_accepted := [], rc_task := AwaitsAnswer c (configure_ops cfg)\<rparr>"

text \<open>An answer to the request \<open>r\<close> of \<^verbatim>\<open>configure\<close>; after the last one \<^verbatim>\<open>connectOrSchedule\<close> succeeds.\<close>

definition after_answer :: "nat \<Rightarrow> broker_op \<Rightarrow> broker_op list \<Rightarrow> consumer_world \<Rightarrow> consumer_world" where
  "after_answer c r rs w =
    (let w = w\<lparr>br_accepted := br_accepted w @ [r]\<rparr>
     in if rs = [] then leave_connect (w\<lparr>rc_reconnectAttempt := 0\<rparr>) else w\<lparr>rc_task := AwaitsAnswer c rs\<rparr>)"

text \<open>The \<^verbatim>\<open>catch\<close> block up to the closing of the failed connection, and from there on.\<close>

definition after_cleanup :: "conn_config \<Rightarrow> consumer_world \<Rightarrow> consumer_world" where
  "after_cleanup cfg w = leave_connect (scheduleReconnect cfg w)"

definition connect_failed :: "conn_config \<Rightarrow> consumer_world \<Rightarrow> consumer_world" where
  "connect_failed cfg w =
    (let failedConnection = rc_connection w; w = w\<lparr>rc_connection := None, rc_channel := None\<rparr>
     in case failedConnection of
          None \<Rightarrow> after_cleanup cfg w
        | Some c \<Rightarrow> w\<lparr>br_closing := c # br_closing w, rc_task := AwaitsCleanup c\<rparr>)"

definition timer_fired :: "consumer_world \<Rightarrow> consumer_world" where
  "timer_fired w = connectOrSchedule (w\<lparr>rc_reconnectTimer := None\<rparr>)"

definition consumer_bootstrap :: "bool \<Rightarrow> consumer_world \<Rightarrow> consumer_world" where
  "consumer_bootstrap enabled w = (if \<not> enabled then w else connectOrSchedule (w\<lparr>rc_stopped := False\<rparr>))"

definition consumer_shutdown :: "consumer_world \<Rightarrow> consumer_world" where
  "consumer_shutdown w =
    w\<lparr>rc_stopped := True, rc_reconnectTimer := None, rc_channel := None, rc_connection := None,
      br_closing := (case rc_connection w of None \<Rightarrow> br_closing w | Some c \<Rightarrow> c # br_closing w)\<rparr>"

section \<open>Steps\<close>

definition open_connection :: "consumer_world \<Rightarrow> consumer_world" where
  "open_connection w = w\<lparr>br_open := br_next w # br_open w, br_next := br_next w + 1\<rparr>"

definition connection_ends :: "conn_config \<Rightarrow> nat \<Rightarrow> consumer_world \<Rightarrow> consumer_world" where
  "connection_ends cfg c w =
    (let w' = w\<lparr>br_open := removeAll c (br_open w), br_listening := removeAll c (br_listening w)\<rparr>
     in if c \<in> set (br_listening w) then handleDisconnect cfg w' else w')"

datatype conn_event =
    Connected | ConnectedAndEnded | ConnectRefused
  | Answered | AnsweredAndEnded | RequestFailed
  | ConnectionEnds nat | CloseSettled | TimerFires | ShutsDown | ConsumerCancelled nat

text \<open>
  The last rule is the delivery of \<^verbatim>\<open>null\<close>, by which the client library reports that the broker has
  cancelled the consumer; \<^verbatim>\<open>consume\<close> returns at once, so the service does not change.
\<close>

inductive consumer_step :: "conn_config \<Rightarrow> conn_event \<Rightarrow> consumer_world \<Rightarrow> consumer_world \<Rightarrow> bool" for cfg where
  connected: "rc_task w = AwaitsConnection \<Longrightarrow>
    consumer_step cfg Connected w (after_connect (br_next w) (open_connection w))"
| connected_and_ended: "rc_task w = AwaitsConnection \<Longrightarrow>
    consumer_step cfg ConnectedAndEnded w
      (after_connect (br_next w) (connection_ends cfg (br_next w) (open_connection w)))"
| connect_refused: "rc_task w = AwaitsConnection \<Longrightarrow> consumer_step cfg ConnectRefused w (connect_failed cfg w)"
| channel_opened: "rc_task w = AwaitsChannel c \<Longrightarrow> c \<in> set (br_open w) \<Longrightarrow>
    consumer_step cfg Answered w (after_channel cfg c w)"
| channel_opened_and_ended: "rc_task w = AwaitsChannel c \<Longrightarrow> c \<in> set (br_open w) \<Longrightarrow>
    consumer_step cfg AnsweredAndEnded w (after_channel cfg c (connection_ends cfg c w))"
| answered: "rc_task w = AwaitsAnswer c (r # rs) \<Longrightarrow> c \<in> set (br_open w) \<Longrightarrow>
    consumer_step cfg Answered w (after_answer c r rs w)"
| answered_and_ended: "rc_task w = AwaitsAnswer c (r # rs) \<Longrightarrow> c \<in> set (br_open w) \<Longrightarrow>
    consumer_step cfg AnsweredAndEnded w (after_answer c r rs (connection_ends cfg c w))"
| channel_failed: "rc_task w = AwaitsChannel c \<Longrightarrow> consumer_step cfg RequestFailed w (connect_failed cfg w)"
| request_failed: "rc_task w = AwaitsAnswer c rs \<Longrightarrow> consumer_step cfg RequestFailed w (connect_failed cfg w)"
| connection_ended: "c \<in> set (br_open w) \<Longrightarrow> consumer_step cfg (ConnectionEnds c) w (connection_ends cfg c w)"
| refusal_settled: "rc_task w = AwaitsRefusal c \<Longrightarrow> c \<notin> set (br_open w) \<Longrightarrow>
    consumer_step cfg CloseSettled w (leave_connect w)"
| cleanup_settled: "rc_task w = AwaitsCleanup c \<Longrightarrow> c \<notin> set (br_open w) \<Longrightarrow>
    consumer_step cfg CloseSettled w (after_cleanup cfg w)"
| timer: "rc_reconnectTimer w = Some d \<Longrightarrow> consumer_step cfg TimerFires w (timer_fired w)"
| shutdown: "\<not> rc_stopped w \<Longrightarrow> consumer_step cfg ShutsDown w (consumer_shutdown w)"
| cancelled: "rc_connection w = Some c \<Longrightarrow> rc_task w = NotRunning \<Longrightarrow>
    consumer_step cfg (ConsumerCancelled c) w (w\<lparr>br_cancelled := c # br_cancelled w\<rparr>)"

inductive consumer_reachable :: "conn_config \<Rightarrow> consumer_world \<Rightarrow> bool" for cfg where
  start: "consumer_reachable cfg (consumer_bootstrap True new_consumer)"
| step: "consumer_reachable cfg w \<Longrightarrow> consumer_step cfg e w w' \<Longrightarrow> consumer_reachable cfg w'"

text \<open>The consumer is attached to the queue: connected, configured, the connection alive.\<close>

definition attached :: "conn_config \<Rightarrow> consumer_world \<Rightarrow> bool" where
  "attached cfg w =
    (case rc_connection w of
       None \<Rightarrow> False
     | Some c \<Rightarrow> rc_task w = NotRunning \<and> rc_channel w = Some c \<and> br_open w = [c] \<and>
                br_accepted w = configure_ops cfg)"

text \<open>
  What happens when the broker is well: it accepts connections and requests, and connections end only if
  their closing was asked for. A request on a connection that has ended fails.
\<close>

definition broker_is_well :: "conn_event \<Rightarrow> consumer_world \<Rightarrow> bool" where
  "broker_is_well e w =
    (case e of
       Connected \<Rightarrow> True | Answered \<Rightarrow> True | CloseSettled \<Rightarrow> True | TimerFires \<Rightarrow> True
     | RequestFailed \<Rightarrow> br_open w = []
     | ConnectionEnds c \<Rightarrow> c \<in> set (br_closing w)
     | _ \<Rightarrow> False)"

definition well_step :: "conn_config \<Rightarrow> consumer_world \<Rightarrow> consumer_world \<Rightarrow> bool" where
  "well_step cfg w w' \<longleftrightarrow> (\<exists>e. consumer_step cfg e w w' \<and> broker_is_well e w)"

section \<open>The invariant\<close>

lemmas consumer_code =
  scheduleReconnect_def handleDisconnect_def connectOrSchedule_def after_connect_def leave_connect_def
  after_channel_def after_answer_def after_cleanup_def connect_failed_def timer_fired_def
  consumer_shutdown_def open_connection_def connection_ends_def Let_def

text \<open>The connection \<open>c\<close> of a running \<^verbatim>\<open>connectOrSchedule\<close>: alive and registered, or ended.\<close>

definition own_connection :: "nat \<Rightarrow> consumer_world \<Rightarrow> bool" where
  "own_connection c w \<longleftrightarrow>
    rc_connection w \<in> {None, Some c} \<and> c \<notin> set (br_closing w) \<and>
    (br_open w = [c] \<and> rc_connection w = Some c \<and> c \<in> set (br_listening w) \<or> br_open w = [])"

definition task_inv :: "conn_config \<Rightarrow> consumer_world \<Rightarrow> bool" where
  "task_inv cfg w =
    (case rc_task w of
       NotRunning \<Rightarrow>
         \<not> rc_connecting w \<and>
         (rc_connection w = None \<and> br_open w = [] \<and> rc_reconnectTimer w \<noteq> None \<or>
          attached cfg w \<and> set (br_open w) \<subseteq> set (br_listening w) - set (br_closing w))
     | AwaitsConnection \<Rightarrow> rc_connecting w \<and> rc_connection w = None \<and> br_open w = []
     | AwaitsRefusal c \<Rightarrow> False
     | AwaitsChannel c \<Rightarrow> rc_connecting w \<and> own_connection c w
     | AwaitsAnswer c rs \<Rightarrow>
         rc_connecting w \<and> own_connection c w \<and> rs \<noteq> [] \<and> br_accepted w @ rs = configure_ops cfg \<and>
         (br_open w = [c] \<longrightarrow> rc_channel w = Some c)
     | AwaitsCleanup c \<Rightarrow>
         rc_connecting w \<and> rc_connection w = None \<and>
         (br_open w = [c] \<and> c \<in> set (br_listening w) \<and> c \<in> set (br_closing w) \<or> br_open w = []))"

definition stopped_inv :: "consumer_world \<Rightarrow> bool" where
  "stopped_inv w \<longleftrightarrow>
    rc_reconnectTimer w = None \<and> rc_connection w = None \<and>
    length (br_open w) \<le> 1 \<and> set (br_open w) \<subseteq> set (br_closing w) \<and>
    (rc_task w = AwaitsConnection \<longrightarrow> br_open w = []) \<and> (rc_task w = NotRunning \<longrightarrow> \<not> rc_connecting w)"

definition delay_inv :: "conn_config \<Rightarrow> consumer_world \<Rightarrow> bool" where
  "delay_inv cfg w \<longleftrightarrow>
    (\<forall>d. rc_reconnectTimer w = Some d \<longrightarrow>
      d \<le> cf_maximum cfg \<and> (cf_base cfg \<le> cf_maximum cfg \<longrightarrow> cf_base cfg \<le> d))"

definition ids_inv :: "consumer_world \<Rightarrow> bool" where
  "ids_inv w \<longleftrightarrow> (\<forall>c \<in> set (br_closing w). c < br_next w) \<and> (\<forall>c \<in> set (br_listening w). c < br_next w) \<and>
    (\<forall>c. rc_connection w = Some c \<longrightarrow> c < br_next w)"

definition conn_inv :: "conn_config \<Rightarrow> consumer_world \<Rightarrow> bool" where
  "conn_inv cfg w \<longleftrightarrow> ids_inv w \<and> delay_inv cfg w \<and> (if rc_stopped w then stopped_inv w else task_inv cfg w)"

lemma reconnect_delay_bounds:
  "reconnect_delay cfg n \<le> cf_maximum cfg"
  "cf_base cfg \<le> cf_maximum cfg \<Longrightarrow> cf_base cfg \<le> reconnect_delay cfg n"
  by (simp_all add: reconnect_delay_def)

lemma ids_step: "consumer_step cfg e w w' \<Longrightarrow> ids_inv w \<Longrightarrow> ids_inv w'"
  by (induction rule: consumer_step.induct)
    (auto simp: ids_inv_def consumer_code less_Suc_eq split: option.splits)

lemma delay_step: "consumer_step cfg e w w' \<Longrightarrow> delay_inv cfg w \<Longrightarrow> delay_inv cfg w'"
  by (induction rule: consumer_step.induct)
    (auto simp: delay_inv_def consumer_code reconnect_delay_bounds split: option.splits)

lemma stopped_step:
  "consumer_step cfg e w w' \<Longrightarrow> rc_stopped w \<Longrightarrow> stopped_inv w \<Longrightarrow> rc_stopped w' \<and> stopped_inv w'"
  by (induction rule: consumer_step.induct)
    (auto simp: stopped_inv_def consumer_code intro: le_trans [OF length_removeAll_less_eq] split: option.splits)

lemma shutdown_stopped_inv:
  assumes "task_inv cfg w"
  shows "stopped_inv (consumer_shutdown w)"
  using assms
  by (auto simp: task_inv_def stopped_inv_def consumer_shutdown_def own_connection_def attached_def
      split: connect_task.splits option.splits)

lemma running_step:
  "consumer_step cfg e w w' \<Longrightarrow> \<not> rc_stopped w \<Longrightarrow> task_inv cfg w \<Longrightarrow> ids_inv w \<Longrightarrow> e \<noteq> ShutsDown \<Longrightarrow>
    \<not> rc_stopped w' \<and> task_inv cfg w'"
proof (induction rule: consumer_step.induct)
  case (answered w c r rs)
  then show ?case
    by (auto simp: task_inv_def own_connection_def attached_def consumer_code)
next
  case (answered_and_ended w c r rs)
  then show ?case
    by (auto simp: task_inv_def own_connection_def attached_def consumer_code)
next
  case (connection_ended c w)
  then show ?case
    by (auto simp: task_inv_def own_connection_def attached_def consumer_code split: connect_task.splits option.splits)
next
  case (timer w d)
  then show ?case
    by (auto simp: task_inv_def own_connection_def attached_def consumer_code split: connect_task.splits option.splits)
next
  case (cancelled w c)
  then show ?case by (auto simp: task_inv_def attached_def)
qed (auto simp: task_inv_def own_connection_def ids_inv_def configure_ops_def consumer_code split: option.splits)

lemma conn_inv_step:
  assumes "consumer_step cfg e w w'" and "conn_inv cfg w"
  shows "conn_inv cfg w'"
proof (cases "rc_stopped w \<or> e \<noteq> ShutsDown")
  case True
  then show ?thesis
    using assms ids_step delay_step stopped_step running_step unfolding conn_inv_def by (metis (full_types))
next
  case False
  then have "w' = consumer_shutdown w" using assms(1) by (auto elim: consumer_step.cases)
  then show ?thesis
    using assms False ids_step delay_step shutdown_stopped_inv
    unfolding conn_inv_def by (auto simp: consumer_shutdown_def)
qed

theorem reachable_conn_inv: "consumer_reachable cfg w \<Longrightarrow> conn_inv cfg w"
proof (induction rule: consumer_reachable.induct)
  case start
  then show ?case
    by (simp add: conn_inv_def ids_inv_def delay_inv_def task_inv_def consumer_bootstrap_def new_consumer_def
        connectOrSchedule_def)
next
  case (step w e w')
  then show ?case using conn_inv_step by blast
qed

section \<open>Recovery\<close>

text \<open>A bound on the steps until the consumer is attached, if the broker is well.\<close>

definition distance :: "conn_config \<Rightarrow> consumer_world \<Rightarrow> nat" where
  "distance cfg w =
    (case rc_reconnectTimer w of None \<Rightarrow> 0 | Some d \<Rightarrow> 1) +
    (case rc_task w of
       NotRunning \<Rightarrow> if rc_connection w = None then 14 else 0
     | AwaitsConnection \<Rightarrow> 12
     | AwaitsRefusal c \<Rightarrow> 0
     | AwaitsChannel c \<Rightarrow> if br_open w = [] then 21 else 10
     | AwaitsAnswer c rs \<Rightarrow> if br_open w = [] then 21 else length rs
     | AwaitsCleanup c \<Rightarrow> if br_open w = [] then 16 else 18)"

lemma distance_bound:
  assumes "task_inv cfg w"
  shows "distance cfg w \<le> 22"
proof -
  have "length rs \<le> 9" if "rc_task w = AwaitsAnswer c rs" for c rs
  proof -
    from that assms have "br_accepted w @ rs = configure_ops cfg" by (simp add: task_inv_def)
    then have "length (br_accepted w) + length rs = length (configure_ops cfg)" by (metis length_append)
    then show ?thesis by (simp add: configure_ops_def Let_def)
  qed
  then show ?thesis by (auto simp: distance_def split: connect_task.split option.split)
qed

lemma well_step_keeps:
  assumes "well_step cfg w w'" and "conn_inv cfg w" and "\<not> rc_stopped w"
  shows "conn_inv cfg w'" and "\<not> rc_stopped w'"
proof -
  from assms(1) obtain e where e: "consumer_step cfg e w w'" "broker_is_well e w" by (auto simp: well_step_def)
  then have "e \<noteq> ShutsDown" by (auto simp: broker_is_well_def)
  with e assms show "conn_inv cfg w'" and "\<not> rc_stopped w'"
    using conn_inv_step running_step by (auto simp: conn_inv_def)
qed

lemma well_step_decreases:
  assumes "consumer_step cfg e w w'" and "broker_is_well e w" and "\<not> rc_stopped w" and "task_inv cfg w"
  shows "distance cfg w' < distance cfg w"
  using assms
proof (induction rule: consumer_step.induct)
  case (answered w c r rs)
  then show ?case
    by (auto simp: task_inv_def own_connection_def distance_def consumer_code split: option.splits)
next
  case (connection_ended c w)
  then show ?case
    by (auto simp: broker_is_well_def task_inv_def own_connection_def attached_def distance_def consumer_code
        split: connect_task.splits option.splits if_splits)
next
  case (timer w d)
  then show ?case
    by (auto simp: task_inv_def own_connection_def attached_def distance_def consumer_code
        split: connect_task.splits option.splits)
qed (auto simp: broker_is_well_def task_inv_def own_connection_def configure_ops_def distance_def consumer_code
    split: option.splits)

lemma unattached_not_stuck:
  assumes "conn_inv cfg w" and "\<not> rc_stopped w" and "\<not> attached cfg w"
  shows "\<exists>w'. well_step cfg w w'"
proof -
  have inv: "task_inv cfg w" using assms by (simp add: conn_inv_def)
  have well: "\<exists>w'. well_step cfg w w'" if "consumer_step cfg e w w'" "broker_is_well e w" for e w'
    using that by (auto simp: well_step_def)
  show ?thesis
  proof (cases "rc_task w")
    case NotRunning
    then obtain d where "rc_reconnectTimer w = Some d" using inv assms(3) by (auto simp: task_inv_def)
    from well [OF consumer_step.timer [OF this]] show ?thesis by (simp add: broker_is_well_def)
  next
    case AwaitsConnection
    from well [OF consumer_step.connected [OF this]] show ?thesis by (simp add: broker_is_well_def)
  next
    case (AwaitsRefusal c)
    then show ?thesis using inv by (simp add: task_inv_def)
  next
    case (AwaitsChannel c)
    then have "br_open w = [c] \<or> br_open w = []" using inv by (auto simp: task_inv_def own_connection_def)
    then show ?thesis
      using well [OF consumer_step.channel_opened [OF AwaitsChannel]] well [OF consumer_step.channel_failed [OF AwaitsChannel]]
      by (auto simp: broker_is_well_def)
  next
    case (AwaitsAnswer c rs)
    then obtain r rs' where rs: "rs = r # rs'" using inv by (cases rs) (auto simp: task_inv_def)
    have "br_open w = [c] \<or> br_open w = []" using AwaitsAnswer inv by (auto simp: task_inv_def own_connection_def)
    then show ?thesis
      using well [OF consumer_step.answered [OF AwaitsAnswer [unfolded rs]]]
        well [OF consumer_step.request_failed [OF AwaitsAnswer]]
      by (auto simp: broker_is_well_def)
  next
    case (AwaitsCleanup c)
    then have "br_open w = [c] \<and> c \<in> set (br_closing w) \<or> br_open w = []" using inv by (auto simp: task_inv_def)
    then show ?thesis
      using well [OF consumer_step.connection_ended [of c]] well [OF consumer_step.cleanup_settled [OF AwaitsCleanup]]
      by (auto simp: broker_is_well_def)
  qed
qed

lemma well_run:
  assumes "(well_step cfg ^^ n) w w'" and "conn_inv cfg w" and "\<not> rc_stopped w"
  shows "conn_inv cfg w' \<and> \<not> rc_stopped w' \<and> n + distance cfg w' \<le> distance cfg w"
  using assms(1)
proof (induction n arbitrary: w')
  case 0
  then show ?case using assms by simp
next
  case (Suc n)
  then obtain v where v: "(well_step cfg ^^ n) w v" "well_step cfg v w'" by auto
  then have v': "conn_inv cfg v" "\<not> rc_stopped v" "n + distance cfg v \<le> distance cfg w" using Suc.IH by auto
  then have "distance cfg w' < distance cfg v"
    using v(2) well_step_decreases by (auto simp: well_step_def conn_inv_def)
  with v' v(2) well_step_keeps show ?case by fastforce
qed


text \<open>A connection that ends in the turn in which the channel is opened, with the default settings.\<close>

definition ex_conn_config :: conn_config where
  "ex_conn_config =
    \<lparr>cf_exchange = ''p2p.domain-events'', cf_queue = ''notifications.domain-events.v1'', cf_prefetch = 20,
     cf_base = 500, cf_maximum = 30000\<rparr>"

definition ex_cut_off :: consumer_world where
  "ex_cut_off = after_channel ex_conn_config 0 (connection_ends ex_conn_config 0
    (after_connect 0 (open_connection (consumer_bootstrap True new_consumer))))"

lemma ex_cut_off_reachable: "consumer_reachable ex_conn_config ex_cut_off"
proof -
  define w where "w = consumer_bootstrap True new_consumer"
  have "consumer_step ex_conn_config Connected w (after_connect (br_next w) (open_connection w))"
    by (rule consumer_step.connected) (simp add: w_def consumer_bootstrap_def new_consumer_def consumer_code)
  moreover have "br_next w = 0" by (simp add: w_def consumer_bootstrap_def new_consumer_def consumer_code)
  ultimately have "consumer_reachable ex_conn_config (after_connect 0 (open_connection w))"
    using consumer_reachable.step [OF consumer_reachable.start] by (simp add: w_def)
  then show ?thesis
    unfolding ex_cut_off_def w_def
    by (rule consumer_reachable.step [OF _ consumer_step.channel_opened_and_ended])
      (simp_all add: consumer_bootstrap_def new_consumer_def consumer_code)
qed


section \<open>A cancelled consumer\<close>

text \<open>
  The broker cancels a consumer when its queue is deleted or moves, and tells the service by delivering
  \<^verbatim>\<open>null\<close>. The service ignores it: whatever happens, until the connection itself ends or the service is
  shut down, it keeps the connection whose consumer is gone and starts nothing that would subscribe again.
\<close>

theorem cancelled_consumer_stays_silent:
  assumes "consumer_reachable cfg w" "consumer_step cfg e w w'" "e \<noteq> ConnectionEnds c" "e \<noteq> ShutsDown"
    and "rc_task w = NotRunning" "rc_connection w = Some c" "c \<in> set (br_cancelled w)"
  shows "rc_task w' = NotRunning \<and> rc_connection w' = Some c \<and> c \<in> set (br_cancelled w')"
proof -
  have "set (br_open w) \<subseteq> {c}"
    using reachable_conn_inv [OF assms(1)] assms(5,6)
    by (auto simp: conn_inv_def stopped_inv_def task_inv_def attached_def split: if_splits)
  with assms(2-) show ?thesis by (induction rule: consumer_step.induct) (auto simp: consumer_code)
qed

end
