(* ===== verification/Message_Publisher.thy ===== *)
theory Message_Publisher
  imports Payments_Outbox
begin

text \<open>
  The way of a message from the outbox to the broker: \<^verbatim>\<open>messaging/message-publisher.ts\<close> (the cached
  connection and channel, the publication with publisher confirms) and the poll of
  \<^verbatim>\<open>messaging/outbox.service.ts\<close> around it, as a step relation of any number of workers on one table.

  The broker and its client library are the answers in \<open>publish_env\<close>: an error of a request, or none; and
  what becomes of a publication. With the confirm of the broker the message is stored there; otherwise it
  may or may not be. The ledger service and the payments service have the publisher in copies that differ only
  in the name of the tracer; what both promise is proved in a locale over their outboxes.
\<close>

section \<open>The publisher\<close>

record amqp_message =
  am_exchange :: string
  am_routingKey :: string
  am_content :: json
  am_persistent :: bool
  am_messageId :: "json option"
  am_type :: "json option"
  am_timestamp :: "int option"
  am_headers :: "(string \<times> json option) list"

text \<open>What the broker makes of a publication: confirmed, refused or not answered (and stored or not), or not sent.\<close>

datatype publish_answer = Confirmed | Unconfirmed string bool | NotSent string

record publish_env =
  pe_exchange :: string
  pe_carrier :: trace_context
  pe_js_date :: "string \<Rightarrow> int option"
  pe_connect :: "string option"
  pe_channel :: "string option"
  pe_assert :: "string option"
  pe_answer :: publish_answer

record rabbit_publisher =
  mp_connection :: "nat option"
  mp_channel :: "nat option"
  mp_open :: "nat list"
  mp_next :: nat

definition new_publisher :: rabbit_publisher where
  "new_publisher = \<lparr>mp_connection = None, mp_channel = None, mp_open = [], mp_next = 0\<rparr>"

definition getChannel :: "publish_env \<Rightarrow> rabbit_publisher \<Rightarrow> (string, nat) res \<times> rabbit_publisher" where
  "getChannel env p =
    (case mp_channel p of
       Some c \<Rightarrow> (Inr c, p)
     | None \<Rightarrow>
         (case pe_connect env of
            Some e \<Rightarrow> (Inl e, p)
          | None \<Rightarrow>
              let c = mp_next p;
                  p = p\<lparr>mp_connection := Some c, mp_open := c # mp_open p, mp_next := c + 1\<rparr>
              in case pe_channel env of
                   Some e \<Rightarrow> (Inl e, p)
                 | None \<Rightarrow>
                     let p = p\<lparr>mp_channel := Some c\<rparr>
                     in case pe_assert env of
                          Some e \<Rightarrow> (Inl e, p)
                        | None \<Rightarrow> (Inr c, p)))"

text \<open>The errors of closing are caught: a connection that cannot be closed is closed already.\<close>

definition resetConnection :: "rabbit_publisher \<Rightarrow> rabbit_publisher" where
  "resetConnection p =
    p\<lparr>mp_channel := None, mp_connection := None,
      mp_open := (case mp_connection p of None \<Rightarrow> mp_open p | Some c \<Rightarrow> removeAll c (mp_open p))\<rparr>"

definition or_field :: "string option \<Rightarrow> string \<Rightarrow> json \<Rightarrow> json option" where
  "or_field v k event = (case v of Some s \<Rightarrow> Some (JStr s) | None \<Rightarrow> jget k event)"

definition publish_message :: "publish_env \<Rightarrow> string \<Rightarrow> json \<Rightarrow> amqp_message" where
  "publish_message env routingKey event =
    \<lparr>am_exchange = pe_exchange env, am_routingKey = routingKey, am_content = event, am_persistent = True,
     am_messageId = jget ''eventId'' event, am_type = jget ''eventType'' event,
     am_timestamp = Option.bind (jstring (jget ''occurredAt'' event)) (pe_js_date env),
     am_headers =
       [(''schemaVersion'', jget ''schemaVersion'' event), (''correlationId'', jget ''correlationId'' event),
        (''traceId'', jget ''traceId'' event),
        (''traceparent'', or_field (tc_traceparent (pe_carrier env)) ''traceparent'' event),
        (''tracestate'', or_field (tc_tracestate (pe_carrier env)) ''tracestate'' event)]\<rparr>"

text \<open>The error that is thrown, if any, and what is stored at the broker.\<close>

definition publishWithinSpan ::
  "publish_env \<Rightarrow> string \<Rightarrow> json \<Rightarrow> rabbit_publisher \<Rightarrow> string option \<times> amqp_message list \<times> rabbit_publisher" where
  "publishWithinSpan env routingKey event p =
    (case getChannel env p of
       (Inl e, p) \<Rightarrow> (Some e, [], p)
     | (Inr c, p) \<Rightarrow>
         let m = publish_message env routingKey event
         in case pe_answer env of
              Confirmed \<Rightarrow> (None, [m], p)
            | Unconfirmed e stored \<Rightarrow> (Some e, if stored then [m] else [], resetConnection p)
            | NotSent e \<Rightarrow> (Some e, [], resetConnection p))"

section \<open>The poll\<close>

record outbox_worker =
  wk_running :: bool
  wk_lock :: string
  wk_now :: int
  wk_queue :: "outbox_message list"
  wk_result :: "(outbox_message \<times> string option) option"
  wk_publisher :: rabbit_publisher

definition new_worker :: outbox_worker where
  "new_worker = \<lparr>wk_running = False, wk_lock = [], wk_now = 0, wk_queue = [], wk_result = None, wk_publisher = new_publisher\<rparr>"

record pipeline =
  pl_table :: outbox_table
  pl_stored :: "amqp_message list"
  pl_workers :: "nat \<Rightarrow> outbox_worker"

text \<open>The beginning of a poll with its claim, one publication, the recording of its outcome, and the end.\<close>

definition begin_poll :: "string \<Rightarrow> int \<Rightarrow> outbox_message list \<Rightarrow> outbox_worker \<Rightarrow> outbox_worker" where
  "begin_poll lock now ms w = w\<lparr>wk_running := True, wk_lock := lock, wk_now := now, wk_queue := ms, wk_result := None\<rparr>"

definition published :: "outbox_message \<Rightarrow> string option \<Rightarrow> rabbit_publisher \<Rightarrow> outbox_worker \<Rightarrow> outbox_worker" where
  "published m r p w = w\<lparr>wk_queue := tl (wk_queue w), wk_result := Some (m, r), wk_publisher := p\<rparr>"

definition record_outcome :: "outbox_worker \<Rightarrow> outbox_worker" where
  "record_outcome w = w\<lparr>wk_result := None\<rparr>"

definition end_poll :: "outbox_worker \<Rightarrow> outbox_worker" where
  "end_poll w = w\<lparr>wk_running := False, wk_queue := [], wk_result := None\<rparr>"

definition set_worker :: "nat \<Rightarrow> outbox_worker \<Rightarrow> pipeline \<Rightarrow> pipeline" where
  "set_worker i w pl = pl\<lparr>pl_workers := (pl_workers pl)(i := w)\<rparr>"

text \<open>
  The update that records a success is inside the \<^verbatim>\<open>try\<close>: if it fails, the publication counts as failed. If
  the update that records a failure fails, the poll ends with the error. A worker can stop at any moment.
\<close>

inductive pipeline_step ::
  "(string \<Rightarrow> int \<Rightarrow> nat \<Rightarrow> string list \<Rightarrow> outbox_table \<Rightarrow> outbox_table \<times> outbox_message list) \<Rightarrow>
   (outbox_message \<Rightarrow> string \<Rightarrow> string option \<Rightarrow> int \<Rightarrow> int \<Rightarrow> outbox_table \<Rightarrow> (err, outbox_table) res) \<Rightarrow>
   pipeline \<Rightarrow> pipeline \<Rightarrow> bool" for claims settles where
  enqueue: "insert_outbox (pl_table pl) m = Inr ob \<Longrightarrow> ob_publishedAt m = None \<Longrightarrow>
    pipeline_step claims settles pl (pl\<lparr>pl_table := ob\<rparr>)"
| poll: "\<not> wk_running (pl_workers pl i) \<Longrightarrow> claims lock now n locked (pl_table pl) = (ob, ms) \<Longrightarrow>
    pipeline_step claims settles pl (set_worker i (begin_poll lock now ms (pl_workers pl i)) (pl\<lparr>pl_table := ob\<rparr>))"
| publish: "wk_queue (pl_workers pl i) = m # ms \<Longrightarrow> wk_result (pl_workers pl i) = None \<Longrightarrow>
    publishWithinSpan env (ob_routingKey m) (ob_event m) (wk_publisher (pl_workers pl i)) = (r, stored, p) \<Longrightarrow>
    pipeline_step claims settles pl
      (set_worker i (published m r p (pl_workers pl i)) (pl\<lparr>pl_stored := pl_stored pl @ stored\<rparr>))"
| settle: "wk_result (pl_workers pl i) = Some (m, r) \<Longrightarrow>
    settles m (wk_lock (pl_workers pl i)) r t (wk_now (pl_workers pl i)) (pl_table pl) = Inr ob \<Longrightarrow>
    pipeline_step claims settles pl (set_worker i (record_outcome (pl_workers pl i)) (pl\<lparr>pl_table := ob\<rparr>))"
| success_not_recorded: "wk_result (pl_workers pl i) = Some (m, None) \<Longrightarrow>
    pipeline_step claims settles pl (set_worker i ((pl_workers pl i)\<lparr>wk_result := Some (m, Some e)\<rparr>) pl)"
| failure_not_recorded: "wk_result (pl_workers pl i) = Some (m, Some e) \<Longrightarrow>
    pipeline_step claims settles pl (set_worker i (end_poll (pl_workers pl i)) pl)"
| finish: "wk_queue (pl_workers pl i) = [] \<Longrightarrow> wk_result (pl_workers pl i) = None \<Longrightarrow>
    pipeline_step claims settles pl (set_worker i (end_poll (pl_workers pl i)) pl)"
| shutdown: "pipeline_step claims settles pl
    (set_worker i ((pl_workers pl i)\<lparr>wk_publisher := resetConnection (wk_publisher (pl_workers pl i))\<rparr>) pl)"
| crash: "pipeline_step claims settles pl (set_worker i new_worker pl)"

inductive pipeline_reachable ::
  "(string \<Rightarrow> int \<Rightarrow> nat \<Rightarrow> string list \<Rightarrow> outbox_table \<Rightarrow> outbox_table \<times> outbox_message list) \<Rightarrow>
   (outbox_message \<Rightarrow> string \<Rightarrow> string option \<Rightarrow> int \<Rightarrow> int \<Rightarrow> outbox_table \<Rightarrow> (err, outbox_table) res) \<Rightarrow>
   pipeline \<Rightarrow> bool" for claims settles where
  start: "pipeline_reachable claims settles \<lparr>pl_table = [], pl_stored = [], pl_workers = (\<lambda>_. new_worker)\<rparr>"
| step: "pipeline_reachable claims settles pl \<Longrightarrow> pipeline_step claims settles pl pl' \<Longrightarrow>
    pipeline_reachable claims settles pl'"

section \<open>Nothing is lost and nothing is made up\<close>

definition content :: "outbox_message \<Rightarrow> string \<times> string \<times> json" where
  "content m = (ob_eventId m, ob_routingKey m, ob_event m)"

definition carried :: "outbox_message \<Rightarrow> amqp_message \<Rightarrow> bool" where
  "carried m a \<longleftrightarrow> am_routingKey a = ob_routingKey m \<and> am_content a = ob_event m \<and> am_persistent a \<and>
     am_messageId a = jget ''eventId'' (ob_event m)"

definition at_broker :: "outbox_message \<Rightarrow> amqp_message list \<Rightarrow> bool" where
  "at_broker m as \<longleftrightarrow> (\<exists>a \<in> set as. carried m a)"

definition worker_inv :: "outbox_table \<Rightarrow> amqp_message list \<Rightarrow> outbox_worker \<Rightarrow> bool" where
  "worker_inv ob as w \<longleftrightarrow>
    content ` set (wk_queue w) \<subseteq> content ` set ob \<and>
    (\<forall>m r. wk_result w = Some (m, r) \<longrightarrow> content m \<in> content ` set ob \<and> (r = None \<longrightarrow> at_broker m as))"

definition pipeline_inv :: "pipeline \<Rightarrow> bool" where
  "pipeline_inv pl \<longleftrightarrow>
    distinct (map ob_eventId (pl_table pl)) \<and>
    (\<forall>m \<in> set (pl_table pl). ob_publishedAt m \<noteq> None \<longrightarrow> at_broker m (pl_stored pl)) \<and>
    (\<forall>a \<in> set (pl_stored pl). \<exists>m \<in> set (pl_table pl). carried m a) \<and>
    (\<forall>i. worker_inv (pl_table pl) (pl_stored pl) (pl_workers pl i))"

lemma carried_cong: "content m = content m' \<Longrightarrow> carried m a = carried m' a"
  by (simp add: carried_def content_def)

lemma at_broker_cong: "content m = content m' \<Longrightarrow> at_broker m as = at_broker m' as"
  unfolding at_broker_def using carried_cong by blast

lemma at_broker_append: "at_broker m as \<Longrightarrow> at_broker m (as @ bs)"
  by (auto simp: at_broker_def)

lemma publish_confirmed:
  assumes "publishWithinSpan env k e p = (r, stored, p')"
  shows "set stored \<subseteq> {publish_message env k e}" and "r = None \<Longrightarrow> stored = [publish_message env k e]"
  using assms by (auto simp: publishWithinSpan_def Let_def split: prod.splits sum.splits publish_answer.splits if_splits)

lemma carried_publish: "carried m (publish_message env (ob_routingKey m) (ob_event m))"
  by (simp add: carried_def publish_message_def)

text \<open>What the invariant needs of an outbox, besides its leases: the messages themselves do not change.\<close>

locale immutable_outbox = leased_outbox +
  assumes claim_content: "claim lock now n locked ob = (ob', ms) \<Longrightarrow> map content ob' = map content ob"
    and settle_content: "settle m lock outcome t now ob = Inr ob' \<Longrightarrow> map content ob' = map content ob"
begin

lemma content_image: "map content ob' = map content ob \<Longrightarrow> content ` set ob' = content ` set ob"
  by (metis list.set_map)

lemma worker_inv_table: "map content ob' = map content ob \<Longrightarrow> worker_inv ob' as w = worker_inv ob as w"
  using content_image [of ob' ob] by (simp add: worker_inv_def)

lemma stored_table:
  assumes "map content ob' = map content ob" "\<forall>a \<in> set as. \<exists>m \<in> set ob. carried m a"
  shows "\<forall>a \<in> set as. \<exists>m \<in> set ob'. carried m a"
proof
  fix a assume "a \<in> set as"
  with assms(2) obtain m where m: "m \<in> set ob" "carried m a" by blast
  then have "content m \<in> content ` set ob'" using content_image [OF assms(1)] by simp
  then obtain m' where "m' \<in> set ob'" "content m' = content m" by (metis imageE)
  with m carried_cong show "\<exists>m \<in> set ob'. carried m a" by blast
qed

text \<open>Rows at the same place of the table before and after.\<close>

lemma same_rows:
  assumes "map content ob' = map content ob" "map ob_publishedAt ob' = map ob_publishedAt ob" "m \<in> set ob'"
  shows "\<exists>q \<in> set ob. content q = content m \<and> ob_publishedAt q = ob_publishedAt m"
proof -
  from assms(3) obtain i where "i < length ob'" "m = ob' ! i" by (auto simp: in_set_conv_nth)
  moreover have "length ob' = length ob" using assms(1) by (metis length_map)
  ultimately show ?thesis using assms(1,2) by (metis nth_map nth_mem)
qed

lemma settled_rows:
  assumes "settle m lock r t now ob = Inr ob'" "q \<in> set ob'" "ob_publishedAt q \<noteq> None"
  shows "(\<exists>p \<in> set ob. content p = content q \<and> ob_publishedAt p \<noteq> None) \<or> (r = None \<and> ob_eventId q = ob_eventId m)"
proof (cases r)
  case None
  with assms settle_lease show ?thesis by blast
next
  case (Some e)
  with assms same_rows [OF settle_content [OF assms(1)]] settle_failed show ?thesis by metis
qed

lemma table_step:
  assumes inv: "pipeline_inv pl" and c: "map content ob = map content (pl_table pl)"
    and pub: "\<And>m. m \<in> set ob \<Longrightarrow> ob_publishedAt m \<noteq> None \<Longrightarrow> at_broker m (pl_stored pl)"
    and w: "worker_inv (pl_table pl) (pl_stored pl) w"
  shows "pipeline_inv (set_worker i w (pl\<lparr>pl_table := ob\<rparr>))"
proof -
  have "map (fst \<circ> content) ob = map (fst \<circ> content) (pl_table pl)" using c by (simp flip: map_map)
  then have "map ob_eventId ob = map ob_eventId (pl_table pl)" by (simp add: comp_def content_def)
  then show ?thesis
    using inv pub w stored_table [OF c] worker_inv_table [OF c]
    by (auto simp: pipeline_inv_def set_worker_def)
qed

lemma worker_step:
  assumes "pipeline_inv pl" "worker_inv (pl_table pl) (pl_stored pl) w"
  shows "pipeline_inv (set_worker i w pl)"
  using assms by (auto simp: pipeline_inv_def set_worker_def)

lemma settle_step:
  assumes inv: "pipeline_inv pl" and r: "wk_result (pl_workers pl i) = Some (m, r)"
    and s: "settle m lock r t now (pl_table pl) = Inr ob"
  shows "pipeline_inv (set_worker i (record_outcome (pl_workers pl i)) (pl\<lparr>pl_table := ob\<rparr>))"
proof (rule table_step [OF inv settle_content [OF s]])
  have w: "worker_inv (pl_table pl) (pl_stored pl) (pl_workers pl i)" using inv by (simp add: pipeline_inv_def)
  then show "worker_inv (pl_table pl) (pl_stored pl) (record_outcome (pl_workers pl i))"
    by (simp add: worker_inv_def record_outcome_def)
  fix q assume q: "q \<in> set ob" "ob_publishedAt q \<noteq> None"
  have "content q \<in> content ` set (pl_table pl)" using q(1) content_image [OF settle_content [OF s]] by blast
  moreover have "content m \<in> content ` set (pl_table pl)" and m: "r = None \<Longrightarrow> at_broker m (pl_stored pl)"
    using w r by (auto simp: worker_inv_def)
  moreover have "inj_on ob_eventId (set (pl_table pl))" using inv by (simp add: pipeline_inv_def distinct_map)
  ultimately have "content q = content m" if "ob_eventId q = ob_eventId m"
    using that by (auto simp: content_def inj_on_def)
  with settled_rows [OF s q] m at_broker_cong inv show "at_broker q (pl_stored pl)"
    unfolding pipeline_inv_def by metis
qed

lemma publish_step:
  assumes inv: "pipeline_inv pl" and q: "wk_queue (pl_workers pl i) = m # ms"
    and p: "publishWithinSpan env (ob_routingKey m) (ob_event m) p = (r, stored, p')"
  shows "pipeline_inv (set_worker i (published m r p' (pl_workers pl i)) (pl\<lparr>pl_stored := pl_stored pl @ stored\<rparr>))"
proof -
  note s = publish_confirmed [OF p]
  have w: "worker_inv (pl_table pl) (pl_stored pl) (pl_workers pl j)" for j using inv by (simp add: pipeline_inv_def)
  from w [of i] q have "content m \<in> content ` set (pl_table pl)" by (simp add: worker_inv_def)
  then obtain m' where m': "m' \<in> set (pl_table pl)" "content m' = content m" by (metis imageE)
  have "carried m' a" if "a \<in> set stored" for a
    using that s(1) carried_publish carried_cong [OF m'(2)] by blast
  moreover have "r = None \<Longrightarrow> at_broker m (pl_stored pl @ stored)"
    using s(2) carried_publish by (auto simp: at_broker_def)
  moreover have "worker_inv (pl_table pl) (pl_stored pl @ stored) (pl_workers pl j)" for j
    using w [of j] by (auto simp: worker_inv_def at_broker_append)
  ultimately have "worker_inv (pl_table pl) (pl_stored pl @ stored) (published m r p' (pl_workers pl i))"
    and "\<forall>a \<in> set (pl_stored pl @ stored). \<exists>m \<in> set (pl_table pl). carried m a"
    and "\<forall>j. worker_inv (pl_table pl) (pl_stored pl @ stored) (pl_workers pl j)"
    using inv w [of i] q m' by (auto simp: worker_inv_def published_def pipeline_inv_def)
  with inv show ?thesis by (auto simp: pipeline_inv_def set_worker_def at_broker_append)
qed

lemma pipeline_inv_step: "pipeline_step claim settle pl pl' \<Longrightarrow> pipeline_inv pl \<Longrightarrow> pipeline_inv pl'"
proof (induction rule: pipeline_step.induct)
  case (enqueue pl m ob)
  then show ?case
    by (auto simp: pipeline_inv_def worker_inv_def dest!: insert_outbox_ok) blast+
next
  case (poll pl i lock now n locked ob ms)
  note c = claim_content [OF poll(2)]
  have "set ms \<subseteq> set ob" using claim_leased [OF poll(2)] by blast
  then have "worker_inv (pl_table pl) (pl_stored pl) (begin_poll lock now ms (pl_workers pl i))"
    using content_image [OF c] by (auto simp: worker_inv_def begin_poll_def)
  moreover have "at_broker m (pl_stored pl)" if "m \<in> set ob" "ob_publishedAt m \<noteq> None" for m
    using that same_rows [OF c claim_published [OF poll(2)] that(1)] poll(3) at_broker_cong
    unfolding pipeline_inv_def by metis
  ultimately show ?case using table_step [OF poll(3) c] by blast
next
  case (publish pl i m ms env r stored p)
  then show ?case by (intro publish_step)
next
  case (settle pl i m r t ob)
  then show ?case by (intro settle_step)
next
  case (success_not_recorded pl i m e)
  then show ?case by (intro worker_step) (auto simp: pipeline_inv_def worker_inv_def)
next
  case (failure_not_recorded pl i m e)
  then show ?case by (intro worker_step) (simp_all add: worker_inv_def end_poll_def)
next
  case (finish pl i)
  then show ?case by (intro worker_step) (simp_all add: worker_inv_def end_poll_def)
next
  case (shutdown pl i)
  then show ?case by (intro worker_step) (auto simp: pipeline_inv_def worker_inv_def)
next
  case (crash pl i)
  then show ?case by (intro worker_step) (simp_all add: worker_inv_def new_worker_def)
qed

lemma reachable_pipeline_inv: "pipeline_reachable claim settle pl \<Longrightarrow> pipeline_inv pl"
proof (induction rule: pipeline_reachable.induct)
  case start
  then show ?case by (simp add: pipeline_inv_def worker_inv_def new_worker_def)
next
  case (step pl pl')
  then show ?case using pipeline_inv_step by blast
qed

end

lemma claim_keeps_content:
  assumes "claim lock now n locked ob = (ob', ms)"
  shows "map content ob' = map content ob"
  by (simp add: claimed_messages(2) [OF assms] content_def)

lemma settle_keeps_content:
  assumes "settle_publication m lock outcome t now ob = Inr ob'"
  shows "map content ob' = map content ob"
  using assms
  by (auto simp: settle_publication_def update_outbox_def content_def Let_def split: option.splits if_splits)

interpretation ledger_pipeline: immutable_outbox claim settle_publication
  by unfold_locales (fact claim_keeps_content settle_keeps_content)+

interpretation payments_pipeline: immutable_outbox claim_payments settle_payments_publication
  by (simp only: claim_payments_eq settle_payments_publication_eq) (rule ledger_pipeline.immutable_outbox_axioms)


text \<open>One message on its way through the outbox of the ledger.\<close>

definition ex_outbox_row :: outbox_message where
  "ex_outbox_row = new_outbox_row ''e1'' ''ledger.wallet.MoneyDeposited.v1'' (JObj [(''eventId'', JStr ''e1'')]) 0 0"

definition ex_claimed_row :: outbox_message where
  "ex_claimed_row = ex_outbox_row\<lparr>ob_lockId := Some ''l'', ob_lockedUntil := Some 30000\<rparr>"

definition ex_publish_env :: publish_env where
  "ex_publish_env =
    \<lparr>pe_exchange = ''p2p.domain-events'', pe_carrier = \<lparr>tc_traceId = None, tc_traceparent = None, tc_tracestate = None\<rparr>,
     pe_js_date = (\<lambda>_. None), pe_connect = None, pe_channel = None, pe_assert = None, pe_answer = Confirmed\<rparr>"

definition ex_settled_row :: outbox_message where
  "ex_settled_row = ex_claimed_row\<lparr>ob_publishedAt := Some 5, ob_lockedUntil := None, ob_lockId := None, ob_lastError := None\<rparr>"

lemma ex_pipeline_run: "\<exists>pl. pipeline_reachable claim settle_publication pl \<and> pl_table pl = [ex_settled_row]"
proof -
  define pl0 where "pl0 = \<lparr>pl_table = [], pl_stored = [], pl_workers = (\<lambda>_. new_worker)\<rparr>"
  define pl1 where "pl1 = pl0\<lparr>pl_table := [ex_outbox_row]\<rparr>"
  define pl2 where "pl2 = set_worker 0 (begin_poll ''l'' 0 [ex_claimed_row] (pl_workers pl1 0)) (pl1\<lparr>pl_table := [ex_claimed_row]\<rparr>)"
  obtain r stored p where pub: "publishWithinSpan ex_publish_env (ob_routingKey ex_claimed_row) (ob_event ex_claimed_row) new_publisher = (r, stored, p)"
    by (meson prod_cases3)
  then have r: "r = None" by (auto simp: publishWithinSpan_def getChannel_def new_publisher_def ex_publish_env_def)
  define pl3 where "pl3 = set_worker 0 (published ex_claimed_row r p (pl_workers pl2 0)) (pl2\<lparr>pl_stored := pl_stored pl2 @ stored\<rparr>)"
  have "pipeline_reachable claim settle_publication pl0" unfolding pl0_def by (rule pipeline_reachable.start)
  moreover have "pipeline_step claim settle_publication pl0 pl1"
    unfolding pl1_def by (rule pipeline_step.enqueue [where m = ex_outbox_row]) (simp_all add: pl0_def insert_outbox_def ex_outbox_row_def new_outbox_row_def)
  moreover have "pipeline_step claim settle_publication pl1 pl2"
    unfolding pl2_def
    by (rule pipeline_step.poll [where n = 1 and locked = "[]"])
      (simp_all add: pl1_def pl0_def new_worker_def claim_def Let_def update_outbox_def order_outbox_def claimable_def
        ex_outbox_row_def ex_claimed_row_def new_outbox_row_def LOCK_DURATION_MS_def)
  moreover have "pipeline_step claim settle_publication pl2 pl3"
    unfolding pl3_def
    by (rule pipeline_step.publish [where ms = "[]" and env = ex_publish_env])
      (use pub in \<open>simp_all add: pl2_def pl1_def pl0_def set_worker_def begin_poll_def new_worker_def\<close>)
  moreover have "pipeline_step claim settle_publication pl3 (set_worker 0 (record_outcome (pl_workers pl3 0)) (pl3\<lparr>pl_table := [ex_settled_row]\<rparr>))"
    by (rule pipeline_step.settle [where m = ex_claimed_row and r = None and t = 5])
      (simp_all add: r pl3_def pl2_def set_worker_def published_def begin_poll_def settle_publication_def update_outbox_def
        under_lease_def ex_settled_row_def ex_claimed_row_def)
  ultimately have "pipeline_reachable claim settle_publication (set_worker 0 (record_outcome (pl_workers pl3 0)) (pl3\<lparr>pl_table := [ex_settled_row]\<rparr>))"
    by (meson pipeline_reachable.step)
  moreover have "pl_table (set_worker i w (pl\<lparr>pl_table := ob\<rparr>)) = ob" for i w pl ob
    by (cases pl) (simp add: set_worker_def)
  ultimately show ?thesis by blast
qed


section \<open>A leak\<close>

fun publish_times :: "publish_env \<Rightarrow> nat \<Rightarrow> rabbit_publisher \<Rightarrow> rabbit_publisher" where
  "publish_times env 0 p = p"
| "publish_times env (Suc n) p = publish_times env n (snd (snd (publishWithinSpan env [] JNull p)))"

text \<open>
  \<^verbatim>\<open>getChannel\<close> stores the connection before it opens the channel, and a failure there leaves it open without
  anyone closing it: the next publication connects anew. While the broker accepts connections and refuses
  channels, every publication leaves one more connection open, which not even a shutdown closes.
\<close>

theorem refused_channels_leak_connections:
  assumes "pe_connect env = None" "pe_channel env = Some e" "mp_channel p = None"
  shows "length (mp_open (publish_times env n p)) = length (mp_open p) + n"
  using assms(3)
proof (induction n arbitrary: p)
  case (Suc n)
  let ?p = "snd (snd (publishWithinSpan env [] JNull p))"
  have "mp_channel ?p = None" "length (mp_open ?p) = Suc (length (mp_open p))"
    using assms(1,2) Suc.prems by (simp_all add: publishWithinSpan_def getChannel_def Let_def)
  with Suc.IH [of ?p] show ?case by simp
qed simp

end
