(* ===== verification/Transfer_Form.thy ===== *)
theory Transfer_Form
  imports Payments_Safety
begin

text \<open>
  The transfer form of the browser in front of the payments service: \<^verbatim>\<open>lib/idempotency.ts\<close>
  (\<^verbatim>\<open>LogicalSubmission\<close>) and the behaviour of \<^verbatim>\<open>components/transfer-form.tsx\<close>, that is its state, \<^verbatim>\<open>submit\<close>,
  \<^verbatim>\<open>refreshStatus\<close> and \<^verbatim>\<open>newTransfer\<close>, with the conditions under which the page offers them.

  The form and the service are one step relation. Between them is the network: a posted request reaches the
  service at any later time or never, its answer reaches the form or is lost, and polls of the status answer
  late or never; after a creation the controller still runs the saga and reads the status, and either can
  fail. Meanwhile the service does any of its other steps. \<open>number\<close> is JavaScript's \<^verbatim>\<open>Number\<close>; a key
  of \<^verbatim>\<open>crypto.randomUUID()\<close> is new.
\<close>

section \<open>The form\<close>

record logical_submission =
  ls_key :: "string option"
  ls_running :: bool

definition begin_submission :: "string \<Rightarrow> logical_submission \<Rightarrow> string \<times> bool \<times> logical_submission" where
  "begin_submission uuid l =
    (let key = (case truthy (ls_key l) of None \<Rightarrow> uuid | Some k \<Rightarrow> k);
         l = l\<lparr>ls_key := Some key\<rparr>
     in if ls_running l then (key, False, l) else (key, True, l\<lparr>ls_running := True\<rparr>))"

definition finish_submission :: "logical_submission \<Rightarrow> logical_submission" where
  "finish_submission l = l\<lparr>ls_running := False\<rparr>"

definition reset_submission :: "logical_submission \<Rightarrow> logical_submission" where
  "reset_submission l = (if \<not> ls_running l then l\<lparr>ls_key := None\<rparr> else l)"

text \<open>The wallets of the page, by id and currency; the page shows the form only if there is one.\<close>

record transfer_form =
  tf_logical :: logical_submission
  tf_fromWalletId :: string
  tf_receiver :: string
  tf_amount :: string
  tf_targetCurrency :: string
  tf_transfer :: "transfer_view option"
  tf_submitting :: bool
  tf_error :: "string option"

definition selected_currency :: "(string \<times> string) list \<Rightarrow> transfer_form \<Rightarrow> string" where
  "selected_currency wallets f = (case map_of wallets (tf_fromWalletId f) of Some c \<Rightarrow> c | None \<Rightarrow> snd (hd wallets))"

definition new_form :: "(string \<times> string) list \<Rightarrow> transfer_form" where
  "new_form wallets =
    \<lparr>tf_logical = \<lparr>ls_key = None, ls_running = False\<rparr>, tf_fromWalletId = fst (hd wallets), tf_receiver = [], tf_amount = [],
     tf_targetCurrency = snd (hd wallets), tf_transfer = None, tf_submitting = False, tf_error = None\<rparr>"

definition form_dto :: "(string \<Rightarrow> jsnum) \<Rightarrow> (string \<times> string) list \<Rightarrow> transfer_form \<Rightarrow> create_transfer_dto" where
  "form_dto number wallets f =
    \<lparr>ct_fromWalletId = tf_fromWalletId f, ct_toWalletIdentifier = tf_receiver f, ct_amount = number (tf_amount f),
     ct_currency = selected_currency wallets f, ct_targetCurrency = Some (tf_targetCurrency f)\<rparr>"

text \<open>\<^verbatim>\<open>submit\<close> up to the request, with the key of the request if there is one.\<close>

definition submit_begin :: "string \<Rightarrow> transfer_form \<Rightarrow> string option \<times> transfer_form" where
  "submit_begin uuid f =
    (case begin_submission uuid (tf_logical f) of
       (key, accepted, l) \<Rightarrow>
         if \<not> accepted then (None, f\<lparr>tf_logical := l\<rparr>)
         else (Some key, f\<lparr>tf_logical := l, tf_submitting := True, tf_error := None\<rparr>))"

text \<open>The rest of \<^verbatim>\<open>submit\<close>, with a transfer or with an error.\<close>

definition submit_end :: "(string, transfer_view) res \<Rightarrow> transfer_form \<Rightarrow> transfer_form" where
  "submit_end r f =
    (let f = (case r of Inr t \<Rightarrow> f\<lparr>tf_transfer := Some t\<rparr> | Inl e \<Rightarrow> f\<lparr>tf_error := Some e\<rparr>)
     in f\<lparr>tf_logical := finish_submission (tf_logical f), tf_submitting := False\<rparr>)"

definition newTransfer :: "(string \<times> string) list \<Rightarrow> transfer_form \<Rightarrow> transfer_form" where
  "newTransfer wallets f =
    f\<lparr>tf_logical := reset_submission (tf_logical f), tf_transfer := None, tf_receiver := [], tf_amount := [],
      tf_targetCurrency := selected_currency wallets f, tf_error := None\<rparr>"

definition terminal_view :: "transfer_view option \<Rightarrow> bool" where
  "terminal_view t = (case t of None \<Rightarrow> False | Some v \<Rightarrow> tv_status v \<in> {Completed, Failed})"

text \<open>The fields that the user can edit.\<close>

definition same_but_fields :: "transfer_form \<Rightarrow> transfer_form \<Rightarrow> bool" where
  "same_but_fields f f' \<longleftrightarrow> tf_logical f' = tf_logical f \<and> tf_transfer f' = tf_transfer f \<and>
     tf_submitting f' = tf_submitting f \<and> tf_error f' = tf_error f"

section \<open>The form, the network and the service\<close>

record post =
  po_number :: nat
  po_key :: string
  po_dto :: create_transfer_dto

record checkout =
  ck_form :: transfer_form
  ck_db :: payments_db
  ck_calls :: "ledger_call list"
  ck_posts :: "post list"
  ck_awaits :: "nat option"
  ck_answers :: "(nat \<times> (string, transfer_view) res) list"
  ck_polls :: "string list"
  ck_keys :: "string list"
  ck_created :: "(string \<times> string) list"
  ck_resets :: nat
  ck_next :: nat

definition new_checkout :: "(string \<times> string) list \<Rightarrow> payments_db \<Rightarrow> ledger_call list \<Rightarrow> checkout" where
  "new_checkout wallets d c =
    \<lparr>ck_form = new_form wallets, ck_db = d, ck_calls = c, ck_posts = [], ck_awaits = None, ck_answers = [], ck_polls = [],
     ck_keys = [], ck_created = [], ck_resets = 0, ck_next = 0\<rparr>"

text \<open>
  \<open>ck_posts\<close> are the requests that are on their way, \<open>ck_awaits\<close> the number of the one that the form waits
  for, \<open>ck_answers\<close> the answers on their way, \<open>ck_polls\<close> the polls. Four fields only record what happened: the
  keys that were generated, the transfers with which the service answered and the keys of their requests, and how
  often the user asked for a new transfer.
\<close>

inductive checkout_step ::
  "(string \<Rightarrow> jsnum) \<Rightarrow> (string \<Rightarrow> string) \<Rightarrow> (string \<times> string) list \<Rightarrow> string \<Rightarrow> checkout \<Rightarrow> checkout \<Rightarrow> bool"
  for number sha256 wallets user where
  edit: "same_but_fields (ck_form s) f \<Longrightarrow> checkout_step number sha256 wallets user s (s\<lparr>ck_form := f\<rparr>)"
| submit: "submit_begin uuid (ck_form s) = (Some key, f) \<Longrightarrow> uuid \<notin> set (ck_keys s) \<Longrightarrow> uuid \<noteq> [] \<Longrightarrow>
    checkout_step number sha256 wallets user s
      (s\<lparr>ck_form := f, ck_posts := \<lparr>po_number = ck_next s, po_key = key, po_dto = form_dto number wallets (ck_form s)\<rparr> # ck_posts s,
         ck_awaits := Some (ck_next s), ck_next := Suc (ck_next s),
         ck_keys := (if key \<in> set (ck_keys s) then ck_keys s else key # ck_keys s)\<rparr>)"
| ignored: "submit_begin uuid (ck_form s) = (None, f) \<Longrightarrow>
    checkout_step number sha256 wallets user s (s\<lparr>ck_form := f\<rparr>)"
| served: "p \<in> set (ck_posts s) \<Longrightarrow>
    create_transfer sha256 x newId (po_dto p) (Some (po_key p)) user = Inr (d, v) \<Longrightarrow> cx_db x = ck_db s \<Longrightarrow> valid_create x \<Longrightarrow>
    (\<forall>v'. r = Inr v' \<longrightarrow> tv_id v' = tv_id v) \<Longrightarrow>
    checkout_step number sha256 wallets user s
      (s\<lparr>ck_db := d, ck_posts := remove1 p (ck_posts s), ck_answers := (po_number p, r) # ck_answers s,
         ck_created := (po_key p, tv_id v) # ck_created s\<rparr>)"
| refused: "p \<in> set (ck_posts s) \<Longrightarrow>
    checkout_step number sha256 wallets user s
      (s\<lparr>ck_posts := remove1 p (ck_posts s), ck_answers := (po_number p, Inl message) # ck_answers s\<rparr>)"
| answered: "ck_awaits s = Some n \<Longrightarrow> (n, r) \<in> set (ck_answers s) \<Longrightarrow>
    checkout_step number sha256 wallets user s (s\<lparr>ck_form := submit_end r (ck_form s), ck_awaits := None\<rparr>)"
| lost: "ck_awaits s = Some n \<Longrightarrow>
    checkout_step number sha256 wallets user s (s\<lparr>ck_form := submit_end (Inl message) (ck_form s), ck_awaits := None\<rparr>)"
| polls: "tf_transfer (ck_form s) = Some v \<Longrightarrow> \<not> terminal_view (Some v) \<Longrightarrow>
    checkout_step number sha256 wallets user s (s\<lparr>ck_polls := tv_id v # ck_polls s\<rparr>)"
| polled: "i \<in> set (ck_polls s) \<Longrightarrow> getStatus (ck_db s) i user = Inr v \<Longrightarrow>
    checkout_step number sha256 wallets user s
      (s\<lparr>ck_polls := remove1 i (ck_polls s), ck_form := (ck_form s)\<lparr>tf_transfer := Some v\<rparr>\<rparr>)"
| new_transfer: "terminal_view (tf_transfer (ck_form s)) \<Longrightarrow>
    checkout_step number sha256 wallets user s (s\<lparr>ck_form := newTransfer wallets (ck_form s), ck_resets := Suc (ck_resets s)\<rparr>)"
| service: "payments_step (ck_db s, ck_calls s) (d, c) \<Longrightarrow>
    checkout_step number sha256 wallets user s (s\<lparr>ck_db := d, ck_calls := c\<rparr>)"

inductive checkout_reachable ::
  "(string \<Rightarrow> jsnum) \<Rightarrow> (string \<Rightarrow> string) \<Rightarrow> (string \<times> string) list \<Rightarrow> string \<Rightarrow> checkout \<Rightarrow> bool"
  for number sha256 wallets user where
  start: "payments_step\<^sup>*\<^sup>* (empty_payments_db, []) (d, c) \<Longrightarrow>
    checkout_reachable number sha256 wallets user (new_checkout wallets d c)"
| step: "checkout_reachable number sha256 wallets user s \<Longrightarrow> checkout_step number sha256 wallets user s s' \<Longrightarrow>
    checkout_reachable number sha256 wallets user s'"

section \<open>The invariant\<close>

definition made_with :: "string \<Rightarrow> payments_db \<Rightarrow> string \<times> string \<Rightarrow> bool" where
  "made_with user d ki \<longleftrightarrow>
    (\<exists>t \<in> set (pd_transfers d). tr_id t = snd ki \<and> tr_senderUserId t = pg_uuid user \<and>
       normalizeIdempotencyKey (Some (fst ki)) = Inr (tr_idempotencyKey t))"

definition checkout_inv :: "string \<Rightarrow> checkout \<Rightarrow> bool" where
  "checkout_inv user s \<longleftrightarrow>
    saga_inv (ck_db s) (ck_calls s) \<and>
    (ls_running (tf_logical (ck_form s)) \<longleftrightarrow> ck_awaits s \<noteq> None) \<and>
    (ls_running (tf_logical (ck_form s)) \<longrightarrow> ls_key (tf_logical (ck_form s)) \<noteq> None) \<and>
    (\<forall>k. ls_key (tf_logical (ck_form s)) = Some k \<longrightarrow> k \<noteq> [] \<and> k \<in> set (ck_keys s)) \<and>
    po_key ` set (ck_posts s) \<subseteq> set (ck_keys s) \<and>
    length (ck_keys s) \<le> ck_resets s + (case ls_key (tf_logical (ck_form s)) of None \<Rightarrow> 0 | Some k \<Rightarrow> 1) \<and>
    (\<forall>ki \<in> set (ck_created s). fst ki \<in> set (ck_keys s) \<and> made_with user (ck_db s) ki)"

lemmas form_code =
  begin_submission_def finish_submission_def reset_submission_def submit_begin_def submit_end_def newTransfer_def Let_def

lemma made_with_mono:
  assumes "made_with user d ki" "payments_le d d'"
  shows "made_with user d' ki"
proof -
  from assms(1) obtain t where t: "t \<in> set (pd_transfers d)" "tr_id t = snd ki" "tr_senderUserId t = pg_uuid user"
    "normalizeIdempotencyKey (Some (fst ki)) = Inr (tr_idempotencyKey t)" by (auto simp: made_with_def)
  with payments_leD [OF assms(2) t(1)] show ?thesis by (force simp: made_with_def same_request_def)
qed

lemma creation_made:
  assumes c: "create_transfer sha256 x newId dto (Some k) user = Inr (d, v)" and "valid_create x"
  shows "made_with user d (k, tv_id v)"
proof -
  from c obtain key r where r: "normalizeIdempotencyKey (Some k) = Inr key" "canonicalRequest dto user None = Inr r"
    "createCanonical sha256 x newId r key = Inr (d, v)" by (auto simp: create_transfer_def result_simps)
  then have u: "cr_senderUserId r = user" "cr_splitBillShareId r = None" by (auto simp: canonicalRequest_def result_simps)
  from creation_leaves_row [OF r(3) assms(2) u(2)] show ?thesis by (auto simp: made_with_def r(1) u(1))
qed

text \<open>A step that changes the database as the service does, and nothing of the form.\<close>

lemma service_keeps:
  assumes "checkout_inv user s" "payments_step (ck_db s, ck_calls s) (d, c)"
  shows "checkout_inv user (s\<lparr>ck_db := d, ck_calls := c\<rparr>)"
proof -
  have "saga_inv d c" "payments_le (ck_db s) d"
    using payments_step_keeps [OF assms(2)] assms(1) db_le_payments_le by (auto simp: checkout_inv_def)
  then show ?thesis using assms(1) made_with_mono by (auto simp: checkout_inv_def)
qed

lemma submit_keeps:
  assumes inv: "checkout_inv user s" and b: "submit_begin uuid (ck_form s) = (Some key, f)" and u: "uuid \<noteq> []"
  shows "checkout_inv user
    (s\<lparr>ck_form := f, ck_posts := \<lparr>po_number = n, po_key = key, po_dto = dto\<rparr> # ck_posts s, ck_awaits := Some n, ck_next := m,
       ck_keys := (if key \<in> set (ck_keys s) then ck_keys s else key # ck_keys s)\<rparr>)"
proof -
  let ?l = "tf_logical (ck_form s)"
  have r: "\<not> ls_running ?l" and f: "tf_logical f = \<lparr>ls_key = Some key, ls_running = True\<rparr>"
    and key: "key = (case truthy (ls_key ?l) of None \<Rightarrow> uuid | Some k \<Rightarrow> k)"
    using b by (auto simp: form_code split: if_splits)
  show ?thesis
  proof (cases "ls_key ?l")
    case None
    then have "key = uuid" using key by (simp add: truthy_def)
    with None f u inv show ?thesis by (auto simp: checkout_inv_def)
  next
    case (Some k)
    with inv have k: "k \<noteq> []" "k \<in> set (ck_keys s)" by (auto simp: checkout_inv_def)
    with Some have "key = k" using key by (simp add: truthy_def)
    with Some f k inv show ?thesis by (auto simp: checkout_inv_def)
  qed
qed

lemma checkout_inv_step:
  "checkout_step number sha256 wallets user s s' \<Longrightarrow> checkout_inv user s \<Longrightarrow> checkout_inv user s'"
proof (induction rule: checkout_step.induct)
  case (edit s f)
  then show ?case by (simp add: checkout_inv_def same_but_fields_def)
next
  case (submit uuid s key f)
  then show ?case by (intro submit_keeps)
next
  case (ignored uuid s f)
  then show ?case by (auto simp: checkout_inv_def form_code truthy_def split: if_splits)
next
  case (served p s x newId d v r)
  have "payments_step (ck_db s, ck_calls s) (d, ck_calls s)" using served(2,3) by (rule payments_step.created)
  from service_keeps [OF served(6) this] have inv: "checkout_inv user (s\<lparr>ck_db := d\<rparr>)" by simp
  have "made_with user d (po_key p, tv_id v)" by (rule creation_made [OF served(2,4)])
  moreover have "po_key p \<in> set (ck_keys s)" using served(1,6) by (auto simp: checkout_inv_def)
  ultimately show ?case using inv set_remove1_subset [of p "ck_posts s"] by (auto simp: checkout_inv_def)
next
  case (refused p s message)
  then show ?case using set_remove1_subset [of p "ck_posts s"] by (auto simp: checkout_inv_def)
next
  case (answered s n r)
  then show ?case by (auto simp: checkout_inv_def form_code split: sum.splits)
next
  case (lost s n message)
  then show ?case by (auto simp: checkout_inv_def form_code)
next
  case (polls s v)
  then show ?case by (simp add: checkout_inv_def)
next
  case (polled i s v)
  then show ?case by (simp add: checkout_inv_def)
next
  case (new_transfer s)
  then show ?case by (auto simp: checkout_inv_def form_code split: option.splits)
next
  case (service s d c)
  then show ?case by (intro service_keeps)
qed

lemma reachable_checkout_inv: "checkout_reachable number sha256 wallets user s \<Longrightarrow> checkout_inv user s"
proof (induction rule: checkout_reachable.induct)
  case (start d c)
  then have "saga_inv d c" using payments_steps_keep [OF _ empty_saga_inv] by blast
  then show ?case by (simp add: checkout_inv_def new_checkout_def new_form_def)
next
  case (step s s')
  then show ?case using checkout_inv_step by blast
qed

lemma made_unique:
  assumes "keys_unique d" "made_with user d (k, i)" "made_with user d (k, j)"
  shows "i = j"
proof -
  from assms(2,3) obtain t t' where t: "t \<in> set (pd_transfers d)" "t' \<in> set (pd_transfers d)" "tr_id t = i" "tr_id t' = j"
    "tr_senderUserId t = tr_senderUserId t'" "tr_idempotencyKey t = tr_idempotencyKey t'" by (auto simp: made_with_def)
  have "inj_on (\<lambda>t. (tr_senderUserId t, tr_idempotencyKey t)) (set (pd_transfers d))"
    using assms(1) by (simp add: keys_unique_def distinct_map)
  from inj_onD [OF this _ t(1,2)] t show ?thesis by simp
qed

text \<open>
  C6. A form pays once. However often the user presses the button, edits the fields and tries again, whatever
  requests and answers are lost, late or refused, and whatever the payments service does meanwhile: the form waits
  for at most one request; all transfers made with one key of the form are one and the same, of this user and with
  this key; and no more transfers are made than one and one for each time the user asks for a new one, which the page
  offers only when it shows a finished transfer.
\<close>

theorem form_pays_once:
  assumes "checkout_reachable number sha256 wallets user s"
  shows "(ls_running (tf_logical (ck_form s)) \<longleftrightarrow> ck_awaits s \<noteq> None) \<and>
    (\<forall>k i j. (k, i) \<in> set (ck_created s) \<and> (k, j) \<in> set (ck_created s) \<longrightarrow> i = j) \<and>
    (\<forall>ki \<in> set (ck_created s). made_with user (ck_db s) ki) \<and>
    card (snd ` set (ck_created s)) \<le> Suc (ck_resets s)"
proof -
  have inv: "checkout_inv user s" by (rule reachable_checkout_inv [OF assms])
  then have keys: "keys_unique (ck_db s)" and used: "\<And>ki. ki \<in> set (ck_created s) \<Longrightarrow> fst ki \<in> set (ck_keys s)"
    and wait: "ls_running (tf_logical (ck_form s)) \<longleftrightarrow> ck_awaits s \<noteq> None" and made: "\<And>ki. ki \<in> set (ck_created s) \<Longrightarrow> made_with user (ck_db s) ki"
    using saga_inv_keys unfolding checkout_inv_def by blast+
  have unique: "i = j" if "(k, i) \<in> set (ck_created s)" "(k, j) \<in> set (ck_created s)" for k i j
    by (rule made_unique [OF keys made [OF that(1)] made [OF that(2)]])
  have "snd ` set (ck_created s) \<subseteq> (\<lambda>k. THE i. (k, i) \<in> set (ck_created s)) ` set (ck_keys s)"
  proof
    fix i assume "i \<in> snd ` set (ck_created s)"
    then obtain k where k: "(k, i) \<in> set (ck_created s)" by auto
    then have "(THE i. (k, i) \<in> set (ck_created s)) = i" using unique by (intro the_equality)
    moreover have "k \<in> set (ck_keys s)" using used [OF k] by simp
    ultimately show "i \<in> (\<lambda>k. THE i. (k, i) \<in> set (ck_created s)) ` set (ck_keys s)"
      by (intro image_eqI [of _ _ k]) simp_all
  qed
  then have "card (snd ` set (ck_created s)) \<le> card (set (ck_keys s))"
    by (rule surj_card_le [OF finite_set])
  also have "\<dots> \<le> length (ck_keys s)" by (rule card_length)
  also have "\<dots> \<le> Suc (ck_resets s)" using inv by (auto simp: checkout_inv_def split: option.splits)
  finally show ?thesis using wait unique made by blast
qed

text \<open>One transfer, posted and served.\<close>

definition ex_wallets :: "(string \<times> string) list" where "ex_wallets = [(''w1'', ''USD'')]"

definition ex_filled :: transfer_form where
  "ex_filled = (new_form ex_wallets)\<lparr>tf_receiver := ''bob'', tf_amount := ''10'', tf_targetCurrency := ''EUR''\<rparr>"

lemma ex_filled_dto: "form_dto (\<lambda>_. JsFin 10) ex_wallets ex_filled = ex_dto"
  by (simp add: form_dto_def ex_filled_def ex_wallets_def selected_currency_def new_form_def ex_dto_def)

lemma ex_checkout_run:
  "\<exists>s. checkout_reachable (\<lambda>_. JsFin 10) ex_sha ex_wallets ''u1'' s \<and> ck_created s = [('' k1 '', ''t1'')] \<and> ck_resets s = 0"
proof -
  let ?R = "checkout_reachable (\<lambda>_. JsFin 10) ex_sha ex_wallets ''u1''" and ?S = "checkout_step (\<lambda>_. JsFin 10) ex_sha ex_wallets ''u1''"
  define s0 where "s0 = new_checkout ex_wallets empty_payments_db []"
  define s1 where "s1 = s0\<lparr>ck_form := ex_filled\<rparr>"
  define f where "f = snd (submit_begin '' k1 '' ex_filled)"
  define p where "p = \<lparr>po_number = 0, po_key = '' k1 '', po_dto = ex_dto\<rparr>"
  define s2 where "s2 = s1\<lparr>ck_form := f, ck_posts := [p], ck_awaits := Some 0, ck_next := 1, ck_keys := ['' k1 '']\<rparr>"
  obtain d v where c: "create_transfer ex_sha (ex_create_tx empty_payments_db) ''t1'' ex_dto (Some '' k1 '') ''u1'' = Inr (d, v)"
      "tr_id ` set (pd_transfers d) = {''t1''}"
    using ex_first_creation by (elim exE conjE) (rule that)
  have "keys_unique empty_payments_db" by (simp add: keys_unique_def empty_payments_db_def List.map_filter_def)
  then have valid: "valid_create (ex_create_tx empty_payments_db)" by (rule ex_valid_create)
  obtain t where t: "t \<in> set (pd_transfers d)" "tr_id t = tv_id v"
    using creation_made [OF c(1) valid] unfolding made_with_def by (elim bexE conjE) (use that in simp)
  then have "tv_id v \<in> tr_id ` set (pd_transfers d)" by (intro image_eqI [of _ _ t]) (rule sym)
  then have v: "tv_id v = ''t1''" unfolding c(2) by (rule singletonD)
  have "?R s0" unfolding s0_def by (rule checkout_reachable.start) simp
  moreover have "?S s0 s1"
    unfolding s1_def by (rule checkout_step.edit) (simp add: s0_def new_checkout_def same_but_fields_def ex_filled_def)
  moreover have "?S s1 s2"
    using checkout_step.submit [of "'' k1 ''" s1 "'' k1 ''" f "\<lambda>_. JsFin 10" ex_sha ex_wallets "''u1''"]
    by (simp add: s2_def s1_def s0_def p_def new_checkout_def f_def ex_filled_dto)
      (simp add: form_code ex_filled_def new_form_def truthy_def)
  moreover have "?S s2 (s2\<lparr>ck_db := d, ck_posts := remove1 p (ck_posts s2), ck_answers := (po_number p, Inr v) # ck_answers s2,
      ck_created := (po_key p, tv_id v) # ck_created s2\<rparr>)"
    by (rule checkout_step.served [where x = "ex_create_tx empty_payments_db" and newId = "''t1''"])
      (use c valid in \<open>simp_all add: s2_def s1_def s0_def new_checkout_def p_def ex_create_tx_def\<close>)
  ultimately have "?R (s2\<lparr>ck_db := d, ck_posts := remove1 p (ck_posts s2), ck_answers := (po_number p, Inr v) # ck_answers s2,
      ck_created := (po_key p, tv_id v) # ck_created s2\<rparr>)" by (meson checkout_reachable.step)
  then show ?thesis by (intro exI conjI) (assumption, simp_all add: s2_def s1_def s0_def new_checkout_def p_def v)
qed

theorem form_pays_once_witness:
  "\<exists>s. checkout_reachable (\<lambda>_. JsFin 10) ex_sha ex_wallets ''u1'' s \<and> ck_created s = [('' k1 '', ''t1'')] \<and>
    made_with ''u1'' (ck_db s) ('' k1 '', ''t1'') \<and> card (snd ` set (ck_created s)) \<le> 1"
proof -
  from ex_checkout_run obtain s where s: "checkout_reachable (\<lambda>_. JsFin 10) ex_sha ex_wallets ''u1'' s"
    "ck_created s = [('' k1 '', ''t1'')]" "ck_resets s = 0" by (elim exE conjE) (rule that)
  with form_pays_once [OF s(1)] show ?thesis by (intro exI [of _ s]) simp
qed

end
