(* ===== verification/Frontend_Session.thy ===== *)
theory Frontend_Session
  imports Gateway_Service
begin

text \<open>
  The server of the frontend, between the browser and the gateway: \<^verbatim>\<open>app/api/request-security.ts\<close>,
  \<^verbatim>\<open>app/api/bff/proxy.ts\<close>, the routes \<^verbatim>\<open>login\<close>, \<^verbatim>\<open>register\<close> and \<^verbatim>\<open>logout\<close> under
  \<^verbatim>\<open>app/api/auth\<close>, \<^verbatim>\<open>middleware.ts\<close>, and the requests of \<^verbatim>\<open>lib/api.ts\<close>; and the browser with its
  two cookies, which many requests share.

  Parameters are the network (\<open>fe_fetch\<close>, the answer after a history of exchanges), \<^verbatim>\<open>JSON.parse\<close>,
  \<^verbatim>\<open>JSON.stringify\<close>, \<^verbatim>\<open>atob\<close>, \<^verbatim>\<open>encodeURIComponent\<close>, the encoding of
  \<^verbatim>\<open>URLSearchParams\<close>, \<^verbatim>\<open>new URL(..).origin\<close> and the text of a
  JSON value that is no string. A body that is read is there in full; the source declares the type of the pair
  of tokens without a check, so the model takes the answer as the JSON value that it is.
\<close>

section \<open>Requests and answers\<close>

record wire =
  w_url :: string
  w_method :: string
  w_headers :: "(string \<times> string) list"
  w_body :: "string option"

record wire_response =
  wr_status :: int
  wr_contentType :: "string option"
  wr_text :: string

type_synonym exchange = "wire \<times> wire_response option"

record front_env =
  fe_gatewayUrl :: "string option"
  fe_frontendOrigin :: "string option"
  fe_cookieSecure :: "string option"
  fe_fetch :: "exchange list \<Rightarrow> wire \<Rightarrow> wire_response option"
  fe_json_parse :: "string \<Rightarrow> json option"
  fe_json_text :: "json \<Rightarrow> string"
  fe_string :: "json \<Rightarrow> string"
  fe_atob :: "string \<Rightarrow> string option"
  fe_encode :: "string \<Rightarrow> string"
  fe_form_text :: "string \<Rightarrow> string"
  fe_url_origin :: "string \<Rightarrow> string option"

record front_request =
  fq_method :: string
  fq_origin :: "string option"
  fq_cookies :: "string \<rightharpoonup> string"
  fq_idempotencyKey :: "string option"
  fq_contentType :: "string option"
  fq_ownOrigin :: string
  fq_pathname :: string
  fq_search :: string
  fq_body :: string

record set_cookie =
  sc_name :: string
  sc_value :: string
  sc_httpOnly :: bool
  sc_sameSite :: "string option"
  sc_secure :: bool
  sc_path :: string
  sc_maxAge :: "nat option"

record front_response =
  fs_status :: int
  fs_contentType :: "string option"
  fs_body :: string
  fs_location :: "string option"
  fs_cookies :: "set_cookie list"

text \<open>What a handler throws: the error of \<^verbatim>\<open>fetch\<close>, of a body that is no JSON, of a property of \<^verbatim>\<open>null\<close>, or \<^verbatim>\<open>BffError\<close>.\<close>

datatype front_error = FetchThrew | NoJson | NullProperty | BffError int string

text \<open>A handler reads the exchanges so far, sends its requests after them, and returns or throws.\<close>

type_synonym 'a io = "exchange list \<Rightarrow> (front_error, 'a) res \<times> exchange list"

definition ret :: "'a \<Rightarrow> 'a io" where
  "ret x l = (Inr x, l)"

definition throw :: "front_error \<Rightarrow> 'a io" where
  "throw e l = (Inl e, l)"

definition after :: "'a io \<Rightarrow> ('a \<Rightarrow> 'b io) \<Rightarrow> 'b io" where
  "after m k l = (case m l of (Inl e, l') \<Rightarrow> (Inl e, l') | (Inr x, l') \<Rightarrow> k x l')"

definition catch :: "'a io \<Rightarrow> (front_error \<Rightarrow> 'a io) \<Rightarrow> 'a io" where
  "catch m h l = (case m l of (Inl e, l') \<Rightarrow> h e l' | (Inr x, l') \<Rightarrow> (Inr x, l'))"

definition send :: "front_env \<Rightarrow> wire \<Rightarrow> wire_response io" where
  "send env w l =
    (let a = fe_fetch env l w
     in (case a of None \<Rightarrow> Inl FetchThrew | Some r \<Rightarrow> Inr r, l @ [(w, a)]))"

definition response_ok :: "wire_response \<Rightarrow> bool" where
  "response_ok r \<longleftrightarrow> 200 \<le> wr_status r \<and> wr_status r \<le> 299"

text \<open>The texts of a property in a template and in a cookie.\<close>

definition template_text :: "front_env \<Rightarrow> json option \<Rightarrow> string" where
  "template_text env v = (case v of None \<Rightarrow> ''undefined'' | Some (JStr s) \<Rightarrow> s | Some j \<Rightarrow> fe_string env j)"

definition cookie_text :: "front_env \<Rightarrow> json option \<Rightarrow> string" where
  "cookie_text env v = (case v of None \<Rightarrow> [] | Some JNull \<Rightarrow> [] | Some (JStr s) \<Rightarrow> s | Some j \<Rightarrow> fe_string env j)"

definition json_falsy :: "json \<Rightarrow> bool" where
  "json_falsy j = (case j of JNull \<Rightarrow> True | JBool b \<Rightarrow> \<not> b | JStr s \<Rightarrow> s = [] | JNum n \<Rightarrow> n = JsFin 0 \<or> n = JsNaN | _ \<Rightarrow> False)"

section \<open>Cookies\<close>

definition live_cookie :: "front_env \<Rightarrow> string \<Rightarrow> json option \<Rightarrow> set_cookie" where
  "live_cookie env name v =
    \<lparr>sc_name = name, sc_value = cookie_text env v, sc_httpOnly = True, sc_sameSite = Some ''lax'',
     sc_secure = (fe_cookieSecure env = Some ''true''), sc_path = ''/'', sc_maxAge = None\<rparr>"

definition dead_cookie :: "string \<Rightarrow> set_cookie" where
  "dead_cookie name =
    \<lparr>sc_name = name, sc_value = [], sc_httpOnly = True, sc_sameSite = None, sc_secure = False, sc_path = ''/'', sc_maxAge = Some 0\<rparr>"

definition setTokenCookies :: "front_env \<Rightarrow> json \<Rightarrow> set_cookie list" where
  "setTokenCookies env tokens =
    [live_cookie env ''accessToken'' (jget ''accessToken'' tokens), live_cookie env ''refreshToken'' (jget ''refreshToken'' tokens)]"

definition clearTokenCookies :: "set_cookie list" where
  "clearTokenCookies = [dead_cookie ''accessToken'', dead_cookie ''refreshToken'']"

definition json_response :: "front_env \<Rightarrow> int \<Rightarrow> json \<Rightarrow> front_response" where
  "json_response env status body = \<lparr>fs_status = status, fs_contentType = Some ''application/json'', fs_body = fe_json_text env body, fs_location = None, fs_cookies = []\<rparr>"

section \<open>The requests to the gateway\<close>

definition gateway_url :: "front_env \<Rightarrow> string" where
  "gateway_url env = (case fe_gatewayUrl env of None \<Rightarrow> ''http://localhost:3004'' | Some u \<Rightarrow> u)"

definition gatewayBffUrl :: "front_env \<Rightarrow> string \<Rightarrow> string" where
  "gatewayBffUrl env path = gateway_url env @ ''/bff'' @ path"

definition refresh_wire :: "front_env \<Rightarrow> string \<Rightarrow> wire" where
  "refresh_wire env t =
    \<lparr>w_url = gateway_url env @ ''/auth/refresh'', w_method = ''POST'', w_headers = [(''Content-Type'', ''application/json'')],
     w_body = Some (fe_json_text env (JObj [(''refreshToken'', JStr t)]))\<rparr>"

definition refreshTokens :: "front_env \<Rightarrow> string option \<Rightarrow> json option io" where
  "refreshTokens env token =
    (case truthy token of
       None \<Rightarrow> ret None
     | Some t \<Rightarrow>
         after (send env (refresh_wire env t)) (\<lambda>r.
         if \<not> response_ok r then ret None
         else case fe_json_parse env (wr_text r) of
                None \<Rightarrow> throw NoJson
              | Some j \<Rightarrow> ret (if json_falsy j then None else Some j)))"

text \<open>\<^verbatim>\<open>request\<close> of \<^verbatim>\<open>lib/api.ts\<close> for a JSON body, and the two calls that use it.\<close>

definition safeJson :: "front_env \<Rightarrow> string \<Rightarrow> json" where
  "safeJson env text = (case fe_json_parse env text of Some j \<Rightarrow> j | None \<Rightarrow> JObj [(''message'', JStr text)])"

definition api_request ::
  "front_env \<Rightarrow> string \<Rightarrow> string \<Rightarrow> (string \<times> string) list \<Rightarrow> string option \<Rightarrow> json io" where
  "api_request env url method headers body =
    after (send env \<lparr>w_url = url, w_method = method, w_headers = (''Content-Type'', ''application/json'') # headers, w_body = body\<rparr>) (\<lambda>r.
    let payload = (if wr_text r \<noteq> [] then safeJson env (wr_text r) else JNull)
    in if \<not> response_ok r
       then throw (BffError (wr_status r)
              (case payload of
                 JObj kvs \<Rightarrow> (case map_of kvs ''message'' of
                                Some m \<Rightarrow> (case m of JStr s \<Rightarrow> s | _ \<Rightarrow> fe_string env m)
                              | None \<Rightarrow> ''BFF returned HTTP '' @ show_int (wr_status r))
               | _ \<Rightarrow> ''BFF returned HTTP '' @ show_int (wr_status r)))
       else ret payload)"

definition gatewayAuthFetch :: "front_env \<Rightarrow> string \<Rightarrow> string \<Rightarrow> json io" where
  "gatewayAuthFetch env path body = api_request env (gateway_url env @ ''/auth'' @ path) ''POST'' [] (Some body)"

definition bffFetch :: "front_env \<Rightarrow> (string \<rightharpoonup> string) \<Rightarrow> string \<Rightarrow> string \<Rightarrow> string option \<Rightarrow> json io" where
  "bffFetch env cookies path method body =
    (case truthy (cookies ''accessToken'') of
       None \<Rightarrow> throw (BffError 401 ''Authentication required'')
     | Some t \<Rightarrow> api_request env (gatewayBffUrl env path) method [(''Authorization'', ''Bearer '' @ t)] body)"

section \<open>The routes under \<^verbatim>\<open>app/api\<close>\<close>

definition isTrustedMutationOrigin :: "front_env \<Rightarrow> front_request \<Rightarrow> bool" where
  "isTrustedMutationOrigin env q =
    (case truthy (fq_origin q) of
       None \<Rightarrow> True
     | Some origin \<Rightarrow>
         let expected = (case fe_frontendOrigin env of None \<Rightarrow> fq_ownOrigin q | Some u \<Rightarrow> u)
         in (case (fe_url_origin env origin, fe_url_origin env expected) of
               (Some a, Some b) \<Rightarrow> a = b
             | _ \<Rightarrow> False))"

definition reads :: "front_request \<Rightarrow> bool" where
  "reads q \<longleftrightarrow> fq_method q = ''GET'' \<or> fq_method q = ''HEAD''"

definition bff_path :: "front_env \<Rightarrow> string list \<Rightarrow> string" where
  "bff_path env segments = (if segments = [] then ''/'' else concat (map (\<lambda>x. ''/'' @ fe_encode env x) segments))"

definition bff_wire :: "front_env \<Rightarrow> front_request \<Rightarrow> string list \<Rightarrow> string \<Rightarrow> wire" where
  "bff_wire env q segments token =
    \<lparr>w_url = gatewayBffUrl env (bff_path env segments) @ fq_search q,
     w_method = fq_method q,
     w_headers =
       [(''Authorization'', ''Bearer '' @ token),
        (''Content-Type'', case fq_contentType q of None \<Rightarrow> ''application/json'' | Some c \<Rightarrow> c)] @
       (case truthy (fq_idempotencyKey q) of None \<Rightarrow> [] | Some k \<Rightarrow> [(''Idempotency-Key'', k)]),
     w_body = (if reads q then None else Some (fq_body q))\<rparr>"

text \<open>The token of the first request and the pair, if it had to be refreshed; nothing if there is none.\<close>

definition first_token :: "front_env \<Rightarrow> front_request \<Rightarrow> (string \<times> json option) option io" where
  "first_token env q =
    (case truthy (fq_cookies q ''accessToken'') of
       Some t \<Rightarrow> ret (Some (t, None))
     | None \<Rightarrow>
         after (refreshTokens env (fq_cookies q ''refreshToken'')) (\<lambda>r.
         case r of
           None \<Rightarrow> ret None
         | Some j \<Rightarrow> ret (Some (template_text env (jget ''accessToken'' j), Some j))))"

text \<open>The second request, after an answer 401.\<close>

definition retry_refreshed ::
  "front_env \<Rightarrow> front_request \<Rightarrow> string list \<Rightarrow> wire_response \<Rightarrow> json option \<Rightarrow> (wire_response \<times> json option) io" where
  "retry_refreshed env q segments upstream refreshed =
    (if wr_status upstream = 401
     then after (refreshTokens env (fq_cookies q ''refreshToken'')) (\<lambda>r.
          case r of
            None \<Rightarrow> ret (upstream, None)
          | Some j \<Rightarrow>
              after (send env (bff_wire env q segments (template_text env (jget ''accessToken'' j)))) (\<lambda>upstream.
              ret (upstream, Some j)))
     else ret (upstream, refreshed))"

definition proxied :: "front_env \<Rightarrow> wire_response \<Rightarrow> json option \<Rightarrow> front_response" where
  "proxied env upstream refreshed =
    \<lparr>fs_status = wr_status upstream,
     fs_contentType = Some (case wr_contentType upstream of None \<Rightarrow> ''application/json'' | Some c \<Rightarrow> c),
     fs_body = wr_text upstream, fs_location = None,
     fs_cookies =
       (case refreshed of
          Some j \<Rightarrow> setTokenCookies env j
        | None \<Rightarrow> if wr_status upstream = 401 then clearTokenCookies else [])\<rparr>"

definition proxyBffRequest :: "front_env \<Rightarrow> front_request \<Rightarrow> string list \<Rightarrow> front_response io" where
  "proxyBffRequest env q segments =
    (if \<not> reads q \<and> \<not> isTrustedMutationOrigin env q
     then ret (json_response env 403 (JObj [(''message'', JStr ''Untrusted request origin'')]))
     else after (first_token env q) (\<lambda>first.
          case first of
            None \<Rightarrow> ret (json_response env 401 (JObj [(''message'', JStr ''Unauthorized'')]))
          | Some (token, refreshed) \<Rightarrow>
              after (send env (bff_wire env q segments token)) (\<lambda>upstream.
              after (retry_refreshed env q segments upstream refreshed) (\<lambda>(upstream, refreshed).
              ret (proxied env upstream refreshed)))))"

text \<open>
  \<^verbatim>\<open>POST\<close> of \<^verbatim>\<open>login\<close> and \<^verbatim>\<open>register\<close>, which differ in the path and in the status of an error. The text
  of an error that is not a \<^verbatim>\<open>BffError\<close> is the runtime's.
\<close>

definition thrown_message :: "(front_error \<Rightarrow> string) \<Rightarrow> front_error \<Rightarrow> string" where
  "thrown_message runtime e = (case e of BffError _ m \<Rightarrow> m | _ \<Rightarrow> runtime e)"

definition auth_post ::
  "front_env \<Rightarrow> (front_error \<Rightarrow> string) \<Rightarrow> string \<Rightarrow> int \<Rightarrow> front_request \<Rightarrow> front_response io" where
  "auth_post env runtime path refused q =
    (if \<not> isTrustedMutationOrigin env q
     then ret (json_response env 403 (JObj [(''error'', JStr ''Untrusted request origin'')]))
     else case fe_json_parse env (fq_body q) of
            None \<Rightarrow> throw NoJson
          | Some body \<Rightarrow>
              catch
                (after (gatewayAuthFetch env path (fe_json_text env body)) (\<lambda>tokens.
                 if tokens = JNull then throw NullProperty
                 else ret ((json_response env 200 (JObj [(''ok'', JBool True)]))\<lparr>fs_cookies := setTokenCookies env tokens\<rparr>)))
                (\<lambda>e. ret (json_response env refused (JObj [(''error'', JStr (thrown_message runtime e))]))))"

definition login_POST :: "front_env \<Rightarrow> (front_error \<Rightarrow> string) \<Rightarrow> front_request \<Rightarrow> front_response io" where
  "login_POST env runtime = auth_post env runtime ''/login'' 401"

definition register_POST :: "front_env \<Rightarrow> (front_error \<Rightarrow> string) \<Rightarrow> front_request \<Rightarrow> front_response io" where
  "register_POST env runtime = auth_post env runtime ''/register'' 400"

definition logout_POST :: "front_env \<Rightarrow> front_request \<Rightarrow> front_response io" where
  "logout_POST env q =
    (if \<not> isTrustedMutationOrigin env q
     then ret (json_response env 403 (JObj [(''error'', JStr ''Untrusted request origin'')]))
     else ret ((json_response env 200 (JObj [(''ok'', JBool True)]))\<lparr>fs_cookies := clearTokenCookies\<rparr>))"

section \<open>The middleware in front of the pages\<close>

definition isExpired :: "front_env \<Rightarrow> int \<Rightarrow> string \<Rightarrow> bool" where
  "isExpired env now token =
    (case split_on (CHR ''.'') token of
       _ # encoded # _ \<Rightarrow>
         let normalized = map (\<lambda>c. if c = CHR ''-'' then CHR ''+'' else if c = CHR ''_'' then CHR ''/'' else c) encoded
         in (case Option.bind (fe_atob env normalized) (fe_json_parse env) of
               None \<Rightarrow> True
             | Some payload \<Rightarrow>
                 (case jget ''exp'' payload of
                    Some (JNum n) \<Rightarrow> js_le (js_mul n (JsFin 1000)) (JsFin (of_int (now + 5000)))
                  | _ \<Rightarrow> True))
     | _ \<Rightarrow> True)"

datatype middleware_result = NextResponse_next | Redirect front_response

definition loginRedirect :: "front_env \<Rightarrow> front_request \<Rightarrow> bool \<Rightarrow> front_response" where
  "loginRedirect env q clear =
    \<lparr>fs_status = 307, fs_contentType = None, fs_body = [], fs_location = Some (fq_ownOrigin q @ ''/login?next='' @ fe_form_text env (fq_pathname q)),
     fs_cookies = (if clear then clearTokenCookies else [])\<rparr>"

definition middleware_refresh :: "front_env \<Rightarrow> front_request \<Rightarrow> string \<Rightarrow> middleware_result io" where
  "middleware_refresh env q t =
    catch
      (after (send env (refresh_wire env t)) (\<lambda>r.
       if \<not> response_ok r then ret (Redirect (loginRedirect env q True))
       else case fe_json_parse env (wr_text r) of
              None \<Rightarrow> throw NoJson
            | Some tokens \<Rightarrow>
                if tokens = JNull then throw NullProperty
                else ret (Redirect
                  \<lparr>fs_status = 307, fs_contentType = None, fs_body = [], fs_location = Some (fq_ownOrigin q @ fq_pathname q @ fq_search q),
                   fs_cookies = setTokenCookies env tokens\<rparr>)))
      (\<lambda>_. ret (Redirect (loginRedirect env q True)))"

definition middleware :: "front_env \<Rightarrow> int \<Rightarrow> front_request \<Rightarrow> middleware_result io" where
  "middleware env now q =
    (let fresh = (case truthy (fq_cookies q ''accessToken'') of Some t \<Rightarrow> \<not> isExpired env now t | None \<Rightarrow> False)
     in if fresh then ret NextResponse_next
        else case truthy (fq_cookies q ''refreshToken'') of
               None \<Rightarrow> ret (Redirect (loginRedirect env q False))
             | Some t \<Rightarrow> middleware_refresh env q t)"

section \<open>The browser\<close>

text \<open>
  A browser keeps the cookies that an answer sets and drops those with \<^verbatim>\<open>Max-Age=0\<close>; it sends them with every
  request to the frontend. Requests overlap: one is handled with the cookies of the time when it was sent, and its
  answer arrives after any others. It may also drop a cookie of its own accord.
\<close>

definition keep_cookie :: "set_cookie \<Rightarrow> (string \<rightharpoonup> string) \<Rightarrow> (string \<rightharpoonup> string)" where
  "keep_cookie c jar = jar(sc_name c := (if sc_maxAge c = Some 0 then None else Some (sc_value c)))"

definition keep_cookies :: "set_cookie list \<Rightarrow> (string \<rightharpoonup> string) \<Rightarrow> (string \<rightharpoonup> string)" where
  "keep_cookies = fold keep_cookie"

datatype visit = Bff "string list" | Login | Register | Logout | Page int

record browser =
  br_jar :: "string \<rightharpoonup> string"
  br_requests :: "(visit \<times> front_request) list"
  br_answers :: "set_cookie list list"
  br_log :: "exchange list"

definition new_browser :: browser where
  "new_browser = \<lparr>br_jar = Map.empty, br_requests = [], br_answers = [], br_log = []\<rparr>"

definition result_cookies :: "middleware_result \<Rightarrow> set_cookie list" where
  "result_cookies r = (case r of NextResponse_next \<Rightarrow> [] | Redirect s \<Rightarrow> fs_cookies s)"

text \<open>The cookies of the answer; a handler that throws answers 500 and sets none.\<close>

definition handle_visit :: "front_env \<Rightarrow> (front_error \<Rightarrow> string) \<Rightarrow> visit \<Rightarrow> front_request \<Rightarrow> set_cookie list io" where
  "handle_visit env runtime v q =
    catch
      (case v of
         Bff segments \<Rightarrow> after (proxyBffRequest env q segments) (\<lambda>s. ret (fs_cookies s))
       | Login \<Rightarrow> after (login_POST env runtime q) (\<lambda>s. ret (fs_cookies s))
       | Register \<Rightarrow> after (register_POST env runtime q) (\<lambda>s. ret (fs_cookies s))
       | Logout \<Rightarrow> after (logout_POST env q) (\<lambda>s. ret (fs_cookies s))
       | Page now \<Rightarrow> after (middleware env now q) (\<lambda>r. ret (result_cookies r)))
      (\<lambda>_. ret [])"

inductive browser_step :: "front_env \<Rightarrow> (front_error \<Rightarrow> string) \<Rightarrow> browser \<Rightarrow> browser \<Rightarrow> bool" for env runtime where
  sends: "fq_cookies q = br_jar b \<Longrightarrow> browser_step env runtime b (b\<lparr>br_requests := (v, q) # br_requests b\<rparr>)"
| handled: "(v, q) \<in> set (br_requests b) \<Longrightarrow> handle_visit (env\<lparr>fe_fetch := network\<rparr>) runtime v q (br_log b) = (Inr cs, l) \<Longrightarrow>
    browser_step env runtime b (b\<lparr>br_requests := remove1 (v, q) (br_requests b), br_answers := cs # br_answers b, br_log := l\<rparr>)"
| receives: "cs \<in> set (br_answers b) \<Longrightarrow>
    browser_step env runtime b (b\<lparr>br_answers := remove1 cs (br_answers b), br_jar := keep_cookies cs (br_jar b)\<rparr>)"
| loses: "cs \<in> set (br_answers b) \<Longrightarrow> browser_step env runtime b (b\<lparr>br_answers := remove1 cs (br_answers b)\<rparr>)"
| drops: "browser_step env runtime b (b\<lparr>br_jar := (br_jar b)(name := None)\<rparr>)"

inductive browser_reachable :: "front_env \<Rightarrow> (front_error \<Rightarrow> string) \<Rightarrow> browser \<Rightarrow> bool" for env runtime where
  start: "browser_reachable env runtime new_browser"
| step: "browser_reachable env runtime b \<Longrightarrow> browser_step env runtime b b' \<Longrightarrow> browser_reachable env runtime b'"

section \<open>Weakest preconditions of handlers\<close>

definition wp :: "'a io \<Rightarrow> ((front_error, 'a) res \<Rightarrow> exchange list \<Rightarrow> bool) \<Rightarrow> exchange list \<Rightarrow> bool" where
  "wp m Q l = (case m l of (r, l') \<Rightarrow> Q r l')"

lemma wp_ret [simp]: "wp (ret x) Q l = Q (Inr x) l"
  by (simp add: wp_def ret_def)

lemma wp_throw [simp]: "wp (throw e) Q l = Q (Inl e) l"
  by (simp add: wp_def throw_def)

lemma wp_after [simp]: "wp (after m k) Q l = wp m (\<lambda>r l'. case r of Inl e \<Rightarrow> Q (Inl e) l' | Inr x \<Rightarrow> wp (k x) Q l') l"
  by (simp add: wp_def after_def split: prod.splits sum.splits)

lemma wp_catch [simp]: "wp (catch m h) Q l = wp m (\<lambda>r l'. case r of Inl e \<Rightarrow> wp (h e) Q l' | Inr x \<Rightarrow> Q (Inr x) l') l"
  by (simp add: wp_def catch_def split: prod.splits sum.splits)

lemma wp_send [simp]:
  "wp (send env w) Q l =
    (case fe_fetch env l w of None \<Rightarrow> Q (Inl FetchThrew) (l @ [(w, None)]) | Some a \<Rightarrow> Q (Inr a) (l @ [(w, Some a)]))"
  by (simp add: wp_def send_def Let_def split: option.splits)

lemma wpD: "wp m Q l \<Longrightarrow> m l = (r, l') \<Longrightarrow> Q r l'"
  by (simp add: wp_def)

lemma wp_mono: "wp m Q l \<Longrightarrow> (\<And>r l'. Q r l' \<Longrightarrow> Q' r l') \<Longrightarrow> wp m Q' l"
  by (simp add: wp_def split: prod.splits)

text \<open>The pairs that the gateway answered.\<close>

definition auth_url :: "front_env \<Rightarrow> string \<Rightarrow> bool" where
  "auth_url env u \<longleftrightarrow> u \<in> (\<lambda>p. gateway_url env @ ''/auth'' @ p) ` {''/login'', ''/register'', ''/refresh''}"

definition issued :: "front_env \<Rightarrow> exchange list \<Rightarrow> json set" where
  "issued env l = {safeJson env (wr_text r) | w r. (w, Some r) \<in> set l \<and> auth_url env (w_url w) \<and> response_ok r}"

lemma issued_append: "issued env (l @ l') = issued env l \<union> issued env l'"
  by (auto simp: issued_def)

lemma issued_mono: "j \<in> issued env l \<Longrightarrow> j \<in> issued env (l @ l')"
  by (simp add: issued_append)

lemma auth_urls [simp]:
  "auth_url env (w_url (refresh_wire env t))"
  "auth_url env (gateway_url env @ ''/auth/login'')" "auth_url env (gateway_url env @ ''/auth/register'')"
  by (simp_all add: auth_url_def refresh_wire_def)

lemma bff_not_auth [simp]: "\<not> auth_url env (w_url (bff_wire env q segments t))"
  by (simp add: auth_url_def bff_wire_def gatewayBffUrl_def)

lemma issued_refresh:
  "response_ok r \<Longrightarrow> fe_json_parse env (wr_text r) = Some j \<Longrightarrow> j \<in> issued env [(refresh_wire env t, Some r)]"
  by (auto simp: issued_def safeJson_def)

text \<open>A refresh sends at most one request; its pair is one that the gateway answered.\<close>

lemma wp_refresh:
  assumes "truthy token = None \<Longrightarrow> Q (Inr None) l"
    and "\<And>t a r. truthy token = Some t \<Longrightarrow>
      (case r of Inl e \<Rightarrow> True | Inr None \<Rightarrow> True | Inr (Some j) \<Rightarrow> j \<in> issued env [(refresh_wire env t, a)]) \<Longrightarrow>
      Q r (l @ [(refresh_wire env t, a)])"
  shows "wp (refreshTokens env token) Q l"
  using assms by (auto simp: refreshTokens_def issued_refresh split: option.splits)

section \<open>What the proxy sends and answers\<close>

definition to_bff :: "front_env \<Rightarrow> exchange list \<Rightarrow> exchange list" where
  "to_bff env l = filter (\<lambda>x. \<not> auth_url env (w_url (fst x))) l"

definition request_token :: "front_env \<Rightarrow> front_request \<Rightarrow> exchange list \<Rightarrow> string \<Rightarrow> bool" where
  "request_token env q new t \<longleftrightarrow>
    truthy (fq_cookies q ''accessToken'') = Some t \<or> (\<exists>j \<in> issued env new. t = template_text env (jget ''accessToken'' j))"

definition answered_with :: "exchange \<Rightarrow> int \<Rightarrow> string \<Rightarrow> bool" where
  "answered_with x status text \<longleftrightarrow> (\<exists>a. snd x = Some a \<and> wr_status a = status \<and> wr_text a = text)"

definition proxy_ok :: "front_env \<Rightarrow> front_request \<Rightarrow> string list \<Rightarrow> (front_error, front_response) res \<Rightarrow> exchange list \<Rightarrow> bool" where
  "proxy_ok env q segments r new \<longleftrightarrow>
    (\<not> reads q \<and> \<not> isTrustedMutationOrigin env q \<longrightarrow> new = []) \<and>
    ((reads q \<or> isTrustedMutationOrigin env q) \<and> truthy (fq_cookies q ''accessToken'') \<noteq> None \<longrightarrow> to_bff env new \<noteq> []) \<and>
    length (to_bff env new) \<le> 2 \<and>
    (\<forall>x \<in> set (to_bff env new). \<exists>t. fst x = bff_wire env q segments t \<and> request_token env q new t) \<and>
    (length (to_bff env new) = 2 \<longrightarrow> (\<exists>text. answered_with (hd (to_bff env new)) 401 text)) \<and>
    (\<forall>s. r = Inr s \<longrightarrow>
       (to_bff env new \<noteq> [] \<longrightarrow> answered_with (last (to_bff env new)) (fs_status s) (fs_body s)) \<and>
       (fs_cookies s = [] \<or> fs_cookies s = clearTokenCookies \<and> fs_status s = 401 \<or>
        (\<exists>j \<in> issued env new. fs_cookies s = setTokenCookies env j)))"

lemma to_bff_simps [simp]:
  "to_bff env [] = []"
  "to_bff env (l @ l') = to_bff env l @ to_bff env l'"
  "to_bff env ((refresh_wire env t, a) # l) = to_bff env l"
  "to_bff env ((bff_wire env q segments t, a) # l) = (bff_wire env q segments t, a) # to_bff env l"
  by (simp_all add: to_bff_def)

text \<open>The pieces of the proxy: what they send after \<open>l\<close> and what they return.\<close>

definition extends :: "exchange list \<Rightarrow> ('r \<Rightarrow> exchange list \<Rightarrow> bool) \<Rightarrow> 'r \<Rightarrow> exchange list \<Rightarrow> bool" where
  "extends l P r l' \<longleftrightarrow> (\<exists>new. l' = l @ new \<and> P r new)"

lemma extendsI [intro]: "P r new \<Longrightarrow> extends l P r (l @ new)"
  by (auto simp: extends_def)

lemma extends_refl: "P r [] \<Longrightarrow> extends l P r l"
  by (auto simp: extends_def)

definition first_ok :: "front_env \<Rightarrow> front_request \<Rightarrow> (front_error, (string \<times> json option) option) res \<Rightarrow> exchange list \<Rightarrow> bool" where
  "first_ok env q r new \<longleftrightarrow> to_bff env new = [] \<and>
    (truthy (fq_cookies q ''accessToken'') \<noteq> None \<longrightarrow> (\<exists>t. r = Inr (Some (t, None)))) \<and>
    (\<forall>t. r = Inr (Some (t, None)) \<longrightarrow> truthy (fq_cookies q ''accessToken'') = Some t) \<and>
    (\<forall>t j. r = Inr (Some (t, Some j)) \<longrightarrow> j \<in> issued env new \<and> t = template_text env (jget ''accessToken'' j))"

lemma wp_first_token: "wp (first_token env q) (extends l (first_ok env q)) l"
proof (cases "truthy (fq_cookies q ''accessToken'')")
  case None
  show ?thesis
    unfolding first_token_def None option.case wp_after
    by (rule wp_refresh) (auto simp: first_ok_def None intro!: extendsI extends_refl split: sum.splits option.splits)
next
  case (Some t)
  then show ?thesis by (simp add: first_token_def first_ok_def extends_refl)
qed

definition retry_ok ::
  "front_env \<Rightarrow> front_request \<Rightarrow> string list \<Rightarrow> wire_response \<Rightarrow> json option \<Rightarrow>
    (front_error, wire_response \<times> json option) res \<Rightarrow> exchange list \<Rightarrow> bool" where
  "retry_ok env q segments upstream refreshed r new \<longleftrightarrow>
    to_bff env new = [] \<and>
      (\<forall>u p. r = Inr (u, p) \<longrightarrow> u = upstream \<and> p = (if wr_status upstream = 401 then None else refreshed)) \<or>
    wr_status upstream = 401 \<and>
      (\<exists>j a. j \<in> issued env new \<and> to_bff env new = [(bff_wire env q segments (template_text env (jget ''accessToken'' j)), a)] \<and>
         r = (case a of None \<Rightarrow> Inl FetchThrew | Some u \<Rightarrow> Inr (u, Some j)))"

lemma wp_retry:
  "wp (retry_refreshed env q segments upstream refreshed) (extends l (retry_ok env q segments upstream refreshed)) l"
proof (cases "wr_status upstream = 401")
  case True
  have ext: "extends l (retry_ok env q segments upstream refreshed) r ((l @ [x]) @ [(bff_wire env q segments t, a)])"
    if "j \<in> issued env [x]" "x = (refresh_wire env t', a')" "t = template_text env (jget ''accessToken'' j)"
      "r = (case a of None \<Rightarrow> Inl FetchThrew | Some u \<Rightarrow> Inr (u, Some j))" for r x t t' a a' j
    unfolding append_assoc using that True issued_mono [OF that(1), of "[(bff_wire env q segments t, a)]"]
    by (intro extendsI) (auto simp: retry_ok_def)
  show ?thesis
    unfolding retry_refreshed_def if_P [OF True] wp_after
  proof (rule wp_refresh, goal_cases)
    case 1
    then show ?case using True by (auto simp: retry_ok_def intro!: extends_refl)
  next
    case (2 t a r)
    then show ?case using True
      by (auto simp: retry_ok_def simp del: append_assoc intro!: ext extendsI split: sum.splits option.splits)
  qed
next
  case False
  then show ?thesis by (auto simp: retry_refreshed_def retry_ok_def intro!: extends_refl)
qed

lemma first_request_token:
  assumes "first_ok env q (Inr (Some (t, refreshed))) new"
  shows "request_token env q (new @ new') t"
  using assms by (cases refreshed) (auto simp: first_ok_def request_token_def issued_append)

lemma proxy_ok_broken:
  assumes "first_ok env q (Inr (Some (t, refreshed))) new" "reads q \<or> isTrustedMutationOrigin env q"
  shows "proxy_ok env q segments (Inl e) (new @ [(bff_wire env q segments t, None)])"
proof -
  have "to_bff env new = []" using assms(1) by (simp add: first_ok_def)
  then show ?thesis using assms(2) first_request_token [OF assms(1)] by (auto simp: proxy_ok_def)
qed

lemma proxy_ok_answered:
  assumes first: "first_ok env q (Inr (Some (t, refreshed))) new" and trusted: "reads q \<or> isTrustedMutationOrigin env q"
    and retry: "retry_ok env q segments upstream refreshed r new'"
  shows "proxy_ok env q segments (case r of Inl e \<Rightarrow> Inl e | Inr (u, p) \<Rightarrow> Inr (proxied env u p))
    (new @ (bff_wire env q segments t, Some upstream) # new')"
    (is "proxy_ok _ _ _ ?r ?new")
proof -
  have token: "request_token env q ?new t" by (rule first_request_token [OF first])
  have old: "to_bff env new = []" "\<And>j. refreshed = Some j \<Longrightarrow> j \<in> issued env ?new"
    using first by (auto simp: first_ok_def issued_append)
  from retry show ?thesis unfolding retry_ok_def
  proof (elim disjE conjE exE)
    assume "to_bff env new' = []"
      "\<forall>u p. r = Inr (u, p) \<longrightarrow> u = upstream \<and> p = (if wr_status upstream = 401 then None else refreshed)"
    with trusted token old show ?thesis
      by (auto simp: proxy_ok_def answered_with_def proxied_def split: sum.splits option.splits)
  next
    fix j a
    assume j: "wr_status upstream = 401" "j \<in> issued env new'"
      "to_bff env new' = [(bff_wire env q segments (template_text env (jget ''accessToken'' j)), a)]"
      "r = (case a of None \<Rightarrow> Inl FetchThrew | Some u \<Rightarrow> Inr (u, Some j))"
    have i: "j \<in> issued env ?new" using j(2) by (auto simp: issued_def)
    then have "request_token env q ?new (template_text env (jget ''accessToken'' j))" by (auto simp: request_token_def)
    with trusted token old(1) i j show ?thesis
      by (auto simp: proxy_ok_def answered_with_def proxied_def split: option.splits)
  qed
qed

lemma wp_proxy: "wp (proxyBffRequest env q segments) (extends l (proxy_ok env q segments)) l"
proof (cases "\<not> reads q \<and> \<not> isTrustedMutationOrigin env q")
  case True
  then show ?thesis by (auto simp: proxyBffRequest_def proxy_ok_def json_response_def intro!: extends_refl)
next
  case False
  then have trusted: "reads q \<or> isTrustedMutationOrigin env q" by simp
  have none: "proxy_ok env q segments r new" if "to_bff env new = []" "truthy (fq_cookies q ''accessToken'') = None" "\<And>s. r = Inr s \<Longrightarrow> fs_cookies s = []" for r new
    using that trusted by (auto simp: proxy_ok_def)
  have retry: "wp (retry_refreshed env q segments upstream refreshed)
      (\<lambda>r. extends l (proxy_ok env q segments) (case r of Inl e \<Rightarrow> Inl e | Inr (u, p) \<Rightarrow> Inr (proxied env u p)))
      (l @ new @ [(bff_wire env q segments t, Some upstream)])"
    if "first_ok env q (Inr (Some (t, refreshed))) new" for t refreshed new upstream
    using wp_retry
    by (rule wp_mono) (auto simp: extends_def dest: proxy_ok_answered [OF that trusted])
  show ?thesis unfolding proxyBffRequest_def if_not_P [OF False] wp_after
  proof (rule wp_mono [OF wp_first_token])
    fix r l' assume "extends l (first_ok env q) r l'"
    then obtain new where new: "l' = l @ new" "first_ok env q r new" by (auto simp: extends_def)
    consider e where "r = Inl e" | "r = Inr None" | t refreshed where "r = Inr (Some (t, refreshed))"
      by (cases r) (simp, metis option.exhaust surj_pair)
    then show "case r of Inl e \<Rightarrow> extends l (proxy_ok env q segments) (Inl e) l'
      | Inr x \<Rightarrow> wp (case x of None \<Rightarrow> ret (json_response env 401 (JObj [(''message'', JStr ''Unauthorized'')]))
        | Some (token, refreshed) \<Rightarrow> after (send env (bff_wire env q segments token)) (\<lambda>upstream.
            after (retry_refreshed env q segments upstream refreshed) (\<lambda>(upstream, refreshed). ret (proxied env upstream refreshed))))
          (extends l (proxy_ok env q segments)) l'"
    proof cases
      case 3
      with new(2) have first: "first_ok env q (Inr (Some (t, refreshed))) new" by simp
      have "wp (retry_refreshed env q segments upstream refreshed)
          (\<lambda>r l'. case r of Inl e \<Rightarrow> extends l (proxy_ok env q segments) (Inl e) l'
            | Inr x \<Rightarrow> wp (case x of (u, p) \<Rightarrow> ret (proxied env u p)) (extends l (proxy_ok env q segments)) l')
          (l @ new @ [(bff_wire env q segments t, Some upstream)])" for upstream
        by (rule wp_mono [OF retry [OF first]]) (auto split: sum.splits)
      with 3 new(1) show ?thesis by (auto intro!: extendsI proxy_ok_broken [OF first trusted] split: option.splits)
    qed (use new in \<open>auto simp: first_ok_def json_response_def intro!: extendsI none\<close>)
  qed
qed

text \<open>
  C35. What the proxy of the browser's requests does, whatever the gateway answers and whichever of its requests break.
  A request that changes something and comes from another origin sends nothing; any other with a token is sent. It is sent to the gateway at
  most twice, and a second time only after the first was answered 401; both times it is the same request, with the
  same method, path, body and idempotency key, and its token is that of the cookie or of a pair that the gateway
  issued meanwhile. The browser gets the gateway's last answer; its cookies are only set to an issued pair, and only
  cleared with an answer 401.
\<close>

theorem proxy_forwards:
  "\<exists>new. snd (proxyBffRequest env q segments l) = l @ new \<and> proxy_ok env q segments (fst (proxyBffRequest env q segments l)) new"
  using wp_proxy [of env q segments l] by (auto simp: wp_def extends_def split: prod.splits)

section \<open>The session of a browser\<close>

definition session_jar :: "front_env \<Rightarrow> json \<Rightarrow> string \<rightharpoonup> string" where
  "session_jar env j =
    [''accessToken'' \<mapsto> cookie_text env (jget ''accessToken'' j), ''refreshToken'' \<mapsto> cookie_text env (jget ''refreshToken'' j)]"

definition one_pair :: "front_env \<Rightarrow> exchange list \<Rightarrow> (string \<rightharpoonup> string) \<Rightarrow> bool" where
  "one_pair env l jar \<longleftrightarrow> jar = Map.empty \<or> (\<exists>j \<in> issued env l. jar \<subseteq>\<^sub>m session_jar env j)"

text \<open>A request that carries tokens carries those of a pair that was issued before.\<close>

definition carries_issued :: "front_env \<Rightarrow> exchange list \<Rightarrow> wire \<Rightarrow> bool" where
  "carries_issued env before w \<longleftrightarrow>
    (\<forall>h. map_of (w_headers w) ''Authorization'' = Some h \<longrightarrow>
       (\<exists>j \<in> issued env before. h = ''Bearer '' @ template_text env (jget ''accessToken'' j))) \<and>
    (w_url w = gateway_url env @ ''/auth/refresh'' \<longrightarrow>
       (\<exists>j \<in> issued env before. w = refresh_wire env (template_text env (jget ''refreshToken'' j))))"

definition all_issued :: "front_env \<Rightarrow> exchange list \<Rightarrow> bool" where
  "all_issued env l \<longleftrightarrow> (\<forall>before x later. l = before @ x # later \<longrightarrow> carries_issued env before (fst x))"

definition cookies_ok :: "front_env \<Rightarrow> exchange list \<Rightarrow> set_cookie list \<Rightarrow> bool" where
  "cookies_ok env l cs \<longleftrightarrow> cs = [] \<or> cs = clearTokenCookies \<or> (\<exists>j \<in> issued env l. cs = setTokenCookies env j)"

lemma all_issued_Nil [simp]: "all_issued env []"
  by (simp add: all_issued_def)

lemma all_issued_snoc [simp]: "all_issued env (l @ [x]) \<longleftrightarrow> all_issued env l \<and> carries_issued env l (fst x)"
proof
  assume a: "all_issued env (l @ [x])"
  have "carries_issued env before (fst y)" if "l = before @ y # later" for before y later
    using a [unfolded all_issued_def, rule_format, of before y "later @ [x]"] that by simp
  moreover have "carries_issued env l (fst x)" using a [unfolded all_issued_def, rule_format, of l x "[]"] by simp
  ultimately show "all_issued env l \<and> carries_issued env l (fst x)" by (simp add: all_issued_def del: split_paired_All)
next
  assume a: "all_issued env l \<and> carries_issued env l (fst x)"
  show "all_issued env (l @ [x])" unfolding all_issued_def
  proof (intro allI impI)
    fix before y later assume e: "l @ [x] = before @ y # later"
    show "carries_issued env before (fst y)"
    proof (cases later rule: rev_cases)
      case Nil
      with e a show ?thesis by simp
    next
      case (snoc later' z)
      with e have "l = before @ y # later'" by simp
      then show ?thesis using a [unfolded all_issued_def, THEN conjunct1, rule_format, of before y later'] by simp
    qed
  qed
qed

lemma one_pair_mono: "one_pair env l jar \<Longrightarrow> one_pair env (l @ l') jar"
  by (auto simp: one_pair_def issued_append)

lemma cookies_ok_mono: "cookies_ok env l cs \<Longrightarrow> cookies_ok env (l @ l') cs"
  by (auto simp: cookies_ok_def issued_append)

lemma truthy_cookie_text: "truthy (Some (cookie_text env v)) = Some t \<Longrightarrow> t = template_text env v"
  by (auto simp: truthy_def cookie_text_def template_text_def split: option.splits json.splits if_splits)

lemma truthy_cookie:
  assumes "one_pair env l jar" "truthy (jar name) = Some t" "name \<in> {''accessToken'', ''refreshToken''}"
  shows "\<exists>j \<in> issued env l. t = template_text env (jget name j)"
proof -
  from assms(2) obtain s where s: "jar name = Some s" by (cases "jar name") (auto simp: truthy_def)
  with assms(1) obtain j where j: "j \<in> issued env l" "jar \<subseteq>\<^sub>m session_jar env j" by (auto simp: one_pair_def)
  with s have "session_jar env j name = Some s" by (auto simp: map_le_def dom_def)
  with assms(3) have "s = cookie_text env (jget name j)" by (auto simp: session_jar_def split: if_splits)
  with assms(2) s j(1) truthy_cookie_text show ?thesis by (metis)
qed

lemma carries_bff:
  assumes "\<exists>j \<in> issued env l. t = template_text env (jget ''accessToken'' j)"
  shows "carries_issued env l (bff_wire env q segments t)"
  using assms by (auto simp: carries_issued_def bff_wire_def gatewayBffUrl_def)

lemma carries_refresh:
  assumes "\<exists>j \<in> issued env l. t = template_text env (jget ''refreshToken'' j)"
  shows "carries_issued env l (refresh_wire env t)"
  using assms by (auto simp: carries_issued_def refresh_wire_def)

text \<open>What holds while a request of a browser with the cookies \<open>jar\<close> is handled.\<close>

definition session_ok :: "front_env \<Rightarrow> (string \<rightharpoonup> string) \<Rightarrow> exchange list \<Rightarrow> exchange list \<Rightarrow> bool" where
  "session_ok env jar l0 l \<longleftrightarrow> all_issued env l \<and> one_pair env l jar \<and> (\<exists>new. l = l0 @ new)"

lemma session_ok_snoc:
  "session_ok env jar l0 l \<Longrightarrow> carries_issued env l w \<Longrightarrow> session_ok env jar l0 (l @ [(w, a)])"
  by (auto simp: session_ok_def one_pair_mono)

lemma wp_refresh_session:
  assumes s: "session_ok env (fq_cookies q) l0 l"
  shows "wp (refreshTokens env (fq_cookies q ''refreshToken''))
    (\<lambda>r l'. session_ok env (fq_cookies q) l0 l' \<and> (\<forall>j. r = Inr (Some j) \<longrightarrow> j \<in> issued env l')) l"
proof (rule wp_refresh, goal_cases)
  case 1
  then show ?case using s by simp
next
  case (2 t a r)
  have "carries_issued env l (refresh_wire env t)"
    using s 2(1) by (intro carries_refresh truthy_cookie [where jar = "fq_cookies q"]) (simp_all add: session_ok_def)
  then show ?case using 2(2) session_ok_snoc [OF s] by (auto simp: issued_append split: sum.splits)
qed

lemma wp_send_bff:
  assumes "session_ok env jar l0 l" "\<exists>j \<in> issued env l. t = template_text env (jget ''accessToken'' j)"
  shows "wp (send env (bff_wire env q segments t)) (\<lambda>r l'. session_ok env jar l0 l' \<and> issued env l' = issued env l) l"
  using session_ok_snoc [OF assms(1) carries_bff [OF assms(2)]]
  by (auto simp: issued_append split: option.splits) (auto simp: issued_def)

lemma wp_first_session:
  assumes "session_ok env (fq_cookies q) l0 l"
  shows "wp (first_token env q)
    (\<lambda>r l'. session_ok env (fq_cookies q) l0 l' \<and>
       (\<forall>t p. r = Inr (Some (t, p)) \<longrightarrow> (\<exists>j \<in> issued env l'. t = template_text env (jget ''accessToken'' j)) \<and>
          (\<forall>j. p = Some j \<longrightarrow> j \<in> issued env l'))) l"
proof (cases "truthy (fq_cookies q ''accessToken'')")
  case None
  show ?thesis
    unfolding first_token_def None option.case wp_after
    by (rule wp_mono [OF wp_refresh_session [OF assms]]) (auto split: sum.splits option.splits)
next
  case (Some t)
  with assms have "\<exists>j \<in> issued env l. t = template_text env (jget ''accessToken'' j)"
    by (intro truthy_cookie [where jar = "fq_cookies q"]) (simp_all add: session_ok_def)
  with assms Some show ?thesis by (simp add: first_token_def)
qed

lemma wp_retry_session:
  assumes "session_ok env (fq_cookies q) l0 l" "\<And>j. refreshed = Some j \<Longrightarrow> j \<in> issued env l"
  shows "wp (retry_refreshed env q segments upstream refreshed)
    (\<lambda>r l'. session_ok env (fq_cookies q) l0 l' \<and> (\<forall>u j. r = Inr (u, Some j) \<longrightarrow> j \<in> issued env l')) l"
proof (cases "wr_status upstream = 401")
  case True
  have again: "wp (send env (bff_wire env q segments (template_text env (jget ''accessToken'' j))))
      (\<lambda>r l''. case r of Inl e \<Rightarrow> session_ok env (fq_cookies q) l0 l''
         | Inr u \<Rightarrow> session_ok env (fq_cookies q) l0 l'' \<and> j \<in> issued env l'') l'"
    if "session_ok env (fq_cookies q) l0 l'" "j \<in> issued env l'" for l' j
    using wp_send_bff [OF that(1), of "template_text env (jget ''accessToken'' j)"] that(2)
    by (intro wp_mono [OF wp_send_bff [OF that(1)]]) (auto split: sum.splits)
  show ?thesis
    unfolding retry_refreshed_def if_P [OF True] wp_after
    by (rule wp_mono [OF wp_refresh_session [OF assms(1)]])
      (auto split: sum.splits option.splits simp del: wp_send intro: wp_mono [OF again])
next
  case False
  with assms show ?thesis by (auto simp: retry_refreshed_def)
qed

lemma wp_proxy_session:
  assumes "session_ok env (fq_cookies q) l0 l"
  shows "wp (proxyBffRequest env q segments)
    (\<lambda>r l'. session_ok env (fq_cookies q) l0 l' \<and> (\<forall>s. r = Inr s \<longrightarrow> cookies_ok env l' (fs_cookies s))) l" (is "wp _ ?Q l")
proof -
  have none: "cookies_ok env l' (fs_cookies (json_response env n j))" for l' n j
    by (simp add: cookies_ok_def json_response_def)
  have fin: "?Q (Inr (proxied env u p)) l'"
    if "session_ok env (fq_cookies q) l0 l'" "\<And>j. p = Some j \<Longrightarrow> j \<in> issued env l'" for u p l'
    using that by (auto simp: proxied_def cookies_ok_def split: option.splits)
  have retry: "wp (retry_refreshed env q segments u p)
      (\<lambda>r l'. case r of Inl e \<Rightarrow> ?Q (Inl e) l' | Inr x \<Rightarrow> wp (case x of (u, p) \<Rightarrow> ret (proxied env u p)) ?Q l') l'"
    if "session_ok env (fq_cookies q) l0 l'" "\<And>j. p = Some j \<Longrightarrow> j \<in> issued env l'" for u p l'
    by (rule wp_mono [OF wp_retry_session [OF that]]) (use fin in \<open>auto split: sum.splits\<close>)
  have forward: "wp (send env (bff_wire env q segments t))
      (\<lambda>r l'. case r of Inl e \<Rightarrow> ?Q (Inl e) l' | Inr u \<Rightarrow> wp (after (retry_refreshed env q segments u p)
         (\<lambda>(u, p). ret (proxied env u p))) ?Q l') l'"
    if "session_ok env (fq_cookies q) l0 l'" "\<exists>j \<in> issued env l'. t = template_text env (jget ''accessToken'' j)"
      "\<And>j. p = Some j \<Longrightarrow> j \<in> issued env l'" for t p l'
    by (rule wp_mono [OF wp_send_bff [OF that(1,2)]]) (use retry that(3) in \<open>auto split: sum.splits\<close>)
  show ?thesis
  proof (cases "\<not> reads q \<and> \<not> isTrustedMutationOrigin env q")
    case True
    with assms none show ?thesis by (auto simp: proxyBffRequest_def)
  next
    case False
    show ?thesis unfolding proxyBffRequest_def if_not_P [OF False] wp_after
      by (rule wp_mono [OF wp_first_session [OF assms]])
        (use none forward in \<open>auto split: sum.splits option.splits prod.splits simp del: wp_send\<close>)
  qed
qed

lemma wp_auth_session:
  assumes s: "session_ok env (fq_cookies q) l0 l" and p: "path \<in> {''/login'', ''/register''}"
  shows "wp (auth_post env runtime path refused q)
    (\<lambda>r l'. session_ok env (fq_cookies q) l0 l' \<and> (\<forall>s. r = Inr s \<longrightarrow> cookies_ok env l' (fs_cookies s))) l"
proof -
  define w where "w body = \<lparr>w_url = gateway_url env @ ''/auth'' @ path, w_method = ''POST'',
      w_headers = [(''Content-Type'', ''application/json'')], w_body = Some (fe_json_text env body)\<rparr>" for body
  have "carries_issued env l (w body)" for body using p by (auto simp: carries_issued_def w_def)
  note ok = session_ok_snoc [OF s this]
  have url: "auth_url env (w_url (w body))" for body using p by (auto simp: auth_url_def w_def)
  have pair: "cookies_ok env (l @ [(w body, Some r)]) (setTokenCookies env (safeJson env (wr_text r)))" if "response_ok r" for body r
    using that url by (auto simp: cookies_ok_def issued_append issued_def)
  have none: "cookies_ok env l' (fs_cookies (json_response env n j))" for l' n j
    by (simp add: cookies_ok_def json_response_def)
  show ?thesis
    using s ok pair none
    by (auto simp: auth_post_def gatewayAuthFetch_def api_request_def Let_def w_def split: option.splits json.splits)
qed

lemma wp_middleware_session:
  assumes s: "session_ok env (fq_cookies q) l0 l"
  shows "wp (middleware env now q)
    (\<lambda>r l'. session_ok env (fq_cookies q) l0 l' \<and> (\<forall>s. r = Inr s \<longrightarrow> cookies_ok env l' (result_cookies s))) l"
proof -
  have login: "cookies_ok env l' (fs_cookies (loginRedirect env q clear))" for l' clear
    by (simp add: cookies_ok_def loginRedirect_def)
  have "wp (middleware_refresh env q t)
      (\<lambda>r l'. session_ok env (fq_cookies q) l0 l' \<and> (\<forall>s. r = Inr s \<longrightarrow> cookies_ok env l' (result_cookies s))) l"
    if "truthy (fq_cookies q ''refreshToken'') = Some t" for t
  proof -
    have "carries_issued env l (refresh_wire env t)"
      using s that by (intro carries_refresh truthy_cookie [where jar = "fq_cookies q"]) (simp_all add: session_ok_def)
    note ok = session_ok_snoc [OF s this]
    have pair: "cookies_ok env (l @ [(refresh_wire env t, Some r)]) (setTokenCookies env j)"
      if "response_ok r" "fe_json_parse env (wr_text r) = Some j" for r j
      using issued_refresh [OF that] by (auto simp: cookies_ok_def issued_append)
    show ?thesis using ok pair login
      by (auto simp: middleware_refresh_def result_cookies_def split: option.splits)
  qed
  then show ?thesis using s login
    by (auto simp: middleware_def Let_def result_cookies_def cookies_ok_def split: option.splits)
qed

lemma wp_handle_session:
  assumes s: "session_ok env (fq_cookies q) l0 l"
  shows "wp (handle_visit env runtime v q)
    (\<lambda>r l'. session_ok env (fq_cookies q) l0 l' \<and> (\<forall>cs. r = Inr cs \<longrightarrow> cookies_ok env l' cs)) l"
proof (cases v)
  case (Bff segments)
  show ?thesis unfolding handle_visit_def Bff visit.case wp_catch wp_after
    by (rule wp_mono [OF wp_proxy_session [OF s]]) (auto simp: cookies_ok_def split: sum.splits)
next
  case Login
  show ?thesis unfolding handle_visit_def Login visit.case wp_catch wp_after login_POST_def
    by (rule wp_mono [OF wp_auth_session [OF s]]) (auto simp: cookies_ok_def split: sum.splits)
next
  case Register
  show ?thesis unfolding handle_visit_def Register visit.case wp_catch wp_after register_POST_def
    by (rule wp_mono [OF wp_auth_session [OF s]]) (auto simp: cookies_ok_def split: sum.splits)
next
  case Logout
  show ?thesis using s by (auto simp: handle_visit_def Logout logout_POST_def cookies_ok_def json_response_def)
next
  case (Page now)
  show ?thesis unfolding handle_visit_def Page visit.case wp_catch wp_after
    by (rule wp_mono [OF wp_middleware_session [OF s]]) (auto simp: cookies_ok_def split: sum.splits)
qed

text \<open>The network of a request is its own; nothing else depends on it.\<close>

lemma network_irrelevant [simp]:
  "issued (env\<lparr>fe_fetch := n\<rparr>) = issued env"
  "one_pair (env\<lparr>fe_fetch := n\<rparr>) = one_pair env"
  "all_issued (env\<lparr>fe_fetch := n\<rparr>) = all_issued env"
  "cookies_ok (env\<lparr>fe_fetch := n\<rparr>) = cookies_ok env"
proof -
  show i: "issued (env\<lparr>fe_fetch := n\<rparr>) = issued env"
    by (simp add: issued_def auth_url_def gateway_url_def safeJson_def fun_eq_iff)
  have t: "template_text (env\<lparr>fe_fetch := n\<rparr>) = template_text env" "cookie_text (env\<lparr>fe_fetch := n\<rparr>) = cookie_text env"
    by (simp_all add: template_text_def cookie_text_def fun_eq_iff split: option.splits json.splits)
  show "one_pair (env\<lparr>fe_fetch := n\<rparr>) = one_pair env" by (simp add: one_pair_def session_jar_def i t fun_eq_iff)
  show "all_issued (env\<lparr>fe_fetch := n\<rparr>) = all_issued env"
    by (simp add: all_issued_def carries_issued_def refresh_wire_def gateway_url_def i t fun_eq_iff)
  show "cookies_ok (env\<lparr>fe_fetch := n\<rparr>) = cookies_ok env"
    by (simp add: cookies_ok_def setTokenCookies_def live_cookie_def i t fun_eq_iff)
qed

definition browser_inv :: "front_env \<Rightarrow> browser \<Rightarrow> bool" where
  "browser_inv env b \<longleftrightarrow>
    all_issued env (br_log b) \<and> one_pair env (br_log b) (br_jar b) \<and>
    (\<forall>vq \<in> set (br_requests b). one_pair env (br_log b) (fq_cookies (snd vq))) \<and>
    (\<forall>cs \<in> set (br_answers b). cookies_ok env (br_log b) cs)"

lemma one_pair_names: "one_pair env l jar \<Longrightarrow> name \<notin> {''accessToken'', ''refreshToken''} \<Longrightarrow> jar name = None"
proof (rule ccontr)
  assume o: "one_pair env l jar" and n: "name \<notin> {''accessToken'', ''refreshToken''}" and "jar name \<noteq> None"
  then obtain s j where "jar name = Some s" "jar \<subseteq>\<^sub>m session_jar env j" by (auto simp: one_pair_def)
  then have "session_jar env j name = Some s" by (auto simp: map_le_def dom_def)
  with n show False by (simp add: session_jar_def)
qed

lemma received_pair:
  assumes "one_pair env l jar" "cookies_ok env l cs"
  shows "one_pair env l (keep_cookies cs jar)"
proof -
  have "keep_cookies clearTokenCookies jar = Map.empty"
    using one_pair_names [OF assms(1)]
    by (auto simp: fun_eq_iff keep_cookies_def keep_cookie_def clearTokenCookies_def dead_cookie_def)
  moreover have "keep_cookies (setTokenCookies env j) jar = session_jar env j" for j
    using one_pair_names [OF assms(1)]
    by (auto simp: fun_eq_iff keep_cookies_def keep_cookie_def setTokenCookies_def live_cookie_def session_jar_def)
  moreover have "keep_cookies [] jar = jar" by (simp add: keep_cookies_def)
  ultimately show ?thesis using assms map_le_refl unfolding cookies_ok_def one_pair_def by metis
qed

lemma dropped_pair: "one_pair env l jar \<Longrightarrow> one_pair env l (jar(name := None))"
  by (auto simp: one_pair_def map_le_def)

lemma browser_inv_step: "browser_step env runtime b b' \<Longrightarrow> browser_inv env b \<Longrightarrow> browser_inv env b'"
proof (induction rule: browser_step.induct)
  case (sends q b v)
  then show ?case by (auto simp: browser_inv_def)
next
  case (handled v q b network cs l)
  have "one_pair env (br_log b) (fq_cookies q)" using handled(1,3) by (auto simp: browser_inv_def)
  then have "session_ok (env\<lparr>fe_fetch := network\<rparr>) (fq_cookies q) (br_log b) (br_log b)"
    using handled(3) by (simp add: session_ok_def browser_inv_def)
  from wpD [OF wp_handle_session [OF this] handled(2)]
  have new: "all_issued env l" "cookies_ok env l cs" "\<exists>new. l = br_log b @ new" by (simp_all add: session_ok_def)
  then obtain new where l: "l = br_log b @ new" by auto
  have "one_pair env l (fq_cookies (snd vq))" if "vq \<in> set (remove1 (v, q) (br_requests b))" for vq
    using that handled(3) notin_set_remove1 l by (fastforce simp: browser_inv_def intro: one_pair_mono)
  with handled(3) new(1,2) l show ?case by (auto simp: browser_inv_def one_pair_mono cookies_ok_mono)
next
  case (receives cs b)
  then show ?case
    using set_remove1_subset [of cs "br_answers b"] by (auto simp: browser_inv_def intro!: received_pair)
next
  case (loses cs b)
  then show ?case using set_remove1_subset [of cs "br_answers b"] by (auto simp: browser_inv_def)
next
  case (drops b name)
  then show ?case by (simp add: browser_inv_def dropped_pair)
qed

lemma reachable_browser_inv: "browser_reachable env runtime b \<Longrightarrow> browser_inv env b"
proof (induction rule: browser_reachable.induct)
  case start
  show ?case by (simp add: browser_inv_def new_browser_def one_pair_def)
next
  case (step b b')
  then show ?case using browser_inv_step by blast
qed

text \<open>
  C34. A session is one pair of tokens. However the browser's requests to the frontend overlap, in whichever order
  their answers arrive or are lost, and whatever the gateway answers: the browser's two cookies never come from two
  different pairs, they are those of one pair that the gateway issued (or one of them, or none is left); and every
  access token and every refresh token that the frontend's server sends to the gateway is one of a pair that the
  gateway issued before.
\<close>

theorem session_is_one_pair:
  assumes "browser_reachable env runtime b"
  shows "(br_jar b = Map.empty \<or> (\<exists>j \<in> issued env (br_log b). br_jar b \<subseteq>\<^sub>m session_jar env j)) \<and>
    (\<forall>before w a later. br_log b = before @ (w, a) # later \<longrightarrow>
       (\<forall>h. map_of (w_headers w) ''Authorization'' = Some h \<longrightarrow>
          (\<exists>j \<in> issued env before. h = ''Bearer '' @ template_text env (jget ''accessToken'' j))) \<and>
       (w_url w = gateway_url env @ ''/auth/refresh'' \<longrightarrow>
          (\<exists>j \<in> issued env before. w = refresh_wire env (template_text env (jget ''refreshToken'' j)))))"
proof -
  have inv: "browser_inv env b" by (rule reachable_browser_inv [OF assms])
  then have all: "all_issued env (br_log b)" and jar: "one_pair env (br_log b) (br_jar b)" by (simp_all add: browser_inv_def)
  have "carries_issued env before w" if "br_log b = before @ (w, a) # later" for before w a later
    using all [unfolded all_issued_def, rule_format, OF that] by simp
  then show ?thesis using jar unfolding one_pair_def carries_issued_def by blast
qed

text \<open>A login, and a page's request with the token that it got.\<close>

definition ex_tokens :: json where
  "ex_tokens = JObj [(''accessToken'', JStr ''h.p.s''), (''refreshToken'', JStr ''r'')]"

definition ex_front :: front_env where
  "ex_front =
    \<lparr>fe_gatewayUrl = Some ''http://g'', fe_frontendOrigin = None, fe_cookieSecure = None,
     fe_fetch = (\<lambda>_ _. Some \<lparr>wr_status = 200, wr_contentType = None, wr_text = ''tokens''\<rparr>),
     fe_json_parse = (\<lambda>s. if s = ''tokens'' then Some ex_tokens else if s = ''payload'' then Some (JObj [(''exp'', JNum (JsFin 900))]) else None),
     fe_json_text = (\<lambda>_. ''json''), fe_string = (\<lambda>_. []), fe_atob = (\<lambda>_. Some ''payload''), fe_encode = id, fe_form_text = id,
     fe_url_origin = Some\<rparr>"

definition ex_visit :: "string \<Rightarrow> (string \<rightharpoonup> string) \<Rightarrow> front_request" where
  "ex_visit method cookies =
    \<lparr>fq_method = method, fq_origin = None, fq_cookies = cookies, fq_idempotencyKey = None, fq_contentType = None,
     fq_ownOrigin = ''http://f'', fq_pathname = ''/wallets'', fq_search = [], fq_body = ''tokens''\<rparr>"

definition ex_answer :: wire_response where
  "ex_answer = \<lparr>wr_status = 200, wr_contentType = None, wr_text = ''tokens''\<rparr>"

definition ex_login_wire :: wire where
  "ex_login_wire =
    \<lparr>w_url = ''http://g/auth/login'', w_method = ''POST'', w_headers = [(''Content-Type'', ''application/json'')], w_body = Some ''json''\<rparr>"

lemma ex_login: "handle_visit ex_front runtime Login (ex_visit ''POST'' Map.empty) [] = (Inr (setTokenCookies ex_front ex_tokens), [(ex_login_wire, Some ex_answer)])"
  by (simp add: handle_visit_def login_POST_def auth_post_def isTrustedMutationOrigin_def truthy_def ex_visit_def ex_front_def gatewayAuthFetch_def
      api_request_def send_def Let_def after_def catch_def ret_def throw_def response_ok_def safeJson_def ex_tokens_def gateway_url_def
      ex_answer_def ex_login_wire_def)

abbreviation ex_jar :: "string \<rightharpoonup> string" where
  "ex_jar \<equiv> session_jar ex_front ex_tokens"

lemma ex_forward:
  "handle_visit ex_front runtime (Bff [''wallets'']) (ex_visit ''GET'' ex_jar) l =
    (Inr [], l @ [(bff_wire ex_front (ex_visit ''GET'' ex_jar) [''wallets''] ''h.p.s'', Some ex_answer)])"
  by (simp add: handle_visit_def proxyBffRequest_def first_token_def retry_refreshed_def proxied_def reads_def truthy_def session_jar_def
      ex_visit_def ex_front_def send_def Let_def after_def catch_def ret_def ex_answer_def ex_tokens_def jget_def cookie_text_def)

lemma ex_session_run:
  "\<exists>b. browser_reachable ex_front runtime b \<and> br_jar b = ex_jar \<and>
    br_log b = [(ex_login_wire, Some ex_answer)] @ (bff_wire ex_front (ex_visit ''GET'' ex_jar) [''wallets''] ''h.p.s'', Some ex_answer) # []"
proof -
  let ?q1 = "ex_visit ''POST'' Map.empty" and ?q2 = "ex_visit ''GET'' ex_jar"
  let ?b1 = "new_browser\<lparr>br_requests := [(Login, ?q1)]\<rparr>"
  let ?l = "[(ex_login_wire, Some ex_answer)]"
  let ?b2 = "?b1\<lparr>br_requests := [], br_answers := [setTokenCookies ex_front ex_tokens], br_log := ?l\<rparr>"
  let ?b3 = "?b2\<lparr>br_answers := [], br_jar := ex_jar\<rparr>"
  let ?b4 = "?b3\<lparr>br_requests := [(Bff [''wallets''], ?q2)]\<rparr>"
  let ?b5 = "?b4\<lparr>br_requests := [], br_answers := [[]], br_log := ?l @ [(bff_wire ex_front ?q2 [''wallets''] ''h.p.s'', Some ex_answer)]\<rparr>"
  have "browser_step ex_front runtime new_browser ?b1"
    using browser_step.sends [of ?q1 new_browser ex_front runtime Login] by (simp add: new_browser_def ex_visit_def)
  moreover have "browser_step ex_front runtime ?b1 ?b2"
    using browser_step.handled [where v = Login and q = ?q1 and b = ?b1 and env = ex_front and network = "fe_fetch ex_front" and runtime = runtime] ex_login by (simp add: new_browser_def)
  moreover have "keep_cookies (setTokenCookies ex_front ex_tokens) Map.empty = ex_jar"
    by (auto simp: fun_eq_iff keep_cookies_def keep_cookie_def setTokenCookies_def live_cookie_def session_jar_def)
  then have "browser_step ex_front runtime ?b2 ?b3"
    using browser_step.receives [of "setTokenCookies ex_front ex_tokens" ?b2 ex_front runtime] by (simp add: new_browser_def)
  moreover have "browser_step ex_front runtime ?b3 ?b4"
    using browser_step.sends [of ?q2 ?b3 ex_front runtime "Bff [''wallets'']"] by (simp add: new_browser_def ex_visit_def)
  moreover have "browser_step ex_front runtime ?b4 ?b5"
    using browser_step.handled
      [where v = "Bff [''wallets'']" and q = ?q2 and b = ?b4 and env = ex_front and network = "fe_fetch ex_front" and runtime = runtime] ex_forward
    by (simp add: new_browser_def)
  ultimately have "browser_reachable ex_front runtime ?b5"
    by (meson browser_reachable.start browser_reachable.step)
  then show ?thesis by (intro exI conjI) (assumption, simp_all)
qed

theorem session_is_one_pair_witness:
  "\<exists>b. browser_reachable ex_front (\<lambda>_. []) b \<and> br_jar b = ex_jar \<and> length (br_log b) = 2 \<and>
    (\<exists>j \<in> issued ex_front (br_log b). br_jar b \<subseteq>\<^sub>m session_jar ex_front j) \<and>
    (\<exists>j \<in> issued ex_front [(ex_login_wire, Some ex_answer)]. ''Bearer h.p.s'' = ''Bearer '' @ template_text ex_front (jget ''accessToken'' j))"
proof -
  from ex_session_run [of "\<lambda>_. []"] obtain b where b: "browser_reachable ex_front (\<lambda>_. []) b" "br_jar b = ex_jar"
    "br_log b = [(ex_login_wire, Some ex_answer)] @ (bff_wire ex_front (ex_visit ''GET'' ex_jar) [''wallets''] ''h.p.s'', Some ex_answer) # []"
    by (elim exE conjE) (rule that)
  note th = session_is_one_pair [OF b(1)]
  have "br_jar b \<noteq> Map.empty" by (simp add: b(2) session_jar_def)
  with th have jar: "\<exists>j \<in> issued ex_front (br_log b). br_jar b \<subseteq>\<^sub>m session_jar ex_front j" by (elim conjE disjE) simp_all
  have "map_of (w_headers (bff_wire ex_front (ex_visit ''GET'' ex_jar) [''wallets''] ''h.p.s'')) ''Authorization'' = Some ''Bearer h.p.s''"
    by (simp add: bff_wire_def)
  from th [THEN conjunct2, rule_format, OF b(3), THEN conjunct1, rule_format, OF this] jar b show ?thesis
    by (intro exI [of _ b] conjI) simp_all
qed

section \<open>Navigation\<close>

definition matcher :: "string \<Rightarrow> bool" where
  "matcher p \<longleftrightarrow> list_ex (\<lambda>m. p = m \<or> take (Suc (length m)) p = m @ ''/'')
    [''/wallets'', ''/transfers'', ''/split-bills'', ''/activity'', ''/admin'']"

definition own_location :: "front_request \<Rightarrow> string" where
  "own_location q = fq_ownOrigin q @ fq_pathname q @ fq_search q"

text \<open>
  The browser follows redirects to the page that it asked for, with the cookies that came with them, one after the
  other at the times \<open>ts\<close>. It ends on the page or on the login page; nothing means that it still follows redirects.
\<close>

datatype destination = AtPage | AtLogin

fun navigate :: "front_env \<Rightarrow> int list \<Rightarrow> front_request \<Rightarrow> exchange list \<Rightarrow> (destination \<times> (string \<rightharpoonup> string) \<times> exchange list) option" where
  "navigate env [] q l = None"
| "navigate env (t # ts) q l =
    (case middleware env t q l of
       (Inl _, _) \<Rightarrow> None
     | (Inr NextResponse_next, l') \<Rightarrow> Some (AtPage, fq_cookies q, l')
     | (Inr (Redirect s), l') \<Rightarrow>
         let q' = q\<lparr>fq_cookies := keep_cookies (fs_cookies s) (fq_cookies q)\<rparr>
         in if fs_location s = Some (own_location q) then navigate env ts q' l'
            else Some (AtLogin, fq_cookies q', l'))"

definition fresh_access :: "front_env \<Rightarrow> int \<Rightarrow> (string \<rightharpoonup> string) \<Rightarrow> bool" where
  "fresh_access env now jar = (case truthy (jar ''accessToken'') of None \<Rightarrow> False | Some t \<Rightarrow> \<not> isExpired env now t)"

lemma middleware_fresh:
  "fresh_access env now (fq_cookies q) \<Longrightarrow> middleware env now q l = (Inr NextResponse_next, l)"
  by (simp add: middleware_def fresh_access_def ret_def)

text \<open>The access tokens that the gateway issues are not about to expire at the time \<open>now\<close>.\<close>

definition issues_fresh :: "front_env \<Rightarrow> int \<Rightarrow> bool" where
  "issues_fresh env now \<longleftrightarrow>
    (\<forall>l w a. fe_fetch env l w = Some a \<longrightarrow> auth_url env (w_url w) \<longrightarrow> response_ok a \<longrightarrow>
       \<not> isExpired env now (cookie_text env (jget ''accessToken'' (safeJson env (wr_text a)))))"

lemma matched_start:
  assumes "matcher p"
  obtains m rest where "p = m @ rest" "m \<in> {''/wallets'', ''/transfers'', ''/split-bills'', ''/activity'', ''/admin''}"
proof -
  have "\<exists>rest. p = m @ rest" if "p = m \<or> take (Suc (length m)) p = m @ ''/''" for m
    using that append_take_drop_id [of "Suc (length m)" p] by (metis append.assoc append_Nil2)
  then show ?thesis using assms that unfolding matcher_def list_ex_iff list.set by metis
qed

lemma login_elsewhere:
  assumes "matcher (fq_pathname q)"
  shows "fs_location (loginRedirect env q clear) \<noteq> Some (own_location q)"
  by (rule matched_start [OF assms]) (auto simp: loginRedirect_def own_location_def)

text \<open>Once more through the middleware, with the cookies of its own redirect.\<close>

lemma refreshed_passes:
  assumes fresh: "issues_fresh env later"
    and r: "middleware env now q l = (Inr (Redirect s), l')" and own: "fs_location s = Some (own_location q)"
    and m: "matcher (fq_pathname q)"
  shows "fresh_access env later (keep_cookies (fs_cookies s) (fq_cookies q)) \<and> length l' = Suc (length l)"
proof -
  have "wp (middleware env now q) (\<lambda>r l'. \<forall>s. r = Inr (Redirect s) \<and> fs_location s = Some (own_location q) \<longrightarrow>
      length l' = Suc (length l) \<and> (\<exists>w a. fe_fetch env l w = Some a \<and> auth_url env (w_url w) \<and> response_ok a \<and>
        fs_cookies s = setTokenCookies env (safeJson env (wr_text a)))) l"
    using login_elsewhere [OF m] auth_urls(1)
    by (fastforce simp: middleware_def middleware_refresh_def Let_def safeJson_def split: option.splits)
  from wpD [OF this r] own obtain w a where a: "length l' = Suc (length l)" "fe_fetch env l w = Some a" "auth_url env (w_url w)"
    "response_ok a" "fs_cookies s = setTokenCookies env (safeJson env (wr_text a))" by auto
  let ?t = "cookie_text env (jget ''accessToken'' (safeJson env (wr_text a)))"
  have "\<not> isExpired env later ?t" using fresh a(2-4) by (simp add: issues_fresh_def)
  moreover from this have "?t \<noteq> []" by (auto simp: isExpired_def)
  ultimately show ?thesis using a(1)
    by (simp add: a(5) fresh_access_def keep_cookies_def keep_cookie_def setTokenCookies_def live_cookie_def truthy_def)
qed

lemma middleware_returns: "\<exists>r l'. middleware env now q l = (Inr r, l') \<and> length l' \<le> Suc (length l)"
proof -
  have "wp (middleware env now q) (\<lambda>r l'. (\<exists>x. r = Inr x) \<and> length l' \<le> Suc (length l)) l"
    by (auto simp: middleware_def middleware_refresh_def Let_def split: option.splits)
  then show ?thesis by (auto simp: wp_def split: prod.splits)
qed

text \<open>
  C37. Navigation ends. A browser that asks for a page behind the middleware and follows its redirects is on the page
  or on the login page after at most two requests and at most one refresh, whatever the gateway answers, provided that
  the access tokens that it issues are not yet about to expire when the browser comes back; and it reaches the page only
  with an access token that is not about to expire.
\<close>

theorem navigation_ends:
  assumes "matcher (fq_pathname q)" "issues_fresh env later"
  shows "\<exists>d jar l'. navigate env [now, later] q l = Some (d, jar, l') \<and> length l' \<le> Suc (length l) \<and>
    (d = AtPage \<longrightarrow> fresh_access env now jar \<or> fresh_access env later jar)"
proof -
  obtain r l' where r: "middleware env now q l = (Inr r, l')" "length l' \<le> Suc (length l)"
    using middleware_returns by blast
  show ?thesis
  proof (cases r)
    case NextResponse_next
    have "wp (middleware env now q) (\<lambda>r l'. r = Inr NextResponse_next \<longrightarrow> fresh_access env now (fq_cookies q)) l"
      by (auto simp: middleware_def middleware_refresh_def fresh_access_def Let_def split: option.splits)
    from wpD [OF this r(1)] NextResponse_next r show ?thesis by simp
  next
    case (Redirect s)
    show ?thesis
    proof (cases "fs_location s = Some (own_location q)")
      case True
      from refreshed_passes [OF assms(2) r(1) [unfolded Redirect] True assms(1)]
      have "fresh_access env later (keep_cookies (fs_cookies s) (fq_cookies q))" by simp
      with middleware_fresh [of env later "q\<lparr>fq_cookies := keep_cookies (fs_cookies s) (fq_cookies q)\<rparr>" l'] r Redirect True
      show ?thesis by simp
    next
      case False
      with r Redirect show ?thesis by simp
    qed
  qed
qed

lemma ex_issues_fresh: "issues_fresh ex_front 100010"
proof -
  have "double_round 900000 = JsFin 900000" using double_round_int [of 900000] by (simp add: max_safe_integer_def)
  then have "\<not> isExpired ex_front 100010 ''h.p.s''" by (simp add: isExpired_def ex_front_def jget_def)
  then show ?thesis by (simp add: issues_fresh_def ex_front_def safeJson_def ex_tokens_def jget_def cookie_text_def)
qed

theorem navigation_ends_witness:
  "\<exists>d jar l'. navigate ex_front [100000, 100010] (ex_visit ''GET'' (ex_jar(''accessToken'' \<mapsto> ''old''))) [] = Some (d, jar, l') \<and>
    length l' \<le> 1"
  using navigation_ends [of "ex_visit ''GET'' (ex_jar(''accessToken'' \<mapsto> ''old''))" ex_front 100010 100000 "[]"] ex_issues_fresh
  by (auto simp: ex_visit_def matcher_def)

end
