(* ===== verification/Request_Bodies.thy ===== *)
theory Request_Bodies
  imports Errors Js_Number
begin

text \<open>
  What the DTOs of the services share: the checks of \<^verbatim>\<open>class-validator\<close> and the transformations of
  \<^verbatim>\<open>class-transformer\<close> that they name, on the fields of a JSON object, and the pipe for a parameter of the path. What the packages
  decide are parameters: whether a text is a UUID (in a body and in a path), whether a number has at
  most two decimal places, whether a text is a date. \<^verbatim>\<open>IsOptional\<close> skips the checks of an absent value and of
  \<^verbatim>\<open>null\<close>; \<^verbatim>\<open>whitelist\<close> drops the fields that a body has besides.
\<close>

record validators =
  vd_is_uuid :: "string \<Rightarrow> bool"
  vd_path_uuid :: "string \<Rightarrow> bool"
  vd_two_decimals :: "rat \<Rightarrow> bool"
  vd_is_date :: "string \<Rightarrow> bool"

type_synonym fields = "(string \<times> json) list"

definition trimmed :: "json option \<Rightarrow> json option" where
  "trimmed v = (case v of Some (JStr s) \<Rightarrow> Some (JStr (trim s)) | _ \<Rightarrow> v)"

definition trimmed_upper :: "json option \<Rightarrow> json option" where
  "trimmed_upper v = (case v of Some (JStr s) \<Rightarrow> Some (JStr (toUpperCase (trim s))) | _ \<Rightarrow> v)"

definition matches :: "(string \<Rightarrow> bool) \<Rightarrow> json option \<Rightarrow> bool" where
  "matches P v = (case v of Some (JStr s) \<Rightarrow> P s | _ \<Rightarrow> False)"

definition is_amount :: "'z validators_scheme \<Rightarrow> json option \<Rightarrow> bool" where
  "is_amount env v = (case v of Some (JNum (JsFin q)) \<Rightarrow> vd_two_decimals env q \<and> 0 < q | _ \<Rightarrow> False)"

definition absent :: "json option \<Rightarrow> bool" where
  "absent v = (v = None \<or> v = Some JNull)"

definition string_of :: "json option \<Rightarrow> string" where
  "string_of v = (case v of Some (JStr s) \<Rightarrow> s | _ \<Rightarrow> [])"

definition number_of :: "json option \<Rightarrow> jsnum" where
  "number_of v = (case v of Some (JNum n) \<Rightarrow> n | _ \<Rightarrow> JsNaN)"

definition upper_letters :: "string \<Rightarrow> bool" where
  "upper_letters s = list_all (\<lambda>c. 65 \<le> (of_char c :: nat) \<and> of_char c \<le> (90 :: nat)) s"

definition currency_code :: "string \<Rightarrow> bool" where
  "currency_code s = (length s = 3 \<and> upper_letters s)"

definition target_code :: "string \<Rightarrow> bool" where
  "target_code s = (s \<in> {''USD'', ''EUR'', ''UAH''})"

definition invalid_body :: err where
  "invalid_body = BadRequest ''Validation failed''"

definition path_uuid :: "'z validators_scheme \<Rightarrow> string \<Rightarrow> (err, string) res" where
  "path_uuid env i = (if vd_path_uuid env i then Inr i else Inl (BadRequest ''Validation failed (uuid is expected)''))"

section \<open>Facts\<close>

lemma trim_id: "s = [] \<or> \<not> is_space (hd s) \<and> \<not> is_space (last s) \<Longrightarrow> trim s = s"
proof -
  assume s: "s = [] \<or> \<not> is_space (hd s) \<and> \<not> is_space (last s)"
  then have "dropWhile is_space s = s" "dropWhile is_space (rev s) = rev s"
    by (auto simp: dropWhile_eq_self_iff hd_rev)
  then show ?thesis by (simp add: trim_def)
qed

lemma trim_ends: "trim s = [] \<or> \<not> is_space (hd (trim s)) \<and> \<not> is_space (last (trim s))"
proof (cases "trim s = []")
  case False
  let ?a = "dropWhile is_space s" and ?b = "dropWhile is_space (rev (dropWhile is_space s))"
  have b: "?b \<noteq> []" "trim s = rev ?b" using False by (auto simp: trim_def)
  then have a: "?a \<noteq> []" by (metis dropWhile.simps(1) rev.simps(1))
  have "last ?b = last (takeWhile is_space (rev ?a) @ ?b)" using last_appendR [OF b(1)] by (rule sym)
  also have "\<dots> = hd ?a" unfolding takeWhile_dropWhile_id using a by (simp add: last_rev)
  finally have "\<not> is_space (last ?b)" using hd_dropWhile [OF a] by simp
  moreover have "\<not> is_space (hd ?b)" by (rule hd_dropWhile [OF b(1)])
  ultimately show ?thesis using b by (simp add: hd_rev last_rev)
qed simp

lemma trim_trim [simp]: "trim (trim s) = trim s"
  by (rule trim_id [OF trim_ends])

lemma upper_letters_same:
  assumes "upper_letters s"
  shows "toUpperCase s = s" "trim s = s"
proof -
  have letter: "upper_char c = c \<and> \<not> is_space c" if "65 \<le> (of_char c :: nat)" "of_char c \<le> (90 :: nat)" for c
    using that by (auto simp: upper_char_def is_space_def Let_def)
  then show "toUpperCase s = s" using assms by (auto simp: toUpperCase_def upper_letters_def list_all_iff intro!: map_idI)
  show "trim s = s" using assms letter by (intro trim_id) (auto simp: upper_letters_def list_all_iff)
qed

lemma target_code_upper: "target_code s \<Longrightarrow> upper_letters s"
  by (auto simp: target_code_def upper_letters_def)

lemma matches_iff: "matches P v \<longleftrightarrow> (\<exists>s. v = Some (JStr s) \<and> P s)"
  by (auto simp: matches_def split: option.splits json.splits)

lemma is_amount_iff: "is_amount env v \<longleftrightarrow> (\<exists>q. v = Some (JNum (JsFin q)) \<and> vd_two_decimals env q \<and> 0 < q)"
  by (auto simp: is_amount_def split: option.splits json.splits jsnum.splits)

lemma trimmed_iff: "trimmed v = Some (JStr s) \<longleftrightarrow> (\<exists>r. v = Some (JStr r) \<and> s = trim r)"
  by (auto simp: trimmed_def split: option.splits json.splits)

lemma trimmed_text [simp]: "trimmed (Some (JStr r)) = Some (JStr (trim r))"
  by (simp add: trimmed_def)

lemma mapM_Inr_all: "mapM f xs = Inr ys \<Longrightarrow> length ys = length xs \<and> (\<forall>y \<in> set ys. \<exists>x \<in> set xs. f x = Inr y)"
  by (induction xs arbitrary: ys) (fastforce simp: result_simps)+

lemma mapM_read_back: "(\<And>x. x \<in> set xs \<Longrightarrow> f (g x) = Inr x) \<Longrightarrow> mapM f (map g xs) = Inr xs"
  by (induction xs) (simp_all add: rbind_def)

end
