(* ===== verification/Payments_Api.thy ===== *)
theory Payments_Api
  imports Saga_Outcomes Rate_Limit Authentication Request_Bodies
begin

text \<open>
  The HTTP interface of the payments service: the bodies that \<^verbatim>\<open>CreateTransferDto\<close>, \<^verbatim>\<open>CreateSplitBillDto\<close> and
  \<^verbatim>\<open>PaySplitShareDto\<close> let through, \<^verbatim>\<open>JwtStrategy.validate\<close>, and the handlers of \<^verbatim>\<open>transfers.controller.ts\<close>
  and \<^verbatim>\<open>split-bills.controller.ts\<close> behind their guards and pipes, in the order in which NestJS runs them: the
  guards of the class, those of the method, the pipes, the handler.

  A parameter is the payload of the token in the \<^verbatim>\<open>Authorization\<close> header, if passport accepts it. A body is a JSON
  object, and so is every participant in it.
\<close>

section \<open>Bodies\<close>

record api_env = validators +
  ap_passport :: "string option \<Rightarrow> token_payload option"
  ap_rateMax :: jsnum
  ap_rateWindow :: jsnum

definition transfer_body :: "'z validators_scheme \<Rightarrow> fields \<Rightarrow> (err, create_transfer_dto) res" where
  "transfer_body env b =
    (let fromWalletId = map_of b ''fromWalletId'';
         toWalletIdentifier = trimmed (map_of b ''toWalletIdentifier'');
         amount = map_of b ''amount'';
         currency = trimmed_upper (map_of b ''currency'');
         targetCurrency = trimmed_upper (map_of b ''targetCurrency'')
     in if matches (vd_is_uuid env) fromWalletId \<and> matches (\<lambda>s. s \<noteq> [] \<and> length s \<le> 320) toWalletIdentifier \<and>
           is_amount env amount \<and> matches currency_code currency \<and>
           (absent targetCurrency \<or> matches target_code targetCurrency)
        then Inr \<lparr>ct_fromWalletId = string_of fromWalletId, ct_toWalletIdentifier = string_of toWalletIdentifier,
                  ct_amount = number_of amount, ct_currency = string_of currency,
                  ct_targetCurrency = (if absent targetCurrency then None else Some (string_of targetCurrency))\<rparr>
        else Inl invalid_body)"

definition participant_body :: "'z validators_scheme \<Rightarrow> json \<Rightarrow> (err, split_participant) res" where
  "participant_body env j =
    (let userId = jget ''userId'' j; share = jget ''share'' j
     in if matches (vd_is_uuid env) userId \<and> (absent share \<or> matches MONEY_PATTERN share)
        then Inr \<lparr>pt_userId = string_of userId,
                  pt_share = (case share of None \<Rightarrow> None | Some JNull \<Rightarrow> Some None | _ \<Rightarrow> Some (Some (string_of share)))\<rparr>
        else Inl invalid_body)"

definition split_mode_of :: "string \<Rightarrow> split_mode option" where
  "split_mode_of s = (if s = ''equal'' then Some SplitEqual else if s = ''custom'' then Some SplitCustom else None)"

definition bill_body :: "'z validators_scheme \<Rightarrow> fields \<Rightarrow> (err, create_split_bill_dto) res" where
  "bill_body env b =
    (let total = map_of b ''total''; currency = map_of b ''currency''; mode = map_of b ''mode''; deadline = map_of b ''deadline''
     in case map_of b ''participants'' of
          Some (JArr js) \<Rightarrow>
            if matches MONEY_PATTERN total \<and> matches currency_code currency \<and> matches (\<lambda>s. split_mode_of s \<noteq> None) mode \<and>
               1 \<le> length js \<and> length js \<le> 100 \<and> (absent deadline \<or> matches (vd_is_date env) deadline)
            then rbind (mapM (participant_body env) js) (\<lambda>ps.
                 Inr \<lparr>cb_total = string_of total, cb_currency = string_of currency,
                      cb_mode = (case split_mode_of (string_of mode) of Some m \<Rightarrow> m | None \<Rightarrow> SplitEqual),
                      cb_participants = ps,
                      cb_deadline = (if absent deadline then None else Some (string_of deadline))\<rparr>)
            else Inl invalid_body
        | _ \<Rightarrow> Inl invalid_body)"

definition pay_body :: "'z validators_scheme \<Rightarrow> fields \<Rightarrow> (err, string) res" where
  "pay_body env b =
    (if matches (vd_is_uuid env) (map_of b ''fromWalletId'') then Inr (string_of (map_of b ''fromWalletId'')) else Inl invalid_body)"

section \<open>Guards and handlers\<close>

definition jwt_validate :: "token_payload \<Rightarrow> principal" where
  "jwt_validate p = \<lparr>pr_userId = tp_sub p, pr_email = tp_email p, pr_role = tp_role p\<rparr>"

definition jwt_guard :: "api_env \<Rightarrow> string option \<Rightarrow> (err, principal) res" where
  "jwt_guard env authorization =
    (case ap_passport env authorization of None \<Rightarrow> Inl (Unauthorized ''Unauthorized'') | Some p \<Rightarrow> Inr (jwt_validate p))"

text \<open>What a request finds: the saga's world, the reads of a creation, fresh identifiers and the time.\<close>

record api_call =
  ac_world :: saga_world
  ac_sha256 :: "string \<Rightarrow> string"
  ac_seen :: "nat \<Rightarrow> payments_db \<Rightarrow> create_tx"
  ac_newId :: string
  ac_owner :: string
  ac_now :: int
  ac_js_date :: "string \<Rightarrow> int option"
  ac_billIds :: bill_ids
  ac_reads :: "nat \<Rightarrow> payments_db \<Rightarrow> payments_db"

definition read_stmt :: "saga_world \<Rightarrow> (payments_db \<Rightarrow> (err, 'a) res) \<Rightarrow> 'a saga" where
  "read_stmt w f = db_stmt w (\<lambda>k d. rbind (f d) (\<lambda>v. Inr (d, v)))"

definition TransfersController_create ::
  "api_call \<Rightarrow> create_transfer_dto \<Rightarrow> string option \<Rightarrow> string \<Rightarrow> transfer_view saga" where
  "TransfersController_create c dto idempotencyKey userId =
    sbind (db_stmt (ac_world c) (\<lambda>k d. create_transfer (ac_sha256 c) ((ac_seen c k d)\<lparr>cx_db := d\<rparr>) (ac_newId c) dto idempotencyKey userId))
      (\<lambda>transfer.
    sbind (run_saga (ac_world c) (tv_id transfer) (ac_owner c) (ac_now c)) (\<lambda>_.
    read_stmt (ac_world c) (\<lambda>d. getStatus d (tv_id transfer) userId)))"

definition SplitBillsController_create :: "api_call \<Rightarrow> create_split_bill_dto \<Rightarrow> principal \<Rightarrow> split_bill_view saga" where
  "SplitBillsController_create c dto user =
    sbind (db_stmt (ac_world c) (\<lambda>k d. rbind (create_bill_rows (ac_js_date c) (ac_billIds c) (sw_trace (ac_world c)) (sw_time (ac_world c) k) dto
      (pr_userId user) (pr_email user) d) (\<lambda>d'. Inr (d', ())))) (\<lambda>_.
    read_stmt (ac_world c) (\<lambda>d. get_bill d (bi_bill (ac_billIds c)) (pr_userId user)))"

datatype payments_request =
    PostTransfer fields "string option"
  | GetTransfer string
  | PostBill fields
  | GetBill string
  | ListBills
  | PayShare string string fields "string option"

datatype api_answer =
    TransferAnswer transfer_view
  | BillAnswer split_bill_view
  | BillsAnswer "split_bill_view list"
  | PaymentAnswer split_bill_view transfer_view

definition then_answer :: "('a \<Rightarrow> api_answer) \<Rightarrow> 'a saga \<Rightarrow> api_answer saga" where
  "then_answer f m = sbind m (\<lambda>x. sreturn (f x))"

text \<open>The pipes and the handler, for the caller that the guards let through.\<close>

definition api_handler :: "api_env \<Rightarrow> api_call \<Rightarrow> principal \<Rightarrow> payments_request \<Rightarrow> (err, api_answer saga) res" where
  "api_handler env c user q =
    (let w = ac_world c; u = pr_userId user in
     case q of
       PostTransfer b key \<Rightarrow>
         rbind (transfer_body env b) (\<lambda>dto. Inr (then_answer TransferAnswer (TransfersController_create c dto key u)))
     | GetTransfer i \<Rightarrow>
         rbind (path_uuid env i) (\<lambda>i. Inr (then_answer TransferAnswer (read_stmt w (\<lambda>d. getStatus d i u))))
     | PostBill b \<Rightarrow>
         rbind (bill_body env b) (\<lambda>dto. Inr (then_answer BillAnswer (SplitBillsController_create c dto user)))
     | GetBill i \<Rightarrow>
         rbind (path_uuid env i) (\<lambda>i. Inr (then_answer BillAnswer (read_stmt w (\<lambda>d. get_bill d i u))))
     | ListBills \<Rightarrow>
         Inr (then_answer BillsAnswer (read_stmt w (\<lambda>d. list_bills d (\<lambda>k. ac_reads c k d) u)))
     | PayShare i j b key \<Rightarrow>
         rbind (path_uuid env i) (\<lambda>i.
         rbind (path_uuid env j) (\<lambda>j.
         rbind (pay_body env b) (\<lambda>fromWalletId.
         Inr (then_answer (\<lambda>(bill, t). PaymentAnswer bill t)
           (payShare w (ac_sha256 c) (ac_seen c) (ac_newId c) (ac_owner c) (ac_now c) i j u fromWalletId key))))))"

definition method_guard :: "api_env \<Rightarrow> int \<Rightarrow> principal \<Rightarrow> payments_request \<Rightarrow> windows \<Rightarrow> (err, bool) res \<times> windows" where
  "method_guard env now user q m =
    (case q of
       PostTransfer _ _ \<Rightarrow> canActivate_transfer (ap_rateMax env) (ap_rateWindow env) now (Some (pr_userId user)) m
     | _ \<Rightarrow> (Inr True, m))"

definition payments_api ::
  "api_env \<Rightarrow> api_call \<Rightarrow> string option \<Rightarrow> payments_request \<Rightarrow> windows \<Rightarrow> saga_state \<Rightarrow> (err, api_answer) res \<times> windows \<times> saga_state" where
  "payments_api env c authorization q m s =
    (case jwt_guard env authorization of
       Inl e \<Rightarrow> (Inl e, m, s)
     | Inr user \<Rightarrow>
         (case method_guard env (ac_now c) user q m of
            (Inl e, m') \<Rightarrow> (Inl e, m', s)
          | (Inr _, m') \<Rightarrow>
              (case api_handler env c user q of
                 Inl e \<Rightarrow> (Inl e, m', s)
               | Inr handler \<Rightarrow> (case handler s of (r, s') \<Rightarrow> (r, m', s')))))"

section \<open>Types of the bodies\<close>

definition typed_transfer :: "'z validators_scheme \<Rightarrow> create_transfer_dto \<Rightarrow> bool" where
  "typed_transfer env dto \<longleftrightarrow>
    vd_is_uuid env (ct_fromWalletId dto) \<and>
    ct_toWalletIdentifier dto \<noteq> [] \<and> length (ct_toWalletIdentifier dto) \<le> 320 \<and>
    trim (ct_toWalletIdentifier dto) = ct_toWalletIdentifier dto \<and>
    (\<exists>q. ct_amount dto = JsFin q \<and> vd_two_decimals env q \<and> 0 < q) \<and>
    currency_code (ct_currency dto) \<and> (\<forall>c. ct_targetCurrency dto = Some c \<longrightarrow> target_code c)"

definition typed_bill :: "'z validators_scheme \<Rightarrow> create_split_bill_dto \<Rightarrow> bool" where
  "typed_bill env dto \<longleftrightarrow>
    MONEY_PATTERN (cb_total dto) \<and> currency_code (cb_currency dto) \<and>
    1 \<le> length (cb_participants dto) \<and> length (cb_participants dto) \<le> 100 \<and>
    (\<forall>p \<in> set (cb_participants dto). vd_is_uuid env (pt_userId p) \<and> (\<forall>s. pt_share p = Some (Some s) \<longrightarrow> MONEY_PATTERN s)) \<and>
    (\<forall>d. cb_deadline dto = Some d \<longrightarrow> vd_is_date env d)"

definition transfer_json :: "create_transfer_dto \<Rightarrow> fields" where
  "transfer_json dto =
    [(''fromWalletId'', JStr (ct_fromWalletId dto)), (''toWalletIdentifier'', JStr (ct_toWalletIdentifier dto)),
     (''amount'', JNum (ct_amount dto)), (''currency'', JStr (ct_currency dto))] @
    (case ct_targetCurrency dto of None \<Rightarrow> [] | Some c \<Rightarrow> [(''targetCurrency'', JStr c)])"

definition participant_json :: "split_participant \<Rightarrow> json" where
  "participant_json p =
    JObj ((''userId'', JStr (pt_userId p)) #
      (case pt_share p of None \<Rightarrow> [] | Some None \<Rightarrow> [(''share'', JNull)] | Some (Some s) \<Rightarrow> [(''share'', JStr s)]))"

definition bill_json :: "create_split_bill_dto \<Rightarrow> fields" where
  "bill_json dto =
    [(''total'', JStr (cb_total dto)), (''currency'', JStr (cb_currency dto)),
     (''mode'', JStr (case cb_mode dto of SplitEqual \<Rightarrow> ''equal'' | SplitCustom \<Rightarrow> ''custom'')),
     (''participants'', JArr (map participant_json (cb_participants dto)))] @
    (case cb_deadline dto of None \<Rightarrow> [] | Some d \<Rightarrow> [(''deadline'', JStr d)])"

lemma transfer_body_typed: "transfer_body env b = Inr dto \<Longrightarrow> typed_transfer env dto"
  by (auto simp: transfer_body_def typed_transfer_def Let_def matches_iff is_amount_iff trimmed_iff string_of_def number_of_def
      split: if_splits)

lemma transfer_body_json: "typed_transfer env dto \<Longrightarrow> transfer_body env (transfer_json dto) = Inr dto"
  by (cases dto)
    (auto simp: transfer_body_def typed_transfer_def transfer_json_def Let_def matches_def is_amount_def trimmed_def trimmed_upper_def
      absent_def string_of_def number_of_def currency_code_def upper_letters_same target_code_upper split: option.splits)

lemma participant_body_typed:
  "participant_body env j = Inr p \<Longrightarrow> vd_is_uuid env (pt_userId p) \<and> (\<forall>s. pt_share p = Some (Some s) \<longrightarrow> MONEY_PATTERN s)"
  by (auto simp: participant_body_def Let_def matches_iff absent_def string_of_def split: if_splits)

lemma participant_body_json:
  "vd_is_uuid env (pt_userId p) \<Longrightarrow> (\<And>s. pt_share p = Some (Some s) \<Longrightarrow> MONEY_PATTERN s) \<Longrightarrow>
    participant_body env (participant_json p) = Inr p"
  by (cases p) (auto simp: participant_body_def participant_json_def jget_def matches_def absent_def string_of_def split: option.splits)

lemma bill_body_typed:
  assumes "bill_body env b = Inr dto"
  shows "typed_bill env dto"
proof -
  from assms obtain js ps where js: "map_of b ''participants'' = Some (JArr js)" "mapM (participant_body env) js = Inr ps"
      "cb_participants dto = ps" "1 \<le> length js" "length js \<le> 100"
    by (auto simp: bill_body_def Let_def result_simps split: option.splits json.splits if_splits)
  have "\<forall>p \<in> set ps. vd_is_uuid env (pt_userId p) \<and> (\<forall>s. pt_share p = Some (Some s) \<longrightarrow> MONEY_PATTERN s)"
    using mapM_Inr_all [OF js(2)] participant_body_typed by blast
  then show ?thesis using assms mapM_Inr_all [OF js(2)] js
    by (cases dto) (auto simp: bill_body_def typed_bill_def Let_def result_simps matches_iff string_of_def split: if_splits)
qed

lemma bill_body_json: "typed_bill env dto \<Longrightarrow> bill_body env (bill_json dto) = Inr dto"
proof -
  assume t: "typed_bill env dto"
  have "mapM (participant_body env) (map participant_json (cb_participants dto)) = Inr (cb_participants dto)"
    using t by (intro mapM_read_back participant_body_json) (auto simp: typed_bill_def)
  then show ?thesis using t
    by (cases dto; cases "cb_mode dto"; cases "cb_deadline dto")
      (auto simp: bill_body_def bill_json_def typed_bill_def matches_def split_mode_of_def absent_def string_of_def rbind_def)
qed

text \<open>
  C36. Bodies are typed. Whatever JSON object a client posts, the handlers only ever see transfers and bills of the
  declared types: UUIDs, a receiver of 1 to 320 characters without space around it, a finite positive amount with
  at most two decimal places, currency codes, 1 to 100 participants, amounts in the pattern of money. Every such request has
  a body that is read back as it. And no request that a guard or a pipe refuses, be it for its token, its rate, its
  path or its body, changes anything of the database or calls the ledger.
\<close>

theorem requests_are_typed:
  "(\<forall>dto. typed_transfer env dto \<longleftrightarrow> (\<exists>b. transfer_body env b = Inr dto)) \<and>
   (\<forall>dto. typed_bill env dto \<longleftrightarrow> (\<exists>b. bill_body env b = Inr dto)) \<and>
   (\<forall>dto. typed_transfer env dto \<longrightarrow> transfer_body env (transfer_json dto) = Inr dto) \<and>
   (\<forall>dto. typed_bill env dto \<longrightarrow> bill_body env (bill_json dto) = Inr dto) \<and>
   (\<forall>r m' s'. payments_api env c authorization q m s = (r, m', s') \<longrightarrow>
      s' = s \<or> (\<exists>user handler. jwt_guard env authorization = Inr user \<and>
        (\<exists>b. method_guard env (ac_now c) user q m = (Inr b, m')) \<and>
        api_handler env c user q = Inr handler \<and> handler s = (r, s')))"
proof -
  have "s' = s \<or> (\<exists>user handler. jwt_guard env authorization = Inr user \<and>
        (\<exists>b. method_guard env (ac_now c) user q m = (Inr b, m')) \<and>
        api_handler env c user q = Inr handler \<and> handler s = (r, s'))"
    if "payments_api env c authorization q m s = (r, m', s')" for r m' s'
    using that by (auto simp: payments_api_def split: sum.splits prod.splits)
  then show ?thesis using transfer_body_typed transfer_body_json bill_body_typed bill_body_json by blast
qed

section \<open>A posted transfer\<close>

text \<open>Nobody else writes: every read of the request sees what it wrote itself.\<close>

definition calm :: "api_call \<Rightarrow> bool" where
  "calm c \<longleftrightarrow> quiet (ac_world c) \<and>
    (\<forall>k d. ac_seen c k d = \<lparr>cx_share = d, cx_existing = d, cx_db = d, cx_later = id, cx_now = ac_now c\<rparr>)"

lemma typed_canonical:
  assumes "typed_transfer env dto" "transferAmountToMinorUnits (ct_amount dto) = Inr k"
  shows "canonicalRequest dto u None = Inr \<lparr>cr_senderUserId = u, cr_senderWalletId = toLowerCase (ct_fromWalletId dto),
    cr_receiverReference = ct_toWalletIdentifier dto, cr_amountMinor = k, cr_currency = ct_currency dto,
    cr_destinationCurrency = (case ct_targetCurrency dto of None \<Rightarrow> ct_currency dto | Some c \<Rightarrow> c), cr_splitBillShareId = None\<rparr>"
proof -
  have "trim (ct_toWalletIdentifier dto) = ct_toWalletIdentifier dto" "upper_letters (ct_currency dto)"
    "\<And>c. ct_targetCurrency dto = Some c \<Longrightarrow> upper_letters c"
    using assms(1) target_code_upper by (auto simp: typed_transfer_def currency_code_def)
  then show ?thesis using assms(2)
    by (auto simp: canonicalRequest_def rbind_def upper_letters_same split: option.splits)
qed

text \<open>The first creation under a key inserts the new row and answers with it.\<close>

lemma first_creation:
  assumes key: "normalizeIdempotencyKey key = Inr ik" and r: "canonicalRequest dto u None = Inr r"
    and q: "quote_request r n = Inr q" and k: "cr_amountMinor r \<le> max_safe_integer" "length (cr_receiverReference r) \<le> 320"
    and hash: "\<And>x. length (hash x) \<le> 64"
    and new: "find_by_key d u ik = None" "pg_uuid newId \<notin> tr_id ` set (pd_transfers d)" and keys: "keys_unique d"
  defines "t \<equiv> new_transfer newId r q ik (fingerprint hash r) n"
  shows "create_transfer hash \<lparr>cx_share = d, cx_existing = d, cx_db = d, cx_later = id, cx_now = n\<rparr> newId dto key u =
      Inr (d\<lparr>pd_transfers := pd_transfers d @ [t]\<rparr>, transfer_toView t) \<and> transfer_fits t = Inr ()"
proof -
  let ?d = "d\<lparr>pd_transfers := pd_transfers d @ [t]\<rparr>"
  have s: "cr_splitBillShareId r = None" "cr_senderUserId r = u" using r by (auto simp: canonicalRequest_def result_simps)
  have fits: "transfer_fits t = Inr ()"
    unfolding t_def using normalizeIdempotencyKey_ok [OF key] hash k by (intro new_transfer_fits [OF q]) (auto simp: fingerprint_def)
  have id: "tr_id t = pg_uuid newId" "tr_senderUserId t = pg_uuid u" "tr_idempotencyKey t = ik" "tr_splitBillShareId t = None"
    by (simp_all add: t_def new_transfer_def s)
  have "\<forall>x \<in> set (pd_transfers d). tr_senderUserId x \<noteq> tr_senderUserId t \<or> tr_idempotencyKey x \<noteq> tr_idempotencyKey t"
    using new(1) by (auto simp: find_by_key_def find_None_iff id)
  then have ins: "insert_transfer t d = Inr ?d" unfolding insert_transfer_ok using fits new(2) id by simp
  have "keys_unique ?d" by (rule insert_transfer_keys [OF ins keys]) (simp add: id)
  then have "find_transfer ?d (tr_id t) = Some t" by (subst find_transfer_iff) (simp_all add: keys_unique_def id)
  then have "insert_or_winner \<lparr>cx_share = d, cx_existing = d, cx_db = d, cx_later = id, cx_now = n\<rparr> t r ik (fingerprint hash r) =
      Inr (?d, transfer_toView t)"
    using ins by (simp add: insert_or_winner_def rbind_def transfer_by_id_def)
  then show ?thesis using fits key r q new(1)
    by (simp add: create_transfer_def createCanonical_def rbind_def Let_def find_share_transfer_def s truthy_def flip: t_def)
qed

lemma view_id: "tv_id (transfer_toView t) = tr_id t"
  by (simp add: transfer_toView_def)

lemma row_by_id:
  assumes "keys_unique d" "t \<in> set (pd_transfers d)" "t' \<in> set (pd_transfers d)" "tr_id t = tr_id t'"
  shows "t = t'"
  using assms by (auto simp: keys_unique_def distinct_map inj_on_def)

lemma getStatus_row:
  assumes "keys_unique d" "t \<in> set (pd_transfers d)" "tr_senderUserId t = pg_uuid u"
  shows "getStatus d (tr_id t) u = Inr (transfer_toView t)"
proof -
  have id: "pg_uuid (tr_id t) = tr_id t" using assms(1,2) by (auto simp: keys_unique_def list_all_iff canonical_def)
  obtain x where x: "find (\<lambda>x. tr_id x = pg_uuid (tr_id t) \<and> tr_senderUserId x = pg_uuid u) (pd_transfers d) = Some x"
    using assms(2,3) id by (cases "find (\<lambda>x. tr_id x = pg_uuid (tr_id t) \<and> tr_senderUserId x = pg_uuid u) (pd_transfers d)")
      (auto simp: find_None_iff)
  with find_SomeD [OF x] row_by_id [OF assms(1) _ assms(2), of x] show ?thesis by (simp add: getStatus_def id)
qed

lemma created_run_completes:
  assumes w: "quiet w" "accepting w receiver" "receiver \<noteq> []" "sw_rawLength w 1 \<noteq> 0"
    and inv: "saga_inv (sg_db s) (sg_calls s)" and t: "t \<in> set (pd_transfers (sg_db s))" "transfer_fits t = Inr ()"
    and new: "t = new_transfer i r q ik fp n" "cr_splitBillShareId r = None" "policy_ok w t now"
    and fresh: "\<And>k. sw_uuid w k 0 \<notin> ob_eventId ` set (pd_outbox (sg_db s))"
  shows "\<exists>s' t' msg. run_saga w (tr_id t) owner now s = (Inr (), s') \<and> t' \<in> set (pd_transfers (sg_db s')) \<and> keys_unique (sg_db s') \<and>
    same_request t t' \<and> tr_status t' = Completed \<and> pd_outbox (sg_db s') = pd_outbox (sg_db s) @ [msg] \<and> completion_id msg = Some (tr_id t) \<and>
    sg_calls s' = sg_calls s @ [HoldRequested (tr_id t), HoldPlaced (tr_id t), SettleRequested (tr_id t), SettleAcked (tr_id t)]"
proof -
  have "recoverable now t" "pg_integer (tr_version t + 8)" "tr_status t = Pending" "tr_receiverWalletId t = None"
    "\<not> tr_holdMayExist t" "tr_splitBillShareId t = None"
    using new(2) by (simp_all add: new(1) new_transfer_def recoverable_def final_status_rank pg_integer_def)
  from pending_runs_to_completion [OF w(1-3) saga_inv_keys [OF inv] t(1) this(1) t(2) this(2) w(4) new(3) this(3-6) fresh]
  obtain s' t' msg where run: "run_saga w (tr_id t) owner now s = (Inr (), s')" "t' \<in> set (pd_transfers (sg_db s'))" "tr_id t' = tr_id t"
      "tr_status t' = Completed" "pd_outbox (sg_db s') = pd_outbox (sg_db s) @ [msg]" "completion_id msg = Some (tr_id t)"
      "sg_calls s' = sg_calls s @ [HoldRequested (tr_id t), HoldPlaced (tr_id t), SettleRequested (tr_id t), SettleAcked (tr_id t)]"
    by blast
  have "books s' \<and> world_le s s'" using run_saga_keeps [OF quiet_good [OF w(1)] _ run(1)] inv by (simp add: books_def)
  then have keys: "keys_unique (sg_db s')" and le: "db_le (sg_db s) (sg_db s')"
    by (auto simp: books_def world_le_def dest: saga_inv_keys)
  from le t(1) obtain x where x: "x \<in> set (pd_transfers (sg_db s'))" "same_request t x" by (auto simp: db_le_def row_le_def)
  with row_by_id [OF keys x(1) run(2)] run(3) have "same_request t t'" by (simp add: same_request_def)
  with run keys show ?thesis by blast
qed


section \<open>Examples\<close>

definition ex_api_env :: api_env where
  "ex_api_env =
    \<lparr>vd_is_uuid = (\<lambda>_. True), vd_path_uuid = (\<lambda>_. True), vd_two_decimals = (\<lambda>q. q * 100 \<in> \<int>), vd_is_date = (\<lambda>_. True),
     ap_passport = (\<lambda>_. Some \<lparr>tp_sub = ''u1'', tp_email = ''a@b'', tp_role = ''user''\<rparr>), ap_rateMax = JsFin 30, ap_rateWindow = JsFin 60000\<rparr>"

definition ex_api_call :: api_call where
  "ex_api_call =
    \<lparr>ac_world = ex_world, ac_sha256 = ex_sha,
     ac_seen = (\<lambda>k d. \<lparr>cx_share = d, cx_existing = d, cx_db = d, cx_later = id, cx_now = 0\<rparr>),
     ac_newId = ''t1'', ac_owner = ''o1'', ac_now = 0, ac_js_date = (\<lambda>_. None), ac_billIds = ex_bill_ids, ac_reads = (\<lambda>k d. d)\<rparr>"

definition ex_start :: saga_state where
  "ex_start = \<lparr>sg_db = empty_payments_db, sg_calls = [], sg_clock = 0, sg_transfer = ex_transfer\<rparr>"

lemma ex_dto_typed: "typed_transfer ex_api_env ex_dto"
proof -
  have "trim ''bob'' = ''bob''" "currency_code ''USD''" "target_code ''EUR''" by code_simp+
  moreover have "(1000 :: rat) \<in> \<int>" by simp
  ultimately show ?thesis by (simp add: typed_transfer_def ex_api_env_def ex_dto_def)
qed

theorem requests_are_typed_witness:
  "typed_transfer ex_api_env ex_dto \<and> transfer_body ex_api_env (transfer_json ex_dto) = Inr ex_dto"
  using requests_are_typed [of ex_api_env ex_api_call None ListBills "[]" ex_start] ex_dto_typed
  by (elim conjE) (intro conjI, assumption, erule allE, erule mp)


end
