(* ===== verification/Ledger_Api.thy ===== *)
theory Ledger_Api
  imports Ledger_Gateway Ledger_Concurrency Split_Domain Authentication Request_Bodies
begin

text \<open>
  The HTTP interface of the ledger: the DTOs under \<^verbatim>\<open>wallets/dto\<close>, \<^verbatim>\<open>JwtStrategy.validate\<close>, and the handlers of
  \<^verbatim>\<open>wallets.controller.ts\<close> and \<^verbatim>\<open>internal-transfers.controller.ts\<close> behind their guards and pipes; and the client of the
  payments service in front of it. The path of an internal request is taken apart as the decorators of the controller
  say; identifiers in a path are not escaped. A parameter is the payload of the token in the \<^verbatim>\<open>Authorization\<close> header,
  if passport accepts it.
\<close>

section \<open>Bodies\<close>

definition optional_text :: "json option \<Rightarrow> string option" where
  "optional_text v = (if absent v then None else Some (string_of v))"

definition optional_number :: "json option \<Rightarrow> jsnum option" where
  "optional_number v = (if absent v then None else Some (number_of v))"

text \<open>\<^verbatim>\<open>DepositDto\<close> and \<^verbatim>\<open>WithdrawDto\<close>.\<close>

definition amount_body :: "'z validators_scheme \<Rightarrow> fields \<Rightarrow> (err, jsnum) res" where
  "amount_body env b = (if is_amount env (map_of b ''amount'') then Inr (number_of (map_of b ''amount'')) else Inl invalid_body)"

definition place_hold_body :: "'z validators_scheme \<Rightarrow> fields \<Rightarrow> (err, string \<times> jsnum) res" where
  "place_hold_body env b =
    (if matches (vd_is_uuid env) (map_of b ''holdId'') \<and> is_amount env (map_of b ''amount'')
     then Inr (string_of (map_of b ''holdId''), number_of (map_of b ''amount'')) else Inl invalid_body)"

definition validate_transfer_body :: "'z validators_scheme \<Rightarrow> fields \<Rightarrow> (err, validate_transfer_dto) res" where
  "validate_transfer_body env b =
    (let receiverReference = trimmed (map_of b ''receiverReference''); currency = trimmed_upper (map_of b ''currency'');
         targetCurrency = trimmed_upper (map_of b ''targetCurrency''); destinationAmount = map_of b ''destinationAmount''
     in if matches (vd_is_uuid env) (map_of b ''transferId'') \<and> matches (vd_is_uuid env) (map_of b ''senderUserId'') \<and>
           matches (vd_is_uuid env) (map_of b ''senderWalletId'') \<and>
           matches (\<lambda>s. s \<noteq> [] \<and> length s \<le> 320) receiverReference \<and> is_amount env (map_of b ''amount'') \<and>
           matches currency_code currency \<and> (absent targetCurrency \<or> matches target_code targetCurrency) \<and>
           (absent destinationAmount \<or> is_amount env destinationAmount)
        then Inr \<lparr>vt_transferId = string_of (map_of b ''transferId''), vt_senderUserId = string_of (map_of b ''senderUserId''),
                  vt_senderWalletId = string_of (map_of b ''senderWalletId''), vt_receiverReference = string_of receiverReference,
                  vt_amount = number_of (map_of b ''amount''), vt_currency = string_of currency,
                  vt_targetCurrency = optional_text targetCurrency, vt_destinationAmount = optional_number destinationAmount\<rparr>
        else Inl invalid_body)"

definition hold_transfer_body :: "'z validators_scheme \<Rightarrow> fields \<Rightarrow> (err, hold_transfer_dto) res" where
  "hold_transfer_body env b =
    (if matches (vd_is_uuid env) (map_of b ''senderUserId'') \<and> matches (vd_is_uuid env) (map_of b ''senderWalletId'') \<and>
        is_amount env (map_of b ''amount'')
     then Inr \<lparr>ht_senderUserId = string_of (map_of b ''senderUserId''), ht_senderWalletId = string_of (map_of b ''senderWalletId''),
               ht_amount = number_of (map_of b ''amount'')\<rparr>
     else Inl invalid_body)"

definition release_transfer_body :: "'z validators_scheme \<Rightarrow> fields \<Rightarrow> (err, release_transfer_dto) res" where
  "release_transfer_body env b =
    (if matches (vd_is_uuid env) (map_of b ''senderUserId'') \<and> matches (vd_is_uuid env) (map_of b ''senderWalletId'')
     then Inr \<lparr>rt_senderUserId = string_of (map_of b ''senderUserId''), rt_senderWalletId = string_of (map_of b ''senderWalletId'')\<rparr>
     else Inl invalid_body)"

definition settle_transfer_body :: "'z validators_scheme \<Rightarrow> fields \<Rightarrow> (err, settle_transfer_dto) res" where
  "settle_transfer_body env b =
    (let currency = trimmed_upper (map_of b ''currency''); targetCurrency = trimmed_upper (map_of b ''targetCurrency'');
         destinationAmount = map_of b ''destinationAmount''
     in if matches (vd_is_uuid env) (map_of b ''senderUserId'') \<and> matches (vd_is_uuid env) (map_of b ''senderWalletId'') \<and>
           matches (vd_is_uuid env) (map_of b ''receiverWalletId'') \<and> is_amount env (map_of b ''amount'') \<and>
           matches currency_code currency \<and> (absent targetCurrency \<or> matches target_code targetCurrency) \<and>
           (absent destinationAmount \<or> is_amount env destinationAmount)
        then Inr \<lparr>st_senderUserId = string_of (map_of b ''senderUserId''), st_senderWalletId = string_of (map_of b ''senderWalletId''),
                  st_receiverWalletId = string_of (map_of b ''receiverWalletId''), st_amount = number_of (map_of b ''amount''),
                  st_currency = string_of currency, st_targetCurrency = optional_text targetCurrency,
                  st_destinationAmount = optional_number destinationAmount\<rparr>
        else Inl invalid_body)"

section \<open>Internal transfers\<close>

text \<open>What a handler finds: the states of its transactions and fresh identifiers.\<close>

record ledger_call_env =
  le_txs :: "nat \<Rightarrow> tx"
  le_before :: ledger_db
  le_after :: ledger_db
  le_walletId :: string
  le_eventId :: string
  le_transactionId :: string
  le_debitIds :: "nat \<Rightarrow> string"
  le_creditIds :: "nat \<Rightarrow> string"

datatype internal_request =
    InternalValidate fields
  | InternalHold string fields
  | InternalSettle string fields
  | InternalRelease string fields

datatype internal_answer =
    ReceiverAnswer string
  | HoldAnswer wallet_view
  | SettledAnswer wallet_view wallet_view
  | ReleaseAnswer release_outcome

definition internal_route :: "string \<Rightarrow> fields \<Rightarrow> internal_request option" where
  "internal_route path b =
    (case split_on (CHR ''/'') path of
       [p0, c1, c2, op] \<Rightarrow>
         if [p0, c1, c2, op] = [[], ''internal'', ''transfers'', ''validate''] then Some (InternalValidate b) else None
     | [p0, c1, c2, i, op] \<Rightarrow>
         if [p0, c1, c2] \<noteq> [[], ''internal'', ''transfers''] then None
         else if op = ''hold'' then Some (InternalHold i b)
         else if op = ''settle'' then Some (InternalSettle i b)
         else if op = ''release'' then Some (InternalRelease i b)
         else None
     | _ \<Rightarrow> None)"

definition internal_handler ::
  "'z validators_scheme \<Rightarrow> ledger_call_env \<Rightarrow> internal_request \<Rightarrow> (err, ledger_db \<times> internal_answer) res" where
  "internal_handler env c q =
    (case q of
       InternalValidate b \<Rightarrow>
         rbind (validate_transfer_body env b) (\<lambda>dto.
         rbind (validateTransfer (le_txs c 0) dto (le_walletId c) (le_eventId c)) (\<lambda>(d, w). Inr (d, ReceiverAnswer w)))
     | InternalHold i b \<Rightarrow>
         rbind (path_uuid env i) (\<lambda>i.
         rbind (hold_transfer_body env b) (\<lambda>dto.
         rbind (placeTransferHold (le_txs c) i dto (le_eventId c) (le_transactionId c)) (\<lambda>(d, v). Inr (d, HoldAnswer v))))
     | InternalSettle i b \<Rightarrow>
         rbind (path_uuid env i) (\<lambda>i.
         rbind (settle_transfer_body env b) (\<lambda>dto.
         rbind (settleTransfer (le_txs c) i dto (le_debitIds c) (le_creditIds c)) (\<lambda>(d, v, w). Inr (d, SettledAnswer v w))))
     | InternalRelease i b \<Rightarrow>
         rbind (path_uuid env i) (\<lambda>i.
         rbind (release_transfer_body env b) (\<lambda>dto.
         rbind (releaseTransferHold (le_before c) (le_txs c) (le_after c) i dto (le_eventId c) (le_transactionId c))
           (\<lambda>(d, r). Inr (d, ReleaseAnswer r)))))"

definition internal_api ::
  "'z validators_scheme \<Rightarrow> string option \<Rightarrow> ledger_call_env \<Rightarrow> string option \<Rightarrow> internal_request \<Rightarrow>
    (err, ledger_db \<times> internal_answer) res" where
  "internal_api env setting c token q = rbind (service_guard token setting) (\<lambda>_. internal_handler env c q)"

section \<open>Wallets\<close>

definition ledger_jwt_validate :: "token_payload \<Rightarrow> principal" where
  "ledger_jwt_validate p = \<lparr>pr_userId = tp_sub p, pr_email = tp_email p, pr_role = tp_role p\<rparr>"

datatype wallets_request =
    ListWallets
  | GetWallet string
  | PostDeposit string fields
  | PostWithdraw string fields
  | PostHold string fields
  | PostRelease string string
  | PostConsume string string

datatype wallets_answer = WalletAnswer wallet_view | WalletsAnswer "wallet_view list"

definition wallets_handler ::
  "'z validators_scheme \<Rightarrow> ledger_call_env \<Rightarrow> principal \<Rightarrow> wallets_request \<Rightarrow> (err, ledger_db \<times> wallets_answer) res" where
  "wallets_handler env c user q =
    (let u = pr_userId user; one = (\<lambda>r. rbind r (\<lambda>(d, v). Inr (d, WalletAnswer v))) in
     case q of
       ListWallets \<Rightarrow>
         rbind (listForUser (le_txs c 0) u (le_walletId c) (le_eventId c)) (\<lambda>(d, vs). Inr (d, WalletsAnswer vs))
     | GetWallet i \<Rightarrow>
         rbind (path_uuid env i) (\<lambda>i. rbind (getById (le_before c) i u) (\<lambda>v. Inr (le_before c, WalletAnswer v)))
     | PostDeposit i b \<Rightarrow>
         rbind (path_uuid env i) (\<lambda>i.
         rbind (amount_body env b) (\<lambda>amount. one (deposit_wallet (le_txs c) i u amount (le_eventId c) (le_transactionId c))))
     | PostWithdraw i b \<Rightarrow>
         rbind (path_uuid env i) (\<lambda>i.
         rbind (amount_body env b) (\<lambda>amount. one (withdraw_wallet (le_txs c) i u amount (le_eventId c) (le_transactionId c))))
     | PostHold i b \<Rightarrow>
         rbind (path_uuid env i) (\<lambda>i.
         rbind (place_hold_body env b) (\<lambda>(holdId, amount).
         one (placeHold_wallet (le_txs c) i u holdId amount (le_eventId c) (le_transactionId c))))
     | PostRelease i h \<Rightarrow>
         rbind (path_uuid env i) (\<lambda>i.
         rbind (path_uuid env h) (\<lambda>h. one (releaseHold_wallet (le_txs c) i u h (le_eventId c) (le_transactionId c))))
     | PostConsume i h \<Rightarrow>
         rbind (path_uuid env i) (\<lambda>i.
         rbind (path_uuid env h) (\<lambda>h. one (consumeHold_wallet (le_txs c) i u h (le_eventId c) (le_transactionId c)))))"

definition wallets_api ::
  "'z validators_scheme \<Rightarrow> (string option \<Rightarrow> token_payload option) \<Rightarrow> ledger_call_env \<Rightarrow> string option \<Rightarrow> wallets_request \<Rightarrow>
    (err, ledger_db \<times> wallets_answer) res" where
  "wallets_api env passport c authorization q =
    (case passport authorization of
       None \<Rightarrow> Inl (Unauthorized ''Unauthorized'')
     | Some p \<Rightarrow> wallets_handler env c (ledger_jwt_validate p) q)"

section \<open>The client of the payments service\<close>

text \<open>The ledger at the address \<open>base\<close> reads a request of the client.\<close>

definition ledger_receives ::
  "'z validators_scheme \<Rightarrow> string option \<Rightarrow> ledger_call_env \<Rightarrow> string \<Rightarrow> http_request \<Rightarrow> (err, ledger_db \<times> internal_answer) res" where
  "ledger_receives env setting c base r =
    (case (case hr_body r of JObj b \<Rightarrow> internal_route (drop (length base) (hr_url r)) b | _ \<Rightarrow> None) of
       None \<Rightarrow> Inl (NotFound ''Cannot POST'')
     | Some q \<Rightarrow> internal_api env setting c (map_of (hr_headers r) ''x-service-token'') q)"

text \<open>A transfer as the payments service stores it.\<close>

definition sendable :: "'z validators_scheme \<Rightarrow> transfer \<Rightarrow> bool" where
  "sendable env t \<longleftrightarrow>
    vd_is_uuid env (tr_id t) \<and> vd_path_uuid env (tr_id t) \<and> CHR ''/'' \<notin> set (tr_id t) \<and>
    vd_is_uuid env (tr_senderUserId t) \<and> vd_is_uuid env (tr_senderWalletId t) \<and>
    tr_receiverReference t \<noteq> [] \<and> length (tr_receiverReference t) \<le> 320 \<and> trim (tr_receiverReference t) = tr_receiverReference t \<and>
    0 < tr_amountMinor t \<and> tr_amountMinor t < 2 ^ 50 \<and>
    0 < tr_destinationAmountMinor t \<and> tr_destinationAmountMinor t < 2 ^ 50 \<and>
    target_code (tr_currency t) \<and> target_code (tr_destinationCurrency t)"

text \<open>The number nearest to an amount in minor units is written with at most two decimal places.\<close>

definition decimals_ok :: "'z validators_scheme \<Rightarrow> bool" where
  "decimals_ok env \<longleftrightarrow> (\<forall>k x. 0 < k \<and> k < 2 ^ 50 \<and> gateway_amount k = JsFin x \<longrightarrow> vd_two_decimals env x)"

lemma route_validate: "internal_route ''/internal/transfers/validate'' b = Some (InternalValidate b)"
  by (simp add: internal_route_def)

lemma route_command:
  assumes "CHR ''/'' \<notin> set i"
  shows "internal_route (''/internal/transfers/'' @ i @ ''/hold'') b = Some (InternalHold i b)"
    "internal_route (''/internal/transfers/'' @ i @ ''/settle'') b = Some (InternalSettle i b)"
    "internal_route (''/internal/transfers/'' @ i @ ''/release'') b = Some (InternalRelease i b)"
proof -
  have start: "split_on (CHR ''/'') (''/internal/transfers/'' @ i @ rest) =
      [] # ''internal'' # ''transfers'' # split_on (CHR ''/'') (i @ rest)" for rest
    using split_on_append [of "CHR ''/''" "''internal''" "''transfers/'' @ i @ rest"]
      split_on_append [of "CHR ''/''" "''transfers''" "i @ rest"] by simp
  show "internal_route (''/internal/transfers/'' @ i @ ''/hold'') b = Some (InternalHold i b)"
    "internal_route (''/internal/transfers/'' @ i @ ''/settle'') b = Some (InternalSettle i b)"
    "internal_route (''/internal/transfers/'' @ i @ ''/release'') b = Some (InternalRelease i b)"
    using split_on_append [OF assms] by (simp_all only: internal_route_def start) simp_all
qed

lemma sent_amount:
  assumes "decimals_ok env" "0 < k" "k < 2 ^ 50"
  shows "is_amount env (Some (JNum (gateway_amount k)))" "toPositiveMinorUnits (gateway_amount k) = Inr k"
proof -
  obtain x where x: "gateway_amount k = JsFin x" "near_decimal k x"
    using div_100_near_decimal [OF assms(2,3)] by (auto simp: gateway_amount_def)
  note m = amountToMinorUnits_decimal [OF assms(2,3) x(2)]
  with x(1) assms(2) show "toPositiveMinorUnits (gateway_amount k) = Inr k" by (simp add: toPositiveMinorUnits_def)
  have "0 < x"
  proof -
    have "\<bar>x - of_int k / 100\<bar> \<le> of_int k / 100 * (1 / 9007199254740992)" using x(2) by (simp only: near_decimal_def powi2_consts)
    moreover have "0 < (of_int k :: rat)" using assms(2) by simp
    ultimately show ?thesis by linarith
  qed
  with assms x(1) show "is_amount env (Some (JNum (gateway_amount k)))" by (auto simp: is_amount_def decimals_ok_def)
qed

lemma target_currency_code: "target_code s \<Longrightarrow> currency_code s"
  by (auto simp: target_code_def currency_code_def upper_letters_def)

lemma target_unchanged: "target_code s \<Longrightarrow> trimmed_upper (Some (JStr s)) = Some (JStr s)"
  using upper_letters_same [OF target_code_upper] by (simp add: trimmed_upper_def)

lemma sent_guarded:
  assumes "token \<noteq> []" "hr_body r = JObj b" "internal_route (drop (length base) (hr_url r)) b = Some q"
    "map_of (hr_headers r) ''x-service-token'' = Some token"
  shows "ledger_receives env (Some token) c base r = internal_handler env c q"
  using assms by (simp add: ledger_receives_def internal_api_def service_guard_def truthy_def or_default_def rbind_def Let_def)

lemma sent_token: "map_of (hr_headers (gateway_request g token path body)) ''x-service-token'' = Some token"
  by (simp add: gateway_request_def)

lemma sent_path: "drop (length (baseUrl (gw_serviceUrl g))) (hr_url (gateway_request g token path body)) = path"
  by (simp add: gateway_request_def)

lemma sent_body: "hr_body (gateway_request g token path body) = body"
  by (simp add: gateway_request_def)

lemma received:
  assumes "token \<noteq> []" "internal_route path b = Some q"
  shows "ledger_receives env (Some token) c (baseUrl (gw_serviceUrl g)) (gateway_request g token path (JObj b)) = internal_handler env c q"
  by (rule sent_guarded) (use assms in \<open>simp_all add: sent_token sent_path sent_body\<close>)

lemmas body_simps =
  matches_def absent_def string_of_def number_of_def optional_text_def optional_number_def Let_def

lemma validate_read:
  assumes "sendable env t" "decimals_ok env"
  shows "\<exists>b. validate_body t = JObj b \<and> validate_transfer_body env b = Inr
    \<lparr>vt_transferId = tr_id t, vt_senderUserId = tr_senderUserId t, vt_senderWalletId = tr_senderWalletId t,
     vt_receiverReference = tr_receiverReference t, vt_amount = gateway_amount (tr_amountMinor t), vt_currency = tr_currency t,
     vt_targetCurrency = Some (tr_destinationCurrency t), vt_destinationAmount = Some (gateway_amount (tr_destinationAmountMinor t))\<rparr>"
  using assms sent_amount(1) [OF assms(2)]
  by (simp add: sendable_def validate_body_def validate_transfer_body_def body_simps target_unchanged target_currency_code)

lemma hold_read:
  assumes "sendable env t" "decimals_ok env"
  shows "\<exists>b. hold_body t = JObj b \<and> hold_transfer_body env b = Inr
    \<lparr>ht_senderUserId = tr_senderUserId t, ht_senderWalletId = tr_senderWalletId t, ht_amount = gateway_amount (tr_amountMinor t)\<rparr>"
  using assms sent_amount(1) [OF assms(2)] by (simp add: sendable_def hold_body_def hold_transfer_body_def body_simps)

lemma settle_read:
  assumes "sendable env t" "decimals_ok env" "vd_is_uuid env receiver"
  shows "\<exists>b. settle_body t receiver = JObj b \<and> settle_transfer_body env b = Inr
    \<lparr>st_senderUserId = tr_senderUserId t, st_senderWalletId = tr_senderWalletId t, st_receiverWalletId = receiver,
     st_amount = gateway_amount (tr_amountMinor t), st_currency = tr_currency t, st_targetCurrency = Some (tr_destinationCurrency t),
     st_destinationAmount = Some (gateway_amount (tr_destinationAmountMinor t))\<rparr>"
  using assms sent_amount(1) [OF assms(2)]
  by (simp add: sendable_def settle_body_def settle_transfer_body_def body_simps target_unchanged target_currency_code)

lemma release_read:
  assumes "sendable env t"
  shows "\<exists>b. release_body t = JObj b \<and> release_transfer_body env b = Inr
    \<lparr>rt_senderUserId = tr_senderUserId t, rt_senderWalletId = tr_senderWalletId t\<rparr>"
  using assms by (simp add: sendable_def release_body_def release_transfer_body_def body_simps)

text \<open>The commands that a transfer stands for.\<close>

definition validation_of :: "transfer \<Rightarrow> validate_transfer_dto" where
  "validation_of t =
    \<lparr>vt_transferId = tr_id t, vt_senderUserId = tr_senderUserId t, vt_senderWalletId = tr_senderWalletId t,
     vt_receiverReference = tr_receiverReference t, vt_amount = gateway_amount (tr_amountMinor t), vt_currency = tr_currency t,
     vt_targetCurrency = Some (tr_destinationCurrency t), vt_destinationAmount = Some (gateway_amount (tr_destinationAmountMinor t))\<rparr>"

definition settlement_of :: "transfer \<Rightarrow> string \<Rightarrow> settle_transfer_dto" where
  "settlement_of t receiver =
    \<lparr>st_senderUserId = tr_senderUserId t, st_senderWalletId = tr_senderWalletId t, st_receiverWalletId = receiver,
     st_amount = gateway_amount (tr_amountMinor t), st_currency = tr_currency t, st_targetCurrency = Some (tr_destinationCurrency t),
     st_destinationAmount = Some (gateway_amount (tr_destinationAmountMinor t))\<rparr>"

lemma settle_received:
  assumes "sendable env t" "decimals_ok env" "vd_is_uuid env receiver" "token \<noteq> []"
  shows "ledger_receives env (Some token) c (baseUrl (gw_serviceUrl g))
      (gateway_request g token (''/internal/transfers/'' @ tr_id t @ ''/settle'') (settle_body t receiver)) =
    rbind (settleTransfer (le_txs c) (tr_id t) (settlement_of t receiver) (le_debitIds c) (le_creditIds c))
      (\<lambda>(d, v, w). Inr (d, SettledAnswer v w))"
proof -
  have i: "CHR ''/'' \<notin> set (tr_id t)" "vd_path_uuid env (tr_id t)" using assms(1) by (simp_all add: sendable_def)
  from settle_read [OF assms(1-3)] obtain b where b: "settle_body t receiver = JObj b"
    "settle_transfer_body env b = Inr (settlement_of t receiver)" by (auto simp: settlement_of_def)
  show ?thesis unfolding b(1) received [OF assms(4) route_command(2) [OF i(1)]] using b(2) i(2)
    by (simp add: internal_handler_def path_uuid_def rbind_def)
qed

text \<open>
  C4. What the payments service asks is what the ledger does. Every command that the client of the payments
  service sends for a stored transfer, with the credential that both services are configured with, passes the
  guard, the route and the checks of the ledger and runs the ledger's operation with exactly the identifiers, the amounts in minor
  units and the currencies of the transfer. (Amounts are below 2 to the power of 50 minor units, and the validator
  counts at most two decimal places in the number nearest to such an amount.)
\<close>

theorem commands_arrive:
  assumes "sendable env t" "decimals_ok env" "token \<noteq> []" "vd_is_uuid env receiver"
  shows "ledger_receives env (Some token) c (baseUrl (gw_serviceUrl g))
      (gateway_request g token ''/internal/transfers/validate'' (validate_body t)) =
      rbind (validateTransfer (le_txs c 0) (validation_of t) (le_walletId c) (le_eventId c)) (\<lambda>(d, w). Inr (d, ReceiverAnswer w)) \<and>
    ledger_receives env (Some token) c (baseUrl (gw_serviceUrl g))
      (gateway_request g token (''/internal/transfers/'' @ tr_id t @ ''/hold'') (hold_body t)) =
      rbind (executeHoldCommand (le_txs c) (tr_senderWalletId t) (tr_senderUserId t) (tr_id t) PlaceOp (Some (tr_amountMinor t)) False
        (le_eventId c) (le_transactionId c)) (\<lambda>(d, v). Inr (d, HoldAnswer v)) \<and>
    ledger_receives env (Some token) c (baseUrl (gw_serviceUrl g))
      (gateway_request g token (''/internal/transfers/'' @ tr_id t @ ''/settle'') (settle_body t receiver)) =
      rbind (settleTransfer (le_txs c) (tr_id t) (settlement_of t receiver) (le_debitIds c) (le_creditIds c))
        (\<lambda>(d, v, w). Inr (d, SettledAnswer v w)) \<and>
    ledger_receives env (Some token) c (baseUrl (gw_serviceUrl g))
      (gateway_request g token (''/internal/transfers/'' @ tr_id t @ ''/release'') (release_body t)) =
      rbind (releaseTransferHold (le_before c) (le_txs c) (le_after c) (tr_id t)
        \<lparr>rt_senderUserId = tr_senderUserId t, rt_senderWalletId = tr_senderWalletId t\<rparr> (le_eventId c) (le_transactionId c))
        (\<lambda>(d, r). Inr (d, ReleaseAnswer r)) \<and>
    toPositiveMinorUnits (st_amount (settlement_of t receiver)) = Inr (tr_amountMinor t) \<and>
    map_option toPositiveMinorUnits (st_destinationAmount (settlement_of t receiver)) = Some (Inr (tr_destinationAmountMinor t))"
proof -
  have i: "CHR ''/'' \<notin> set (tr_id t)" "vd_path_uuid env (tr_id t)" using assms(1) by (simp_all add: sendable_def)
  have amounts: "toPositiveMinorUnits (gateway_amount (tr_amountMinor t)) = Inr (tr_amountMinor t)"
    "toPositiveMinorUnits (gateway_amount (tr_destinationAmountMinor t)) = Inr (tr_destinationAmountMinor t)"
    using assms(1) sent_amount(2) [OF assms(2)] by (simp_all add: sendable_def)
  obtain b1 where v: "validate_body t = JObj b1" "validate_transfer_body env b1 = Inr (validation_of t)"
    using validate_read [OF assms(1,2)] by (auto simp: validation_of_def)
  obtain b2 where h: "hold_body t = JObj b2" "hold_transfer_body env b2 = Inr
      \<lparr>ht_senderUserId = tr_senderUserId t, ht_senderWalletId = tr_senderWalletId t, ht_amount = gateway_amount (tr_amountMinor t)\<rparr>"
    using hold_read [OF assms(1,2)] by auto
  obtain b3 where r: "release_body t = JObj b3" "release_transfer_body env b3 = Inr
      \<lparr>rt_senderUserId = tr_senderUserId t, rt_senderWalletId = tr_senderWalletId t\<rparr>"
    using release_read [OF assms(1)] by auto
  show ?thesis
    unfolding v(1) h(1) r(1) received [OF assms(3) route_validate] received [OF assms(3) route_command(1) [OF i(1)]]
      received [OF assms(3) route_command(3) [OF i(1)]] settle_received [OF assms(1,2,4,3)]
    using v(2) h(2) r(2) i(2) amounts
    by (simp add: internal_handler_def path_uuid_def rbind_def placeTransferHold_def placeHold_wallet_def settlement_of_def)
qed

lemma find_settlement_mono:
  assumes "ledger_le d d'" "find_settlement d i \<noteq> None"
  shows "find_settlement d' i \<noteq> None"
  using assms by (auto simp: ledger_le_def find_settlement_def find_None_iff elim!: prefixE)

text \<open>
  C3. The settlement that the saga requests moves the money of the transfer. When the ledger answers the client's
  settlement of a stored transfer with success, under any interleaving of the ledger's transactions, then either a
  receipt of this transfer was there before and nothing was changed, or the sender's balance and held money fall by
  exactly the transfer's amount and the receiver's balance rises by exactly its destination amount, no other
  wallet is touched, and one receipt of the transfer is written.
\<close>

theorem settle_request_moves_transfer:
  assumes t: "sendable env t" "canonical (tr_id t)" "vd_is_uuid env receiver" and env: "decimals_ok env" "token \<noteq> []"
    and ledger: "\<And>k. ledger_reachable (tx_db (le_txs c k)) \<and> valid_tx (le_txs c k)"
    and ok: "ledger_receives env (Some token) c (baseUrl (gw_serviceUrl g))
      (gateway_request g token (''/internal/transfers/'' @ tr_id t @ ''/settle'') (settle_body t receiver)) = Inr (d', answer)"
  shows "\<exists>k. find_settlement (tx_db (le_txs c k)) (tr_id t) \<noteq> None \<and> d' = tx_db (le_txs c k) \<or>
    find_settlement (tx_db (le_txs c k)) (tr_id t) = None \<and>
    (\<exists>s r p q p' q'. s = pg_uuid (tr_senderWalletId t) \<and> r = pg_uuid receiver \<and> s \<noteq> r \<and>
      map_of (ld_balances (tx_db (le_txs c k))) s = Some p \<and> map_of (ld_balances (tx_db (le_txs c k))) r = Some q \<and>
      map_of (ld_balances d') s = Some p' \<and> map_of (ld_balances d') r = Some q' \<and>
      bp_balanceMinor p' = bp_balanceMinor p - tr_amountMinor t \<and> bp_heldMinor p' = bp_heldMinor p - tr_amountMinor t \<and>
      bp_availableMinor p' = bp_availableMinor p \<and>
      bp_balanceMinor q' = bp_balanceMinor q + tr_destinationAmountMinor t \<and> bp_heldMinor q' = bp_heldMinor q \<and>
      (\<forall>w. w \<noteq> s \<and> w \<noteq> r \<longrightarrow> map_of (ld_balances d') w = map_of (ld_balances (tx_db (le_txs c k))) w) \<and>
      map ts_transferId (ld_settlements d') = map ts_transferId (ld_settlements (tx_db (le_txs c k))) @ [tr_id t])"
proof -
  let ?m = "tr_amountMinor t" and ?n = "tr_destinationAmountMinor t" and ?cmd = "settlement_of t receiver"
  have n: "0 < ?n" using t(1) by (simp add: sendable_def)
  have amounts: "toPositiveMinorUnits (st_amount ?cmd) = Inr ?m"
    "st_destinationAmount ?cmd = Some (gateway_amount ?n)" "toPositiveMinorUnits (gateway_amount ?n) = Inr ?n"
    "st_targetCurrency ?cmd = Some (tr_destinationCurrency t)"
    using t(1) sent_amount(2) [OF env(1)] by (simp_all add: sendable_def settlement_of_def)
  obtain v w where "settleTransfer (le_txs c) (tr_id t) ?cmd (le_debitIds c) (le_creditIds c) = Inr (d', v, w)"
    using ok unfolding settle_received [OF t(1) env(1) t(3) env(2)] by (auto simp: result_simps)
  then obtain k where k: "(case find_settlement (tx_pre (le_txs c k)) (tr_id t) of
        Some completed \<Rightarrow> rbind (assertSettlementMatches completed ?cmd ?m ?n (tr_destinationCurrency t)) (\<lambda>_.
          rbind (readSettlementWallets completed (tx_pre (le_txs c k))) (\<lambda>views. Inr (tx_db (le_txs c k), views)))
      | None \<Rightarrow> settleTransferAttempt (le_txs c k) (tr_id t) ?cmd ?m ?n (tr_destinationCurrency t) (le_debitIds c k) (le_creditIds c k))
      = Inr (d', v, w)"
    by (auto simp: settleTransfer_def amounts rbind_def Let_def dest!: with_retries_Inr)
  let ?T = "le_txs c k"
  have T: "ledger_reachable (tx_db ?T)" "valid_tx ?T" using ledger by blast+
  show ?thesis
  proof (cases "find_settlement (tx_db ?T) (tr_id t) = None")
    case True
    then have "find_settlement (tx_pre ?T) (tr_id t) = None" using find_settlement_mono valid_txD(1) [OF T(2)] by blast
    with k have "settleTransferAttempt ?T (tr_id t) ?cmd ?m ?n (tr_destinationCurrency t) (le_debitIds c k) (le_creditIds c k) = Inr (d', v, w)"
      by simp
    from settlement_effect [OF T t(2) n True this] True show ?thesis by (intro exI [of _ k]) (simp add: settlement_of_def)
  next
    case False
    have "d' = tx_db ?T" using k settlement_happens_once [OF T False] by (auto simp: result_simps split: option.splits)
    with False show ?thesis by blast
  qed
qed

section \<open>Examples\<close>

text \<open>The transfer of 50.00 whose hold the ledger of \<open>Ledger_Example\<close> has.\<close>

definition ex_validators :: validators where
  "ex_validators = \<lparr>vd_is_uuid = (\<lambda>_. True), vd_path_uuid = (\<lambda>_. True), vd_two_decimals = (\<lambda>_. True), vd_is_date = (\<lambda>_. True)\<rparr>"

definition ex_stored :: transfer where
  "ex_stored = (new_transfer ''f1'' \<lparr>cr_senderUserId = ''a1'', cr_senderWalletId = ''wa'', cr_receiverReference = ''bob'', cr_amountMinor = 5000,
     cr_currency = ''USD'', cr_destinationCurrency = ''USD'', cr_splitBillShareId = None\<rparr> \<lparr>fx_destinationAmountMinor = 5000, fx_rateNumerator = 1,
     fx_rateDenominator = 1, fx_displayRate = ''1.00000000'', fx_quotedAt = 0, fx_expiresAt = 300000\<rparr> ''k1'' ''f1'' 0)\<lparr>tr_id := ''f1'',
     tr_senderUserId := ''a1'', tr_senderWalletId := ''wa''\<rparr>"

definition ex_ledger_call :: ledger_call_env where
  "ex_ledger_call =
    \<lparr>le_txs = (\<lambda>k. ex_tx ex_db4), le_before = ex_db4, le_after = ex_db4, le_walletId = ''wc'', le_eventId = ''e7'', le_transactionId = ''x1'',
     le_debitIds = (\<lambda>k. ''e5''), le_creditIds = (\<lambda>k. ''e6'')\<rparr>"

lemma ex_sendable: "sendable ex_validators ex_stored" "decimals_ok ex_validators" "vd_is_uuid ex_validators r"
proof -
  have "trim ''bob'' = ''bob''" by code_simp
  then show "sendable ex_validators ex_stored"
    by (simp add: sendable_def ex_validators_def ex_stored_def new_transfer_def target_code_def)
qed (simp_all add: decimals_ok_def ex_validators_def)

theorem commands_arrive_witness:
  "ledger_receives ex_validators (Some ''token'') ex_ledger_call (baseUrl (gw_serviceUrl ex_gateway))
      (gateway_request ex_gateway ''token'' (''/internal/transfers/'' @ tr_id ex_stored @ ''/hold'') (hold_body ex_stored)) =
    rbind (executeHoldCommand (le_txs ex_ledger_call) (tr_senderWalletId ex_stored) (tr_senderUserId ex_stored) (tr_id ex_stored) PlaceOp
      (Some (tr_amountMinor ex_stored)) False (le_eventId ex_ledger_call) (le_transactionId ex_ledger_call)) (\<lambda>(d, v). Inr (d, HoldAnswer v))"
  by (rule commands_arrive [OF ex_sendable(1,2) _ ex_sendable(3), THEN conjunct2, THEN conjunct1]) simp

lemma ex_settle_received:
  "\<exists>d' answer. ledger_receives ex_validators (Some ''token'') ex_ledger_call (baseUrl (gw_serviceUrl ex_gateway))
    (gateway_request ex_gateway ''token'' (''/internal/transfers/'' @ tr_id ex_stored @ ''/settle'') (settle_body ex_stored ''wb'')) = Inr (d', answer)"
proof -
  let ?cmd = "settlement_of ex_stored ''wb''"
  have sel: "tr_id ex_stored = ''f1''" "st_destinationAmount ?cmd = Some (gateway_amount 5000)" "st_amount ?cmd = gateway_amount 5000"
    "st_targetCurrency ?cmd = Some ''USD''" "st_currency ?cmd = ''USD''" "st_senderUserId ?cmd = ''a1''" "st_senderWalletId ?cmd = ''wa''"
    "st_receiverWalletId ?cmd = ''wb''"
    by (simp_all add: settlement_of_def ex_stored_def new_transfer_def)
  have same: "settleTransferAttempt (ex_tx ex_db4) ''f1'' ?cmd 5000 5000 ''USD'' ''e5'' ''e6'' =
      settleTransferAttempt (ex_tx ex_db4) ''f1'' ex_settle 5000 5000 ''USD'' ''e5'' ''e6''"
  proof -
    have w: "settle_writes T i ?cmd = settle_writes T i ex_settle" "assertSettlementMatches r ?cmd = assertSettlementMatches r ex_settle" for T i r
      by (simp_all add: fun_eq_iff settle_writes_def assertSettlementMatches_def sel ex_settle_def)
    have f: "st_senderUserId ex_settle = ''a1''" "st_senderWalletId ex_settle = ''wa''" "st_receiverWalletId ex_settle = ''wb''"
      "st_currency ex_settle = ''USD''" by (simp_all add: ex_settle_def)
    show ?thesis unfolding settleTransferAttempt_def w f sel by (rule refl)
  qed
  obtain d' views where ok: "settleTransferAttempt (ex_tx ex_db4) ''f1'' ?cmd 5000 5000 ''USD'' ''e5'' ''e6'' = Inr (d', views)"
    using ex_settle_ok unfolding same by (auto simp: is_ok_def split: sum.splits)
  have none: "find_settlement ex_db4 ''f1'' = None"
    by (simp add: find_settlement_def ex_db4_def ex_db3_def ex_db2_def ex_db1_def ex_db0_def empty_ledger_def)
  have amount: "toPositiveMinorUnits (gateway_amount 5000) = Inr 5000" by (rule sent_amount(2) [OF ex_sendable(2)]) simp_all
  have "settleTransfer (le_txs ex_ledger_call) ''f1'' ?cmd (le_debitIds ex_ledger_call) (le_creditIds ex_ledger_call) = Inr (d', views)"
    using ok none amount
    by (simp add: settleTransfer_def sel rbind_def Let_def ex_ledger_call_def with_retries_def MAX_CONCURRENCY_RETRIES_def numeral_eq_Suc)
  then have run: "settleTransfer (le_txs ex_ledger_call) (tr_id ex_stored) ?cmd (le_debitIds ex_ledger_call) (le_creditIds ex_ledger_call) =
      Inr (d', views)" unfolding sel(1) .
  have "''token'' \<noteq> []" by simp
  from settle_received [OF ex_sendable(1,2,3) this] show ?thesis by (cases views) (simp add: run rbind_def)
qed

theorem settle_request_moves_transfer_witness:
  "\<exists>d' answer p'. ledger_receives ex_validators (Some ''token'') ex_ledger_call (baseUrl (gw_serviceUrl ex_gateway))
      (gateway_request ex_gateway ''token'' (''/internal/transfers/'' @ tr_id ex_stored @ ''/settle'') (settle_body ex_stored ''wb'')) =
      Inr (d', answer) \<and> map_of (ld_balances d') ''wa'' = Some p' \<and> bp_balanceMinor p' = 5050 \<and> bp_heldMinor p' = 0"
proof -
  obtain d' answer where ok: "ledger_receives ex_validators (Some ''token'') ex_ledger_call (baseUrl (gw_serviceUrl ex_gateway))
      (gateway_request ex_gateway ''token'' (''/internal/transfers/'' @ tr_id ex_stored @ ''/settle'') (settle_body ex_stored ''wb'')) = Inr (d', answer)"
    using ex_settle_received by blast
  have none: "find_settlement ex_db4 ''f1'' = None"
    by (simp add: find_settlement_def ex_db4_def ex_db3_def ex_db2_def ex_db1_def ex_db0_def empty_ledger_def)
  have b: "map_of (ld_balances ex_db4) ''wa'' = Some (projectionFromAggregate ex_a2)"
    using ledger_inv_wallet [OF ledger_reachable_inv [OF ex_reach4], of ex_wa] ex_aggregate2 by auto
  have held: "heldMinor ex_a2 = 5000" "wa_balanceMinor ex_a2 = 10050"
    by (simp_all add: ex_a2_def ex_a1_def ex_a0_def empty_wallet_def withHold_def heldMinor_def)
  have txs: "tx_db (le_txs ex_ledger_call k) = ex_db4" "ledger_reachable (tx_db (le_txs ex_ledger_call k)) \<and> valid_tx (le_txs ex_ledger_call k)" for k
    using ex_reach4 valid_serial_tx by (simp_all add: ex_ledger_call_def)
  have sel: "tr_id ex_stored = ''f1''" "tr_senderWalletId ex_stored = ''wa''" "tr_amountMinor ex_stored = 5000" "canonical (tr_id ex_stored)"
    by (simp_all add: ex_stored_def new_transfer_def canonical_def)
  from settle_request_moves_transfer [OF ex_sendable(1) sel(4) ex_sendable(3) ex_sendable(2) _ txs(2) ok]
  obtain s p p' where "s = pg_uuid ''wa''" "map_of (ld_balances ex_db4) s = Some p" "map_of (ld_balances d') s = Some p'"
    "bp_balanceMinor p' = bp_balanceMinor p - 5000" "bp_heldMinor p' = bp_heldMinor p - 5000"
    using none by (auto simp: txs(1) sel)
  with ok b held show ?thesis by (intro exI conjI) (assumption, auto)
qed

end
