(* ===== verification/Accounts_Api.thy ===== *)
theory Accounts_Api
  imports Ledger_Maintenance Authentication Rate_Limit Request_Bodies
begin

text \<open>
  The rest of the HTTP interface of the ledger: \<^verbatim>\<open>auth/auth.controller.ts\<close> with the DTOs under \<^verbatim>\<open>auth/dto\<close>, behind
  the limit of logins, and \<^verbatim>\<open>admin/admin-ledger.controller.ts\<close> behind the guards of the token and of the role. Parameters are
  what is an e-mail address and a date, and the payload of the token in the \<^verbatim>\<open>Authorization\<close> header, if passport accepts it.
\<close>

section \<open>Registration, login and refresh\<close>

record accounts_env = validators +
  vd_is_email :: "string \<Rightarrow> bool"
  av_loginMax :: jsnum
  av_loginWindow :: jsnum

definition register_body :: "accounts_env \<Rightarrow> fields \<Rightarrow> (err, string \<times> string) res" where
  "register_body env b =
    (if matches (vd_is_email env) (map_of b ''email'') \<and> matches (\<lambda>s. 8 \<le> length s) (map_of b ''password'')
     then Inr (string_of (map_of b ''email''), string_of (map_of b ''password'')) else Inl invalid_body)"

definition login_body :: "accounts_env \<Rightarrow> fields \<Rightarrow> (err, string \<times> string) res" where
  "login_body env b =
    (if matches (vd_is_email env) (map_of b ''email'') \<and> matches (\<lambda>_. True) (map_of b ''password'')
     then Inr (string_of (map_of b ''email''), string_of (map_of b ''password'')) else Inl invalid_body)"

definition refresh_body :: "fields \<Rightarrow> (err, string) res" where
  "refresh_body b =
    (if matches (\<lambda>_. True) (map_of b ''refreshToken'') then Inr (string_of (map_of b ''refreshToken'')) else Inl invalid_body)"

text \<open>What a handler finds: what others write meanwhile, fresh identifiers and salts, the time.\<close>

record accounts_call =
  aa_later :: "user list \<Rightarrow> user list"
  aa_newId :: string
  aa_salt1 :: string
  aa_salt2 :: string
  aa_now :: int

text \<open>A login comes with the address of the client.\<close>

datatype accounts_request =
    PostRegister fields
  | PostLogin "string option" "string option" fields
  | PostRefresh fields

definition accounts_guard :: "accounts_env \<Rightarrow> int \<Rightarrow> accounts_request \<Rightarrow> windows \<Rightarrow> (err, bool) res \<times> windows" where
  "accounts_guard env now q m =
    (case q of
       PostLogin ip remoteAddress _ \<Rightarrow> canActivate_ledger_login (av_loginMax env) (av_loginWindow env) now ip remoteAddress m
     | _ \<Rightarrow> (Inr True, m))"

definition accounts_handler ::
  "accounts_env \<Rightarrow> auth_env \<Rightarrow> accounts_call \<Rightarrow> accounts_request \<Rightarrow> user list \<Rightarrow> (err, token_pair) res \<times> user list" where
  "accounts_handler env auth c q us =
    (case q of
       PostRegister b \<Rightarrow>
         (case register_body env b of
            Inl e \<Rightarrow> (Inl e, us)
          | Inr (email, password) \<Rightarrow> register auth (aa_later c) (aa_newId c) (aa_salt1 c) (aa_salt2 c) (aa_now c) email password us)
     | PostLogin _ _ b \<Rightarrow>
         (case login_body env b of
            Inl e \<Rightarrow> (Inl e, us)
          | Inr (email, password) \<Rightarrow> login auth (aa_later c) (aa_salt1 c) (aa_now c) email password us)
     | PostRefresh b \<Rightarrow>
         (case refresh_body b of
            Inl e \<Rightarrow> (Inl e, us)
          | Inr token \<Rightarrow> refresh auth (aa_later c) (aa_salt1 c) (aa_now c) token us))"

definition accounts_api ::
  "accounts_env \<Rightarrow> auth_env \<Rightarrow> accounts_call \<Rightarrow> accounts_request \<Rightarrow> windows \<Rightarrow> user list \<Rightarrow>
    (err, token_pair) res \<times> windows \<times> user list" where
  "accounts_api env auth c q m us =
    (case accounts_guard env (aa_now c) q m of
       (Inl e, m') \<Rightarrow> (Inl e, m', us)
     | (Inr _, m') \<Rightarrow> (case accounts_handler env auth c q us of (r, us') \<Rightarrow> (r, m', us')))"

section \<open>Administration\<close>

datatype admin_request =
    GetEventLog string
  | GetReconciliation string
  | GetGlobalReconciliation fields
  | PostRebuild

datatype admin_answer =
    EventLogAnswer "stored_event list"
  | ReconciliationAnswer wallet_reconciliation
  | GlobalAnswer global_reconciliation
  | RebuildAnswer int

definition period_query_dto :: "'z validators_scheme \<Rightarrow> fields \<Rightarrow> (err, string option \<times> string option) res" where
  "period_query_dto env b =
    (let ok = (\<lambda>v. absent v \<or> matches (vd_is_date env) v); text = (\<lambda>v. if absent v then None else Some (string_of v));
         from = map_of b ''from''; to = map_of b ''to''
     in if ok from \<and> ok to then Inr (text from, text to) else Inl invalid_body)"

text \<open>The states that the reads of a handler see, and the one that a rebuild locks.\<close>

definition admin_handler ::
  "'z validators_scheme \<Rightarrow> (string \<Rightarrow> int option) \<Rightarrow> (nat \<Rightarrow> ledger_db) \<Rightarrow> admin_request \<Rightarrow> ledger_db \<Rightarrow>
    (err, ledger_db \<times> admin_answer) res" where
  "admin_handler env js_date seen q d =
    (case q of
       GetEventLog i \<Rightarrow>
         rbind (path_uuid env i) (\<lambda>i. rbind (walletEventLog (seen 0) (seen 1) i) (\<lambda>es. Inr (d, EventLogAnswer es)))
     | GetReconciliation i \<Rightarrow>
         rbind (path_uuid env i) (\<lambda>i.
         rbind (reconcileWallet (seen 0) (seen 1) (seen 2) i) (\<lambda>r. Inr (d, ReconciliationAnswer r)))
     | GetGlobalReconciliation b \<Rightarrow>
         rbind (period_query_dto env b) (\<lambda>(from, to).
         rbind (reconcileGlobal js_date from to (seen 0)) (\<lambda>r. Inr (d, GlobalAnswer r)))
     | PostRebuild \<Rightarrow>
         rbind (rebuildAllBalanceProjections d) (\<lambda>(d', n). Inr (d', RebuildAnswer n)))"

definition payload_principal :: "token_payload \<Rightarrow> principal" where
  "payload_principal p = \<lparr>pr_userId = tp_sub p, pr_email = tp_email p, pr_role = tp_role p\<rparr>"

definition ledger_admin_guard :: "principal option \<Rightarrow> (err, bool) res" where
  "ledger_admin_guard user = (if map_option pr_role user \<noteq> Some ''admin'' then Inl (Forbidden ''Admin access required'') else Inr True)"

definition admin_api ::
  "'z validators_scheme \<Rightarrow> (string option \<Rightarrow> token_payload option) \<Rightarrow> (string \<Rightarrow> int option) \<Rightarrow> (nat \<Rightarrow> ledger_db) \<Rightarrow>
    string option \<Rightarrow> admin_request \<Rightarrow> ledger_db \<Rightarrow> (err, ledger_db \<times> admin_answer) res" where
  "admin_api env passport js_date seen authorization q d =
    (case passport authorization of
       None \<Rightarrow> Inl (Unauthorized ''Unauthorized'')
     | Some p \<Rightarrow> rbind (ledger_admin_guard (Some (payload_principal p))) (\<lambda>_. admin_handler env js_date seen q d))"

section \<open>What the guards keep out\<close>

text \<open>Only administrators get an answer, and only a rebuild can change the ledger.\<close>

theorem admin_answers_admins:
  assumes "admin_api env passport js_date seen authorization q d = Inr (d', a)"
  shows "(\<exists>p. passport authorization = Some p \<and> tp_role p = ''admin'') \<and> (q \<noteq> PostRebuild \<longrightarrow> d' = d)"
  using assms
  by (cases q) (auto simp: admin_api_def admin_handler_def ledger_admin_guard_def payload_principal_def rbind_def
      split: option.splits if_splits sum.splits)

text \<open>A sequence of requests, with the outcomes of the guard for the logins from one address.\<close>

fun login_outcomes :: "accounts_env \<Rightarrow> auth_env \<Rightarrow> string \<Rightarrow> (accounts_call \<times> accounts_request) list \<Rightarrow> windows \<Rightarrow> user list \<Rightarrow> bool list" where
  "login_outcomes env auth k [] m us = []"
| "login_outcomes env auth k ((c, q) # rs) m us =
    (case accounts_api env auth c q m us of
       (r, m', us') \<Rightarrow>
         (case q of
            PostLogin ip remoteAddress _ \<Rightarrow>
              if login_key ip remoteAddress = k then [is_ok (fst (accounts_guard env (aa_now c) q m))] else []
          | _ \<Rightarrow> []) @ login_outcomes env auth k rs m' us')"

definition login_visits :: "(accounts_call \<times> accounts_request) list \<Rightarrow> (int \<times> string) list" where
  "login_visits rs =
    concat (map (\<lambda>(c, q). case q of PostLogin ip remoteAddress _ \<Rightarrow> [(aa_now c, login_key ip remoteAddress)] | _ \<Rightarrow> []) rs)"

lemma accounts_api_windows: "fst (snd (accounts_api env auth c q m us)) = snd (accounts_guard env (aa_now c) q m)"
  by (auto simp: accounts_api_def split: prod.splits sum.splits)

lemma login_outcomes_visits:
  "login_outcomes env auth k rs m us =
    outcomes (visit_ledger_login (positiveInteger (av_loginMax env) 10) (positiveInteger (av_loginWindow env) 60000)) k (login_visits rs) m"
proof (induction rs arbitrary: m us)
  case (Cons x rs)
  obtain c q where x: "x = (c, q)" by fastforce
  obtain r m' us' where a: "accounts_api env auth c q m us = (r, m', us')" by (metis prod_cases3)
  have m': "m' = snd (accounts_guard env (aa_now c) q m)" using accounts_api_windows [of env auth c q m us] a by simp
  have IH: "login_outcomes env auth k rs (snd (accounts_guard env (aa_now c) q m)) us' = outcomes (visit_ledger_login
      (positiveInteger (av_loginMax env) 10) (positiveInteger (av_loginWindow env) 60000)) k (login_visits rs) (snd (accounts_guard env (aa_now c) q m))"
    by (rule Cons.IH)
  have cons: "login_visits ((c, q) # rs) =
      (case q of PostLogin ip remoteAddress _ \<Rightarrow> [(aa_now c, login_key ip remoteAddress)] | _ \<Rightarrow> []) @ login_visits rs"
    by (simp add: login_visits_def)
  show ?case using IH a m' unfolding x cons
    by (cases q) (simp_all add: accounts_guard_def canActivate_ledger_login_def split: prod.splits)
qed (simp add: login_visits_def)

lemma positiveInteger_pos: "0 < fallback \<Longrightarrow> 0 < positiveInteger parsed fallback"
proof (cases parsed)
  case (JsFin a)
  have "0 < \<lfloor>a\<rfloor>" if "of_int \<lfloor>a\<rfloor> = a" "0 < a" using that by (metis of_int_0_less_iff)
  then show "0 < fallback \<Longrightarrow> 0 < positiveInteger parsed fallback" by (simp add: JsFin positiveInteger_def)
qed (simp_all add: positiveInteger_def)

text \<open>
  Passwords are not guessed fast: of the logins from one address in a window of the configured length, whatever else is
  asked meanwhile and whatever the bodies are, exactly the configured number is looked at.
\<close>

theorem password_guesses_limited:
  assumes "keys_distinct m" "\<And>n r. window_of m k = Some (n, r) \<Longrightarrow> r \<le> now"
    and "login_visits rs = (now, k) # vs" "in_window now (now + positiveInteger (av_loginWindow env) 60000) vs"
  shows "length (filter id (login_outcomes env auth k rs m us)) \<le> nat (positiveInteger (av_loginMax env) 10)"
proof -
  let ?l = "positiveInteger (av_loginMax env) 10" and ?w = "positiveInteger (av_loginWindow env) 60000"
  have pos: "0 < ?w" "1 \<le> ?l" using positiveInteger_pos [of 60000 "av_loginWindow env"] positiveInteger_pos [of 10 "av_loginMax env"] by simp_all
  let ?n = "Suc (length (filter (\<lambda>x. snd x = k) vs))"
  have "login_outcomes env auth k rs m us = map (\<lambda>i. int i < ?l) [0..<?n]"
    unfolding login_outcomes_visits assms(3) using pos assms by (intro ledger_login_limiter.first_limit_admitted)
  then have "length (filter id (login_outcomes env auth k rs m us)) = length (filter (\<lambda>i. int i < ?l) [0..<?n])"
    by (simp add: filter_map o_def del: upt_Suc)
  also have "\<dots> = card {i. i < ?n \<and> int i < ?l}"
    by (simp add: distinct_card [symmetric] del: upt_Suc)
  also have "\<dots> \<le> card {i. i < nat ?l}" by (rule card_mono) auto
  finally show ?thesis by simp
qed

end
