(* ===== verification/Realtime_Sockets.thy ===== *)
theory Realtime_Sockets
  imports Notifications Authentication
begin

text \<open>
  The sockets of the notifications service, \<^verbatim>\<open>realtime/activity-realtime.gateway.ts\<close>: the middleware that
  authenticates a handshake, \<^verbatim>\<open>handleConnection\<close>, which puts a socket into the room of its user, and the emissions of
  the consumer into rooms. Of socket.io the model has that a refused handshake connects nothing, that a socket is in the room
  of its own id from the beginning, that an emission goes to the sockets in its room, and that a socket can be gone at any moment.
  Ids of sockets have no colon.
\<close>

record socket =
  sk_id :: string
  sk_authorization :: "string option"
  sk_cookie :: "string option"
  sk_at :: int
  sk_userId :: "string option"
  sk_connected :: bool
  sk_rooms :: "string list"
  sk_received :: "emission list"

definition socketOriginAllowed :: "string option \<Rightarrow> string option \<Rightarrow> bool" where
  "socketOriginAllowed setting origin =
    (case truthy origin of
       None \<Rightarrow> True
     | Some ori \<Rightarrow>
         ori \<in> set (filter (\<lambda>v. v \<noteq> []) (map trim (split_on (CHR '','')
           (case setting of None \<Rightarrow> ''http://localhost:3000'' | Some s \<Rightarrow> s)))))"

text \<open>The middleware: the data of the socket, or nothing if the handshake is refused.\<close>

definition afterInit_use ::
  "auth_env \<Rightarrow> (string \<Rightarrow> string option) \<Rightarrow> string \<Rightarrow> string option \<Rightarrow> string option \<Rightarrow> int \<Rightarrow> socket option" where
  "afterInit_use env uri_decode i authorization cookie now =
    (case authenticate_socket env uri_decode authorization cookie now of
       Inl _ \<Rightarrow> None
     | Inr userId \<Rightarrow>
         Some \<lparr>sk_id = i, sk_authorization = authorization, sk_cookie = cookie, sk_at = now, sk_userId = Some userId,
               sk_connected = True, sk_rooms = [i], sk_received = []\<rparr>)"

definition handleConnection :: "socket \<Rightarrow> socket" where
  "handleConnection client =
    (case truthy (sk_userId client) of
       None \<Rightarrow> client\<lparr>sk_connected := False, sk_rooms := []\<rparr>
     | Some userId \<Rightarrow> client\<lparr>sk_rooms := room userId # sk_rooms client\<rparr>)"

definition emit_to :: "emission \<Rightarrow> socket \<Rightarrow> socket" where
  "emit_to e s = (if sk_connected s \<and> em_room e \<in> set (sk_rooms s) then s\<lparr>sk_received := sk_received s @ [e]\<rparr> else s)"

record realtime =
  rt_sockets :: "socket list"
  rt_db :: notifications_db

inductive realtime_step :: "auth_env \<Rightarrow> (string \<Rightarrow> string option) \<Rightarrow> (string \<Rightarrow> int option) \<Rightarrow> realtime \<Rightarrow> realtime \<Rightarrow> bool"
  for env uri_decode js_date where
  handshake: "afterInit_use env uri_decode i authorization cookie now = Some s \<Longrightarrow> CHR '':'' \<notin> set i \<Longrightarrow>
    realtime_step env uri_decode js_date st (st\<lparr>rt_sockets := s # rt_sockets st\<rparr>)"
| connection: "rt_sockets st = xs @ s # ys \<Longrightarrow> sk_connected s \<Longrightarrow>
    realtime_step env uri_decode js_date st (st\<lparr>rt_sockets := xs @ handleConnection s # ys\<rparr>)"
| gone: "rt_sockets st = xs @ s # ys \<Longrightarrow>
    realtime_step env uri_decode js_date st (st\<lparr>rt_sockets := xs @ s\<lparr>sk_connected := False, sk_rooms := []\<rparr> # ys\<rparr>)"
| consumed: "consume js_date channel m (rt_db st) = (answer, es, d) \<Longrightarrow>
    realtime_step env uri_decode js_date st (st\<lparr>rt_db := d, rt_sockets := fold (\<lambda>e. map (emit_to e)) es (rt_sockets st)\<rparr>)"

inductive realtime_reachable :: "auth_env \<Rightarrow> (string \<Rightarrow> string option) \<Rightarrow> (string \<Rightarrow> int option) \<Rightarrow> realtime \<Rightarrow> bool"
  for env uri_decode js_date where
  start: "realtime_reachable env uri_decode js_date \<lparr>rt_sockets = [], rt_db = d\<rparr>"
| step: "realtime_reachable env uri_decode js_date st \<Longrightarrow> realtime_step env uri_decode js_date st st' \<Longrightarrow>
    realtime_reachable env uri_decode js_date st'"

section \<open>A socket hears what its user may hear\<close>

definition hears :: "string \<Rightarrow> emission \<Rightarrow> bool" where
  "hears u e \<longleftrightarrow> u \<noteq> [] \<and> (\<exists>event. userIdFor event = Some u \<and> e = emitToUser u event)"

definition socket_inv :: "auth_env \<Rightarrow> (string \<Rightarrow> string option) \<Rightarrow> socket \<Rightarrow> bool" where
  "socket_inv env uri_decode s \<longleftrightarrow> CHR '':'' \<notin> set (sk_id s) \<and>
    (\<exists>u. sk_userId s = Some u \<and> authenticate_socket env uri_decode (sk_authorization s) (sk_cookie s) (sk_at s) = Inr u \<and>
      set (sk_rooms s) \<subseteq> {sk_id s, room u} \<and> (\<forall>e \<in> set (sk_received s). hears u e))"

lemma consume_emissions:
  assumes "consume js_date channel m d = (answer, es, d')" "e \<in> set es"
  shows "\<exists>u. hears u e"
proof -
  obtain mm event s where h: "handle mm event d = (s, es, d')"
    using assms by (auto simp: consume_def split: option.splits if_splits sum.splits prod.splits)
  with assms(2) obtain u where "truthy (userIdFor event) = Some u" "e = emitToUser u event"
    by (auto simp: handle_def split: option.splits if_splits sum.splits prod.splits)
  then have "hears u e" unfolding hears_def by (auto simp: truthy_def split: option.splits if_splits)
  then show ?thesis by blast
qed

lemma room_inject: "room u = room v \<longleftrightarrow> u = v"
  by (simp add: room_def)

lemma emit_to_inv:
  assumes "socket_inv env uri_decode s" "hears u e"
  shows "socket_inv env uri_decode (emit_to e s)"
proof -
  have e: "em_room e = room u" "CHR '':'' \<in> set (room u)" using assms(2) by (auto simp: hears_def emitToUser_def room_def)
  obtain v where v: "sk_userId s = Some v" "set (sk_rooms s) \<subseteq> {sk_id s, room v}" "CHR '':'' \<notin> set (sk_id s)"
    using assms(1) by (auto simp: socket_inv_def)
  have "u = v" if "room u \<in> set (sk_rooms s)"
    using that v e(2) room_inject [of u v] by auto
  then show ?thesis using assms v e(1) by (auto simp: socket_inv_def emit_to_def)
qed

lemma emissions_inv:
  assumes "\<forall>e \<in> set es. \<exists>u. hears u e" "\<forall>s \<in> set ss. socket_inv env uri_decode s"
  shows "\<forall>s \<in> set (fold (\<lambda>e. map (emit_to e)) es ss). socket_inv env uri_decode s"
  using assms
proof (induction es arbitrary: ss)
  case (Cons e es)
  from Cons.prems have "\<forall>s \<in> set (map (emit_to e) ss). socket_inv env uri_decode s" by (auto intro: emit_to_inv)
  from Cons.IH [OF _ this] Cons.prems(1) show ?case by simp
qed simp

lemma realtime_step_inv:
  assumes "realtime_step env uri_decode js_date st st'" "\<forall>s \<in> set (rt_sockets st). socket_inv env uri_decode s"
  shows "\<forall>s \<in> set (rt_sockets st'). socket_inv env uri_decode s"
  using assms
proof cases
  case (handshake i authorization cookie now s)
  then show ?thesis using assms(2) by (auto simp: afterInit_use_def socket_inv_def split: sum.splits)
next
  case (consumed channel m answer es d)
  then show ?thesis using emissions_inv [of es] consume_emissions assms(2) by fastforce
qed (auto simp: socket_inv_def handleConnection_def truthy_def split: option.splits)

text \<open>
  However sockets connect, come into their rooms and go, and whatever messages are consumed meanwhile: every event that a socket
  was sent is the event of a user whose access token the socket presented in its handshake, and was emitted for this user.
\<close>

theorem sockets_hear_their_user:
  assumes "realtime_reachable env uri_decode js_date st" "s \<in> set (rt_sockets st)" "e \<in> set (sk_received s)"
  shows "\<exists>u event. authenticate_socket env uri_decode (sk_authorization s) (sk_cookie s) (sk_at s) = Inr u \<and>
    u \<noteq> [] \<and> userIdFor event = Some u \<and> e = emitToUser u event"
proof -
  have "\<forall>s \<in> set (rt_sockets st). socket_inv env uri_decode s"
    using assms(1) by induction (simp, rule realtime_step_inv)
  with assms(2,3) show ?thesis unfolding socket_inv_def hears_def by blast
qed

end
