(* ===== verification/Log_Redaction.thy ===== *)
theory Log_Redaction
  imports Errors Js_Number "HOL-Library.Sublist"
begin

text \<open>
  What the services write to their logs: \<^verbatim>\<open>observability/json-logger.ts\<close> (the same file in every service), that is
  \<^verbatim>\<open>sanitize\<close> for objects, \<^verbatim>\<open>sanitizeText\<close> and \<^verbatim>\<open>sanitizeStack\<close> for texts and the record of \<^verbatim>\<open>write\<close>; and from
  \<^verbatim>\<open>request-observability.ts\<close> the correlation id of a request and \<^verbatim>\<open>routeTemplate\<close>. The regular expressions are
  functions on texts; objects are JSON values. A new correlation id, the time, the trace and the encoding of the record are
  arguments.
\<close>

section \<open>Objects\<close>

definition contains_text :: "string \<Rightarrow> string \<Rightarrow> bool" where
  "contains_text w s = list_ex (\<lambda>n. take (length w) (drop n s) = w) [0..<Suc (length s)]"

definition REDACTED_KEYS :: "string \<Rightarrow> bool" where
  "REDACTED_KEYS key =
    list_ex (\<lambda>w. contains_text w (toLowerCase key)) [''password'', ''token'', ''authorization'', ''cookie'', ''secret'']"

function sanitize :: "nat \<Rightarrow> json \<Rightarrow> json" where
  "sanitize depth v =
    (if 5 < depth then JStr ''[truncated]''
     else case v of
            JArr js \<Rightarrow> JArr (map (sanitize (depth + 1)) js)
          | JObj kvs \<Rightarrow> JObj (map (\<lambda>(k, item). (k, if REDACTED_KEYS k then JStr ''[REDACTED]'' else sanitize (depth + 1) item)) kvs)
          | _ \<Rightarrow> v)"
  by auto
termination by (relation "measure (\<lambda>(depth, v). 6 - depth)") auto

declare sanitize.simps [simp del]

section \<open>Texts\<close>

text \<open>\<^verbatim>\<open>/Bearer\s+\S+/gi\<close>\<close>

definition bearer_match :: "string \<Rightarrow> string option" where
  "bearer_match s =
    (if toLowerCase (take 6 s) \<noteq> ''bearer'' then None
     else let rest = drop 6 s; body = dropWhile is_space rest
          in if body = rest \<or> body = [] then None else Some (dropWhile (\<lambda>c. \<not> is_space c) body))"

text \<open>Three runs of the characters of a token, joined by full stops; a match takes whole runs.\<close>

definition token_char :: "char \<Rightarrow> bool" where
  "token_char c = (let n = (of_char c :: nat) in 65 \<le> n \<and> n \<le> 90 \<or> 97 \<le> n \<and> n \<le> 122 \<or> 48 \<le> n \<and> n \<le> 57 \<or> n = 95 \<or> n = 45)"

definition run_then :: "nat \<Rightarrow> string \<Rightarrow> string option" where
  "run_then least s = (if length (takeWhile token_char s) < least then None else Some (dropWhile token_char s))"

definition full_stop :: "string \<Rightarrow> string option" where
  "full_stop s = (case s of c # cs \<Rightarrow> if c = CHR ''.'' then Some cs else None | [] \<Rightarrow> None)"

definition jwt_match :: "string \<Rightarrow> string option" where
  "jwt_match s =
    Option.bind (run_then 20 s) (\<lambda>s. Option.bind (full_stop s) (\<lambda>s.
    Option.bind (run_then 20 s) (\<lambda>s. Option.bind (full_stop s) (\<lambda>s. run_then 10 s))))"

text \<open>\<^verbatim>\<open>/(password|refreshToken|accessToken|authorization|secret)=\S+/gi\<close>: the word as it was written, and the rest.\<close>

definition assignment_match :: "string \<Rightarrow> (string \<times> string) option" where
  "assignment_match s =
    (case find (\<lambda>w. toLowerCase (take (length w) s) = w \<and> take 1 (drop (length w) s) = ''='' \<and>
                    takeWhile (\<lambda>c. \<not> is_space c) (drop (Suc (length w)) s) \<noteq> [])
            [''password'', ''refreshtoken'', ''accesstoken'', ''authorization'', ''secret''] of
       None \<Rightarrow> None
     | Some w \<Rightarrow> Some (take (length w) s, dropWhile (\<lambda>c. \<not> is_space c) (drop (Suc (length w)) s)))"

text \<open>\<^verbatim>\<open>replace\<close> with a global pattern: matches from the left, none overlapping. A match consumes something.\<close>

function replace_all :: "(string \<Rightarrow> (string \<times> string) option) \<Rightarrow> string \<Rightarrow> string" where
  "replace_all f [] = []"
| "replace_all f (c # cs) =
    (case f (c # cs) of
       Some (out, rest) \<Rightarrow> if length rest < length (c # cs) then out @ replace_all f rest else c # replace_all f cs
     | None \<Rightarrow> c # replace_all f cs)"
  by pat_completeness auto
termination by (relation "measure (\<lambda>(f, s). length s)") auto

definition sanitizeText :: "string \<Rightarrow> string" where
  "sanitizeText s =
    replace_all (\<lambda>s. map_option (\<lambda>(w, rest). (w @ ''=[REDACTED]'', rest)) (assignment_match s))
      (replace_all (\<lambda>s. map_option (Pair ''[REDACTED_JWT]'') (jwt_match s))
        (replace_all (\<lambda>s. map_option (Pair ''Bearer [REDACTED]'') (bearer_match s)) s))"

definition join_lines :: "string list \<Rightarrow> string" where
  "join_lines ls = (case ls of [] \<Rightarrow> [] | l # rest \<Rightarrow> l @ concat (map (\<lambda>x. CHR 0x0A # x) rest))"

definition sanitizeStack :: "string \<Rightarrow> string" where
  "sanitizeStack stack = sanitizeText (join_lines (take 12 (split_on (CHR 0x0A) stack)))"

section \<open>The record\<close>

datatype log_level = LogInfo | LogError | LogWarn | LogDebug | LogTrace

record log_record =
  lr_level :: log_level
  lr_service :: string
  lr_traceId :: "string option"
  lr_correlationId :: "string option"
  lr_context :: "string option"
  lr_message :: "string option"
  lr_fields :: "json option"
  lr_stack :: "string option"

definition log_write ::
  "string \<Rightarrow> string option \<Rightarrow> string option \<Rightarrow> log_level \<Rightarrow> json \<Rightarrow> string option \<Rightarrow> string option \<Rightarrow> log_record" where
  "log_write service traceId correlationId level message contextName stack =
    \<lparr>lr_level = level, lr_service = service, lr_traceId = traceId, lr_correlationId = correlationId, lr_context = contextName,
     lr_message = (case message of JStr s \<Rightarrow> Some (sanitizeText s) | _ \<Rightarrow> None),
     lr_fields = (case message of JArr _ \<Rightarrow> Some (sanitize 0 message) | JObj _ \<Rightarrow> Some (sanitize 0 message) | _ \<Rightarrow> None),
     lr_stack = (case stack of Some (c # cs) \<Rightarrow> Some (sanitizeStack (c # cs)) | _ \<Rightarrow> None)\<rparr>"

section \<open>Requests\<close>

definition SAFE_CORRELATION_ID :: "string \<Rightarrow> bool" where
  "SAFE_CORRELATION_ID s =
    (1 \<le> length s \<and> length s \<le> 100 \<and>
     list_all (\<lambda>c. let n = (of_char c :: nat) in 65 \<le> n \<and> n \<le> 90 \<or> 97 \<le> n \<and> n \<le> 122 \<or> 48 \<le> n \<and> n \<le> 57 \<or>
       n = 46 \<or> n = 95 \<or> n = 58 \<or> n = 45) s)"

definition correlation_id :: "string \<Rightarrow> string option \<Rightarrow> string" where
  "correlation_id uuid supplied =
    (case supplied of Some s \<Rightarrow> if s \<noteq> [] \<and> SAFE_CORRELATION_ID s then s else uuid | None \<Rightarrow> uuid)"

definition routeTemplate :: "string option \<Rightarrow> string option \<Rightarrow> string" where
  "routeTemplate baseUrl path = (case path of None \<Rightarrow> ''unmatched'' | Some p \<Rightarrow> (case baseUrl of None \<Rightarrow> [] | Some b \<Rightarrow> b) @ p)"

section \<open>No tokens in texts\<close>

definition jwt_shape :: "string \<Rightarrow> bool" where
  "jwt_shape q \<longleftrightarrow> (\<exists>a b c. q = a @ CHR ''.'' # b @ CHR ''.'' # c \<and> 20 \<le> length a \<and> 20 \<le> length b \<and> 10 \<le> length c \<and>
     list_all token_char a \<and> list_all token_char b \<and> list_all token_char c)"

definition no_jwt :: "string \<Rightarrow> bool" where
  "no_jwt s \<longleftrightarrow> (\<forall>q. sublist q s \<longrightarrow> \<not> jwt_shape q)"

definition breaker :: "char \<Rightarrow> bool" where
  "breaker c \<longleftrightarrow> \<not> token_char c \<and> c \<noteq> CHR ''.''"

lemma stop_no_token: "\<not> token_char (CHR ''.'')"
  by (simp add: token_char_def)

lemma jwt_shape_unbroken: "jwt_shape q \<Longrightarrow> c \<in> set q \<Longrightarrow> \<not> breaker c"
  by (auto simp: jwt_shape_def breaker_def list_all_iff)

lemma jwt_shape_long: "jwt_shape q \<Longrightarrow> 52 \<le> length q"
  by (auto simp: jwt_shape_def)

lemma no_jwt_short: "length s < 52 \<Longrightarrow> no_jwt s"
  using jwt_shape_long sublist_length_le by (fastforce simp: no_jwt_def)

lemma run_then_prefix:
  assumes "list_all token_char a" "n \<le> length a"
  shows "\<exists>r. run_then n (a @ x) = Some r \<and> (x = [] \<or> \<not> token_char (hd x) \<longrightarrow> r = x)"
proof -
  have "takeWhile token_char (a @ x) = a @ takeWhile token_char x" "dropWhile token_char (a @ x) = dropWhile token_char x"
    using assms(1) by (auto simp: takeWhile_append2 dropWhile_append2 list_all_iff)
  then have "run_then n (a @ x) = Some (dropWhile token_char x)" using assms(2) by (simp add: run_then_def)
  then show ?thesis by (cases x) auto
qed

lemma jwt_match_form:
  assumes "jwt_shape q" "prefix q s"
  shows "jwt_match s \<noteq> None"
proof -
  from assms obtain a b c x where s: "s = a @ CHR ''.'' # b @ CHR ''.'' # c @ x" "20 \<le> length a" "20 \<le> length b" "10 \<le> length c"
    "list_all token_char a" "list_all token_char b" "list_all token_char c" by (auto simp: jwt_shape_def prefix_def)
  have "run_then 20 s = Some (CHR ''.'' # b @ CHR ''.'' # c @ x)"
    using run_then_prefix [OF s(5,2), of "CHR ''.'' # b @ CHR ''.'' # c @ x"] by (auto simp: s(1) stop_no_token)
  moreover have "run_then 20 (b @ CHR ''.'' # c @ x) = Some (CHR ''.'' # c @ x)"
    using run_then_prefix [OF s(6,3), of "CHR ''.'' # c @ x"] by (auto simp: stop_no_token)
  moreover obtain r where "run_then 10 (c @ x) = Some r" using run_then_prefix [OF s(7,4)] by blast
  ultimately show ?thesis by (simp add: jwt_match_def full_stop_def)
qed

text \<open>A replacement keeps a part of the text, and what it puts after it begins and ends where no token goes on.\<close>

definition breaking :: "(string \<Rightarrow> (string \<times> string) option) \<Rightarrow> bool" where
  "breaking f \<longleftrightarrow> (\<forall>x out rest. f x = Some (out, rest) \<longrightarrow>
    (\<exists>u h m l. out = u @ h # m @ [l] \<and> prefix u x \<and> no_jwt u \<and> no_jwt m \<and> breaker h \<and> breaker l \<and>
       suffix rest x \<and> length rest < length x))"

lemma sublist_break:
  assumes "sublist q (a @ h # b)" "breaker h" "\<And>c. c \<in> set q \<Longrightarrow> \<not> breaker c"
  shows "sublist q a \<or> sublist q b"
  using assms by (auto simp: sublist_append sublist_Cons_right suffix_def prefix_Cons dest: set_mono_prefix)

lemma breakingE:
  assumes "breaking f" "f x = Some p"
  obtains u h m l rest where "p = (u @ h # m @ [l], rest)" "prefix u x" "no_jwt u" "no_jwt m" "breaker h" "breaker l" "suffix rest x"
    "length rest < length x"
proof -
  obtain out rest where p: "p = (out, rest)" by (cases p)
  with assms have "\<exists>u h m l. out = u @ h # m @ [l] \<and> prefix u x \<and> no_jwt u \<and> no_jwt m \<and> breaker h \<and> breaker l \<and>
      suffix rest x \<and> length rest < length x" by (simp add: breaking_def)
  with p that show ?thesis by blast
qed

lemma replaced:
  "f (c # cs) = Some (out, rest) \<Longrightarrow> length rest < length (c # cs) \<Longrightarrow> replace_all f (c # cs) = out @ replace_all f rest"
  by simp

lemma prefix_break:
  assumes "prefix q (a @ h # b)" "breaker h" "\<And>c. c \<in> set q \<Longrightarrow> \<not> breaker c"
  shows "prefix q a"
  using assms by (auto simp: prefix_append prefix_Cons)

lemma replace_all_prefix:
  assumes "breaking f" "\<And>c. c \<in> set q \<Longrightarrow> \<not> breaker c" "prefix q (replace_all f s)"
  shows "prefix q s"
  using assms
proof (induction f s arbitrary: q rule: replace_all.induct)
  case (2 f c cs)
  show ?case
  proof (cases "f (c # cs)")
    case None
    have "prefix q' cs" if "q = c # q'" for q'
      using "2.IH"(1) [OF None "2.prems"(1)] "2.prems"(2,3) None that by simp
    then show ?thesis using "2.prems"(3) None by (cases q) auto
  next
    case (Some p)
    obtain u h m l rest where o: "p = (u @ h # m @ [l], rest)" "prefix u (c # cs)" "no_jwt u" "no_jwt m" "breaker h" "breaker l"
        "suffix rest (c # cs)" "length rest < length (c # cs)"
      by (rule breakingE [OF "2.prems"(1) Some]) (rule that)
    have "prefix q (u @ h # (m @ [l] @ replace_all f rest))"
      using "2.prems"(3) unfolding replaced [of f, OF Some [unfolded o(1)] o(8)] append_assoc append_Cons .
    from prefix_break [OF this o(5) "2.prems"(2)] o(2) show ?thesis by (rule prefix_order.trans)
  qed
qed simp

lemma replace_all_no_jwt:
  assumes "breaking f" "\<And>x q. suffix x s \<Longrightarrow> f x = None \<Longrightarrow> prefix q x \<Longrightarrow> \<not> jwt_shape q"
  shows "no_jwt (replace_all f s)"
  using assms
proof (induction f s rule: replace_all.induct)
  case (1 f)
  then show ?case by (simp add: no_jwt_short)
next
  case (2 f c cs)
  show ?case
  proof (cases "f (c # cs)")
    case None
    have "no_jwt (replace_all f cs)" using "2.IH"(1) [OF None "2.prems"(1)] "2.prems"(2) by (meson suffix_ConsI)
    moreover have "\<not> jwt_shape q" if "prefix q (c # replace_all f cs)" for q
    proof
      assume j: "jwt_shape q"
      have "prefix q (replace_all f (c # cs))" using that None by simp
      from replace_all_prefix [OF "2.prems"(1) jwt_shape_unbroken [OF j] this]
      show False using "2.prems"(2) [OF suffix_order.refl None] j by blast
    qed
    ultimately show ?thesis using None by (auto simp: no_jwt_def sublist_Cons_right)
  next
    case (Some p)
    obtain u h m l rest where o: "p = (u @ h # m @ [l], rest)" "prefix u (c # cs)" "no_jwt u" "no_jwt m" "breaker h" "breaker l"
        "suffix rest (c # cs)" "length rest < length (c # cs)"
      by (rule breakingE [OF "2.prems"(1) Some]) (rule that)
    have r: "no_jwt (replace_all f rest)"
    proof (rule "2.IH"(2) [OF Some o(1) [symmetric] o(8) "2.prems"(1)])
      fix x q assume "suffix x rest" "f x = None" "prefix q x"
      then show "\<not> jwt_shape q" using "2.prems"(2) [OF suffix_order.trans [OF _ o(7)]] by blast
    qed
    show ?thesis unfolding no_jwt_def
    proof (intro allI impI notI)
      fix q assume q: "sublist q (replace_all f (c # cs))" and j: "jwt_shape q"
      have "sublist q (u @ h # (m @ l # replace_all f rest))"
        using q unfolding replaced [of f, OF Some [unfolded o(1)] o(8)] append_assoc append_Cons append_Nil .
      from sublist_break [OF this o(5) jwt_shape_unbroken [OF j]] o(3) j have "sublist q (m @ l # replace_all f rest)"
        unfolding no_jwt_def by blast
      from sublist_break [OF this o(6) jwt_shape_unbroken [OF j]] o(4) r j show False unfolding no_jwt_def by blast
    qed
  qed
qed

lemma run_then_shorter: "run_then n s = Some r \<Longrightarrow> 0 < n \<Longrightarrow> suffix r s \<and> length r < length s"
proof -
  assume r: "run_then n s = Some r" "0 < n"
  have s: "s = takeWhile token_char s @ dropWhile token_char s" by simp
  then have "length s = length (takeWhile token_char s) + length (dropWhile token_char s)" by (metis length_append)
  with r show ?thesis by (auto simp: run_then_def suffix_dropWhile split: if_splits)
qed

lemma full_stop_shorter: "full_stop s = Some r \<Longrightarrow> suffix r s \<and> length r < length s"
  by (auto simp: full_stop_def suffix_ConsI split: list.splits if_splits)

lemma jwt_match_shorter: "jwt_match s = Some r \<Longrightarrow> suffix r s \<and> length r < length s"
proof -
  assume "jwt_match s = Some r"
  then obtain a b c d where m: "run_then 20 s = Some a" "full_stop a = Some b" "run_then 20 b = Some c" "full_stop c = Some d" "run_then 10 d = Some r"
    by (auto simp: jwt_match_def bind_eq_Some_conv)
  have 1: "suffix a s \<and> length a < length s" using run_then_shorter [OF m(1)] by simp
  have 2: "suffix b a \<and> length b < length a" by (rule full_stop_shorter [OF m(2)])
  have 3: "suffix c b \<and> length c < length b" using run_then_shorter [OF m(3)] by simp
  have 4: "suffix d c \<and> length d < length c" by (rule full_stop_shorter [OF m(4)])
  have 5: "suffix r d \<and> length r < length d" using run_then_shorter [OF m(5)] by simp
  have "suffix r b" using 3 4 5 suffix_order.trans by blast
  then have "suffix r s" using 1 2 suffix_order.trans by blast
  with 1 2 3 4 5 show ?thesis by linarith
qed

definition redact_jwt :: "string \<Rightarrow> string" where
  "redact_jwt = replace_all (\<lambda>s. map_option (Pair ''[REDACTED_JWT]'') (jwt_match s))"

lemma redact_jwt_no_jwt: "no_jwt (redact_jwt s)"
  unfolding redact_jwt_def
proof (rule replace_all_no_jwt)
  show "breaking (\<lambda>s. map_option (Pair ''[REDACTED_JWT]'') (jwt_match s))"
  proof -
    have "breaker (CHR ''['')" "breaker (CHR '']'')" "no_jwt ''REDACTED_JWT''" "no_jwt []"
      by (simp_all add: breaker_def token_char_def no_jwt_short)
    then show ?thesis unfolding breaking_def using jwt_match_shorter
      by (intro allI impI exI [of _ "[]"] exI [of _ "CHR ''[''"] exI [of _ "''REDACTED_JWT''"] exI [of _ "CHR '']''"]) auto
  qed
next
  fix x q assume "map_option (Pair ''[REDACTED_JWT]'') (jwt_match x) = None" "prefix q x"
  then show "\<not> jwt_shape q" using jwt_match_form [of q x] by auto
qed

lemma assignment_breaking: "breaking (\<lambda>s. map_option (\<lambda>(w, rest). (w @ ''=[REDACTED]'', rest)) (assignment_match s))"
proof -
  have b: "breaker (CHR ''='')" "breaker (CHR '']'')" "no_jwt ''[REDACTED''" by (simp_all add: breaker_def token_char_def no_jwt_short)
  have "prefix w x \<and> no_jwt w \<and> suffix rest x \<and> length rest < length x" if "assignment_match x = Some (w, rest)" for x w rest
  proof -
    define ks where "ks = [''password'', ''refreshtoken'', ''accesstoken'', ''authorization'', ''secret'']"
    from that obtain k where "find (\<lambda>k. toLowerCase (take (length k) x) = k \<and> take 1 (drop (length k) x) = ''='' \<and>
          takeWhile (\<lambda>c. \<not> is_space c) (drop (Suc (length k)) x) \<noteq> []) ks = Some k"
        and k: "w = take (length k) x" "rest = dropWhile (\<lambda>c. \<not> is_space c) (drop (Suc (length k)) x)"
      by (auto simp: assignment_match_def simp flip: ks_def split: option.splits)
    then have k': "k \<in> set ks" "take 1 (drop (length k) x) = ''=''" by (auto simp: find_Some_iff)
    have "length w < 52" using k'(1) k(1) by (auto simp: ks_def)
    moreover have "length k < length x" using k'(2) by (cases "length k < length x") auto
    moreover have "length rest \<le> length (drop (Suc (length k)) x)" unfolding k(2) by (rule length_dropWhile_le)
    moreover have "suffix rest x" unfolding k(2) by (meson suffix_drop suffix_dropWhile suffix_order.trans)
    ultimately show ?thesis by (auto simp: k(1) take_is_prefix no_jwt_short)
  qed
  note match = this
  show ?thesis unfolding breaking_def
  proof (intro allI impI)
    fix x out rest assume "map_option (\<lambda>(w, rest). (w @ ''=[REDACTED]'', rest)) (assignment_match x) = Some (out, rest)"
    then obtain w where w: "assignment_match x = Some (w, rest)" "out = w @ ''=[REDACTED]''" by auto
    show "\<exists>u h m l. out = u @ h # m @ [l] \<and> prefix u x \<and> no_jwt u \<and> no_jwt m \<and> breaker h \<and> breaker l \<and> suffix rest x \<and> length rest < length x"
      by (rule exI [of _ w], rule exI [of _ "CHR ''=''"], rule exI [of _ "''[REDACTED''"], rule exI [of _ "CHR '']''"])
        (use match [OF w(1)] w(2) b in simp)
  qed
qed

lemma sanitizeText_no_jwt: "no_jwt (sanitizeText s)"
proof -
  let ?t = "redact_jwt (replace_all (\<lambda>s. map_option (Pair ''Bearer [REDACTED]'') (bearer_match s)) s)"
  have "no_jwt ?t" by (rule redact_jwt_no_jwt)
  then have "no_jwt (replace_all (\<lambda>s. map_option (\<lambda>(w, rest). (w @ ''=[REDACTED]'', rest)) (assignment_match s)) ?t)"
    by (intro replace_all_no_jwt [OF assignment_breaking])
      (meson no_jwt_def prefix_imp_sublist sublist_order.order.trans suffix_imp_sublist)
  then show ?thesis by (simp add: sanitizeText_def redact_jwt_def)
qed

section \<open>No secrets in objects\<close>

datatype path_step = Key string | Index nat

fun value_at :: "json \<Rightarrow> path_step list \<Rightarrow> json option" where
  "value_at j [] = Some j"
| "value_at (JObj kvs) (Key k # p) = Option.bind (map_of kvs k) (\<lambda>v. value_at v p)"
| "value_at (JArr js) (Index i # p) = (if i < length js then value_at (js ! i) p else None)"
| "value_at _ _ = None"

lemma map_of_values: "map_of (map (\<lambda>(k, v). (k, g k v)) kvs) k = map_option (g k) (map_of kvs k)"
  by (induction kvs) auto

lemma value_at_text: "value_at (JStr s) p = Some v \<Longrightarrow> p = [] \<and> v = JStr s"
  by (cases p) auto

lemma sanitize_at:
  assumes "d \<le> 6" "value_at (sanitize d j) p = Some v"
  shows "d + length p \<le> 6 \<and> (\<forall>k. Key k \<in> set p \<and> REDACTED_KEYS k \<longrightarrow> v = JStr ''[REDACTED]'') \<and>
    ((\<forall>k. Key k \<in> set p \<longrightarrow> \<not> REDACTED_KEYS k) \<longrightarrow> (\<exists>u. value_at j p = Some u \<and> v = sanitize (d + length p) u))"
  using assms
proof (induction p arbitrary: d j)
  case (Cons s p)
  have d: "d \<le> 5"
  proof (rule ccontr)
    assume "\<not> d \<le> 5"
    then have "sanitize d j = JStr ''[truncated]''" by (subst sanitize.simps) simp
    with Cons.prems(2) show False by simp
  qed
  show ?case
  proof (cases j)
    case (JArr js)
    have "sanitize d j = JArr (map (sanitize (d + 1)) js)" using d by (subst sanitize.simps) (simp add: JArr)
    then obtain i where i: "s = Index i" "i < length js" "value_at (sanitize (d + 1) (js ! i)) p = Some v"
      using Cons.prems(2) by (cases s) (auto split: if_splits)
    from Cons.IH [OF _ i(3)] d i(1,2) show ?thesis by (auto simp: JArr)
  next
    case (JObj kvs)
    have "sanitize d j = JObj (map (\<lambda>(k, v). (k, if REDACTED_KEYS k then JStr ''[REDACTED]'' else sanitize (d + 1) v)) kvs)"
      using d by (subst sanitize.simps) (simp add: JObj)
    then obtain k x where k: "s = Key k" "map_of kvs k = Some x"
        "value_at (if REDACTED_KEYS k then JStr ''[REDACTED]'' else sanitize (d + 1) x) p = Some v"
      using Cons.prems(2) by (cases s) (auto simp: map_of_values bind_eq_Some_conv)
    show ?thesis
    proof (cases "REDACTED_KEYS k")
      case True
      with k(3) value_at_text [of "''[REDACTED]''" p v] d k(1) show ?thesis by auto
    next
      case False
      with k(3) have "value_at (sanitize (d + 1) x) p = Some v" by simp
      from Cons.IH [OF _ this] d k(1,2) False show ?thesis by (auto simp: JObj)
    qed
  qed (use Cons.prems(2) d in \<open>simp_all add: sanitize.simps\<close>)
qed simp

lemma sanitize_scalar: "n \<le> 5 \<Longrightarrow> \<forall>js kvs. u \<noteq> JArr js \<and> u \<noteq> JObj kvs \<Longrightarrow> sanitize n u = u"
  by (subst sanitize.simps) (cases u; simp)



end
