(* ===== verification/Spec2Isabelle.thy ===== *)
theory Spec2Isabelle
  imports Ledger_Concurrency Ledger_Findings Payments_Findings Ledger_Gateway Rate_Limit Feed_Pages
    Ledger_Refinement Ledger_Maintenance Legacy_Migration Gateway_Service Broker_Connection
    Message_Publisher Transfer_Form Frontend_Session Payments_Api Ledger_Api Accounts_Api Realtime_Sockets Log_Redaction
begin

text \<open>
  \<^bold>\<open>The program.\<close> A peer-to-peer payments system of four NestJS services under \<^verbatim>\<open>src/apps\<close>. The ledger service
  owns wallets: their money is a stream of events in PostgreSQL, appended with optimistic concurrency, folded
  into an aggregate, projected into a balance row and announced through an outbox. The payments service runs
  transfers as a saga of commands to the ledger (validate, hold, settle, release), with leases, retries,
  compensation and recovery, and on top of it split bills whose shares are paid by transfers; it announces what
  happens through an outbox of its own. The notifications service consumes the messages of both outboxes into an
  activity feed and pushes them to connected users. A gateway forwards requests of the browser. A Next.js frontend
  keeps the tokens of a session in cookies, forwards the requests of its pages to the gateway and has the form for transfers.

  \<^bold>\<open>How the code is modelled.\<close> Functions of the source are functions of the same name where the name is free;
  rows are records, tables are lists in the order of insertion, exceptions are values of the type \<open>err\<close> in a
  sum (\<open>Prelude\<close>, \<open>Errors\<close>). A database transaction is a function from the database to an error or the new
  database, so that a rolled back transaction changes nothing; transactions at READ COMMITTED take the state
  they read and the state they write separately, so that what others commit in between is any change.
  JavaScript numbers are IEEE doubles with the exact rounding of each operation (\<open>Js_Number\<close>), dates are the
  milliseconds of a \<^verbatim>\<open>Date\<close> with \<^verbatim>\<open>toISOString\<close> computed (\<open>Js_Date\<close>), bigints are integers, checked
  against the ranges of the columns they are stored in.

  \<^bold>\<open>Theories and sources.\<close>
  \<^item> \<open>Prelude\<close>, \<open>Errors\<close>, \<open>Js_Number\<close>, \<open>Js_Date\<close>: results, strings, UUIDs, doubles, JSON, dates.
  \<^item> \<open>Ledger_Transaction\<close>, \<open>Event_Store\<close>, \<open>Wallet_Aggregate\<close>: \<^verbatim>\<open>ledger/domain/ledger-transaction.ts\<close>,
    \<^verbatim>\<open>event-store/*\<close>, \<^verbatim>\<open>wallets/domain/wallet.aggregate.ts\<close>.
  \<^item> \<open>Outbox\<close>, \<open>Ledger_Db\<close>, \<open>Ledger_Outbox\<close>, \<open>Wallets_Service\<close>: the tables with their constraints, \<^verbatim>\<open>messaging/outbox.service.ts\<close>
    and \<^verbatim>\<open>wallets/wallets.service.ts\<close> of the ledger.
  \<^item> \<open>Ledger_Invariant\<close>, \<open>Ledger_Progress\<close>, \<open>Ledger_Example\<close>, \<open>Ledger_Safety\<close>, \<open>Ledger_Concurrency\<close>, \<open>Ledger_Refinement\<close>, \<open>Ledger_Findings\<close>:
    what holds of the ledger.
  \<^item> \<open>Ledger_Maintenance\<close>: \<^verbatim>\<open>admin/ledger-maintenance.service.ts\<close>. \<open>Legacy_Migration\<close>: the migrations from stored balances
    to event streams, \<^verbatim>\<open>database/migrations/1725000002000\<close> and \<^verbatim>\<open>1725000003000\<close>.
  \<^item> \<open>Authentication\<close>: \<^verbatim>\<open>auth/auth.service.ts\<close> and the guards of the services and of the sockets.
  \<^item> \<open>Payments_Db\<close>, \<open>Transfer_Domain\<close>, \<open>Split_Domain\<close>, \<open>Payments_Outbox\<close>, \<open>Transfers_Service\<close>, \<open>Transfer_Saga\<close>, \<open>Split_Bills\<close>:
    the entities and migrations, \<^verbatim>\<open>transfers/domain\<close>, \<^verbatim>\<open>split-bills/domain\<close>, \<^verbatim>\<open>messaging/outbox.service.ts\<close>,
    \<^verbatim>\<open>transfers.service.ts\<close>, \<^verbatim>\<open>transfer-saga.service.ts\<close>, \<^verbatim>\<open>split-bills.service.ts\<close> and \<^verbatim>\<open>split-bill-reminder.service.ts\<close> of
    the payments service.
  \<^item> \<open>Ledger_Gateway\<close>: its client of the ledger, \<^verbatim>\<open>transfers/ledger.gateway.ts\<close>.
  \<^item> \<open>Saga_Invariant\<close>, \<open>Saga_Steps\<close>, \<open>Saga_Safety\<close>, \<open>Saga_Progress\<close>, \<open>Split_Bill_Properties\<close>, \<open>Payments_Safety\<close>,
    \<open>Saga_Outcomes\<close>, \<open>Payments_Findings\<close>: what holds of the payments service.
  \<^item> \<open>Rate_Limit\<close>: the rate limits of transfers and logins.
  \<^item> \<open>Gateway_Service\<close>: \<^verbatim>\<open>upstream.service.ts\<close>, \<^verbatim>\<open>bff.controller.ts\<close>, \<^verbatim>\<open>admin-bff.controller.ts\<close> and \<^verbatim>\<open>auth.controller.ts\<close> of
    the gateway.
  \<^item> \<open>Notifications\<close>, \<open>Notification_Properties\<close>, \<open>Feed_Pages\<close>: \<^verbatim>\<open>integration-event.ts\<close>, \<^verbatim>\<open>inbox.service.ts\<close>,
    \<^verbatim>\<open>rabbitmq-consumer.service.ts\<close> (its handler), \<^verbatim>\<open>activity-feed.service.ts\<close> and \<^verbatim>\<open>emitToUser\<close> of the notifications service.
  \<^item> \<open>Realtime_Sockets\<close>: \<^verbatim>\<open>activity-realtime.gateway.ts\<close>, the sockets and their rooms.
  \<^item> \<open>Message_Publisher\<close>: \<^verbatim>\<open>messaging/message-publisher.ts\<close> of both services and the polls of their outboxes, as a
    step relation of any number of workers.
  \<^item> \<open>Request_Bodies\<close>, \<open>Payments_Api\<close>, \<open>Ledger_Api\<close>, \<open>Accounts_Api\<close>: the DTOs and the controllers of the payments service
    and of the ledger, behind their guards and pipes; the ledger's also behind the client of the payments service.
  \<^item> \<open>Frontend_Session\<close>: \<^verbatim>\<open>app/api\<close>, \<^verbatim>\<open>lib/api.ts\<close> and \<^verbatim>\<open>middleware.ts\<close> of the frontend. \<open>Transfer_Form\<close>:
    \<^verbatim>\<open>lib/idempotency.ts\<close> and \<^verbatim>\<open>components/transfer-form.tsx\<close>.
  \<^item> \<open>Log_Redaction\<close>: \<^verbatim>\<open>observability/json-logger.ts\<close> and parts of \<^verbatim>\<open>request-observability.ts\<close>, the same in every service.
  \<^item> \<open>Broker_Connection\<close>: the rest of \<^verbatim>\<open>rabbitmq-consumer.service.ts\<close>, the connection to the broker, as a step relation.

  \<^bold>\<open>What is shown.\<close>
  \<^item> The ledger: over all interleavings of its transactions, every wallet rehydrates, its projection is that of
    its stream, and held money is covered by the balance; streams are double-entry books; versions exclude lost
    updates; a settlement happens once and moves exactly the held and the converted amount; there is one message
    for each event; retries end. The ledger refines an abstract bank whose operations are atomic functions on a map
    of accounts. Its reconciliation reports no fault in a reachable state and detects every drift. The migration from
    stored balances gives every wallet a stream with its balance, and can be reverted.
  \<^item> Authentication: a registered user can log in and refresh and is recognised by every service; replaced refresh
    tokens stay usable, a defect.
  \<^item> The outboxes: a live lease is exclusive, a failed publication is retried within a bounded time, and both
    publishers behave alike. The contract is the locale \<open>leased_outbox\<close>, interpreted on both. Its extension
    \<open>immutable_outbox\<close> gives for any number of workers that a message recorded as published is stored at the broker, and that
    the broker stores nothing else.
  \<^item> The payments service: over all sequences of requests, runs, recoveries, reminders and publications, every
    completed transfer was acknowledged by the ledger and announced once, every failed one that may have held
    money was released, statuses move only along the allowed transitions; runs end within their budget, succeed
    when the ledger accepts, fail cleanly when it refuses; creation is idempotent; bills are shared exactly and a
    settled bill has been paid.
  \<^item> The client of the ledger: bounded attempts, the answer of the last one, exact amounts on the wire.
  \<^item> Both services together: every command of the saga arrives at the ledger as the operation with the values of the
    transfer, and its settlement moves exactly the money of the transfer, once.
  \<^item> The HTTP interfaces: handlers see values of the declared types only, refused requests change nothing, a posted
    transfer that the ledger accepts is answered completed; only administrators reach the administration, and guesses of
    passwords are limited.
  \<^item> The frontend: a form pays once, whatever is lost, late or repeated between it and the service; the cookies of a
    browser are one pair of issued tokens; the proxy repeats a request at most once, after a refresh, and changes nothing in
    it; navigation ends.
  \<^item> The logs contain no JSON Web Tokens in texts and no values under the names of secrets.
  \<^item> Rate limits, as instances of the locale \<open>window_limiter\<close>: exactly the configured number in a window.
  \<^item> The notifications service: events are recorded and emitted once however often they are delivered; every
    message of the other services is accepted and reaches the user it is for; the pages of the feed are complete;
    a socket hears only what is for the user of its token;
    and in every state of its connection to the broker, once the broker is well again, the consumer comes back to
    its queue.
  \<^item> The gateway: only valid callers reach the services, with their own credentials, administrators alone the
    administration.
  \<^item> The theories \<open>Ledger_Findings\<close>, \<open>Payments_Findings\<close> and the ends of \<open>Feed_Pages\<close>, \<open>Broker_Connection\<close> and \<open>Message_Publisher\<close> prove defects of the code.

  \<^bold>\<open>Bounds.\<close> The 25 attempts of a ledger command and the attempts of the client of the ledger are those of the
  source. A run of the saga takes at most eight turns, as in the source, and
  \<open>step_budget_suffices\<close> shows that six are always enough. The consumer takes at most 22 steps to come back. Following the pages of a feed takes a number of
  pages as an argument, and one more than there are items is enough. A navigation takes a list of times, one for each
  request, and two are enough.

  \<^bold>\<open>Parameters.\<close> SHA-256, bcrypt, JSON Web Tokens, functions of PostgreSQL in the migration, the answers of the message broker, the answers of the ledger to the saga and of the
  network to its client, to the gateway and to the frontend, the checks of class-validator on single values and the verdict of
  passport on a token, functions of the JavaScript runtime (JSON, URLs, base64), generated identifiers, the clock, the parser of dates, the values of environment
  variables, and what other transactions do at every point where the code waits. Where something is needed of
  them it is a hypothesis of the theorem.

  \<^bold>\<open>Not modelled.\<close> The pages and the other React components of the frontend (presentation), the gateway's view of traces, metrics
  and tracing (calls of libraries), the timers of the polls (a poll may begin at any moment), the script under
  \<^verbatim>\<open>scripts\<close> that tests running services, module wiring and database options, and the migrations beyond the
  constraints they create and the transfer of balances.
\<close>

end
